(* ===== verification/Ctrl_Prelude.thy ===== *)
theory Ctrl_Prelude
  imports
    Complex_Main
    "HOL-Library.Char_ord"
    "HOL-Library.List_Lexorder"
    "HOL-Library.Sublist"
    "HOL-Library.Multiset"
begin

text \<open>
  Shared vocabulary of the development: the automation collections, the
  operations of the JavaScript string type that the sources use, the decimal
  rendering of integers, truthiness of optional strings, tables of rows keyed by
  one column, and generic facts about lists and sorting.

  A JavaScript string is modelled by the list of its UTF-16 code units; the
  model covers code units below 256, on which \<^verbatim>\<open>toLowerCase\<close> and \<^verbatim>\<open>trim\<close> are
  written out exactly.  Where a message of the source holds the rupee sign or an
  em dash, the model writes \<^verbatim>\<open>Rs.\<close> and \<^verbatim>\<open>-\<close>.
\<close>

section \<open>Automation collections\<close>

named_theorems ctrl_defs \<open>definitions of record-level operations, unfolded by the component proofs\<close>
named_theorems ctrl_frame \<open>what an operation leaves unchanged\<close>
named_theorems ctrl_inv \<open>preservation of the store invariant\<close>

section \<open>Strings\<close>

definition lower_char :: "char \<Rightarrow> char" where
  "lower_char c =
     (let n = of_char c :: nat
      in if 65 \<le> n \<and> n \<le> 90 \<or> 192 \<le> n \<and> n \<le> 222 \<and> n \<noteq> 215
         then char_of (n + 32) else c)"

definition toLowerCase :: "string \<Rightarrow> string" where
  "toLowerCase s = map lower_char s"

definition is_ws :: "char \<Rightarrow> bool" where
  "is_ws c = (let n = of_char c :: nat in 9 \<le> n \<and> n \<le> 13 \<or> n = 32 \<or> n = 160)"

definition trim :: "string \<Rightarrow> string" where
  "trim s = rev (dropWhile is_ws (rev (dropWhile is_ws s)))"

fun includes_str :: "string \<Rightarrow> string \<Rightarrow> bool" where
  "includes_str [] p = (p = [])"
| "includes_str (c # s) p = (prefix p (c # s) \<or> includes_str s p)"

definition startsWith :: "string \<Rightarrow> string \<Rightarrow> bool" where
  "startsWith s p = prefix p s"

text \<open>\<^verbatim>\<open>a || d\<close> on strings: the empty string and \<^verbatim>\<open>undefined\<close> are falsy.\<close>

definition or_str :: "string \<Rightarrow> string \<Rightarrow> string" where
  "or_str s d = (if s = [] then d else s)"

definition or_opt :: "string option \<Rightarrow> string \<Rightarrow> string" where
  "or_opt s d = (case s of None \<Rightarrow> d | Some t \<Rightarrow> or_str t d)"

definition truthy_str :: "string option \<Rightarrow> bool" where
  "truthy_str s = (case s of None \<Rightarrow> False | Some t \<Rightarrow> t \<noteq> [])"

fun show_nat :: "nat \<Rightarrow> string" where
  "show_nat n = (if n < 10 then [char_of (48 + n)]
                 else show_nat (n div 10) @ [char_of (48 + n mod 10)])"

declare show_nat.simps [simp del]

definition show_int :: "int \<Rightarrow> string" where
  "show_int i = (if i < 0 then ''-'' @ show_nat (nat (- i)) else show_nat (nat i))"

text \<open>\<^verbatim>\<open>(paise / 100).toFixed(2)\<close> of an integer number of paise.\<close>

definition show_rupees :: "int \<Rightarrow> string" where
  "show_rupees p =
     (let q = nat \<bar>p\<bar> in
      (if p < 0 then ''-'' else '''') @ show_nat (q div 100) @ ''.''
        @ [char_of (48 + (q div 10) mod 10), char_of (48 + q mod 10)])"

lemma lower_char_idem [simp]: "lower_char (lower_char c) = lower_char c"
  by (auto simp: lower_char_def Let_def)

lemma includes_str_iff: "includes_str s p \<longleftrightarrow> sublist p s"
proof (induction s)
  case Nil
  show ?case by simp
next
  case (Cons c s)
  then show ?case
    by (cases p) (auto simp: sublist_Cons_right)
qed

lemma sublist_embed: "sublist p s \<Longrightarrow> sublist p (a @ s @ b)"
proof -
  assume "sublist p s"
  then obtain u v where "s = u @ p @ v" by (auto simp: sublist_def)
  then have "a @ s @ b = (a @ u) @ p @ (v @ b)" by simp
  then show ?thesis by (metis sublist_appendI)
qed

lemma includes_str_append:
  assumes "includes_str s p"
  shows "includes_str (a @ s @ b) p"
  using assms by (simp add: includes_str_iff sublist_embed)

lemma or_str_nonempty: "d \<noteq> [] \<Longrightarrow> or_str s d \<noteq> []"
  by (simp add: or_str_def)

lemma or_opt_nonempty: "d \<noteq> [] \<Longrightarrow> or_opt s d \<noteq> []"
  by (simp add: or_opt_def or_str_nonempty split: option.split)

text \<open>Digits of a rendered number, and that rendering loses nothing.\<close>

definition is_digit :: "char \<Rightarrow> bool" where
  "is_digit c = (let n = of_char c :: nat in 48 \<le> n \<and> n \<le> 57)"

definition digit_val :: "char \<Rightarrow> nat" where
  "digit_val c = of_char c - 48"

definition read_nat :: "string \<Rightarrow> nat" where
  "read_nat s = foldl (\<lambda>a c. 10 * a + digit_val c) 0 s"

lemma of_char_digit: "d < 10 \<Longrightarrow> (of_char (char_of (48 + d) :: char) :: nat) = 48 + d"
  by (simp add: of_char_of)

lemma show_nat_digits: "c \<in> set (show_nat n) \<Longrightarrow> is_digit c"
proof (induction n rule: show_nat.induct)
  case (1 n)
  then show ?case
    by (subst (asm) (2) show_nat.simps)
       (auto simp: is_digit_def of_char_digit Let_def split: if_splits)
qed

lemma read_show_nat: "read_nat (show_nat n) = n"
proof (induction n rule: show_nat.induct)
  case (1 n)
  show ?case
  proof (cases "n < 10")
    case True
    then show ?thesis
      by (simp add: show_nat.simps [of n] read_nat_def digit_val_def of_char_digit)
  next
    case False
    with 1 have IH: "read_nat (show_nat (n div 10)) = n div 10" by simp
    have "read_nat (show_nat n) = 10 * read_nat (show_nat (n div 10)) + n mod 10"
      using False by (simp add: show_nat.simps [of n] read_nat_def digit_val_def of_char_digit)
    with IH show ?thesis by simp
  qed
qed

lemma show_nat_inject: "show_nat m = show_nat n \<longleftrightarrow> m = n"
  by (metis read_show_nat)

lemma show_nat_no_minus: "CHR ''-'' \<notin> set (show_nat n)"
  by (auto dest!: show_nat_digits simp: is_digit_def Let_def)

lemma show_int_no_colon: "CHR '':'' \<notin> set (show_int i)"
  by (auto simp: show_int_def is_digit_def Let_def dest!: show_nat_digits)

lemma show_int_inject: "show_int i = show_int j \<longleftrightarrow> i = j"
proof
  assume eq: "show_int i = show_int j"
  have neg: "hd (show_int k) = CHR ''-'' \<longleftrightarrow> k < 0" for k
  proof (cases "k < 0")
    case True
    then show ?thesis by (simp add: show_int_def)
  next
    case False
    have "show_nat (nat k) \<noteq> []" by (subst show_nat.simps) simp
    with show_nat_no_minus [of "nat k"] False show ?thesis
      by (metis hd_in_set show_int_def)
  qed
  from eq neg [of i] neg [of j] have "i < 0 \<longleftrightarrow> j < 0" by simp
  with eq show "i = j"
    by (auto simp: show_int_def show_nat_inject split: if_splits)
qed simp

end
