(* ===== verification/JS_Number.thy ===== *)
theory JS_Number
  imports Ctrl_Prelude "HOL-Library.Log_Nat"
begin

text \<open>
  JavaScript numbers.  A finite double is represented by the rational it denotes
  (the two zeros are one value), \<^verbatim>\<open>rnd64\<close> rounds a rational to the nearest double
  with ties to even (53 significant bits, subnormals included), and every
  arithmetic operation of the sources on non-integers is the exact operation
  followed by \<^verbatim>\<open>rnd64\<close>.  Overflow to infinity is not modelled: the modelled code
  multiplies probabilities with amounts in paise and stays far below \<open>2 ^ 1024\<close>.
  The locale \<open>double_rounding\<close> is the interface the economic components use; its
  interpretation \<open>ieee\<close> discharges the laws for \<^verbatim>\<open>rnd64\<close>.
\<close>

section \<open>Numbers as they arrive\<close>

datatype number = Fin rat | PosInf | NegInf | NaN

fun isFinite :: "number \<Rightarrow> bool" where
  "isFinite (Fin _) = True"
| "isFinite _ = False"

section \<open>Rounding to binary64\<close>

definition pow2 :: "int \<Rightarrow> rat" where
  "pow2 e = (if 0 \<le> e then 2 ^ nat e else 1 / 2 ^ nat (- e))"

text \<open>\<open>\<lfloor>log 2 x\<rfloor>\<close> of a positive rational.\<close>

definition ilog2 :: "rat \<Rightarrow> int" where
  "ilog2 x =
     (if 1 \<le> x then bitlen \<lfloor>x\<rfloor> - 1 else - bitlen (\<lceil>1 / x\<rceil> - 1))"

text \<open>Nearest integer, ties to even.\<close>

definition rne :: "rat \<Rightarrow> int" where
  "rne y = (let f = \<lfloor>y\<rfloor>; d = y - of_int f in
     if d < 1 / 2 then f else if 1 / 2 < d then f + 1
     else if even f then f else f + 1)"

definition ulp_exp :: "rat \<Rightarrow> int" where
  "ulp_exp x = max (- 1074) (ilog2 x - 52)"

definition rnd_pos :: "rat \<Rightarrow> rat" where
  "rnd_pos x = of_int (rne (x / pow2 (ulp_exp x))) * pow2 (ulp_exp x)"

definition rnd64 :: "rat \<Rightarrow> rat" where
  "rnd64 x = (if x = 0 then 0 else if x < 0 then - rnd_pos (- x) else rnd_pos x)"

section \<open>The operations the sources use\<close>

definition fadd :: "rat \<Rightarrow> rat \<Rightarrow> rat" where "fadd a b = rnd64 (a + b)"
definition fsub :: "rat \<Rightarrow> rat \<Rightarrow> rat" where "fsub a b = rnd64 (a - b)"
definition fmul :: "rat \<Rightarrow> rat \<Rightarrow> rat" where "fmul a b = rnd64 (a * b)"
definition fdiv :: "rat \<Rightarrow> rat \<Rightarrow> rat" where "fdiv a b = rnd64 (a / b)"

text \<open>A decimal literal such as \<^verbatim>\<open>0.35\<close>: the double nearest to it.\<close>

definition lit :: "int \<Rightarrow> nat \<Rightarrow> rat" where
  "lit n d = rnd64 (of_int n / 10 ^ d)"

text \<open>\<^verbatim>\<open>Number(x.toFixed(d))\<close>: the nearest multiple of \<open>10 ^ -d\<close>, the sign split
  off and ties away from zero, read back as a double.\<close>

definition toFixed :: "nat \<Rightarrow> rat \<Rightarrow> rat" where
  "toFixed d x = lit (if x < 0 then - \<lfloor>- x * 10 ^ d + 1 / 2\<rfloor> else \<lfloor>x * 10 ^ d + 1 / 2\<rfloor>) d"

text \<open>\<open>show_decimal m d\<close> renders \<open>m / 10 ^ d\<close> with \<open>d\<close> decimals.  \<open>show_number\<close> is the rendering of
  a number in a template or by \<^verbatim>\<open>JSON.stringify\<close>: the fewest decimals that read back as the same
  double, for magnitudes of at least \<open>1e-6\<close> (smaller ones have an exponent in JavaScript).\<close>

definition show_decimal :: "int \<Rightarrow> nat \<Rightarrow> string" where
  "show_decimal m d =
     (let q = nat \<bar>m\<bar>; f = show_nat (q mod 10 ^ d)
      in (if m < 0 then ''-'' else []) @ show_nat (q div 10 ^ d) @
         (if d = 0 then [] else ''.'' @ replicate (d - length f) CHR ''0'' @ f))"

definition show_number :: "rat \<Rightarrow> string" where
  "show_number x =
     (case List.find (\<lambda>d. lit (rne (x * 10 ^ d)) d = x) [0..<24] of
        Some d \<Rightarrow> show_decimal (rne (x * 10 ^ d)) d
      | None \<Rightarrow> show_decimal (rne (x * 10 ^ 24)) 24)"

text \<open>\<^verbatim>\<open>Math.round\<close>: nearest integer, ties towards plus infinity.\<close>

definition math_round :: "rat \<Rightarrow> int" where
  "math_round x = \<lfloor>x + 1 / 2\<rfloor>"

text \<open>\<^verbatim>\<open>Math.max(lo, Math.min(hi, x))\<close>.\<close>

definition clamp :: "'a::linorder \<Rightarrow> 'a \<Rightarrow> 'a \<Rightarrow> 'a" where
  "clamp lo hi x = max lo (min hi x)"

lemma clamp_bounds: "lo \<le> hi \<Longrightarrow> lo \<le> clamp lo hi x \<and> clamp lo hi x \<le> hi"
  by (simp add: clamp_def)

lemma clamp_id: "lo \<le> x \<Longrightarrow> x \<le> hi \<Longrightarrow> clamp lo hi x = x"
  by (simp add: clamp_def)

section \<open>Laws of a rounding function\<close>

locale double_rounding =
  fixes rnd :: "rat \<Rightarrow> rat"
  assumes rnd_mono: "x \<le> y \<Longrightarrow> rnd x \<le> rnd y"
    and rnd_int: "\<bar>n\<bar> \<le> 2 ^ 53 \<Longrightarrow> rnd (of_int n) = of_int n"
    and rnd_minus: "rnd (- x) = - rnd x"
    and rnd_idem: "rnd (rnd x) = rnd x"
begin

lemma rnd_zero: "rnd 0 = 0"
  using rnd_int [of 0] by simp

lemma rnd_one: "rnd 1 = 1"
  using rnd_int [of 1] by simp

lemma rnd_nonneg: "0 \<le> x \<Longrightarrow> 0 \<le> rnd x"
  using rnd_mono [of 0 x] by (simp add: rnd_zero)

lemma rnd_nonpos: "x \<le> 0 \<Longrightarrow> rnd x \<le> 0"
  using rnd_mono [of x 0] by (simp add: rnd_zero)

lemma rnd_le_int: "x \<le> of_int n \<Longrightarrow> \<bar>n\<bar> \<le> 2 ^ 53 \<Longrightarrow> rnd x \<le> of_int n"
  using rnd_mono [of x "of_int n"] by (simp add: rnd_int)

lemma int_le_rnd: "of_int n \<le> x \<Longrightarrow> \<bar>n\<bar> \<le> 2 ^ 53 \<Longrightarrow> of_int n \<le> rnd x"
  using rnd_mono [of "of_int n" x] by (simp add: rnd_int)

lemma rnd_le_one: "x \<le> 1 \<Longrightarrow> rnd x \<le> 1"
  using rnd_mono [of x 1] by (simp add: rnd_one)

text \<open>Rounding never crosses a representable bound.\<close>

lemma rnd_le_fix: "x \<le> y \<Longrightarrow> rnd y = y \<Longrightarrow> rnd x \<le> y"
  using rnd_mono [of x y] by simp

lemma fix_le_rnd: "y \<le> x \<Longrightarrow> rnd y = y \<Longrightarrow> y \<le> rnd x"
  using rnd_mono [of y x] by simp

end

section \<open>The laws hold of binary64\<close>

lemma pow2_pos [simp]: "0 < pow2 e"
  by (simp add: pow2_def)

lemma pow2_nonzero [simp]: "pow2 e \<noteq> 0"
  using pow2_pos [of e] by linarith

lemma pow2_nonneg [simp]: "0 \<le> pow2 e"
  using pow2_pos [of e] by linarith

lemma scaled_nonneg: "0 < x \<Longrightarrow> 0 \<le> x / pow2 e"
  by (intro divide_nonneg_nonneg) simp_all

lemma pow2_powi: "pow2 e = 2 powi e"
  by (simp add: pow2_def power_int_def field_simps)

lemma pow2_add: "pow2 (a + b) = pow2 a * pow2 b"
  by (simp add: pow2_powi power_int_add)

lemma pow2_mono: "a \<le> b \<Longrightarrow> pow2 a \<le> pow2 b"
  by (simp add: pow2_powi power_int_increasing)

lemma pow2_nat: "pow2 (int n) = 2 ^ n"
  by (simp add: pow2_def)

lemma pow2_less_cancel: "pow2 a < pow2 b \<Longrightarrow> a < b"
  using pow2_mono [of b a] by linarith

lemma floorlog2_bounds:
  assumes "0 < n"
  shows "2 ^ (floorlog 2 n - 1) \<le> n \<and> n < 2 ^ floorlog 2 n \<and> 0 < floorlog 2 n"
  using assms floorlog_bounds [of n 2] by (auto simp: floorlog_def)

lemma ilog2_bounds:
  assumes "0 < x"
  shows "pow2 (ilog2 x) \<le> x \<and> x < pow2 (ilog2 x + 1)"
proof (cases "1 \<le> x")
  case True
  define n where "n = nat \<lfloor>x\<rfloor>"
  from True have "0 < n" by (simp add: n_def)
  have xn: "of_nat n \<le> x" "x < of_nat n + 1"
    using True by (auto simp: n_def of_nat_nat) linarith
  obtain k where k: "floorlog 2 n = Suc k"
    using floorlog2_bounds [OF \<open>0 < n\<close>] gr0_conv_Suc by blast
  with floorlog2_bounds [OF \<open>0 < n\<close>] have b: "2 ^ k \<le> n" "Suc n \<le> 2 ^ Suc k" by auto
  have il: "ilog2 x = int k" using True k by (simp add: ilog2_def n_def bitlen_def)
  from b(1) have "(2 :: rat) ^ k \<le> of_nat n" by (metis of_nat_le_iff of_nat_numeral of_nat_power)
  then have "(2 :: rat) ^ k \<le> x" using xn(1) by linarith
  moreover from b(2) have "of_nat n + 1 \<le> (2 :: rat) ^ Suc k"
    by (metis Suc_eq_plus1 of_nat_1 of_nat_add of_nat_le_iff of_nat_numeral of_nat_power)
  moreover have "pow2 (ilog2 x + 1) = 2 ^ Suc k"
    using pow2_nat [of "Suc k"] by (simp add: il add.commute)
  ultimately show ?thesis using xn by (simp add: il pow2_nat)
next
  case False
  define q where "q = 1 / x"
  define n where "n = nat (\<lceil>q\<rceil> - 1)"
  from False assms have "1 < q" by (simp add: q_def)
  then have "2 \<le> \<lceil>q\<rceil>" by linarith
  then have "0 < n" by (simp add: n_def)
  have cq: "\<lceil>q\<rceil> = int n + 1" using \<open>2 \<le> \<lceil>q\<rceil>\<close> by (simp add: n_def)
  have qn: "of_nat n < q" "q \<le> of_nat n + 1"
    using ceiling_correct [of q] by (simp_all add: cq)
  obtain k where k: "floorlog 2 n = Suc k"
    using floorlog2_bounds [OF \<open>0 < n\<close>] gr0_conv_Suc by blast
  with floorlog2_bounds [OF \<open>0 < n\<close>] have b: "2 ^ k \<le> n" "Suc n \<le> 2 ^ Suc k" by auto
  have il: "ilog2 x = - int (Suc k)" using False k by (simp add: ilog2_def n_def q_def bitlen_def)
  from b(1) have "(2 :: rat) ^ k \<le> of_nat n" by (metis of_nat_le_iff of_nat_numeral of_nat_power)
  with qn(1) have lo: "2 ^ k < q" by linarith
  from b(2) have "of_nat n + 1 \<le> (2 :: rat) ^ Suc k"
    by (metis Suc_eq_plus1 of_nat_1 of_nat_add of_nat_le_iff of_nat_numeral of_nat_power)
  with qn(2) have hi: "q \<le> 2 ^ Suc k" by linarith
  have "pow2 (ilog2 x) = 1 / 2 ^ Suc k" by (simp add: il pow2_def nat_add_distrib)
  moreover have "pow2 (ilog2 x + 1) = 1 / 2 ^ k" by (simp add: il pow2_def)
  moreover have "x = 1 / q" by (simp add: q_def)
  moreover have "1 / 2 ^ Suc k \<le> 1 / q" "1 / q < 1 / 2 ^ k"
    using lo hi \<open>1 < q\<close> by (intro frac_le divide_strict_left_mono; simp)+
  ultimately show ?thesis by simp
qed

lemma ilog2_less: "0 < x \<Longrightarrow> x < pow2 k \<Longrightarrow> ilog2 x < k"
  using ilog2_bounds [of x] pow2_less_cancel [of "ilog2 x" k] by linarith

lemma ilog2_mono: "0 < x \<Longrightarrow> x \<le> y \<Longrightarrow> ilog2 x \<le> ilog2 y"
  using ilog2_less [of x "ilog2 y + 1"] ilog2_bounds [of y] by linarith

lemma rne_int [simp]: "rne (of_int n) = n"
  by (simp add: rne_def)

lemma rne_floor: "rne y = \<lfloor>y\<rfloor> \<or> rne y = \<lfloor>y\<rfloor> + 1"
  by (simp add: rne_def Let_def)

lemma rne_mono:
  assumes "x \<le> y"
  shows "rne x \<le> rne y"
proof (cases "\<lfloor>x\<rfloor> = \<lfloor>y\<rfloor>")
  case True
  with assms show ?thesis by (auto simp: rne_def Let_def)
next
  case False
  then have "\<lfloor>x\<rfloor> + 1 \<le> \<lfloor>y\<rfloor>" using floor_mono [OF assms] by linarith
  with rne_floor [of x] rne_floor [of y] show ?thesis by linarith
qed

lemma rnd_pos_nonneg: "0 < x \<Longrightarrow> 0 \<le> rnd_pos x"
  using rne_mono [OF scaled_nonneg, of x "ulp_exp x"] rne_int [of 0]
  by (simp add: rnd_pos_def)

lemma rnd_pos_mono:
  assumes "0 < x" and "x \<le> y"
  shows "rnd_pos x \<le> rnd_pos y"
proof (cases "ulp_exp x = ulp_exp y")
  case True
  have "x / pow2 (ulp_exp y) \<le> y / pow2 (ulp_exp y)"
    using assms by (intro divide_right_mono) simp_all
  then have "rne (x / pow2 (ulp_exp y)) \<le> rne (y / pow2 (ulp_exp y))" by (rule rne_mono)
  then show ?thesis
    by (simp add: rnd_pos_def True mult_right_mono)
next
  case False
  let ?ex = "ulp_exp x" and ?ey = "ulp_exp y"
  have il: "ilog2 x \<le> ilog2 y" using assms by (rule ilog2_mono)
  with False have lt: "?ex < ?ey" and ey: "?ey = ilog2 y - 52" and ex: "ilog2 x \<le> ?ex + 52"
    by (auto simp: ulp_exp_def)
  have "x < pow2 (ilog2 x + 1)" using ilog2_bounds [of x] assms(1) by simp
  also have "\<dots> \<le> pow2 (53 + ?ex)" using ex by (intro pow2_mono) simp
  finally have "x / pow2 ?ex \<le> of_int (2 ^ 53)"
    using pow2_nat [of 53] by (simp add: pow2_add field_simps)
  then have "rne (x / pow2 ?ex) \<le> 2 ^ 53" using rne_mono rne_int by metis
  then have "rnd_pos x \<le> of_int (2 ^ 53) * pow2 ?ex"
    unfolding rnd_pos_def by (intro mult_right_mono) (simp_all only: of_int_le_iff, simp add: less_imp_le)
  also have "\<dots> = pow2 (53 + ?ex)" using pow2_nat [of 53] by (simp add: pow2_add)
  also have "\<dots> \<le> pow2 (52 + ?ey)" using lt by (intro pow2_mono) simp
  also have "\<dots> = of_int (2 ^ 52) * pow2 ?ey" using pow2_nat [of 52] by (simp add: pow2_add)
  also have "\<dots> \<le> rnd_pos y"
  proof -
    have "pow2 (52 + ?ey) \<le> y" using ilog2_bounds [of y] assms by (simp add: ey)
    then have "of_int (2 ^ 52) \<le> y / pow2 ?ey"
      using pow2_nat [of 52] by (simp add: pow2_add field_simps)
    then have "2 ^ 52 \<le> rne (y / pow2 ?ey)" using rne_mono rne_int by metis
    then show ?thesis
      unfolding rnd_pos_def by (intro mult_right_mono) (simp_all only: of_int_le_iff, simp add: less_imp_le)
  qed
  finally show ?thesis .
qed

lemma rnd_pos_exact:
  assumes m: "0 < m" "m \<le> 2 ^ 53" and k: "- 1074 \<le> k"
  shows "rnd_pos (of_int m * pow2 k) = of_int m * pow2 k"
proof -
  have grid: "rnd_pos x = x" if "x = of_int n * pow2 j" and "ulp_exp x \<le> j" for x n j
  proof -
    define d where "d = nat (j - ulp_exp x)"
    have "pow2 j = 2 ^ d * pow2 (ulp_exp x)"
      using that(2) pow2_add [of "int d" "ulp_exp x"] by (simp add: d_def pow2_nat [symmetric])
    then have "x = of_int (n * 2 ^ d) * pow2 (ulp_exp x)"
      by (subst that(1)) simp
    then have "x / pow2 (ulp_exp x) = of_int (n * 2 ^ d)"
      by (metis nonzero_mult_div_cancel_right pow2_nonzero)
    then have "rne (x / pow2 (ulp_exp x)) = n * 2 ^ d" by (metis rne_int)
    then show ?thesis
      unfolding rnd_pos_def using \<open>x / pow2 (ulp_exp x) = of_int (n * 2 ^ d)\<close>
      by (metis nonzero_eq_divide_eq pow2_nonzero)
  qed
  let ?x = "of_int m * pow2 k"
  have pos: "0 < ?x" using m by simp
  show ?thesis
  proof (cases "m = 2 ^ 53")
    case False
    with m have "m < 2 ^ 53" by simp
    then have "of_int m < (2 :: rat) ^ 53"
      by (metis of_int_less_iff of_int_numeral of_int_power)
    then have "?x < pow2 (53 + k)"
      using pow2_nat [of 53] by (simp add: pow2_add)
    then have "ilog2 ?x < 53 + k" by (rule ilog2_less [OF pos])
    then have "ulp_exp ?x \<le> k" using k by (simp add: ulp_exp_def)
    then show ?thesis by (rule grid [OF refl])
  next
    case True
    have eq: "?x = of_int (2 ^ 52) * pow2 (k + 1)"
      using pow2_nat [of 1] by (simp add: True pow2_add)
    have "?x < pow2 (54 + k)" using pow2_nat [of 54] by (simp add: True pow2_add)
    then have "ilog2 ?x < 54 + k" by (rule ilog2_less [OF pos])
    then have "ulp_exp ?x \<le> k + 1" using k by (simp add: ulp_exp_def)
    then show ?thesis using grid [OF eq] by simp
  qed
qed

text \<open>A rounded value has at most 53 significant bits.\<close>

lemma rnd_pos_form:
  assumes "0 < x"
  shows "\<exists>m k. rnd_pos x = of_int m * pow2 k \<and> 0 \<le> m \<and> m \<le> 2 ^ 53 \<and> - 1074 \<le> k"
proof -
  let ?e = "ulp_exp x"
  have "x < pow2 (ilog2 x + 1)" using ilog2_bounds [OF assms] by simp
  also have "\<dots> \<le> pow2 (53 + ?e)" by (intro pow2_mono) (simp add: ulp_exp_def)
  finally have "x / pow2 ?e \<le> of_int (2 ^ 53)"
    using pow2_nat [of 53] by (simp add: pow2_add field_simps)
  then have "rne (x / pow2 ?e) \<le> 2 ^ 53" using rne_mono rne_int by metis
  moreover have "0 \<le> rne (x / pow2 ?e)"
    using rne_mono [OF scaled_nonneg, of x ?e] rne_int [of 0] assms by simp
  moreover have "- 1074 \<le> ?e" by (simp add: ulp_exp_def)
  ultimately show ?thesis unfolding rnd_pos_def by blast
qed

lemma rnd64_exact:
  assumes "\<bar>m\<bar> \<le> 2 ^ 53" and "- 1074 \<le> k"
  shows "rnd64 (of_int m * pow2 k) = of_int m * pow2 k"
proof -
  consider "m = 0" | "0 < m" | "m < 0" by linarith
  then show ?thesis
  proof cases
    case 1
    then show ?thesis by (simp add: rnd64_def)
  next
    case 2
    then have pos: "0 < of_int m * pow2 k" by simp
    have "rnd64 y = rnd_pos y" if "0 < y" for y using that by (simp add: rnd64_def)
    from this [OF pos] have "rnd64 (of_int m * pow2 k) = rnd_pos (of_int m * pow2 k)" .
    with 2 assms rnd_pos_exact [of m k] show ?thesis by simp
  next
    case 3
    then have "of_int m * pow2 k < 0" by (simp add: mult_less_0_iff)
    then have "rnd64 (of_int m * pow2 k) = - rnd_pos (of_int (- m) * pow2 k)"
      using 3 by (simp only: rnd64_def) simp
    with 3 assms rnd_pos_exact [of "- m" k] show ?thesis by simp
  qed
qed

lemma rnd64_minus: "rnd64 (- x) = - rnd64 x"
  by (simp add: rnd64_def)

lemma rnd64_idem: "rnd64 (rnd64 x) = rnd64 x"
proof -
  have pos: "rnd64 (rnd64 y) = rnd64 y" if "0 < y" for y
  proof -
    from rnd_pos_form [OF \<open>0 < y\<close>] obtain m k
      where f: "rnd_pos y = of_int m * pow2 k" "0 \<le> m" "m \<le> 2 ^ 53" "- 1074 \<le> k" by blast
    have "rnd64 y = of_int m * pow2 k" using that f(1) by (simp add: rnd64_def)
    with rnd64_exact [of m k] f show ?thesis by simp
  qed
  consider "x = 0" | "0 < x" | "x < 0" by linarith
  then show ?thesis
  proof cases
    case 1
    then show ?thesis by (simp add: rnd64_def)
  next
    case 2
    then show ?thesis by (rule pos)
  next
    case 3
    then have "rnd64 (rnd64 (- x)) = rnd64 (- x)" by (intro pos) simp
    then show ?thesis by (simp add: rnd64_minus)
  qed
qed

lemma rnd64_mono:
  assumes "x \<le> y"
  shows "rnd64 x \<le> rnd64 y"
proof -
  consider "0 < x" | "y < 0" | "x \<le> 0" "0 \<le> y" by linarith
  then show ?thesis
  proof cases
    case 1
    with assms show ?thesis by (simp add: rnd64_def rnd_pos_mono)
  next
    case 2
    with assms show ?thesis by (simp add: rnd64_def rnd_pos_mono)
  next
    case 3
    then have "rnd64 x \<le> 0" "0 \<le> rnd64 y"
      by (auto simp: rnd64_def rnd_pos_nonneg)
    then show ?thesis by linarith
  qed
qed

lemma rnd64_int: "\<bar>n\<bar> \<le> 2 ^ 53 \<Longrightarrow> rnd64 (of_int n) = of_int n"
  using rnd64_exact [of n 0] by (simp add: pow2_def)

interpretation ieee: double_rounding rnd64
  by unfold_locales (auto intro: rnd64_mono rnd64_int rnd64_minus rnd64_idem)

section \<open>Consequences for decimal literals and fixed-point reading\<close>

lemma lit_mono: "m \<le> n \<Longrightarrow> lit m d \<le> lit n d"
  unfolding lit_def by (intro ieee.rnd_mono divide_right_mono) simp_all

lemma lit_zero [simp]: "lit 0 d = 0"
  by (simp add: lit_def ieee.rnd_zero)

lemma lit_one: "lit (10 ^ d) d = 1"
  by (simp add: lit_def ieee.rnd_one)

lemma lit_minus: "lit (- n) d = - lit n d"
  by (simp add: lit_def rnd64_minus)

lemma lit_fix: "rnd64 (lit n d) = lit n d"
  by (simp add: lit_def ieee.rnd_idem)

lemma toFixed_mono:
  assumes "x \<le> y"
  shows "toFixed d x \<le> toFixed d y"
proof -
  let ?f = "\<lambda>x :: rat. \<lfloor>x * 10 ^ d + 1 / 2\<rfloor>"
  have fm: "?f a \<le> ?f b" if "a \<le> b" for a b
    using that by (intro floor_mono) (simp add: mult_right_mono)
  have f0: "0 \<le> ?f a" if "0 \<le> a" for a
    using that by (simp add: add_nonneg_nonneg)
  consider "0 \<le> x" | "y < 0" | "x < 0" "0 \<le> y" by linarith
  then have "(if x < 0 then - ?f (- x) else ?f x) \<le> (if y < 0 then - ?f (- y) else ?f y)"
  proof cases
    case 1
    then have "\<not> x < 0" "\<not> y < 0" using assms by linarith+
    with fm [OF assms] show ?thesis by simp
  next
    case 2
    then have "x < 0" using assms by linarith
    with 2 fm [of "- y" "- x"] assms show ?thesis by simp
  next
    case 3
    have "- ?f (- x) \<le> 0" using f0 [of "- x"] 3 by linarith
    also have "0 \<le> ?f y" using f0 3 by blast
    finally show ?thesis using 3 by simp
  qed
  then show ?thesis unfolding toFixed_def by (intro lit_mono) simp
qed

lemma floor_half: "\<lfloor>1 / 2 :: rat\<rfloor> = 0"
  by (intro floor_unique) simp_all

lemma toFixed_zero [simp]: "toFixed d 0 = 0"
  by (simp add: toFixed_def floor_half)

lemma toFixed_one: "toFixed d 1 = 1"
proof -
  have "\<lfloor>(1 :: rat) * 10 ^ d + 1 / 2\<rfloor> = 10 ^ d"
    by (intro floor_unique) simp_all
  then show ?thesis by (simp add: toFixed_def lit_one)
qed

lemma toFixed_nonneg: "0 \<le> x \<Longrightarrow> 0 \<le> toFixed d x"
  using toFixed_mono [of 0 x d] by simp

lemma toFixed_nonpos: "x \<le> 0 \<Longrightarrow> toFixed d x \<le> 0"
  using toFixed_mono [of x 0 d] by simp

lemma toFixed_le_one: "x \<le> 1 \<Longrightarrow> toFixed d x \<le> 1"
  using toFixed_mono [of x 1 d] by (simp add: toFixed_one)

lemma math_round_mono: "x \<le> y \<Longrightarrow> math_round x \<le> math_round y"
  unfolding math_round_def by (intro floor_mono) simp

lemma math_round_int [simp]: "math_round (of_int n) = n"
  by (simp add: math_round_def floor_unique)

lemma math_round_le: "x \<le> of_int n \<Longrightarrow> math_round x \<le> n"
  using math_round_mono [of x "of_int n"] by simp

lemma math_round_ge: "of_int n \<le> x \<Longrightarrow> n \<le> math_round x"
  using math_round_mono [of "of_int n" x] by simp

text \<open>
  Arithmetic facts used by the scoring code: an addend is below the sum of
  nonnegative doubles, and a product with a factor in the unit interval is below the
  other factor.
\<close>

lemma fadd_ge_left: "rnd64 a = a \<Longrightarrow> 0 \<le> b \<Longrightarrow> a \<le> fadd a b"
  by (simp add: fadd_def ieee.fix_le_rnd)

lemma fadd_nonneg: "0 \<le> a \<Longrightarrow> 0 \<le> b \<Longrightarrow> 0 \<le> fadd a b"
  by (simp add: fadd_def ieee.rnd_nonneg)

lemma fsub_mono: "a \<le> a' \<Longrightarrow> b' \<le> b \<Longrightarrow> fsub a b \<le> fsub a' b'"
  by (simp add: fsub_def ieee.rnd_mono)

lemma fmul_mono: "0 \<le> p \<Longrightarrow> a \<le> b \<Longrightarrow> fmul p a \<le> fmul p b"
  by (simp add: fmul_def ieee.rnd_mono mult_left_mono)

lemma fmul_nonneg: "0 \<le> a \<Longrightarrow> 0 \<le> b \<Longrightarrow> 0 \<le> fmul a b"
  by (simp add: fmul_def ieee.rnd_nonneg)

lemma fmul_le: "0 \<le> p \<Longrightarrow> p \<le> 1 \<Longrightarrow> 0 \<le> b \<Longrightarrow> rnd64 b = b \<Longrightarrow> fmul p b \<le> b"
  by (simp add: fmul_def ieee.rnd_le_fix mult_left_le_one_le)

lemma fdiv_unit: "0 \<le> a \<Longrightarrow> a \<le> b \<Longrightarrow> 0 \<le> fdiv a b \<and> fdiv a b \<le> 1"
  by (cases "b = 0") (auto simp: fdiv_def ieee.rnd_nonneg ieee.rnd_le_one ieee.rnd_zero divide_le_eq_1)

lemma lit_nonneg: "0 \<le> n \<Longrightarrow> 0 \<le> lit n d"
  using lit_mono [of 0 n d] by simp

lemma lit_le_one: "n \<le> 10 ^ d \<Longrightarrow> lit n d \<le> 1"
  using lit_mono [of n "10 ^ d" d] by (simp add: lit_one)

text \<open>\<^verbatim>\<open>Math.sqrt\<close>, \<^verbatim>\<open>Math.tanh\<close> and \<^verbatim>\<open>Math.log\<close> are left to the implementation by the language
  standard; the definitions that use them take them as this record.\<close>

record js_math =
  m_sqrt :: "rat \<Rightarrow> rat"
  m_tanh :: "rat \<Rightarrow> rat"
  m_log :: "rat \<Rightarrow> rat"

end
