(* ===== verification/Ctrl_Types.thy ===== *)
theory Ctrl_Types
  imports JS_Number
begin

text \<open>
  The domain types of \<^verbatim>\<open>src/types/index.ts\<close>, the constructors of
  \<^verbatim>\<open>src/types/branded.ts\<close> and the rows of the tables the pipeline works on
  (\<^verbatim>\<open>src/db/database.ts\<close>).  Amounts and attempt counts are the INTEGER columns of
  the schema, probabilities are doubles, time stamps are ISO-8601 strings, on
  which the lexicographic order is the chronological one.
\<close>

section \<open>Enumerations\<close>

datatype opportunity_source = Src_real | Src_synthetic

datatype decline_type = Hard | Soft | Unknown

datatype opportunity_status =
    Pending | Scored | Allocated | Authorized | Deferred | Blocked
  | Abstained | Executing | Recovered | Not_recovered

datatype confidence_level = Low | Medium | High

datatype decision_type = ACT | WAIT | ABSTAIN

datatype authority_verdict = V_AUTHORIZED | V_BLOCKED | V_ABSTAIN | V_WAIT

datatype ledger_event_type = Ev_webhook_received | Ev_reconciled | Ev_recovered | Ev_not_recovered

datatype iven_band = STRONG | MODERATE | WEAK | NEGATIVE

datatype probability_source = STATIC | CALIBRATED

datatype environment = Env_test | Env_live

section \<open>Rows\<close>

record customer =
  cu_id :: string
  cu_trust_score :: rat
  cu_created_at :: string
  cu_updated_at :: string
  cu_tenant_id :: string

record opportunity =
  o_id :: string
  o_source :: opportunity_source
  o_amount_paise :: int
  o_currency :: string
  o_reason_code :: string
  o_decline_type :: decline_type
  o_attempt_count :: int
  o_customer_id :: string
  o_customer_trust_score :: rat
  o_created_at :: string
  o_status :: opportunity_status
  o_tenant_id :: string
  o_merchant_id :: string
  o_environment :: environment
  o_razorpay_event_id :: "string option"
  o_raw_payload_ref :: "string option"

record score =
  s_opportunity_id :: string
  s_tenant_id :: "string option"
  s_natural_recovery_prob :: rat
  s_intervention_recovery_prob :: rat
  s_incremental_prob :: rat
  s_operational_cost_paise :: int
  s_fatigue_cost_paise :: int
  s_expected_incremental_value_paise :: int
  s_confidence :: confidence_level
  s_iven_band :: "iven_band option"
  s_probability_source :: "probability_source option"

record allocation_decision =
  ad_opportunity_id :: string
  ad_decision :: decision_type
  ad_rank_in_batch :: nat
  ad_shadow_price_paise :: int
  ad_reason :: string

record authority_check =
  ac_opportunity_id :: string
  ac_check_name :: string
  ac_passed :: bool
  ac_reason :: string

record execution_record =
  er_opportunity_id :: string
  er_payment_link_id :: string
  er_link_url :: string
  er_status :: string
  er_idempotency_key :: string
  er_created_at :: string

record ledger_entry =
  le_id :: string
  le_opportunity_id :: string
  le_event_type :: ledger_event_type
  le_amount_paise :: int
  le_timestamp :: string
  le_raw_payload_ref :: "string option"

record tenant_row =
  tn_id :: string
  tn_capacity_limit :: int
  tn_environment :: "environment option"

section \<open>Branded constructors\<close>

datatype brand_error =
    PaiseNotFinite
  | InvalidTenantId
  | InvalidOpportunityId
  | ProbabilityOutOfRange

fun asPaise :: "number \<Rightarrow> brand_error + int" where
  "asPaise (Fin x) = Inr (math_round x)"
| "asPaise _ = Inl PaiseNotFinite"

definition asTenantId :: "string \<Rightarrow> brand_error + string" where
  "asTenantId s = (if s = [] \<or> trim s = [] then Inl InvalidTenantId else Inr (trim s))"

definition asOpportunityId :: "string \<Rightarrow> brand_error + string" where
  "asOpportunityId s = (if s = [] \<or> trim s = [] then Inl InvalidOpportunityId else Inr (trim s))"

fun isProbability :: "number \<Rightarrow> bool" where
  "isProbability (Fin x) = (0 \<le> x \<and> x \<le> 1)"
| "isProbability _ = False"

fun asProbability :: "number \<Rightarrow> brand_error + rat" where
  "asProbability (Fin x) = (if x < 0 \<or> 1 < x then Inl ProbabilityOutOfRange else Inr x)"
| "asProbability _ = Inl ProbabilityOutOfRange"

lemma dropWhile_head: "dropWhile P s = c # cs \<Longrightarrow> \<not> P c"
  by (induction s) (auto split: if_splits)

lemma trim_idem: "trim (trim s) = trim s"
proof -
  let ?t = "dropWhile is_ws s"
  let ?u = "rev (dropWhile is_ws (rev ?t))"
  have pre: "\<exists>v. ?t = ?u @ v"
    by (metis rev_append rev_rev_ident takeWhile_dropWhile_id)
  have lead: "dropWhile is_ws ?u = ?u"
  proof (cases ?u)
    case Nil
    show ?thesis unfolding Nil by simp
  next
    case (Cons c cs)
    with pre obtain v where "?t = c # (cs @ v)" by auto
    then have "\<not> is_ws c" by (rule dropWhile_head)
    with Cons show ?thesis by simp
  qed
  have "dropWhile is_ws (dropWhile is_ws (rev ?t)) = dropWhile is_ws (rev ?t)"
    by (rule dropWhile_idem)
  with lead show ?thesis by (simp add: trim_def)
qed

lemma asTenantId_stable: "asTenantId s = Inr t \<Longrightarrow> t \<noteq> [] \<and> asTenantId t = Inr t"
  by (auto simp: asTenantId_def trim_idem split: if_splits)

lemma asProbability_iff: "(\<exists>p. asProbability x = Inr p) \<longleftrightarrow> isProbability x"
  by (cases x) auto

end
