(* ===== verification/Lifecycle.thy ===== *)
theory Lifecycle
  imports Ctrl_Types
begin

text \<open>
  The transition graphs of the program: the opportunity life cycle of
  \<^verbatim>\<open>src/domain/state_machine.ts\<close>, the guard the repository really applies
  (\<^verbatim>\<open>updateStatus\<close> in \<^verbatim>\<open>src/db/repositories/opportunity_repository.ts\<close>), the
  canonical payment states of \<^verbatim>\<open>src/truth/canonical_state_machine.ts\<close> and the agent
  life cycle of \<^verbatim>\<open>src/agents/state_machine.ts\<close>.  The locale \<open>gated_lifecycle\<close> holds
  the two facts every one of them is used for: terminal states are never left, and
  a protected region is entered through its gate states only.
\<close>

section \<open>Opportunity life cycle (domain)\<close>

datatype transition_error =
  IllegalStateTransition (te_id: string) (te_current: opportunity_status) (te_target: opportunity_status)

fun ALLOWED_TRANSITIONS :: "opportunity_status \<Rightarrow> opportunity_status list" where
  "ALLOWED_TRANSITIONS Pending = [Scored, Allocated, Blocked, Abstained]"
| "ALLOWED_TRANSITIONS Scored = [Allocated, Scored, Blocked, Abstained, Deferred]"
| "ALLOWED_TRANSITIONS Allocated = [Authorized, Deferred, Blocked, Abstained, Executing]"
| "ALLOWED_TRANSITIONS Authorized = [Executing, Blocked, Abstained]"
| "ALLOWED_TRANSITIONS Deferred = [Allocated, Scored, Blocked, Abstained, Authorized]"
| "ALLOWED_TRANSITIONS Blocked = []"
| "ALLOWED_TRANSITIONS Abstained = [Scored, Allocated]"
| "ALLOWED_TRANSITIONS Executing = [Recovered, Not_recovered]"
| "ALLOWED_TRANSITIONS Recovered = []"
| "ALLOWED_TRANSITIONS Not_recovered = [Scored, Allocated]"

definition canTransition :: "opportunity_status \<Rightarrow> opportunity_status \<Rightarrow> bool" where
  "canTransition current target =
     (current = target \<or> target \<in> set (ALLOWED_TRANSITIONS current))"

definition validateTransition ::
  "string \<Rightarrow> opportunity_status \<Rightarrow> opportunity_status \<Rightarrow> transition_error + opportunity_status" where
  "validateTransition oid current target =
     (if \<not> canTransition current target then Inl (IllegalStateTransition oid current target)
      else Inr target)"

definition tryTransition :: "opportunity \<Rightarrow> opportunity_status \<Rightarrow> bool" where
  "tryTransition opp target = canTransition (o_status opp) target"

section \<open>The guard of the repository\<close>

fun invalidTransitions :: "opportunity_status \<Rightarrow> opportunity_status list" where
  "invalidTransitions Pending = [Executing, Recovered, Not_recovered]"
| "invalidTransitions Scored = [Executing, Pending, Recovered, Not_recovered]"
| "invalidTransitions Allocated = [Pending, Scored, Recovered]"
| "invalidTransitions Authorized = [Pending, Scored, Allocated]"
| "invalidTransitions Deferred = [Executing, Recovered]"
| "invalidTransitions Blocked = [Pending, Scored, Allocated, Authorized, Executing, Recovered]"
| "invalidTransitions Abstained = [Pending, Allocated, Authorized, Executing, Recovered]"
| "invalidTransitions Executing = [Pending, Scored, Allocated, Authorized]"
| "invalidTransitions Recovered =
     [Pending, Scored, Allocated, Authorized, Deferred, Blocked, Abstained, Executing, Not_recovered]"
| "invalidTransitions Not_recovered = [Pending, Scored, Allocated, Authorized, Executing]"

text \<open>The status \<^verbatim>\<open>updateStatus\<close> leaves behind, for a row whose status is \<open>current\<close>.\<close>

definition next_status :: "opportunity_status \<Rightarrow> opportunity_status \<Rightarrow> opportunity_status" where
  "next_status current status =
     (if current = Recovered \<and> status \<noteq> Recovered then current
      else if current = status then current
      else if status \<in> set (invalidTransitions current) then current
      else status)"

definition repo_step :: "opportunity_status \<Rightarrow> opportunity_status \<Rightarrow> bool" where
  "repo_step s t = (\<exists>req. t = next_status s req)"

section \<open>Canonical payment states\<close>

datatype canonical_state =
    C_PENDING | C_SCORED | C_ALLOCATED | C_AUTHORIZED | C_DEFERRED | C_BLOCKED | C_ABSTAINED
  | C_EXECUTING | C_PROVIDER_OBJECT_CREATED | C_PAYMENT_PENDING | C_PAYMENT_CONFIRMED
  | C_RECOVERED | C_FAILED | C_NOT_RECOVERED | C_EXPIRED | C_CANCELLED | C_ABORTED
  | C_MISMATCH | C_UNKNOWN

fun allowedTransitions :: "canonical_state \<Rightarrow> canonical_state list" where
  "allowedTransitions C_PENDING = [C_SCORED, C_ABSTAINED, C_DEFERRED, C_BLOCKED]"
| "allowedTransitions C_SCORED = [C_ALLOCATED, C_DEFERRED, C_ABSTAINED, C_BLOCKED]"
| "allowedTransitions C_ALLOCATED = [C_AUTHORIZED, C_DEFERRED, C_BLOCKED]"
| "allowedTransitions C_AUTHORIZED = [C_EXECUTING, C_BLOCKED, C_ABORTED]"
| "allowedTransitions C_DEFERRED = [C_SCORED, C_ALLOCATED, C_AUTHORIZED]"
| "allowedTransitions C_BLOCKED = [C_ABORTED]"
| "allowedTransitions C_ABSTAINED = [C_SCORED, C_DEFERRED]"
| "allowedTransitions C_EXECUTING =
     [C_PROVIDER_OBJECT_CREATED, C_PAYMENT_PENDING, C_PAYMENT_CONFIRMED, C_RECOVERED, C_FAILED,
      C_NOT_RECOVERED, C_EXPIRED, C_CANCELLED, C_MISMATCH, C_UNKNOWN, C_ABORTED]"
| "allowedTransitions C_PROVIDER_OBJECT_CREATED =
     [C_PAYMENT_PENDING, C_PAYMENT_CONFIRMED, C_RECOVERED, C_FAILED, C_NOT_RECOVERED,
      C_EXPIRED, C_CANCELLED, C_MISMATCH, C_UNKNOWN]"
| "allowedTransitions C_PAYMENT_PENDING =
     [C_PAYMENT_CONFIRMED, C_RECOVERED, C_FAILED, C_NOT_RECOVERED, C_EXPIRED, C_CANCELLED,
      C_MISMATCH, C_UNKNOWN]"
| "allowedTransitions C_PAYMENT_CONFIRMED = [C_RECOVERED]"
| "allowedTransitions C_RECOVERED = []"
| "allowedTransitions C_FAILED = [C_PAYMENT_CONFIRMED, C_RECOVERED]"
| "allowedTransitions C_NOT_RECOVERED = [C_PAYMENT_CONFIRMED, C_RECOVERED]"
| "allowedTransitions C_EXPIRED = []"
| "allowedTransitions C_CANCELLED = []"
| "allowedTransitions C_ABORTED = []"
| "allowedTransitions C_MISMATCH = [C_RECOVERED, C_FAILED, C_NOT_RECOVERED]"
| "allowedTransitions C_UNKNOWN =
     [C_PAYMENT_CONFIRMED, C_RECOVERED, C_FAILED, C_NOT_RECOVERED, C_EXPIRED, C_CANCELLED]"

definition isValidTransition :: "canonical_state \<Rightarrow> canonical_state \<Rightarrow> bool" where
  "isValidTransition from to = (from = to \<or> to \<in> set (allowedTransitions from))"

section \<open>Agent life cycle\<close>

datatype agent_state =
    A_IDLE | A_TRIGGERED | A_OBSERVE | A_INVESTIGATE | A_DIAGNOSE | A_HYPOTHESIZE | A_PLAN
  | A_VALIDATE_PLAN | A_PROPOSE | A_WAIT_AUTHORITY | A_EXECUTE | A_WAIT | A_WAKE
  | A_OBSERVE_OUTCOME | A_PLAN_INVALIDATED | A_REPLAN | A_LEARN | A_MEMORY_UPDATE
  | A_COMPLETE | A_ABORTED | A_HUMAN_REVIEW

fun VALID_STATE_TRANSITIONS :: "agent_state \<Rightarrow> agent_state list" where
  "VALID_STATE_TRANSITIONS A_IDLE = [A_TRIGGERED]"
| "VALID_STATE_TRANSITIONS A_TRIGGERED = [A_OBSERVE, A_ABORTED]"
| "VALID_STATE_TRANSITIONS A_OBSERVE = [A_INVESTIGATE, A_DIAGNOSE, A_PLAN_INVALIDATED, A_ABORTED]"
| "VALID_STATE_TRANSITIONS A_INVESTIGATE = [A_DIAGNOSE, A_OBSERVE, A_HUMAN_REVIEW, A_ABORTED]"
| "VALID_STATE_TRANSITIONS A_DIAGNOSE = [A_HYPOTHESIZE, A_HUMAN_REVIEW, A_ABORTED]"
| "VALID_STATE_TRANSITIONS A_HYPOTHESIZE = [A_PLAN, A_OBSERVE, A_HUMAN_REVIEW, A_ABORTED]"
| "VALID_STATE_TRANSITIONS A_PLAN = [A_VALIDATE_PLAN, A_HUMAN_REVIEW, A_ABORTED]"
| "VALID_STATE_TRANSITIONS A_VALIDATE_PLAN = [A_PROPOSE, A_PLAN_INVALIDATED, A_REPLAN, A_ABORTED]"
| "VALID_STATE_TRANSITIONS A_PROPOSE = [A_WAIT_AUTHORITY, A_HUMAN_REVIEW, A_ABORTED]"
| "VALID_STATE_TRANSITIONS A_WAIT_AUTHORITY = [A_EXECUTE, A_WAIT, A_ABORTED, A_HUMAN_REVIEW]"
| "VALID_STATE_TRANSITIONS A_EXECUTE = [A_WAIT, A_OBSERVE_OUTCOME, A_ABORTED]"
| "VALID_STATE_TRANSITIONS A_WAIT = [A_WAKE, A_ABORTED]"
| "VALID_STATE_TRANSITIONS A_WAKE =
     [A_OBSERVE, A_OBSERVE_OUTCOME, A_PLAN_INVALIDATED, A_REPLAN, A_ABORTED]"
| "VALID_STATE_TRANSITIONS A_OBSERVE_OUTCOME = [A_LEARN, A_PLAN_INVALIDATED, A_COMPLETE, A_ABORTED]"
| "VALID_STATE_TRANSITIONS A_PLAN_INVALIDATED = [A_REPLAN, A_ABORTED, A_HUMAN_REVIEW]"
| "VALID_STATE_TRANSITIONS A_REPLAN = [A_PLAN, A_ABORTED, A_HUMAN_REVIEW]"
| "VALID_STATE_TRANSITIONS A_LEARN = [A_MEMORY_UPDATE, A_COMPLETE, A_ABORTED]"
| "VALID_STATE_TRANSITIONS A_MEMORY_UPDATE = [A_COMPLETE, A_ABORTED]"
| "VALID_STATE_TRANSITIONS A_COMPLETE = []"
| "VALID_STATE_TRANSITIONS A_ABORTED = []"
| "VALID_STATE_TRANSITIONS A_HUMAN_REVIEW = [A_OBSERVE, A_PLAN, A_EXECUTE, A_ABORTED, A_COMPLETE]"

text \<open>The machine object: its current state and the rows it has written to \<^verbatim>\<open>agent_states\<close>.\<close>

record agent_state_row =
  as_run_id :: string
  as_state :: agent_state
  as_previous :: agent_state
  as_trigger :: string

record agent_machine =
  am_run_id :: string
  am_current :: agent_state
  am_history :: "agent_state_row list"

definition new_agent_machine :: "string \<Rightarrow> agent_machine" where
  "new_agent_machine rid = \<lparr>am_run_id = rid, am_current = A_IDLE, am_history = []\<rparr>"

definition canTransitionTo :: "agent_machine \<Rightarrow> agent_state \<Rightarrow> bool" where
  "canTransitionTo m next = (next \<in> set (VALID_STATE_TRANSITIONS (am_current m)))"

definition transition :: "agent_machine \<Rightarrow> agent_state \<Rightarrow> string \<Rightarrow> bool \<times> agent_machine" where
  "transition m next trigger =
     (if \<not> canTransitionTo m next then (False, m)
      else (True, m\<lparr>am_current := next,
                    am_history := am_history m @
                      [\<lparr>as_run_id = am_run_id m, as_state = next,
                        as_previous = am_current m, as_trigger = trigger\<rparr>]\<rparr>))"

fun run_transitions :: "agent_machine \<Rightarrow> (agent_state \<times> string) list \<Rightarrow> agent_machine" where
  "run_transitions m [] = m"
| "run_transitions m ((s, t) # rest) = run_transitions (snd (transition m s t)) rest"

section \<open>What a gated life cycle guarantees\<close>

locale gated_lifecycle =
  fixes step :: "'s \<Rightarrow> 's \<Rightarrow> bool"
    and terminal :: "'s \<Rightarrow> bool"
    and region :: "'s \<Rightarrow> bool"
    and gate :: "'s \<Rightarrow> bool"
  assumes terminal_stuck: "terminal s \<Longrightarrow> step s t \<Longrightarrow> t = s"
    and region_entry: "step s t \<Longrightarrow> region t \<Longrightarrow> \<not> region s \<Longrightarrow> gate s"
begin

lemma terminal_forever: "step\<^sup>*\<^sup>* s t \<Longrightarrow> terminal s \<Longrightarrow> t = s"
  by (induction rule: rtranclp_induct) (auto dest: terminal_stuck)

lemma path_through_gate:
  "successively step xs \<Longrightarrow> xs \<noteq> [] \<Longrightarrow> \<not> region (hd xs) \<Longrightarrow> region (last xs) \<Longrightarrow>
   \<exists>x \<in> set (butlast xs). gate x"
proof (induction xs)
  case Nil
  then show ?case by simp
next
  case (Cons x xs)
  show ?case
  proof (cases xs)
    case Nil
    with Cons.prems show ?thesis by simp
  next
    case (Cons y ys)
    with Cons.prems have xy: "step x y" and sub: "successively step xs" by auto
    show ?thesis
    proof (cases "region y")
      case True
      with xy Cons.prems(3) have "gate x" using region_entry by simp
      with Cons show ?thesis by simp
    next
      case False
      with Cons.IH [OF sub] Cons Cons.prems have "\<exists>z \<in> set (butlast xs). gate z" by simp
      with Cons show ?thesis by auto
    qed
  qed
qed

end

interpretation domain_fsm: gated_lifecycle canTransition
  "\<lambda>s. s \<in> {Blocked, Recovered}" "\<lambda>s. s \<in> {Executing, Recovered}" "\<lambda>s. s \<in> {Allocated, Authorized}"
proof (unfold_locales, goal_cases)
  case (1 s t)
  then show ?case by (auto simp: canTransition_def)
next
  case (2 s t)
  then show ?case by (cases s) (auto simp: canTransition_def)
qed

interpretation repo_fsm: gated_lifecycle repo_step
  "\<lambda>s. s = Recovered" "\<lambda>s. s = Executing" "\<lambda>s. s \<in> {Allocated, Authorized}"
proof (unfold_locales, goal_cases)
  case (1 s t)
  then show ?case by (auto simp: repo_step_def next_status_def)
next
  case (2 s t)
  then show ?case by (cases s) (auto simp: repo_step_def next_status_def split: if_splits)
qed

abbreviation provider_region :: "canonical_state set" where
  "provider_region \<equiv> {C_EXECUTING, C_PROVIDER_OBJECT_CREATED, C_PAYMENT_PENDING,
     C_PAYMENT_CONFIRMED, C_RECOVERED, C_FAILED, C_NOT_RECOVERED, C_EXPIRED, C_CANCELLED,
     C_MISMATCH, C_UNKNOWN}"

interpretation canonical_fsm: gated_lifecycle isValidTransition
  "\<lambda>s. s \<in> {C_RECOVERED, C_EXPIRED, C_CANCELLED, C_ABORTED}"
  "\<lambda>s. s \<in> provider_region" "\<lambda>s. s = C_AUTHORIZED"
proof (unfold_locales, goal_cases)
  case (1 s t)
  then show ?case by (auto simp: isValidTransition_def)
next
  case (2 s t)
  then show ?case by (cases s) (auto simp: isValidTransition_def)
qed

definition agent_step :: "agent_state \<Rightarrow> agent_state \<Rightarrow> bool" where
  "agent_step s t = (t \<in> set (VALID_STATE_TRANSITIONS s))"

interpretation agent_fsm: gated_lifecycle agent_step
  "\<lambda>s. s \<in> {A_COMPLETE, A_ABORTED}" "\<lambda>s. s = A_EXECUTE"
  "\<lambda>s. s \<in> {A_WAIT_AUTHORITY, A_HUMAN_REVIEW}"
proof (unfold_locales, goal_cases)
  case (1 s t)
  then show ?case by (auto simp: agent_step_def)
next
  case (2 s t)
  then show ?case by (cases s) (auto simp: agent_step_def)
qed

section \<open>The agent machine object\<close>

lemma transition_cases:
  "transition m s t = (True, m') \<Longrightarrow>
     agent_step (am_current m) s \<and> am_current m' = s \<and> am_run_id m' = am_run_id m"
  by (auto simp: transition_def canTransitionTo_def agent_step_def split: if_splits)

lemma transition_rejected: "transition m s t = (False, m') \<Longrightarrow> m' = m"
  by (auto simp: transition_def split: if_splits)

text \<open>The recorded states, oldest first, with the initial state in front.\<close>

definition visited :: "agent_machine \<Rightarrow> agent_state list" where
  "visited m = A_IDLE # map as_state (am_history m)"

definition machine_ok :: "agent_machine \<Rightarrow> bool" where
  "machine_ok m \<longleftrightarrow> successively agent_step (visited m) \<and> last (visited m) = am_current m"

lemma machine_ok_new: "machine_ok (new_agent_machine r)"
  by (simp add: machine_ok_def visited_def new_agent_machine_def)

lemma machine_ok_transition: "machine_ok m \<Longrightarrow> machine_ok (snd (transition m s t))"
proof -
  assume ok: "machine_ok m"
  show ?thesis
  proof (cases "canTransitionTo m s")
    case False
    with ok show ?thesis by (simp add: transition_def)
  next
    case True
    then have st: "agent_step (am_current m) s" by (simp add: canTransitionTo_def agent_step_def)
    have v: "visited (snd (transition m s t)) = visited m @ [s]"
      using True by (simp add: transition_def visited_def)
    have c: "am_current (snd (transition m s t)) = s" using True by (simp add: transition_def)
    from ok st show ?thesis
      by (simp add: machine_ok_def v c successively_append_iff)
  qed
qed

lemma machine_ok_run: "machine_ok m \<Longrightarrow> machine_ok (run_transitions m ts)"
  by (induction m ts rule: run_transitions.induct) (auto simp: machine_ok_transition)

section \<open>Properties\<close>

text \<open>
  Security and settlement are final in the domain life cycle: no sequence of
  permitted transitions leaves \<^verbatim>\<open>blocked\<close> or \<^verbatim>\<open>recovered\<close>, and every path into
  \<^verbatim>\<open>executing\<close> or \<^verbatim>\<open>recovered\<close> from outside passes through \<^verbatim>\<open>allocated\<close> or
  \<^verbatim>\<open>authorized\<close> (no raw opportunity jumps to execution).
\<close>

theorem domain_lifecycle_gated:
  "(canTransition\<^sup>*\<^sup>* s t \<and> s \<in> {Blocked, Recovered} \<longrightarrow> t = s) \<and>
   (successively canTransition xs \<and> xs \<noteq> [] \<and> hd xs \<notin> {Executing, Recovered} \<and>
    last xs \<in> {Executing, Recovered} \<longrightarrow>
      Allocated \<in> set (butlast xs) \<or> Authorized \<in> set (butlast xs))"
  using domain_fsm.terminal_forever [of s t] domain_fsm.path_through_gate [of xs] by auto

theorem domain_lifecycle_gated_witness:
  "canTransition\<^sup>*\<^sup>* Blocked Blocked \<and>
   successively canTransition [Pending, Scored, Allocated, Executing] \<and>
   (Allocated \<in> set (butlast [Pending, Scored, Allocated, Executing]) \<or>
    Authorized \<in> set (butlast [Pending, Scored, Allocated, Executing]))"
proof -
  have "successively canTransition [Pending, Scored, Allocated, Executing]"
    by (simp add: canTransition_def)
  with domain_lifecycle_gated [of Blocked Blocked "[Pending, Scored, Allocated, Executing]"]
  show ?thesis by simp
qed

text \<open>
  Every run of the agent machine that starts in \<^verbatim>\<open>IDLE\<close>, whatever transitions are
  requested of it, records a path of the transition table; if it is in \<^verbatim>\<open>EXECUTE\<close>
  then it was waiting for the authority or in human review before, and from every
  state except \<^verbatim>\<open>IDLE\<close> and the two final ones it can be aborted.
\<close>

theorem agent_execution_gated:
  fixes rid ts
  defines "m \<equiv> run_transitions (new_agent_machine rid) ts"
  shows "successively agent_step (visited m) \<and> last (visited m) = am_current m \<and>
     (am_current m = A_EXECUTE \<longrightarrow>
        A_WAIT_AUTHORITY \<in> set (visited m) \<or> A_HUMAN_REVIEW \<in> set (visited m)) \<and>
     (am_current m \<notin> {A_IDLE, A_COMPLETE, A_ABORTED} \<longrightarrow> fst (transition m A_ABORTED t))"
proof -
  have ok: "machine_ok m"
    unfolding m_def by (rule machine_ok_run [OF machine_ok_new])
  have gate: "\<exists>x \<in> set (butlast (visited m)). x \<in> {A_WAIT_AUTHORITY, A_HUMAN_REVIEW}"
    if "am_current m = A_EXECUTE"
    using agent_fsm.path_through_gate [of "visited m"] ok that
    by (simp add: machine_ok_def visited_def split: if_splits)
  have abort: "fst (transition m A_ABORTED t)"
    if "am_current m \<notin> {A_IDLE, A_COMPLETE, A_ABORTED}"
    using that by (cases "am_current m") (auto simp: transition_def canTransitionTo_def)
  from ok gate abort show ?thesis
    by (auto simp: machine_ok_def dest: in_set_butlastD)
qed

theorem agent_execution_gated_witness:
  "am_current (run_transitions (new_agent_machine ''r'')
     (map (\<lambda>s. (s, ''t'')) [A_TRIGGERED, A_OBSERVE, A_DIAGNOSE, A_HYPOTHESIZE, A_PLAN,
        A_VALIDATE_PLAN, A_PROPOSE, A_EXECUTE, A_WAIT_AUTHORITY, A_EXECUTE])) = A_EXECUTE \<and>
   A_WAIT_AUTHORITY \<in> set (visited (run_transitions (new_agent_machine ''r'')
     (map (\<lambda>s. (s, ''t'')) [A_TRIGGERED, A_OBSERVE, A_DIAGNOSE, A_HYPOTHESIZE, A_PLAN,
        A_VALIDATE_PLAN, A_PROPOSE, A_EXECUTE, A_WAIT_AUTHORITY, A_EXECUTE])))"
proof -
  let ?m = "run_transitions (new_agent_machine ''r'')
     (map (\<lambda>s. (s, ''t'')) [A_TRIGGERED, A_OBSERVE, A_DIAGNOSE, A_HYPOTHESIZE, A_PLAN,
        A_VALIDATE_PLAN, A_PROPOSE, A_EXECUTE, A_WAIT_AUTHORITY, A_EXECUTE])"
  have cur: "am_current ?m = A_EXECUTE" and no: "A_HUMAN_REVIEW \<notin> set (visited ?m)"
    by (simp_all add: new_agent_machine_def transition_def canTransitionTo_def visited_def)
  with agent_execution_gated [of "''r''"] show ?thesis by blast
qed

text \<open>
  The repository guard protects the same two points: a row that is
  \<^verbatim>\<open>recovered\<close> keeps that status under any sequence of \<^verbatim>\<open>updateStatus\<close> requests, and
  a row reaches \<^verbatim>\<open>executing\<close> only from \<^verbatim>\<open>allocated\<close> or \<^verbatim>\<open>authorized\<close>.
\<close>

theorem repo_guard_gated:
  "foldl next_status Recovered reqs = Recovered \<and>
   (next_status s req = Executing \<and> s \<noteq> Executing \<longrightarrow> s \<in> {Allocated, Authorized})"
proof
  have "repo_step\<^sup>*\<^sup>* s (foldl next_status s reqs)" for s
  proof (induction reqs arbitrary: s)
    case (Cons r rs)
    have "repo_step s (next_status s r)" by (auto simp: repo_step_def)
    with Cons [of "next_status s r"] show ?case by simp
  qed simp
  then show "foldl next_status Recovered reqs = Recovered"
    by (rule repo_fsm.terminal_forever) simp
  show "next_status s req = Executing \<and> s \<noteq> Executing \<longrightarrow> s \<in> {Allocated, Authorized}"
    using repo_fsm.region_entry [of s "next_status s req"] unfolding repo_step_def by metis
qed

theorem repo_guard_gated_witness:
  "foldl next_status Recovered [Pending, Blocked, Executing] = Recovered \<and>
   next_status Authorized Executing = Executing \<and> Authorized \<in> {Allocated, Authorized}"
  using repo_guard_gated [of "[Pending, Blocked, Executing]" Authorized Executing]
  by (simp add: next_status_def)

text \<open>
  The two tables disagree: \<^verbatim>\<open>src/domain/state_machine.ts\<close> declares \<^verbatim>\<open>blocked\<close> a
  strictly terminal compliance veto, but the guard that the repository applies lets
  a blocked row become \<^verbatim>\<open>deferred\<close> and then \<^verbatim>\<open>authorized\<close> and \<^verbatim>\<open>executing\<close>; and it
  refuses \<^verbatim>\<open>abstained\<close> to \<^verbatim>\<open>allocated\<close>, which the domain table allows.
\<close>

theorem guards_disagree:
  "\<not> canTransition Blocked Deferred \<and>
   foldl next_status Blocked [Deferred, Authorized, Executing] = Executing \<and>
   canTransition Abstained Allocated \<and> next_status Abstained Allocated = Abstained"
  by (simp add: canTransition_def next_status_def)

end
