(* ===== verification/Store.thy ===== *)
theory Store
  imports Lifecycle
begin

text \<open>
  The database: one record whose fields are the tables of \<^verbatim>\<open>src/db/database.ts\<close> that
  the modelled components read and write, and the repository operations of
  \<^verbatim>\<open>src/db/repositories\<close>.  A table is the list of its rows in insertion order;
  \<^verbatim>\<open>INSERT ... ON CONFLICT DO UPDATE\<close> replaces a row in place or appends it.  The
  locale \<open>keyed_table\<close> states what a repository promises its callers, and is
  interpreted on each repository.  The mirror to Supabase is fire-and-forget and is
  not part of the model.
\<close>

section \<open>Rows of the audit tables\<close>

record double_entry =
  de_id :: string
  de_opportunity_id :: string
  de_event_type :: string
  de_debit_account :: string
  de_credit_account :: string
  de_amount_paise :: int
  de_timestamp :: string
  de_prev_hash :: string
  de_entry_hash :: string

record dlq_job =
  dj_opportunity_id :: string
  dj_failure_count :: nat
  dj_last_error :: string
  dj_next_retry_at :: "int option"
  dj_status :: string
  dj_created_at :: int
  dj_updated_at :: int

record prevented_row =
  pv_id :: string
  pv_opportunity_id :: string
  pv_tenant_id :: string
  pv_reason :: string
  pv_messaging :: int
  pv_provider :: int
  pv_goodwill :: int
  pv_total :: int
  pv_timestamp :: string

record execution_failure =
  ef_opportunity_id :: string
  ef_failure_count :: nat
  ef_last_error :: string
  ef_next_retry_at :: "int option"
  ef_status :: string
  ef_created_at :: int

record agent_run =
  ar_id :: string
  ar_mission_id :: string
  ar_opportunity_id :: string
  ar_goal_type :: string
  ar_status :: string
  ar_start_time :: string
  ar_end_time :: string
  ar_total_steps :: nat
  ar_llm_calls :: nat
  ar_tool_calls :: nat
  ar_replan_count :: nat
  ar_total_tokens :: nat
  ar_latency_ms :: nat
  ar_termination_reason :: string
  ar_created_at :: string

record agent_memory =
  am_id :: string
  am_memory_type :: string
  am_run_id :: string
  am_opportunity_id :: string
  am_failure_type :: string
  am_context_summary :: string
  am_action_taken :: string
  am_predicted_outcome :: string
  am_actual_outcome :: string
  am_prediction_error :: "rat option"
  am_semantic_key :: string
  am_semantic_value :: string
  am_confidence :: rat
  am_provenance :: string
  am_created_at :: string

record agent_outcome =
  ao_id :: string
  ao_run_id :: string
  ao_opportunity_id :: string
  ao_predicted :: rat
  ao_recovered :: bool
  ao_error :: rat
  ao_revenue :: int
  ao_op_cost :: int
  ao_net_gain :: int
  ao_customer_response :: string
  ao_evaluated_at :: string

record divergence_row =
  dv_id :: string
  dv_tenant_id :: string
  dv_opportunity_id :: string
  dv_type :: string
  dv_severity :: string
  dv_description :: string
  dv_status :: string
  dv_created_at :: string

record notification =
  nt_id :: string
  nt_tenant_id :: string
  nt_type :: string
  nt_title :: string
  nt_message :: string
  nt_link_url :: string
  nt_read :: bool
  nt_created_at :: string

record store =
  opportunities :: "opportunity list"
  scores :: "score list"
  allocation_decisions :: "allocation_decision list"
  authority_checks :: "authority_check list"
  execution_records :: "execution_record list"
  ledger_entries :: "ledger_entry list"
  tenants :: "tenant_row list"
  customers :: "customer list"
  double_entry_ledger :: "double_entry list"
  dlq_jobs :: "dlq_job list"
  execution_failures :: "execution_failure list"
  interventions_prevented :: "prevented_row list"
  agent_runs :: "agent_run list"
  agent_memories :: "agent_memory list"
  agent_outcomes :: "agent_outcome list"
  divergences :: "divergence_row list"
  notifications :: "notification list"

definition empty_store :: store where
  "empty_store = \<lparr>opportunities = [], scores = [], allocation_decisions = [],
     authority_checks = [], execution_records = [], ledger_entries = [], tenants = [],
     customers = [], double_entry_ledger = [], dlq_jobs = [], execution_failures = [],
     interventions_prevented = [], agent_runs = [], agent_memories = [], agent_outcomes = [],
     divergences = [], notifications = []\<rparr>"

section \<open>Tables of rows with a primary key\<close>

definition row_get :: "('r \<Rightarrow> 'k) \<Rightarrow> 'k \<Rightarrow> 'r list \<Rightarrow> 'r option" where
  "row_get key k rows = find (\<lambda>r. key r = k) rows"

fun row_put :: "('r \<Rightarrow> 'k) \<Rightarrow> ('r option \<Rightarrow> 'r \<Rightarrow> 'r) \<Rightarrow> 'r \<Rightarrow> 'r list \<Rightarrow> 'r list" where
  "row_put key merge r [] = [merge None r]"
| "row_put key merge r (x # xs) =
     (if key x = key r then merge (Some x) r # xs else x # row_put key merge r xs)"

definition row_update :: "('r \<Rightarrow> 'k) \<Rightarrow> 'k \<Rightarrow> ('r \<Rightarrow> 'r) \<Rightarrow> 'r list \<Rightarrow> 'r list" where
  "row_update key k f rows = map (\<lambda>r. if key r = k then f r else r) rows"

text \<open>Descending stable sort: \<^verbatim>\<open>ORDER BY ... DESC\<close> and \<^verbatim>\<open>sort((a, b) => b.x - a.x)\<close>.\<close>

definition sort_desc :: "('r \<Rightarrow> 'k::linorder) \<Rightarrow> 'r list \<Rightarrow> 'r list" where
  "sort_desc f xs = rev (sort_key f (rev xs))"

lemma mset_sort_desc [simp]: "mset (sort_desc f xs) = mset xs"
  by (simp add: sort_desc_def)

lemma set_sort_desc [simp]: "set (sort_desc f xs) = set xs"
  by (simp add: sort_desc_def)

lemma length_sort_desc [simp]: "length (sort_desc f xs) = length xs"
  by (simp add: sort_desc_def)

lemma distinct_sort_desc: "distinct (map g (sort_desc f xs)) \<longleftrightarrow> distinct (map g xs)"
  by (metis distinct_map distinct_sort distinct_rev set_sort_desc sort_desc_def)

lemma sorted_sort_desc: "sorted_wrt (\<lambda>a b. f b \<le> f a) (sort_desc f xs)"
proof -
  have "sorted_wrt (\<lambda>a b. f a \<le> f b) (sort_key f (rev xs))"
    using sorted_sort_key [of f "rev xs"] by (simp add: sorted_wrt_map)
  then show ?thesis by (simp add: sort_desc_def sorted_wrt_rev)
qed

lemma row_get_Some: "row_get key k rows = Some r \<Longrightarrow> r \<in> set rows \<and> key r = k"
  by (auto simp: row_get_def find_Some_iff)

lemma row_get_None: "row_get key k rows = None \<longleftrightarrow> k \<notin> key ` set rows"
  by (auto simp: row_get_def find_None_iff image_iff)

lemma row_get_mem: "distinct (map key rows) \<Longrightarrow> r \<in> set rows \<Longrightarrow> row_get key (key r) rows = Some r"
proof (induction rows)
  case Nil
  then show ?case by simp
next
  case (Cons x xs)
  then show ?case by (auto simp: row_get_def image_iff)
qed

lemma row_get_put:
  assumes "\<And>q r. key (merge q r) = key r"
  shows "row_get key k (row_put key merge r rows) =
     (if k = key r then Some (merge (row_get key (key r) rows) r) else row_get key k rows)"
  using assms by (induction rows) (auto simp: row_get_def)

lemma row_put_keys:
  assumes "\<And>q r. key (merge q r) = key r"
  shows "map key (row_put key merge r rows) =
     (if key r \<in> key ` set rows then map key rows else map key rows @ [key r])"
  using assms by (induction rows) (auto simp: image_iff)

lemma row_put_keys_set:
  assumes "\<And>q r. key (merge q r) = key r"
  shows "key ` set (row_put key merge r rows) = insert (key r) (key ` set rows)"
  using row_put_keys [of key merge r rows] assms
  by (metis (no_types, lifting) insert_absorb list.set_map set_append Un_insert_right
        list.simps(15) set_empty2 sup_bot.right_neutral)

lemma row_put_distinct:
  assumes "\<And>q r. key (merge q r) = key r" and "distinct (map key rows)"
  shows "distinct (map key (row_put key merge r rows))"
  using assms(2) by (simp add: row_put_keys [of key merge, OF assms(1)])

lemma row_get_update:
  assumes "\<And>r. key (f r) = key r"
  shows "row_get key k (row_update key j f rows) =
     (if k = j then map_option f (row_get key k rows) else row_get key k rows)"
  using assms by (induction rows) (auto simp: row_get_def row_update_def)

lemma row_update_keys:
  assumes "\<And>r. key (f r) = key r"
  shows "map key (row_update key j f rows) = map key rows"
  using assms by (simp add: row_update_def)

section \<open>The contract of a repository\<close>

locale keyed_table =
  fixes key :: "'r \<Rightarrow> 'k"
    and get :: "'d \<Rightarrow> 'k \<Rightarrow> 'r option"
    and put :: "'r \<Rightarrow> 'd \<Rightarrow> 'd"
    and merge :: "'r option \<Rightarrow> 'r \<Rightarrow> 'r"
  assumes key_merge: "key (merge q r) = key r"
    and get_put: "get (put r d) k = (if k = key r then Some (merge (get d (key r)) r) else get d k)"
begin

lemma get_put_same: "get (put r d) (key r) = Some (merge (get d (key r)) r)"
  by (simp add: get_put)

lemma get_put_other: "k \<noteq> key r \<Longrightarrow> get (put r d) k = get d k"
  by (simp add: get_put)

lemma get_fold_other: "k \<notin> key ` set rs \<Longrightarrow> get (fold put rs d) k = get d k"
  by (induction rs arbitrary: d) (auto simp: get_put)

text \<open>A batch of writes with distinct keys is read back row by row.\<close>

lemma get_fold_put:
  "distinct (map key rs) \<Longrightarrow> r \<in> set rs \<Longrightarrow>
   get (fold put rs d) (key r) = Some (merge (get d (key r)) r)"
proof (induction rs arbitrary: d)
  case Nil
  then show ?case by simp
next
  case (Cons x xs)
  show ?case
  proof (cases "r = x")
    case True
    then have "key r \<notin> key ` set xs" using Cons.prems(1) by auto
    then show ?thesis using True by (simp add: get_fold_other get_put)
  next
    case False
    with Cons.prems have "r \<in> set xs" and "key r \<noteq> key x"
      by (auto simp: image_iff)
    with Cons show ?thesis by (simp add: get_put)
  qed
qed

end

section \<open>Opportunities\<close>

definition owned_by :: "string \<Rightarrow> opportunity \<Rightarrow> bool" where
  "owned_by tid o' \<longleftrightarrow> o_tenant_id o' = tid \<or> o_merchant_id o' = tid"

definition getOpportunityById :: "store \<Rightarrow> string \<Rightarrow> opportunity option" where
  "getOpportunityById s oid = row_get o_id oid (opportunities s)"

definition getOpportunityByIdFor :: "store \<Rightarrow> string \<Rightarrow> string \<Rightarrow> opportunity option" where
  "getOpportunityByIdFor s oid tid =
     (if tid = [] then getOpportunityById s oid
      else find (\<lambda>o'. o_id o' = oid \<and> owned_by tid o') (opportunities s))"

definition getOpportunityByRazorpayEventId :: "store \<Rightarrow> string \<Rightarrow> opportunity option" where
  "getOpportunityByRazorpayEventId s eid =
     find (\<lambda>o'. o_razorpay_event_id o' = Some eid) (opportunities s)"

definition getAllOpportunities ::
  "store \<Rightarrow> string option \<Rightarrow> environment option \<Rightarrow> opportunity list" where
  "getAllOpportunities s tid env =
     sort_desc o_created_at
       (filter (\<lambda>o'. (truthy_str tid \<longrightarrow> owned_by (the tid) o') \<and>
                     (case env of None \<Rightarrow> True | Some e \<Rightarrow> o_environment o' = e))
          (opportunities s))"

definition getByStatus ::
  "store \<Rightarrow> opportunity_status \<Rightarrow> string option \<Rightarrow> opportunity list" where
  "getByStatus s st tid =
     sort_key o_created_at
       (filter (\<lambda>o'. o_status o' = st \<and> (truthy_str tid \<longrightarrow> owned_by (the tid) o'))
          (opportunities s))"

definition getPending :: "store \<Rightarrow> string option \<Rightarrow> opportunity list" where
  "getPending s tid = getByStatus s Pending tid"

text \<open>The row that \<^verbatim>\<open>insert\<close> leaves: defaults filled in, and \<^verbatim>\<open>created_at\<close> of an
  existing row kept, since the conflict clause does not list it.\<close>

definition opp_merge :: "opportunity option \<Rightarrow> opportunity \<Rightarrow> opportunity" where
  "opp_merge old r =
     (let t = or_str (o_tenant_id r) ''tenant_system_default'' in
      r\<lparr>o_currency := or_str (o_currency r) ''INR'', o_tenant_id := t, o_merchant_id := t,
        o_created_at := (case old of None \<Rightarrow> o_created_at r | Some x \<Rightarrow> o_created_at x)\<rparr>)"

definition putOpportunity :: "opportunity \<Rightarrow> store \<Rightarrow> store" where
  "putOpportunity r s = s\<lparr>opportunities := row_put o_id opp_merge r (opportunities s)\<rparr>"

datatype db_error = UniqueViolation string | CheckViolation string | NotFound string

text \<open>\<^verbatim>\<open>razorpay_event_id\<close> is UNIQUE and has no conflict clause: a second row with the
  same event raises.\<close>

definition insertOpportunity :: "opportunity \<Rightarrow> store \<Rightarrow> db_error + store" where
  "insertOpportunity r s =
     (if (\<exists>x \<in> set (opportunities s). o_id x \<noteq> o_id r \<and> o_razorpay_event_id r \<noteq> None \<and>
            o_razorpay_event_id x = o_razorpay_event_id r)
      then Inl (UniqueViolation (the (o_razorpay_event_id r)))
      else Inr (putOpportunity r s))"

definition updateOpportunityStatus :: "string \<Rightarrow> opportunity_status \<Rightarrow> store \<Rightarrow> store" where
  "updateOpportunityStatus oid st s =
     s\<lparr>opportunities :=
        row_update o_id oid (\<lambda>o'. o'\<lparr>o_status := next_status (o_status o') st\<rparr>) (opportunities s)\<rparr>"

definition ensureOpportunity :: "string \<Rightarrow> string \<Rightarrow> store \<Rightarrow> store" where
  "ensureOpportunity now oid s =
     (if oid = [] \<or> getOpportunityById s oid \<noteq> None then s
      else putOpportunity
        \<lparr>o_id = oid, o_source = Src_synthetic, o_amount_paise = 100000, o_currency = ''INR'',
         o_reason_code = ''generic_decline'', o_decline_type = Soft, o_attempt_count = 1,
         o_customer_id = ''cust_'' @ oid, o_customer_trust_score = lit 65 2, o_created_at = now,
         o_status = Pending, o_tenant_id = ''tenant_system_default'',
         o_merchant_id = ''tenant_system_default'', o_environment = Env_test,
         o_razorpay_event_id = None, o_raw_payload_ref = None\<rparr> s)"

section \<open>Scores, decisions, checks, execution records, ledger\<close>

definition getScoreByOpportunityId :: "store \<Rightarrow> string \<Rightarrow> score option" where
  "getScoreByOpportunityId s oid = row_get s_opportunity_id oid (scores s)"

text \<open>The \<^verbatim>\<open>scores\<close> table has no columns for the tenant, the band and the source.\<close>

definition score_merge :: "score option \<Rightarrow> score \<Rightarrow> score" where
  "score_merge old r = r\<lparr>s_tenant_id := None, s_iven_band := None, s_probability_source := None\<rparr>"

definition upsertScore :: "score \<Rightarrow> store \<Rightarrow> store" where
  "upsertScore r s = s\<lparr>scores := row_put s_opportunity_id score_merge r (scores s)\<rparr>"

definition getAllScores :: "store \<Rightarrow> string option \<Rightarrow> score list" where
  "getAllScores s tid =
     (if truthy_str tid
      then filter (\<lambda>r. case row_get o_id (s_opportunity_id r) (opportunities s) of
                          None \<Rightarrow> False | Some o' \<Rightarrow> owned_by (the tid) o') (scores s)
      else scores s)"

definition replace_merge :: "'r option \<Rightarrow> 'r \<Rightarrow> 'r" where
  "replace_merge old r = r"

definition getAllocationDecisionByOpportunityId :: "store \<Rightarrow> string \<Rightarrow> allocation_decision option" where
  "getAllocationDecisionByOpportunityId s oid =
     row_get ad_opportunity_id oid (allocation_decisions s)"

definition upsertAllocationDecision :: "allocation_decision \<Rightarrow> store \<Rightarrow> store" where
  "upsertAllocationDecision r s =
     s\<lparr>allocation_decisions := row_put ad_opportunity_id replace_merge r (allocation_decisions s)\<rparr>"

definition getAllAllocationDecisions :: "store \<Rightarrow> string option \<Rightarrow> allocation_decision list" where
  "getAllAllocationDecisions s tid =
     sort_key ad_rank_in_batch
       (if truthy_str tid
        then filter (\<lambda>r. case row_get o_id (ad_opportunity_id r) (opportunities s) of
                            None \<Rightarrow> False | Some o' \<Rightarrow> owned_by (the tid) o') (allocation_decisions s)
        else allocation_decisions s)"

definition insertAuthorityCheck :: "string \<Rightarrow> authority_check \<Rightarrow> store \<Rightarrow> store" where
  "insertAuthorityCheck now c s =
     (let s1 = ensureOpportunity now (ac_opportunity_id c) s
      in s1\<lparr>authority_checks := authority_checks s1 @ [c]\<rparr>)"

definition getAuthorityChecksByOpportunityId :: "store \<Rightarrow> string \<Rightarrow> authority_check list" where
  "getAuthorityChecksByOpportunityId s oid =
     filter (\<lambda>c. ac_opportunity_id c = oid) (authority_checks s)"

definition clearAuthorityChecksForOpportunity :: "string \<Rightarrow> store \<Rightarrow> store" where
  "clearAuthorityChecksForOpportunity oid s =
     s\<lparr>authority_checks := filter (\<lambda>c. ac_opportunity_id c \<noteq> oid) (authority_checks s)\<rparr>"

definition clearAllAuthorityChecks :: "store \<Rightarrow> store" where
  "clearAllAuthorityChecks s = s\<lparr>authority_checks := []\<rparr>"

definition getExecutionRecordByOpportunityId :: "store \<Rightarrow> string \<Rightarrow> execution_record option" where
  "getExecutionRecordByOpportunityId s oid = row_get er_opportunity_id oid (execution_records s)"

definition upsertExecutionRecord :: "execution_record \<Rightarrow> store \<Rightarrow> store" where
  "upsertExecutionRecord r s =
     s\<lparr>execution_records := row_put er_opportunity_id replace_merge r (execution_records s)\<rparr>"

definition getAllExecutionRecords :: "store \<Rightarrow> string option \<Rightarrow> execution_record list" where
  "getAllExecutionRecords s tid =
     sort_desc er_created_at
       (if truthy_str tid
        then filter (\<lambda>r. case row_get o_id (er_opportunity_id r) (opportunities s) of
                            None \<Rightarrow> False | Some o' \<Rightarrow> owned_by (the tid) o') (execution_records s)
        else execution_records s)"

definition insertLedgerEntry :: "ledger_entry \<Rightarrow> store \<Rightarrow> store" where
  "insertLedgerEntry r s = s\<lparr>ledger_entries := row_put le_id replace_merge r (ledger_entries s)\<rparr>"

definition getLedgerEntriesByOpportunity :: "store \<Rightarrow> string \<Rightarrow> ledger_entry list" where
  "getLedgerEntriesByOpportunity s oid =
     sort_key le_timestamp (filter (\<lambda>e. le_opportunity_id e = oid) (ledger_entries s))"

section \<open>Customers\<close>

definition getCustomerById :: "store \<Rightarrow> string \<Rightarrow> string \<Rightarrow> customer option" where
  "getCustomerById s cid tid =
     find (\<lambda>c. cu_id c = cid \<and> (tid = [] \<or> cu_tenant_id c = tid)) (customers s)"

definition touch_merge :: "customer option \<Rightarrow> customer \<Rightarrow> customer" where
  "touch_merge old r = (case old of None \<Rightarrow> r | Some x \<Rightarrow> x\<lparr>cu_updated_at := cu_updated_at r\<rparr>)"

definition getOrCreateCustomer ::
  "string \<Rightarrow> string \<Rightarrow> rat \<Rightarrow> string \<Rightarrow> store \<Rightarrow> customer \<times> store" where
  "getOrCreateCustomer now cid trust tid s =
     (case getCustomerById s cid tid of
        Some c \<Rightarrow> (c, s)
      | None \<Rightarrow>
          (let c = \<lparr>cu_id = cid, cu_trust_score = trust, cu_created_at = now, cu_updated_at = now,
                    cu_tenant_id = tid\<rparr>
           in (c, s\<lparr>customers := row_put cu_id touch_merge c (customers s)\<rparr>)))"

definition profile_merge :: "customer option \<Rightarrow> customer \<Rightarrow> customer" where
  "profile_merge old r =
     (case old of None \<Rightarrow> r
      | Some x \<Rightarrow> x\<lparr>cu_trust_score := cu_trust_score r, cu_updated_at := cu_updated_at r\<rparr>)"

definition upsertCustomer :: "customer \<Rightarrow> store \<Rightarrow> store" where
  "upsertCustomer c s =
     (let c' = c\<lparr>cu_tenant_id := or_str (cu_tenant_id c) ''tenant_system_default''\<rparr>
      in s\<lparr>customers := row_put cu_id profile_merge c' (customers s)\<rparr>)"

text \<open>SQL \<^verbatim>\<open>LIKE\<close>: percent and underscore are wildcards, ASCII letters match in either case.\<close>

definition ascii_lower :: "char \<Rightarrow> char" where
  "ascii_lower c = (let n = of_char c :: nat in if 65 \<le> n \<and> n \<le> 90 then char_of (n + 32) else c)"

fun sql_like :: "string \<Rightarrow> string \<Rightarrow> bool" where
  "sql_like [] t = (t = [])"
| "sql_like (p # ps) [] = (p = CHR ''%'' \<and> sql_like ps [])"
| "sql_like (p # ps) (c # t) =
     (if p = CHR ''%'' then sql_like ps (c # t) \<or> sql_like (p # ps) t
      else (p = CHR ''_'' \<or> ascii_lower p = ascii_lower c) \<and> sql_like ps t)"

definition countPriorAttempts :: "store \<Rightarrow> string \<Rightarrow> string option \<Rightarrow> string option \<Rightarrow> nat" where
  "countPriorAttempts s cid sub tid =
     (let pat = ''%'' @ the sub @ ''%'' in
      length (filter (\<lambda>o'. o_customer_id o' = cid \<and>
                 (truthy_str sub \<longrightarrow>
                    (case o_raw_payload_ref o' of None \<Rightarrow> False | Some r \<Rightarrow> sql_like pat r) \<or>
                    sql_like pat (o_id o')) \<and>
                 (truthy_str tid \<longrightarrow> owned_by (the tid) o'))
        (opportunities s)))"

section \<open>Tenants\<close>

definition getTenant :: "store \<Rightarrow> string \<Rightarrow> tenant_row option" where
  "getTenant s tid = row_get tn_id tid (tenants s)"

section \<open>The repositories keep the contract\<close>

lemma key_opp_merge [simp]: "o_id (opp_merge q r) = o_id r"
  by (simp add: opp_merge_def Let_def)

lemma key_score_merge [simp]: "s_opportunity_id (score_merge q r) = s_opportunity_id r"
  by (simp add: score_merge_def)

interpretation opp_repo: keyed_table o_id getOpportunityById putOpportunity opp_merge
  by unfold_locales
     (simp_all add: getOpportunityById_def putOpportunity_def row_get_put)

interpretation score_repo: keyed_table s_opportunity_id getScoreByOpportunityId upsertScore score_merge
  by unfold_locales
     (simp_all add: getScoreByOpportunityId_def upsertScore_def row_get_put)

interpretation alloc_repo: keyed_table ad_opportunity_id getAllocationDecisionByOpportunityId
  upsertAllocationDecision replace_merge
  by unfold_locales
     (simp_all add: getAllocationDecisionByOpportunityId_def upsertAllocationDecision_def
        row_get_put replace_merge_def)

interpretation exec_repo: keyed_table er_opportunity_id getExecutionRecordByOpportunityId
  upsertExecutionRecord replace_merge
  by unfold_locales
     (simp_all add: getExecutionRecordByOpportunityId_def upsertExecutionRecord_def
        row_get_put replace_merge_def)

section \<open>Frame: what an operation leaves alone\<close>

lemma updateOpportunityStatus_frame [ctrl_frame, simp]:
  "scores (updateOpportunityStatus oid st s) = scores s"
  "allocation_decisions (updateOpportunityStatus oid st s) = allocation_decisions s"
  "authority_checks (updateOpportunityStatus oid st s) = authority_checks s"
  "execution_records (updateOpportunityStatus oid st s) = execution_records s"
  "ledger_entries (updateOpportunityStatus oid st s) = ledger_entries s"
  "tenants (updateOpportunityStatus oid st s) = tenants s"
  "double_entry_ledger (updateOpportunityStatus oid st s) = double_entry_ledger s"
  "dlq_jobs (updateOpportunityStatus oid st s) = dlq_jobs s"
  by (simp_all add: updateOpportunityStatus_def)

lemma upsertScore_frame [ctrl_frame, simp]:
  "opportunities (upsertScore r s) = opportunities s"
  "allocation_decisions (upsertScore r s) = allocation_decisions s"
  "authority_checks (upsertScore r s) = authority_checks s"
  "execution_records (upsertScore r s) = execution_records s"
  "tenants (upsertScore r s) = tenants s"
  "double_entry_ledger (upsertScore r s) = double_entry_ledger s"
  by (simp_all add: upsertScore_def)

lemma upsertAllocationDecision_frame [ctrl_frame, simp]:
  "opportunities (upsertAllocationDecision r s) = opportunities s"
  "scores (upsertAllocationDecision r s) = scores s"
  "authority_checks (upsertAllocationDecision r s) = authority_checks s"
  "execution_records (upsertAllocationDecision r s) = execution_records s"
  "tenants (upsertAllocationDecision r s) = tenants s"
  "double_entry_ledger (upsertAllocationDecision r s) = double_entry_ledger s"
  by (simp_all add: upsertAllocationDecision_def)

lemma upsertExecutionRecord_frame [ctrl_frame, simp]:
  "opportunities (upsertExecutionRecord r s) = opportunities s"
  "scores (upsertExecutionRecord r s) = scores s"
  "allocation_decisions (upsertExecutionRecord r s) = allocation_decisions s"
  "authority_checks (upsertExecutionRecord r s) = authority_checks s"
  "tenants (upsertExecutionRecord r s) = tenants s"
  "double_entry_ledger (upsertExecutionRecord r s) = double_entry_ledger s"
  by (simp_all add: upsertExecutionRecord_def)

lemma insertLedgerEntry_frame [ctrl_frame, simp]:
  "opportunities (insertLedgerEntry r s) = opportunities s"
  "scores (insertLedgerEntry r s) = scores s"
  "allocation_decisions (insertLedgerEntry r s) = allocation_decisions s"
  "authority_checks (insertLedgerEntry r s) = authority_checks s"
  "execution_records (insertLedgerEntry r s) = execution_records s"
  "tenants (insertLedgerEntry r s) = tenants s"
  "double_entry_ledger (insertLedgerEntry r s) = double_entry_ledger s"
  by (simp_all add: insertLedgerEntry_def)

lemma clearAuthorityChecks_frame [ctrl_frame, simp]:
  "opportunities (clearAuthorityChecksForOpportunity oid s) = opportunities s"
  "scores (clearAuthorityChecksForOpportunity oid s) = scores s"
  "allocation_decisions (clearAuthorityChecksForOpportunity oid s) = allocation_decisions s"
  "execution_records (clearAuthorityChecksForOpportunity oid s) = execution_records s"
  "tenants (clearAuthorityChecksForOpportunity oid s) = tenants s"
  "double_entry_ledger (clearAuthorityChecksForOpportunity oid s) = double_entry_ledger s"
  by (simp_all add: clearAuthorityChecksForOpportunity_def)

lemma getOpportunityById_updateStatus:
  "getOpportunityById (updateOpportunityStatus oid st s) k =
     (if k = oid
      then map_option (\<lambda>o'. o'\<lparr>o_status := next_status (o_status o') st\<rparr>) (getOpportunityById s k)
      else getOpportunityById s k)"
  by (simp add: getOpportunityById_def updateOpportunityStatus_def row_get_update)

lemma insertAuthorityCheck_present:
  assumes "getOpportunityById s (ac_opportunity_id c) \<noteq> None"
  shows "insertAuthorityCheck now c s = s\<lparr>authority_checks := authority_checks s @ [c]\<rparr>"
  using assms by (simp add: insertAuthorityCheck_def ensureOpportunity_def Let_def)

section \<open>The store invariant\<close>

text \<open>Primary keys are unique and every score, decision and execution record belongs
  to an opportunity (the foreign keys of the schema).\<close>

definition store_ok :: "store \<Rightarrow> bool" where
  "store_ok s \<longleftrightarrow>
     distinct (map o_id (opportunities s)) \<and>
     distinct (map s_opportunity_id (scores s)) \<and>
     distinct (map ad_opportunity_id (allocation_decisions s)) \<and>
     distinct (map er_opportunity_id (execution_records s)) \<and>
     s_opportunity_id ` set (scores s) \<subseteq> o_id ` set (opportunities s) \<and>
     ad_opportunity_id ` set (allocation_decisions s) \<subseteq> o_id ` set (opportunities s) \<and>
     er_opportunity_id ` set (execution_records s) \<subseteq> o_id ` set (opportunities s)"

lemma store_ok_empty: "store_ok empty_store"
  by (simp add: store_ok_def empty_store_def)

lemma store_ok_putOpportunity [ctrl_inv]: "store_ok s \<Longrightarrow> store_ok (putOpportunity r s)"
  by (auto simp: store_ok_def putOpportunity_def row_put_distinct row_put_keys_set)

lemma store_ok_updateStatus [ctrl_inv]: "store_ok s \<Longrightarrow> store_ok (updateOpportunityStatus oid st s)"
proof -
  have eq: "map o_id (opportunities (updateOpportunityStatus oid st s)) = map o_id (opportunities s)"
    by (simp add: updateOpportunityStatus_def row_update_keys)
  from arg_cong [OF eq, of set]
  have "o_id ` set (opportunities (updateOpportunityStatus oid st s)) = o_id ` set (opportunities s)"
    by simp
  with eq show "store_ok s \<Longrightarrow> ?thesis" by (simp add: store_ok_def)
qed

lemma store_ok_upsertScore [ctrl_inv]:
  "store_ok s \<Longrightarrow> s_opportunity_id r \<in> o_id ` set (opportunities s) \<Longrightarrow> store_ok (upsertScore r s)"
  by (auto simp: store_ok_def upsertScore_def row_put_distinct row_put_keys_set)

lemma store_ok_upsertAllocationDecision [ctrl_inv]:
  "store_ok s \<Longrightarrow> ad_opportunity_id r \<in> o_id ` set (opportunities s) \<Longrightarrow>
   store_ok (upsertAllocationDecision r s)"
  by (auto simp: store_ok_def upsertAllocationDecision_def row_put_distinct row_put_keys_set
        replace_merge_def)

lemma store_ok_upsertExecutionRecord [ctrl_inv]:
  "store_ok s \<Longrightarrow> er_opportunity_id r \<in> o_id ` set (opportunities s) \<Longrightarrow>
   store_ok (upsertExecutionRecord r s)"
  by (auto simp: store_ok_def upsertExecutionRecord_def row_put_distinct row_put_keys_set
        replace_merge_def)

lemma store_ok_insertAuthorityCheck [ctrl_inv]: "store_ok s \<Longrightarrow> store_ok (insertAuthorityCheck now c s)"
proof -
  assume "store_ok s"
  then have "store_ok (ensureOpportunity now oid s)" for oid
    by (simp add: ensureOpportunity_def store_ok_putOpportunity)
  then show ?thesis
    by (simp add: insertAuthorityCheck_def Let_def store_ok_def)
qed

lemma store_ok_frame_simps [ctrl_inv]:
  "store_ok s \<Longrightarrow> store_ok (clearAuthorityChecksForOpportunity oid s)"
  "store_ok s \<Longrightarrow> store_ok (insertLedgerEntry e s)"
  by (simp_all add: store_ok_def)

lemma getOpportunityById_ids: "getOpportunityById s oid \<noteq> None \<longleftrightarrow> oid \<in> o_id ` set (opportunities s)"
  by (simp add: getOpportunityById_def row_get_None)

lemma updateStatus_ids [simp]:
  "o_id ` set (opportunities (updateOpportunityStatus oid st s)) = o_id ` set (opportunities s)"
proof -
  have "map o_id (opportunities (updateOpportunityStatus oid st s)) = map o_id (opportunities s)"
    by (simp add: updateOpportunityStatus_def row_update_keys)
  from arg_cong [OF this, of set] show ?thesis by simp
qed

text \<open>Tenant scoping of reads.\<close>

lemma getAllOpportunities_scoped:
  "o' \<in> set (getAllOpportunities s (Some tid) env) \<Longrightarrow> tid \<noteq> [] \<Longrightarrow> owned_by tid o'"
  by (auto simp: getAllOpportunities_def truthy_str_def)

lemma getAllOpportunities_mem:
  "o' \<in> set (getAllOpportunities s tid env) \<Longrightarrow> o' \<in> set (opportunities s)"
  by (simp add: getAllOpportunities_def)

end
