(* ===== verification/JSON.thy ===== *)
theory JSON
  imports JS_Number
begin

text \<open>
  JSON values and \<^verbatim>\<open>JSON.stringify\<close>.  Numbers are finite doubles; object members keep their order, and a member whose value
  is \<^verbatim>\<open>undefined\<close> is left out by the caller (\<open>opt_member\<close>).
\<close>

datatype json =
    JNull
  | JBool bool
  | JNum rat
  | JStr string
  | JArr "json list"
  | JObj "(string \<times> json) list"

definition hex_digit :: "nat \<Rightarrow> char" where
  "hex_digit n = char_of (if n < 10 then 48 + n else 87 + n)"

definition escape_char :: "char \<Rightarrow> string" where
  "escape_char c =
     (let n = of_char c :: nat in
      if n = 34 then [char_of (92 :: nat), c]
      else if n = 92 then [c, c]
      else if n = 8 then [char_of (92 :: nat), CHR ''b'']
      else if n = 9 then [char_of (92 :: nat), CHR ''t'']
      else if n = 10 then [char_of (92 :: nat), CHR ''n'']
      else if n = 12 then [char_of (92 :: nat), CHR ''f'']
      else if n = 13 then [char_of (92 :: nat), CHR ''r'']
      else if n < 32 then [char_of (92 :: nat), CHR ''u'', CHR ''0'', CHR ''0'',
                           hex_digit (n div 16), hex_digit (n mod 16)]
      else [c])"

definition quote_str :: "string \<Rightarrow> string" where
  "quote_str s = [char_of (34 :: nat)] @ concat (map escape_char s) @ [char_of (34 :: nat)]"

fun join_with :: "string \<Rightarrow> string list \<Rightarrow> string" where
  "join_with sep [] = []"
| "join_with sep [x] = x"
| "join_with sep (x # y # zs) = x @ sep @ join_with sep (y # zs)"

primrec stringify :: "json \<Rightarrow> string" where
  "stringify JNull = ''null''"
| "stringify (JBool b) = (if b then ''true'' else ''false'')"
| "stringify (JNum n) = show_number n"
| "stringify (JStr s) = quote_str s"
| "stringify (JArr xs) = ''['' @ join_with '','' (map stringify xs) @ '']''"
| "stringify (JObj ms) =
     ''{'' @ join_with '','' (map (\<lambda>(k, v). quote_str k @ '':'' @ v)
                                (map (map_prod id stringify) ms)) @ ''}''"

definition opt_member :: "string \<Rightarrow> string option \<Rightarrow> (string \<times> json) list" where
  "opt_member k v = (case v of None \<Rightarrow> [] | Some s \<Rightarrow> [(k, JStr s)])"

text \<open>A text free of characters that need escaping appears verbatim in the output.\<close>

definition plain_char :: "char \<Rightarrow> bool" where
  "plain_char c = (let n = of_char c :: nat in 32 \<le> n \<and> n \<noteq> 34 \<and> n \<noteq> 92)"

lemma escape_plain: "plain_char c \<Longrightarrow> escape_char c = [c]"
  by (simp add: plain_char_def escape_char_def Let_def)

lemma concat_escape_plain: "list_all plain_char s \<Longrightarrow> concat (map escape_char s) = s"
  by (induction s) (auto simp: escape_plain)

lemma join_with_includes: "x \<in> set xs \<Longrightarrow> \<exists>a b. join_with sep xs = a @ x @ b"
proof (induction sep xs rule: join_with.induct)
  case (2 sep y)
  then have "join_with sep [y] = [] @ x @ []" by simp
  then show ?case by blast
next
  case (3 sep x' y zs)
  show ?case
  proof (cases "x = x'")
    case True
    then have "join_with sep (x' # y # zs) = [] @ x @ (sep @ join_with sep (y # zs))" by simp
    then show ?thesis by blast
  next
    case False
    with 3 obtain a b where "join_with sep (y # zs) = a @ x @ b" by auto
    then have "join_with sep (x' # y # zs) = (x' @ sep @ a) @ x @ b" by simp
    then show ?thesis by blast
  qed
qed auto

text \<open>String values that occur in a document.\<close>

fun json_strings :: "json \<Rightarrow> string set" where
  "json_strings (JStr s) = {s}"
| "json_strings (JArr xs) = (\<Union>x \<in> set xs. json_strings x)"
| "json_strings (JObj ms) = (\<Union>m \<in> set ms. json_strings (snd m))"
| "json_strings _ = {}"

lemma stringify_contains:
  "s \<in> json_strings j \<Longrightarrow> sublist (concat (map escape_char s)) (stringify j)"
proof (induction j)
  case (JStr t)
  then show ?case by (simp add: quote_str_def sublist_Cons_right)
next
  case (JArr xs)
  then obtain x where x: "x \<in> set xs" "s \<in> json_strings x" by auto
  with JArr.IH have sub: "sublist (concat (map escape_char s)) (stringify x)" by blast
  from x(1) have "stringify x \<in> set (map stringify xs)" by simp
  then obtain a b where "join_with '','' (map stringify xs) = a @ stringify x @ b"
    using join_with_includes by blast
  then have eq: "stringify (JArr xs) = (''['' @ a) @ stringify x @ (b @ '']'')" by simp
  show ?case unfolding eq by (rule sublist_embed [OF sub])
next
  case (JObj ms)
  then obtain m where m: "m \<in> set ms" "s \<in> json_strings (snd m)" by auto
  with JObj.IH [of m "snd m"] have sub: "sublist (concat (map escape_char s)) (stringify (snd m))"
    by (cases m) auto
  let ?ys = "map (\<lambda>(k, v). quote_str k @ '':'' @ v) (map (map_prod id stringify) ms)"
  have "quote_str (fst m) @ '':'' @ stringify (snd m) \<in> set ?ys"
    using imageI [OF m(1), of "\<lambda>x. quote_str (fst x) @ '':'' @ stringify (snd x)"]
    by (simp add: image_image case_prod_unfold)
  then obtain a b where "join_with '','' ?ys = a @ (quote_str (fst m) @ '':'' @ stringify (snd m)) @ b"
    using join_with_includes by blast
  then have eq: "stringify (JObj ms) =
      (''{'' @ a @ quote_str (fst m) @ '':'') @ stringify (snd m) @ (b @ ''}'')" by simp
  show ?case unfolding eq by (rule sublist_embed [OF sub])
qed auto

end
