(* ===== verification/Perception.thy ===== *)
theory Perception
  imports Store JSON
begin

text \<open>
  Perception (\<^verbatim>\<open>src/perception/normalizer.ts\<close>): the decline taxonomy and the
  normalisation of a payment entity into a recovery opportunity.  The clock is an
  argument: \<open>now\<close> is \<^verbatim>\<open>new Date().toISOString()\<close> and \<open>now_ms\<close> is \<^verbatim>\<open>Date.now()\<close>.
\<close>

section \<open>Decline taxonomy\<close>

definition HARD_DECLINE_PATTERNS :: "string list" where
  "HARD_DECLINE_PATTERNS =
     [''stolen_card'', ''lost_card'', ''pickup_card'', ''pick_up_card'', ''restricted_card'',
      ''card_stolen_lost'', ''card_stolen'', ''card_lost'', ''card_pickup'', ''card_restricted'',
      ''bad_request_payment_card_stolen_or_lost'', ''bad_request_payment_card_pick_up'',
      ''bad_request_payment_card_restricted'', ''invalid_vpa'', ''vpa_not_found'',
      ''account_blocked'', ''account_frozen'', ''npci_xb'']"

definition SOFT_DECLINE_PATTERNS :: "string list" where
  "SOFT_DECLINE_PATTERNS =
     [''insufficient_funds'', ''expired_card'', ''card_expired'', ''generic_decline'',
      ''do_not_honor'', ''bank_gateway_timeout'', ''gateway_timeout'', ''network_timeout'',
      ''bank_network_timeout'', ''gateway_error'', ''payment_authentication_failed'',
      ''transaction_not_permitted'', ''limit_exceeded'', ''otp_timeout'', ''card_inactive'',
      ''temporarily_unavailable'', ''bad_request_payment_insufficient_funds'',
      ''bad_request_payment_card_expired'', ''bad_request_payment_declined_by_bank'',
      ''bad_request_payment_do_not_honor'', ''bad_request_payment_authentication_failed'',
      ''npci_u30'', ''transaction_limit_exceeded'', ''npci_u69'', ''collect_request_expired'',
      ''npci_za'', ''payment_cancelled_by_user'', ''invalid_mpin'', ''npci_zm'', ''npci_zh'',
      ''user_dropped'']"

definition soft_keywords :: "string list" where
  "soft_keywords = [''insufficient'', ''timeout'', ''network'', ''expired'', ''do_not_honor'',
     ''honor'', ''authentication'', ''temporary'']"

definition classifyDeclineTaxonomy :: "string option \<Rightarrow> string option \<Rightarrow> decline_type" where
  "classifyDeclineTaxonomy errorCode errorReason =
     (let code = toLowerCase (trim (or_opt errorCode ''''));
          reason = toLowerCase (trim (or_opt errorReason ''''));
          combined = trim (code @ '' '' @ reason)
      in if combined = '''' then Unknown
         else if \<exists>p \<in> set HARD_DECLINE_PATTERNS. includes_str code p \<or> includes_str reason p then Hard
         else if \<exists>p \<in> set SOFT_DECLINE_PATTERNS. includes_str code p \<or> includes_str reason p then Soft
         else if \<exists>k \<in> set soft_keywords. includes_str combined k then Soft
         else Unknown)"

section \<open>Normalisation\<close>

record raw_payload =
  rp_id :: "string option"
  rp_amount :: "int option"
  rp_currency :: "string option"
  rp_error_code :: "string option"
  rp_error_reason :: "string option"
  rp_error_source :: "string option"
  rp_error_step :: "string option"
  rp_error_description :: "string option"
  rp_customer_id :: "string option"
  rp_email :: "string option"
  rp_contact :: "string option"
  rp_attempts :: "int option"
  rp_order_id :: "string option"
  rp_notes :: "json option"

record normalize_options =
  no_source :: "opportunity_source option"
  no_tenantId :: "string option"
  no_environment :: "environment option"

definition slice_last :: "nat \<Rightarrow> string \<Rightarrow> string" where
  "slice_last n s = drop (length s - n) s"

definition payment_id_of :: "int \<Rightarrow> raw_payload \<Rightarrow> string" where
  "payment_id_of now_ms p = or_opt (rp_id p) (''pay_'' @ show_int now_ms)"

definition customer_id_of :: "int \<Rightarrow> raw_payload \<Rightarrow> string" where
  "customer_id_of now_ms p =
     or_opt (rp_customer_id p) (or_opt (rp_email p) (or_opt (rp_contact p)
       (''cust_'' @ slice_last 8 (payment_id_of now_ms p))))"

definition raw_payload_ref_of :: "raw_payload \<Rightarrow> string" where
  "raw_payload_ref_of p =
     stringify (JObj
       ([(''error_source'', JStr (or_opt (rp_error_source p) ''gateway'')),
         (''error_step'', JStr (or_opt (rp_error_step p) ''payment_authorization'')),
         (''error_reason'', JStr (or_opt (rp_error_reason p)
             (or_opt (rp_error_description p) ''Payment failed''))),
         (''error_code'', JStr (or_opt (rp_error_code p) ''UNKNOWN_ERROR''))]
        @ opt_member ''order_id'' (rp_order_id p)
        @ opt_member ''email'' (rp_email p)
        @ opt_member ''contact'' (rp_contact p)
        @ (case rp_notes p of None \<Rightarrow> [] | Some j \<Rightarrow> [(''notes'', j)])))"

definition attempt_count_of :: "int \<Rightarrow> raw_payload \<Rightarrow> store \<Rightarrow> int" where
  "attempt_count_of now_ms p s =
     (case rp_attempts p of
        Some a \<Rightarrow> if a < 1
                  then int (countPriorAttempts s (customer_id_of now_ms p)
                         (Some (or_opt (rp_order_id p) (payment_id_of now_ms p))) None) + 1
                  else a
      | None \<Rightarrow> int (countPriorAttempts s (customer_id_of now_ms p)
                         (Some (or_opt (rp_order_id p) (payment_id_of now_ms p))) None) + 1)"

definition normalizeOpportunity ::
  "string \<Rightarrow> int \<Rightarrow> raw_payload \<Rightarrow> string option \<Rightarrow> normalize_options \<Rightarrow> store \<Rightarrow>
   opportunity \<times> store" where
  "normalizeOpportunity now now_ms p eventId options s =
     (let errorCode = or_opt (rp_error_code p) ''UNKNOWN_ERROR'';
          errorReason = or_opt (rp_error_reason p)
                          (or_opt (rp_error_description p) ''Payment failed'');
          (customer, s1) = getOrCreateCustomer now (customer_id_of now_ms p) (lit 65 2)
                             ''tenant_system_default'' s;
          tenant = or_opt (no_tenantId options) ''tenant_default''
      in (\<lparr>o_id = payment_id_of now_ms p,
           o_source = (case no_source options of None \<Rightarrow> Src_real | Some x \<Rightarrow> x),
           o_amount_paise = (case rp_amount p of None \<Rightarrow> 0 | Some a \<Rightarrow> a),
           o_currency = or_opt (rp_currency p) ''INR'',
           o_reason_code = errorCode,
           o_decline_type = classifyDeclineTaxonomy (Some errorCode) (Some errorReason),
           o_attempt_count = attempt_count_of now_ms p s1,
           o_customer_id = cu_id customer,
           o_customer_trust_score = cu_trust_score customer,
           o_created_at = now,
           o_status = Pending,
           o_tenant_id = tenant,
           o_merchant_id = tenant,
           o_environment = (case no_environment options of None \<Rightarrow> Env_test | Some e \<Rightarrow> e),
           o_razorpay_event_id = (if truthy_str eventId then eventId else None),
           o_raw_payload_ref = Some (raw_payload_ref_of p)\<rparr>, s1))"

section \<open>Facts about the taxonomy\<close>

lemma lower_ws_iff: "is_ws (lower_char c) = is_ws c"
proof -
  have "(of_char c :: nat) < 256" by simp
  then show ?thesis
    by (auto simp: is_ws_def lower_char_def Let_def of_char_of)
qed

lemma dropWhile_sublist:
  assumes "\<forall>c \<in> set p. \<not> is_ws c" and "p \<noteq> []"
  shows "sublist p (dropWhile is_ws s) \<longleftrightarrow> sublist p s"
proof (induction s)
  case (Cons c s)
  show ?case
  proof (cases "is_ws c")
    case True
    then have "\<not> prefix p (c # s)" using assms by (cases p) auto
    with True Cons show ?thesis by (simp add: sublist_Cons_right)
  qed simp
qed simp

lemma trim_sublist:
  assumes "\<forall>c \<in> set p. \<not> is_ws c" and "p \<noteq> []"
  shows "sublist p (trim s) \<longleftrightarrow> sublist p s"
proof -
  have rv: "sublist p (rev t) \<longleftrightarrow> sublist (rev p) t" for t
    by (metis rev_rev_ident sublist_rev)
  show ?thesis
    unfolding trim_def rv using assms
    by (simp add: dropWhile_sublist sublist_rev)
qed

lemma trim_toLowerCase: "trim (toLowerCase s) = toLowerCase (trim s)"
  by (simp add: trim_def toLowerCase_def dropWhile_map rev_map o_def lower_ws_iff)

lemma sublist_trim_lower:
  assumes "\<forall>c \<in> set p. \<not> is_ws c" and "p \<noteq> []"
  shows "includes_str (toLowerCase (trim s)) p \<longleftrightarrow> sublist p (toLowerCase s)"
  using trim_sublist [OF assms, of "toLowerCase s"]
  by (simp add: includes_str_iff trim_toLowerCase)

lemma pattern_clean:
  "p \<in> set HARD_DECLINE_PATTERNS \<Longrightarrow> (\<forall>c \<in> set p. \<not> is_ws c) \<and> p \<noteq> []"
  by (auto simp: HARD_DECLINE_PATTERNS_def is_ws_def)

lemma combined_empty:
  assumes "trim (a @ '' '' @ b) = []" and "\<forall>c \<in> set p. \<not> is_ws c" and "p \<noteq> []"
  shows "\<not> sublist p a" and "\<not> sublist p b"
proof -
  have no: "\<not> sublist p (a @ '' '' @ b)"
    using trim_sublist [OF assms(2,3), of "a @ '' '' @ b"] assms(1,3) by simp
  show "\<not> sublist p a" using no sublist_embed [of p a "[]" "'' '' @ b"] by auto
  show "\<not> sublist p b" using no sublist_embed [of p b "a @ '' ''" "[]"] by auto
qed

lemma classify_hard_iff:
  "classifyDeclineTaxonomy c r = Hard \<longleftrightarrow>
   (\<exists>p \<in> set HARD_DECLINE_PATTERNS.
      sublist p (toLowerCase (or_opt c '''')) \<or> sublist p (toLowerCase (or_opt r '''')))"
proof -
  let ?code = "toLowerCase (trim (or_opt c ''''))"
  let ?reason = "toLowerCase (trim (or_opt r ''''))"
  let ?H = "\<exists>p \<in> set HARD_DECLINE_PATTERNS. includes_str ?code p \<or> includes_str ?reason p"
  have H: "?H \<longleftrightarrow> (\<exists>p \<in> set HARD_DECLINE_PATTERNS.
      sublist p (toLowerCase (or_opt c '''')) \<or> sublist p (toLowerCase (or_opt r '''')))"
    using pattern_clean by (intro bex_cong refl) (simp add: sublist_trim_lower)
  have "trim (?code @ '' '' @ ?reason) \<noteq> []" if ?H
    using that combined_empty [of ?code ?reason] pattern_clean
    unfolding includes_str_iff by blast
  then have "classifyDeclineTaxonomy c r = Hard \<longleftrightarrow> ?H"
    unfolding classifyDeclineTaxonomy_def Let_def by auto
  with H show ?thesis by simp
qed

section \<open>Facts about normalisation\<close>

lemma getOrCreateCustomer_id: "cu_id (fst (getOrCreateCustomer now cid t tid s)) = cid"
  by (auto simp: getOrCreateCustomer_def getCustomerById_def find_Some_iff Let_def
        split: option.split)

lemma getOrCreateCustomer_frame:
  "opportunities (snd (getOrCreateCustomer now cid t tid s)) = opportunities s"
  "scores (snd (getOrCreateCustomer now cid t tid s)) = scores s"
  "allocation_decisions (snd (getOrCreateCustomer now cid t tid s)) = allocation_decisions s"
  "execution_records (snd (getOrCreateCustomer now cid t tid s)) = execution_records s"
  by (auto simp: getOrCreateCustomer_def Let_def split: option.split)

lemma countPriorAttempts_cong:
  "opportunities s = opportunities t \<Longrightarrow> countPriorAttempts s = countPriorAttempts t"
  by (intro ext) (simp add: countPriorAttempts_def)

lemma sql_like_pct: "sql_like ps t \<Longrightarrow> sql_like (CHR ''%'' # ps) t"
  by (cases t) auto

lemma sql_like_self: "sql_like q t \<Longrightarrow> sql_like (p @ q) (p @ t)"
  by (induction p) (auto intro: sql_like_pct)

lemma sql_like_suffix: "sql_like (CHR ''%'' # p) t \<Longrightarrow> sql_like (CHR ''%'' # p) (a @ t)"
  by (induction a) auto

lemma sql_like_any: "sql_like ''%'' t"
  by (induction t) auto

lemma sql_like_contains: "sublist p t \<Longrightarrow> sql_like (''%'' @ p @ ''%'') t"
  unfolding sublist_def
  using sql_like_suffix sql_like_pct [OF sql_like_self [OF sql_like_any]] by fastforce

lemma row_put_new: "key r \<notin> key ` set rows \<Longrightarrow> row_put key m r rows = rows @ [m None r]"
  by (induction rows) auto

lemma countPriorAttempts_put:
  assumes "o_id r \<notin> o_id ` set (opportunities s)" and "o_customer_id r = cid" and "sub \<noteq> []"
    and "o_raw_payload_ref r = Some ref" and "sublist sub ref"
  shows "countPriorAttempts (putOpportunity r s) cid (Some sub) None =
         Suc (countPriorAttempts s cid (Some sub) None)"
  using assms sql_like_contains [OF assms(5)]
  by (simp add: countPriorAttempts_def putOpportunity_def row_put_new truthy_str_def
        opp_merge_def Let_def)

lemma raw_payload_ref_order:
  assumes "rp_order_id p = Some oid" and "list_all plain_char oid"
  shows "sublist oid (raw_payload_ref_of p)"
proof -
  have "sublist (concat (map escape_char oid)) (raw_payload_ref_of p)"
    unfolding raw_payload_ref_of_def
    by (rule stringify_contains) (simp add: assms opt_member_def)
  with assms show ?thesis by (simp add: concat_escape_plain)
qed

lemma normalize_fields:
  assumes "normalizeOpportunity now now_ms p ev opts s = (opp, s1)"
  shows "o_id opp = payment_id_of now_ms p" "o_customer_id opp = customer_id_of now_ms p"
    "o_attempt_count opp = attempt_count_of now_ms p s" "o_status opp = Pending"
    "o_raw_payload_ref opp = Some (raw_payload_ref_of p)"
    "opportunities s1 = opportunities s"
    "o_decline_type opp = classifyDeclineTaxonomy (Some (or_opt (rp_error_code p) ''UNKNOWN_ERROR''))
       (Some (or_opt (rp_error_reason p) (or_opt (rp_error_description p) ''Payment failed'')))"
    "o_tenant_id opp = or_opt (no_tenantId opts) ''tenant_default''"
    "scores s1 = scores s" "allocation_decisions s1 = allocation_decisions s"
    "execution_records s1 = execution_records s"
proof -
  obtain c t where g: "getOrCreateCustomer now (customer_id_of now_ms p) (lit 65 2)
      ''tenant_system_default'' s = (c, t)" by fastforce
  have c: "cu_id c = customer_id_of now_ms p"
    using getOrCreateCustomer_id [of now "customer_id_of now_ms p" "lit 65 2" "''tenant_system_default''" s]
    by (simp add: g)
  have t: "opportunities t = opportunities s" "scores t = scores s"
    "allocation_decisions t = allocation_decisions s" "execution_records t = execution_records s"
    using getOrCreateCustomer_frame [of now "customer_id_of now_ms p" "lit 65 2" "''tenant_system_default''" s]
    by (simp_all add: g)
  have at: "attempt_count_of now_ms p t = attempt_count_of now_ms p s"
    unfolding attempt_count_of_def countPriorAttempts_cong [OF t(1)] by (rule refl)
  note e = assms [symmetric, unfolded normalizeOpportunity_def Let_def g prod.case prod.inject]
  show "o_id opp = payment_id_of now_ms p" "o_customer_id opp = customer_id_of now_ms p"
    "o_attempt_count opp = attempt_count_of now_ms p s" "o_status opp = Pending"
    "o_raw_payload_ref opp = Some (raw_payload_ref_of p)"
    "opportunities s1 = opportunities s"
    "o_decline_type opp = classifyDeclineTaxonomy (Some (or_opt (rp_error_code p) ''UNKNOWN_ERROR''))
       (Some (or_opt (rp_error_reason p) (or_opt (rp_error_description p) ''Payment failed'')))"
    "o_tenant_id opp = or_opt (no_tenantId opts) ''tenant_default''"
    "scores s1 = scores s" "allocation_decisions s1 = allocation_decisions s"
    "execution_records s1 = execution_records s"
    using c t at by (simp_all add: e)
qed

lemma payment_id_nonempty: "payment_id_of now_ms p \<noteq> []"
  by (simp add: payment_id_of_def or_opt_nonempty)

lemma customer_id_nonempty: "customer_id_of now_ms p \<noteq> []"
  by (simp add: customer_id_of_def or_opt_nonempty)

lemma attempt_count_pos: "1 \<le> attempt_count_of now_ms p s"
  by (simp add: attempt_count_of_def split: option.split)

section \<open>Properties\<close>

text \<open>
  A decline is classified hard exactly when one of the hard patterns occurs in
  the error code or in the error reason, in any letter case, with any surrounding
  white space and whatever soft pattern occurs beside it: neither trimming nor the
  later soft rules can hide an issuer block.
\<close>

theorem hard_decline_iff:
  "classifyDeclineTaxonomy c r = Hard \<longleftrightarrow>
   (\<exists>p \<in> set HARD_DECLINE_PATTERNS. \<exists>t \<in> {or_opt c '''', or_opt r ''''}. sublist p (toLowerCase t))"
  using classify_hard_iff [of c r] by auto

theorem hard_decline_iff_witness:
  "classifyDeclineTaxonomy (Some ''  x_STOLEN_CARD'') (Some ''gateway_timeout'') = Hard"
proof -
  have low: "toLowerCase ''  x_STOLEN_CARD'' = ''  x_stolen_card''" by code_simp
  have "sublist ''stolen_card'' (toLowerCase ''  x_STOLEN_CARD'')"
    unfolding low by (simp add: sublist_Cons_right)
  then have "\<exists>p \<in> set HARD_DECLINE_PATTERNS.
      \<exists>t \<in> {or_opt (Some ''  x_STOLEN_CARD'') '''', or_opt (Some ''gateway_timeout'') ''''}.
        sublist p (toLowerCase t)"
    by (auto simp: HARD_DECLINE_PATTERNS_def or_opt_def or_str_def)
  then show ?thesis using hard_decline_iff by blast
qed

text \<open>
  C35. Normalisation is total and its result enters the pipeline well formed: a
  nonempty payment and customer id, the status \<^verbatim>\<open>pending\<close>, at least one attempt, the
  decline type of the payload's code and reason; it keeps the store invariant and
  touches no table but the customers.
\<close>

theorem normalize_well_formed:
  assumes "store_ok s"
  shows "case normalizeOpportunity now now_ms p ev opts s of (opp, s1) \<Rightarrow>
     o_id opp \<noteq> [] \<and> o_customer_id opp \<noteq> [] \<and> o_tenant_id opp \<noteq> [] \<and>
     o_status opp = Pending \<and> 1 \<le> o_attempt_count opp \<and>
     opportunities s1 = opportunities s \<and> store_ok s1 \<and> store_ok (putOpportunity opp s1)"
proof -
  obtain opp s1 where eq: "normalizeOpportunity now now_ms p ev opts s = (opp, s1)"
    by (cases "normalizeOpportunity now now_ms p ev opts s")
  note f = normalize_fields [OF eq]
  have ok: "store_ok s1" using assms f by (simp add: store_ok_def)
  show ?thesis
    using f ok store_ok_putOpportunity [OF ok, of opp]
    by (simp add: eq payment_id_nonempty customer_id_nonempty attempt_count_pos or_opt_nonempty)
qed

definition sample_payload :: "string \<Rightarrow> raw_payload" where
  "sample_payload pid = \<lparr>rp_id = Some pid, rp_amount = Some 185000, rp_currency = None,
     rp_error_code = Some ''insufficient_funds'', rp_error_reason = None, rp_error_source = None,
     rp_error_step = None, rp_error_description = None, rp_customer_id = Some ''c1'',
     rp_email = None, rp_contact = None, rp_attempts = None, rp_order_id = Some ''ord_1'',
     rp_notes = None\<rparr>"

definition sample_options :: normalize_options where
  "sample_options = \<lparr>no_source = None, no_tenantId = Some ''t1'', no_environment = None\<rparr>"

theorem normalize_well_formed_witness:
  "store_ok empty_store \<and>
   o_status (fst (normalizeOpportunity ''2026'' 5 (sample_payload ''pay_1'') None sample_options
     empty_store)) = Pending"
  using normalize_well_formed [OF store_ok_empty, of "''2026''" 5 "sample_payload ''pay_1''" None
      sample_options] store_ok_empty
  by (auto simp: case_prod_unfold)

text \<open>
  Retries of one order are counted: when the opportunity of a first attempt has
  been stored, normalising the next payment of the same customer and order gives an
  attempt count one higher, whatever the tenants of the two are.
\<close>

theorem retry_counts_up:
  assumes "normalizeOpportunity now now_ms p ev opts s = (opp, s1)"
    and "o_id opp \<notin> o_id ` set (opportunities s)"
    and "rp_order_id p = Some ord" and "ord \<noteq> []" and "list_all plain_char ord"
    and "rp_attempts p = None"
    and "rp_order_id q = Some ord" and "rp_attempts q = None"
    and "customer_id_of now_ms' q = o_customer_id opp"
  shows "o_attempt_count (fst (normalizeOpportunity now' now_ms' q ev' opts' (putOpportunity opp s1)))
         = o_attempt_count opp + 1"
proof -
  note f = normalize_fields [OF assms(1)]
  obtain opp2 s2 where eq2: "normalizeOpportunity now' now_ms' q ev' opts' (putOpportunity opp s1) = (opp2, s2)"
    by fastforce
  note g = normalize_fields [OF eq2]
  have "countPriorAttempts (putOpportunity opp s1) (o_customer_id opp) (Some ord) None =
        Suc (countPriorAttempts s1 (o_customer_id opp) (Some ord) None)"
    using assms f raw_payload_ref_order [OF assms(3,5)]
    by (intro countPriorAttempts_put [of _ _ _ _ "raw_payload_ref_of p"]) simp_all
  with assms f g show ?thesis
    by (simp add: eq2 attempt_count_of_def or_opt_def or_str_def
          countPriorAttempts_cong [of s1 s])
qed

theorem retry_counts_up_witness:
  "o_attempt_count (fst (normalizeOpportunity ''2026'' 5 (sample_payload ''pay_2'') None sample_options
     (case normalizeOpportunity ''2026'' 5 (sample_payload ''pay_1'') None sample_options empty_store of
        (opp, s1) \<Rightarrow> putOpportunity opp s1))) = 2"
proof -
  obtain opp s1 where eq: "normalizeOpportunity ''2026'' 5 (sample_payload ''pay_1'') None
      sample_options empty_store = (opp, s1)" by fastforce
  note f = normalize_fields [OF eq]
  have one: "o_attempt_count opp = 1"
    using f(3) by (simp add: attempt_count_of_def sample_payload_def countPriorAttempts_def
        empty_store_def)
  have "o_attempt_count (fst (normalizeOpportunity ''2026'' 5 (sample_payload ''pay_2'') None
      sample_options (putOpportunity opp s1))) = o_attempt_count opp + 1"
    by (rule retry_counts_up [OF eq, where ord = "''ord_1''"])
       (simp_all add: f(2) sample_payload_def empty_store_def plain_char_def customer_id_of_def
          or_opt_def or_str_def)
  with one show ?thesis by (simp add: eq)
qed

end
