(* ===== verification/Truth.thy ===== *)
theory Truth
  imports Lifecycle
begin

text \<open>
  What the payment provider says about a link: the evaluator of
  \<^verbatim>\<open>src/truth/provider_truth.ts\<close> and the mapping of
  \<^verbatim>\<open>src/truth/canonical_state_machine.ts\<close>, whose transition table is in \<open>Lifecycle\<close>.
  Amounts are the integers the provider sends; a member that is missing is \<open>None\<close>.  A
  message that has the rupee sign has \<^verbatim>\<open>Rs.\<close> here.
\<close>

datatype source_env = RAZORPAY_TEST_env | SYNTHETIC_env | FIXTURE_env

datatype evidence_class =
    CODE_ONLY | UNIT_TEST_VERIFIED | INTEGRATION_VERIFIED | SYNTHETIC_VERIFIED | SYNTHETIC
  | RAZORPAY_TEST | FIXTURE | RAZORPAY_TEST_VERIFIED | PROVIDER_VERIFIED | PARTIAL | UNVERIFIED

datatype evidence_state =
    LINK_CREATED | PROVIDER_OBJECT_VERIFIED | PAYMENT_PENDING | PAYMENT_CONFIRMED
  | PROVIDER_RECOVERY_VERIFIED | PAYMENT_FAILED | EXPIRED

datatype reconciliation_status = R_CONFIRMED | R_PENDING | R_MISMATCH

record provider_payload =
  pp_id :: string
  pp_status :: "string option"
  pp_amount :: "int option"
  pp_amount_paid :: "int option"
  pp_payments :: "string list option"
  pp_source_env :: "source_env option"

record truth_evaluation =
  te_payment_link_id :: string
  te_provider_status :: string
  te_amount_paise :: int
  te_amount_paid_paise :: int
  te_payment_id :: "string option"
  te_evidence_state :: evidence_state
  te_evidence_class :: evidence_class
  te_payment_confirmed :: bool
  te_is_recovered :: bool
  te_reconciliation_status :: reconciliation_status
  te_rationale :: string
  te_verified_at :: string

definition squote :: "string \<Rightarrow> string" where
  "squote s = [CHR 0x27] @ s @ [CHR 0x27]"

definition or_zero :: "int option \<Rightarrow> int" where
  "or_zero x = (case x of None \<Rightarrow> 0 | Some n \<Rightarrow> n)"

fun env_class :: "source_env \<Rightarrow> evidence_class" where
  "env_class RAZORPAY_TEST_env = RAZORPAY_TEST"
| "env_class SYNTHETIC_env = SYNTHETIC"
| "env_class FIXTURE_env = FIXTURE"

fun verified_class :: "source_env \<Rightarrow> evidence_class" where
  "verified_class RAZORPAY_TEST_env = RAZORPAY_TEST_VERIFIED"
| "verified_class e = env_class e"

definition provider_status_of :: "provider_payload \<Rightarrow> string" where
  "provider_status_of p = toLowerCase (or_opt (pp_status p) ''unknown'')"

definition first_payment :: "provider_payload \<Rightarrow> string option" where
  "first_payment p = (case pp_payments p of Some (x # _) \<Rightarrow> Some x | _ \<Rightarrow> None)"

definition evaluate :: "string \<Rightarrow> provider_payload \<Rightarrow> truth_evaluation" where
  "evaluate now p =
     (let status = provider_status_of p;
          amount = or_zero (pp_amount p);
          amountPaid = or_zero (pp_amount_paid p);
          sourceEnv = (case pp_source_env p of None \<Rightarrow> RAZORPAY_TEST_env | Some e \<Rightarrow> e);
          base = \<lparr>te_payment_link_id = pp_id p, te_provider_status = status, te_amount_paise = amount,
                  te_amount_paid_paise = amountPaid, te_payment_id = first_payment p,
                  te_evidence_state = PAYMENT_PENDING, te_evidence_class = UNVERIFIED,
                  te_payment_confirmed = False, te_is_recovered = False,
                  te_reconciliation_status = R_PENDING,
                  te_rationale = ''Provider status '' @ squote status @ '' does not confirm completed payment.'',
                  te_verified_at = now\<rparr>
      in if status \<in> {''paid'', ''captured''} \<and> 0 < amountPaid
         then base\<lparr>te_evidence_state := PROVIDER_RECOVERY_VERIFIED,
                   te_evidence_class := verified_class sourceEnv,
                   te_payment_confirmed := True, te_is_recovered := True,
                   te_reconciliation_status := R_CONFIRMED,
                   te_rationale := ''Provider confirmed successful payment (Status: '' @ status @
                     '', Amount Paid: Rs.'' @ show_rupees amountPaid @ '').''\<rparr>
         else if status \<in> {''created'', ''issued'', ''simulated''} \<or> status = ''partially_paid'' \<and> amountPaid = 0
         then base\<lparr>te_evidence_state := PROVIDER_OBJECT_VERIFIED,
                   te_evidence_class := (if status = ''simulated'' then SYNTHETIC else env_class sourceEnv),
                   te_rationale := ''Provider object queried successfully (Status: '' @ status @
                     ''), but payment is NOT confirmed (Amount Paid: Rs.'' @ show_rupees amountPaid @
                     ''). Invariant: LINK_CREATED != RECOVERED.''\<rparr>
         else if status = ''partially_paid'' \<and> 0 < amountPaid
         then base\<lparr>te_evidence_state := PROVIDER_OBJECT_VERIFIED, te_evidence_class := PARTIAL,
                   te_reconciliation_status := R_MISMATCH,
                   te_rationale := ''Partial payment detected (Paid: Rs.'' @ show_rupees amountPaid @
                     '' vs Total: Rs.'' @ show_rupees amount @ ''). Quarantined as MISMATCH.''\<rparr>
         else if status \<in> {''expired'', ''cancelled''}
         then base\<lparr>te_evidence_state := EXPIRED, te_evidence_class := env_class sourceEnv,
                   te_reconciliation_status := R_CONFIRMED,
                   te_rationale := ''Provider link expired or cancelled without payment.''\<rparr>
         else base)"

section \<open>The canonical state\<close>

record state_mapping =
  sm_canonical_state :: canonical_state
  sm_is_terminal :: bool
  sm_is_settled :: bool
  sm_requires_reconciliation :: bool
  sm_rationale :: string

definition partial_mapping :: "int \<Rightarrow> int \<Rightarrow> state_mapping" where
  "partial_mapping amount amountPaid =
     \<lparr>sm_canonical_state = C_MISMATCH, sm_is_terminal = False, sm_is_settled = False,
      sm_requires_reconciliation = True,
      sm_rationale = ''Partial payment detected (Paid: Rs.'' @ show_rupees amountPaid @
        '' vs Total: Rs.'' @ show_rupees amount @ ''). Quarantined as MISMATCH.''\<rparr>"

definition closed_mapping :: "canonical_state \<Rightarrow> string \<Rightarrow> state_mapping" where
  "closed_mapping c why = \<lparr>sm_canonical_state = c, sm_is_terminal = True, sm_is_settled = False,
     sm_requires_reconciliation = True, sm_rationale = why\<rparr>"

definition mapRazorpayStatusToCanonicalState :: "string \<Rightarrow> int \<Rightarrow> int \<Rightarrow> state_mapping" where
  "mapRazorpayStatusToCanonicalState status amount amountPaid =
     (let rawStatus = toLowerCase (or_str status ''unknown'')
      in if rawStatus \<in> {''paid'', ''captured''} \<and> 0 < amountPaid
         then (if 0 < amount \<and> amountPaid < amount then partial_mapping amount amountPaid
               else \<lparr>sm_canonical_state = C_PAYMENT_CONFIRMED, sm_is_terminal = True, sm_is_settled = True,
                     sm_requires_reconciliation = True,
                     sm_rationale = ''Provider confirmed successful payment settlement (Status: '' @ squote rawStatus @
                       '', Paid: Rs.'' @ show_rupees amountPaid @ '').''\<rparr>)
         else if rawStatus = ''partially_paid'' \<and> 0 < amountPaid then partial_mapping amount amountPaid
         else if rawStatus \<in> {''created'', ''issued'', ''simulated''} \<or> rawStatus = ''partially_paid'' \<and> amountPaid = 0
         then \<lparr>sm_canonical_state = C_PROVIDER_OBJECT_CREATED, sm_is_terminal = False, sm_is_settled = False,
               sm_requires_reconciliation = False,
               sm_rationale = ''Payment link created in provider system (Status: '' @ squote rawStatus @
                 '', Paid: Rs.0.00). Invariant: LINK_CREATED != RECOVERED.''\<rparr>
         else if rawStatus = ''expired'' then closed_mapping C_EXPIRED ''Payment link expired without payment.''
         else if rawStatus = ''cancelled''
         then closed_mapping C_CANCELLED ''Payment link was cancelled by merchant/system.''
         else if rawStatus = ''failed''
         then closed_mapping C_FAILED ''Payment link execution failed at provider.''
         else \<lparr>sm_canonical_state = C_UNKNOWN, sm_is_terminal = False, sm_is_settled = False,
               sm_requires_reconciliation = True,
               sm_rationale = ''Unrecognized or ambiguous provider status: '' @ squote rawStatus @
                 ''. Quarantined as UNKNOWN.''\<rparr>)"

section \<open>What the two say of a payload\<close>

definition settled_by :: "provider_payload \<Rightarrow> bool" where
  "settled_by p \<longleftrightarrow> provider_status_of p \<in> {''paid'', ''captured''} \<and> 0 < or_zero (pp_amount_paid p)"

lemma evaluate_simps:
  "te_payment_link_id (evaluate now p) = pp_id p"
  "te_provider_status (evaluate now p) = provider_status_of p"
  "te_amount_paid_paise (evaluate now p) = or_zero (pp_amount_paid p)"
  "te_payment_id (evaluate now p) = first_payment p"
  by (simp_all add: evaluate_def Let_def)

lemma evaluate_recovered: "te_is_recovered (evaluate now p) \<longleftrightarrow> settled_by p"
  by (auto simp: evaluate_def settled_by_def Let_def)

lemma provider_status_raw: "toLowerCase (or_str (provider_status_of p) ''unknown'') = provider_status_of p"
proof -
  have "or_opt (pp_status p) ''unknown'' \<noteq> []" by (rule or_opt_nonempty) simp
  then have "or_str (provider_status_of p) ''unknown'' = provider_status_of p"
    by (simp add: or_str_def provider_status_of_def toLowerCase_def)
  then show ?thesis by (simp add: provider_status_of_def toLowerCase_def lower_char_idem)
qed

lemma canonical_confirmed_iff:
  "sm_canonical_state (mapRazorpayStatusToCanonicalState (provider_status_of p) amount (or_zero (pp_amount_paid p))) =
     C_PAYMENT_CONFIRMED \<longleftrightarrow> settled_by p \<and> (0 < amount \<longrightarrow> amount \<le> or_zero (pp_amount_paid p))"
  by (auto simp: mapRazorpayStatusToCanonicalState_def provider_status_raw settled_by_def Let_def
        partial_mapping_def closed_mapping_def)

end
