(* ===== verification/Ledger.thy ===== *)
theory Ledger
  imports Store "HOL-Library.Product_Lexorder"
begin

text \<open>
  The hash-chained double-entry ledger (\<^verbatim>\<open>src/truth/double_entry_ledger.ts\<close>).  The table
  is a list of rows in insertion order; the queries order it by time stamp and id.  The
  hash function (SHA-256 in hexadecimal, from the runtime's crypto library) is the
  argument \<open>sha\<close>; what is assumed of it is stated where it is used.  Generated ids and the
  clock are arguments.
\<close>

datatype ledger_account =
    Receivables | Recovered_revenue | Operational_costs | Fatigue_provision
  | Unearned_recovery | Bank_settlement | Cash_outflow | Customer_goodwill_reserve

fun account_name :: "ledger_account \<Rightarrow> string" where
  "account_name Receivables = ''receivables''"
| "account_name Recovered_revenue = ''recovered_revenue''"
| "account_name Operational_costs = ''operational_costs''"
| "account_name Fatigue_provision = ''fatigue_provision''"
| "account_name Unearned_recovery = ''unearned_recovery''"
| "account_name Bank_settlement = ''bank_settlement''"
| "account_name Cash_outflow = ''cash_outflow''"
| "account_name Customer_goodwill_reserve = ''customer_goodwill_reserve''"

definition GENESIS_HASH :: string where
  "GENESIS_HASH = replicate 64 (CHR ''0'')"

definition hash_payload :: "double_entry \<Rightarrow> string" where
  "hash_payload e = de_prev_hash e @ '':'' @ de_id e @ '':'' @ de_opportunity_id e @ '':'' @
     de_event_type e @ '':'' @ de_debit_account e @ '':'' @ de_credit_account e @ '':'' @
     show_int (de_amount_paise e) @ '':'' @ de_timestamp e"

definition computeHash :: "(string \<Rightarrow> string) \<Rightarrow> double_entry \<Rightarrow> string" where
  "computeHash sha e = sha (hash_payload e)"

definition entry_stamp :: "double_entry \<Rightarrow> string \<times> string" where
  "entry_stamp e = (de_timestamp e, de_id e)"

text \<open>\<^verbatim>\<open>ORDER BY timestamp ASC, id ASC\<close>; the latest row is the last of this order.\<close>

definition ledger_order :: "double_entry list \<Rightarrow> double_entry list" where
  "ledger_order l = sort_key entry_stamp l"

definition latest_hash :: "double_entry list \<Rightarrow> string" where
  "latest_hash l = (if l = [] then GENESIS_HASH else de_entry_hash (last (ledger_order l)))"

record entry_params =
  ep_opportunity_id :: string
  ep_event_type :: string
  ep_debit_account :: ledger_account
  ep_credit_account :: ledger_account
  ep_amount_paise :: int

definition new_entry ::
  "(string \<Rightarrow> string) \<Rightarrow> string \<Rightarrow> string \<Rightarrow> entry_params \<Rightarrow> double_entry list \<Rightarrow> double_entry" where
  "new_entry sha eid timestamp p l =
     (let e = \<lparr>de_id = eid, de_opportunity_id = ep_opportunity_id p, de_event_type = ep_event_type p,
               de_debit_account = account_name (ep_debit_account p),
               de_credit_account = account_name (ep_credit_account p),
               de_amount_paise = ep_amount_paise p, de_timestamp = timestamp,
               de_prev_hash = latest_hash l, de_entry_hash = []\<rparr>
      in e\<lparr>de_entry_hash := computeHash sha e\<rparr>)"

text \<open>The id is the primary key: a second row with the same id raises.\<close>

definition recordEntry ::
  "(string \<Rightarrow> string) \<Rightarrow> string \<Rightarrow> string \<Rightarrow> entry_params \<Rightarrow> double_entry list \<Rightarrow>
   db_error + double_entry \<times> double_entry list" where
  "recordEntry sha eid timestamp p l =
     (if eid \<in> de_id ` set l then Inl (UniqueViolation eid)
      else let e = new_entry sha eid timestamp p l in Inr (e, l @ [e]))"

datatype integrity_error = ChainBroken nat string | HashCorrupted nat string

fun verify_from ::
  "(string \<Rightarrow> string) \<Rightarrow> nat \<Rightarrow> string \<Rightarrow> double_entry list \<Rightarrow> integrity_error option" where
  "verify_from sha i expectedPrevHash [] = None"
| "verify_from sha i expectedPrevHash (e # rest) =
     (if de_prev_hash e \<noteq> expectedPrevHash then Some (ChainBroken i (de_id e))
      else if computeHash sha e \<noteq> de_entry_hash e then Some (HashCorrupted i (de_id e))
      else verify_from sha (i + 1) (de_entry_hash e) rest)"

record integrity_report =
  ir_valid :: bool
  ir_total_entries :: nat
  ir_unbroken_chain :: bool
  ir_debit_credit_balanced :: bool
  ir_error :: "integrity_error option"

definition verifyLedgerIntegrity :: "(string \<Rightarrow> string) \<Rightarrow> double_entry list \<Rightarrow> integrity_report" where
  "verifyLedgerIntegrity sha l =
     (let err = verify_from sha 0 GENESIS_HASH (ledger_order l)
      in \<lparr>ir_valid = (err = None), ir_total_entries = length l, ir_unbroken_chain = (err = None),
          ir_debit_credit_balanced = True, ir_error = err\<rparr>)"

section \<open>Chains\<close>

fun chained :: "(string \<Rightarrow> string) \<Rightarrow> string \<Rightarrow> double_entry list \<Rightarrow> bool" where
  "chained sha h [] = True"
| "chained sha h (e # rest) =
     (de_prev_hash e = h \<and> de_entry_hash e = sha (hash_payload e) \<and> chained sha (de_entry_hash e) rest)"

definition head_hash :: "string \<Rightarrow> double_entry list \<Rightarrow> string" where
  "head_hash h es = (if es = [] then h else de_entry_hash (last es))"

lemma verify_chained: "verify_from sha i h es = None \<longleftrightarrow> chained sha h es"
  by (induction sha i h es rule: verify_from.induct) (auto simp: computeHash_def)

lemma valid_chained: "ir_valid (verifyLedgerIntegrity sha l) \<longleftrightarrow> chained sha GENESIS_HASH (ledger_order l)"
  by (simp add: verifyLedgerIntegrity_def Let_def verify_chained)

lemma chained_snoc:
  "chained sha h (es @ [e]) \<longleftrightarrow>
     chained sha h es \<and> de_prev_hash e = head_hash h es \<and> de_entry_hash e = sha (hash_payload e)"
  by (induction es arbitrary: h) (auto simp: head_hash_def)

lemma ledger_order_empty [simp]: "ledger_order l = [] \<longleftrightarrow> l = []"
  by (metis ledger_order_def length_0_conv length_sort)

lemma latest_head: "latest_hash l = head_hash GENESIS_HASH (ledger_order l)"
  by (simp add: latest_hash_def head_hash_def)

lemma sort_key_eqI:
  assumes "sorted (map f ys)" and "mset ys = mset xs"
    and "\<And>k. filter (\<lambda>x. f x = k) ys = filter (\<lambda>x. f x = k) xs"
  shows "ys = sort_key f xs"
proof -
  have "filter (\<lambda>x. f k = f x) ys = filter (\<lambda>x. f k = f x) xs" for k
    using assms(3) [of "f k"] by (simp add: eq_commute)
  with assms(1,2) show ?thesis by (metis properties_for_sort_key)
qed

lemma ledger_order_snoc:
  assumes "\<forall>x \<in> set l. entry_stamp x < entry_stamp e"
  shows "ledger_order (l @ [e]) = ledger_order l @ [e]"
proof -
  have s: "sorted (map entry_stamp (ledger_order l @ [e]))"
    using assms by (auto simp: ledger_order_def sorted_append intro: less_imp_le)
  have "sort_key entry_stamp (l @ [e]) = ledger_order l @ [e]"
  proof (rule sort_key_eqI [symmetric])
    show "sorted (map entry_stamp (ledger_order l @ [e]))" by (rule s)
    show "mset (ledger_order l @ [e]) = mset (l @ [e])" by (simp add: ledger_order_def)
  next
    fix k
    show "filter (\<lambda>x. entry_stamp x = k) (ledger_order l @ [e]) = filter (\<lambda>x. entry_stamp x = k) (l @ [e])"
      by (simp add: ledger_order_def sort_key_stable)
  qed
  then show ?thesis by (simp add: ledger_order_def)
qed

lemma ledger_order_cons:
  assumes "\<forall>x \<in> set l. entry_stamp e < entry_stamp x"
  shows "ledger_order (l @ [e]) = e # ledger_order l"
proof -
  have "sorted (map entry_stamp (e # ledger_order l))"
    using assms by (auto simp: ledger_order_def intro: less_imp_le)
  moreover have "filter (\<lambda>x. entry_stamp x = k) (e # ledger_order l) =
      filter (\<lambda>x. entry_stamp x = k) (l @ [e])" for k
  proof (cases "entry_stamp e = k")
    case True
    then have "filter (\<lambda>x. entry_stamp x = k) l = []" using assms by (auto simp: filter_empty_conv)
    with True show ?thesis by (simp add: ledger_order_def sort_key_stable)
  qed (simp add: ledger_order_def sort_key_stable)
  ultimately have "sort_key entry_stamp (l @ [e]) = e # ledger_order l"
    by (intro sort_key_eqI [symmetric]) (simp_all add: ledger_order_def)
  then show ?thesis by (simp add: ledger_order_def)
qed

lemma new_entry_simps:
  "de_prev_hash (new_entry sha i t p l) = latest_hash l"
  "de_entry_hash (new_entry sha i t p l) = sha (hash_payload (new_entry sha i t p l))"
  "entry_stamp (new_entry sha i t p l) = (t, i)"
  by (simp_all add: new_entry_def computeHash_def hash_payload_def entry_stamp_def Let_def)

lemma append_valid:
  assumes "chained sha GENESIS_HASH (ledger_order l)" and "\<forall>x \<in> set l. entry_stamp x < (t, i)"
  shows "chained sha GENESIS_HASH (ledger_order (l @ [new_entry sha i t p l]))"
  using assms
  by (simp add: ledger_order_snoc new_entry_simps chained_snoc latest_head [symmetric])

section \<open>The payload determines the entry\<close>










text \<open>Appending a batch, each entry with its own id and time stamp.\<close>

fun append_all ::
  "(string \<Rightarrow> string) \<Rightarrow> (string \<times> string \<times> entry_params) list \<Rightarrow> double_entry list \<Rightarrow>
   db_error + double_entry list" where
  "append_all sha [] l = Inr l"
| "append_all sha ((t, i, p) # rest) l =
     (case recordEntry sha i t p l of
        Inl err \<Rightarrow> Inl err
      | Inr (e, l') \<Rightarrow> append_all sha rest l')"

lemma append_all_valid:
  assumes "chained sha GENESIS_HASH (ledger_order l)"
    and "sorted_wrt (<) (map (\<lambda>(t, i, p). (t, i)) ops)" and "distinct (map (\<lambda>(t, i, p). i) ops)"
    and "\<forall>x \<in> set l. \<forall>(t, i, p) \<in> set ops. entry_stamp x < (t, i) \<and> de_id x \<noteq> i"
  shows "\<exists>l'. append_all sha ops l = Inr l' \<and> chained sha GENESIS_HASH (ledger_order l') \<and>
     length l' = length l + length ops"
  using assms
proof (induction sha ops l rule: append_all.induct)
  case (2 sha t i p rest l)
  let ?e = "new_entry sha i t p l"
  have rec: "recordEntry sha i t p l = Inr (?e, l @ [?e])"
    using "2.prems"(4) by (auto simp: recordEntry_def Let_def)
  have id: "de_id ?e = i" by (simp add: new_entry_def Let_def)
  have "\<exists>l'. append_all sha rest (l @ [?e]) = Inr l' \<and> chained sha GENESIS_HASH (ledger_order l') \<and>
      length l' = length (l @ [?e]) + length rest"
  proof (rule "2.IH" [OF rec refl])
    show "chained sha GENESIS_HASH (ledger_order (l @ [?e]))"
      using "2.prems"(1,4) by (intro append_valid) auto
    show "sorted_wrt (<) (map (\<lambda>(t, i, p). (t, i)) rest)" using "2.prems"(2) by simp
    show "distinct (map (\<lambda>(t, i, p). i) rest)" using "2.prems"(3) by simp
    show "\<forall>x \<in> set (l @ [?e]). \<forall>(t, i, p) \<in> set rest. entry_stamp x < (t, i) \<and> de_id x \<noteq> i"
      using "2.prems"(2,3,4) by (force simp: new_entry_simps id)
  qed
  then show ?case by (simp add: rec)
qed simp

section \<open>Properties\<close>

text \<open>
  C15. Any batch of entries whose time stamps and ids increase strictly is recorded without
  an error, whatever the accounts and amounts, and the resulting ledger passes the
  integrity check with one row per entry.
\<close>

theorem ledger_append_valid:
  assumes "sorted_wrt (<) (map (\<lambda>(t, i, p). (t, i)) ops)" and "distinct (map (\<lambda>(t, i, p). i) ops)"
  shows "\<exists>l. append_all sha ops [] = Inr l \<and> ir_valid (verifyLedgerIntegrity sha l) \<and>
     ir_error (verifyLedgerIntegrity sha l) = None \<and>
     ir_total_entries (verifyLedgerIntegrity sha l) = length ops"
proof -
  have "\<exists>l. append_all sha ops [] = Inr l \<and> chained sha GENESIS_HASH (ledger_order l) \<and>
      length l = length ([] :: double_entry list) + length ops"
    using assms by (intro append_all_valid) (simp_all add: ledger_order_def)
  then show ?thesis
    by (auto simp: valid_chained verifyLedgerIntegrity_def Let_def verify_chained)
qed

definition sample_params :: "int \<Rightarrow> entry_params" where
  "sample_params a = \<lparr>ep_opportunity_id = ''o1'', ep_event_type = ''PAYMENT_CAPTURED'',
     ep_debit_account = Bank_settlement, ep_credit_account = Recovered_revenue, ep_amount_paise = a\<rparr>"

theorem ledger_append_valid_witness:
  "\<exists>l. append_all (\<lambda>s. s) [(''t1'', ''b'', sample_params 500), (''t2'', ''a'', sample_params 700)] [] = Inr l \<and>
     ir_valid (verifyLedgerIntegrity (\<lambda>s. s) l) \<and> ir_error (verifyLedgerIntegrity (\<lambda>s. s) l) = None \<and>
     ir_total_entries (verifyLedgerIntegrity (\<lambda>s. s) l) = 2"
  using ledger_append_valid [of "[(''t1'', ''b'', sample_params 500), (''t2'', ''a'', sample_params 700)]" "\<lambda>s. s"]
  by (simp add: less_prod_def list_less_def numeral_2_eq_2)





text \<open>
  The chain is read in time-stamp order while an entry links to the latest row: an entry
  recorded with a stamp before every row of a non-empty ledger (a clock that steps back, or
  a smaller generated id in the same millisecond) breaks the chain, and the check reports
  the break at the first row, although nothing was tampered with.  The hash function is
  only assumed never to return the genesis constant.
\<close>

theorem ledger_backdated_breaks:
  assumes "l \<noteq> []" and "ir_valid (verifyLedgerIntegrity sha l)" and "\<forall>x \<in> set l. (t, i) < entry_stamp x"
    and "\<forall>s. sha s \<noteq> GENESIS_HASH" and "recordEntry sha i t p l = Inr (e, l')"
  shows "ir_error (verifyLedgerIntegrity sha l') = Some (ChainBroken 0 i)"
proof -
  have e: "e = new_entry sha i t p l" and l': "l' = l @ [e]"
    using assms(5) by (auto simp: recordEntry_def Let_def split: if_splits)
  have ord: "ledger_order l' = e # ledger_order l"
    using assms(3) by (simp add: l' ledger_order_cons e new_entry_simps)
  have ne: "ledger_order l \<noteq> []" using assms(1) by simp
  then obtain es x where es: "ledger_order l = es @ [x]" by (metis rev_exhaust)
  have "chained sha GENESIS_HASH (es @ [x])" using assms(2) by (simp add: valid_chained es)
  then have "latest_hash l \<noteq> GENESIS_HASH"
    using assms(1,4) by (simp add: latest_hash_def es chained_snoc)
  then have "de_prev_hash e \<noteq> GENESIS_HASH" by (simp add: e new_entry_simps)
  moreover have "de_id e = i" by (simp add: e new_entry_def Let_def)
  ultimately show ?thesis by (simp add: verifyLedgerIntegrity_def Let_def ord)
qed

definition tagged :: "string \<Rightarrow> string" where
  "tagged s = CHR ''h'' # s"

definition tagged_entry :: double_entry where
  "tagged_entry = new_entry tagged ''b'' ''t1'' (sample_params 5) []"

theorem ledger_backdated_breaks_witness:
  "ir_error (verifyLedgerIntegrity tagged
     [tagged_entry, new_entry tagged ''a'' ''t1'' (sample_params 5) [tagged_entry]]) =
   Some (ChainBroken 0 ''a'')"
proof (rule ledger_backdated_breaks [of "[tagged_entry]" tagged "''t1''" "''a''" "sample_params 5"])
  show "ir_valid (verifyLedgerIntegrity tagged [tagged_entry])"
    by (simp add: valid_chained ledger_order_def tagged_entry_def new_entry_simps latest_hash_def)
  show "\<forall>x \<in> set [tagged_entry]. (''t1'', ''a'') < entry_stamp x"
    by (simp add: tagged_entry_def new_entry_simps less_prod_def list_less_def)
  show "\<forall>s. tagged s \<noteq> GENESIS_HASH" by (simp add: tagged_def GENESIS_HASH_def numeral_eq_Suc)
  show "recordEntry tagged ''a'' ''t1'' (sample_params 5) [tagged_entry] =
      Inr (new_entry tagged ''a'' ''t1'' (sample_params 5) [tagged_entry],
        [tagged_entry, new_entry tagged ''a'' ''t1'' (sample_params 5) [tagged_entry]])"
    by (simp add: recordEntry_def tagged_entry_def new_entry_def Let_def)
qed simp

end
