(* ===== verification/Economics.thy ===== *)
theory Economics
  imports Store
begin

text \<open>
  Probability calibration (\<^verbatim>\<open>src/economics/bayesian_calibration.ts\<close>) and scoring
  (\<^verbatim>\<open>src/economics/scorer.ts\<close>).  Probabilities are doubles: every arithmetic
  operation is followed by the binary64 rounding of \<open>JS_Number\<close>.

  The static table of the source is an object literal, so a lookup with a key that
  \<^verbatim>\<open>Object.prototype\<close> has (in lower case: \<^verbatim>\<open>constructor\<close>, \<^verbatim>\<open>__proto__\<close>) finds an
  object without probabilities; the arithmetic on it is \<^verbatim>\<open>NaN\<close> and the statements
  that store it raise.  That outcome is the value \<open>None\<close> of the definitions below.
\<close>

section \<open>The static table\<close>

definition STATIC_PROBABILITY_TABLE :: "string \<Rightarrow> (rat \<times> rat) option" where
  "STATIC_PROBABILITY_TABLE r =
     (if r = ''insufficient_funds'' then Some (lit 35 2, lit 55 2)
      else if r = ''expired_card'' then Some (lit 5 2, lit 60 2)
      else if r = ''generic_decline'' then Some (lit 25 2, lit 45 2)
      else if r = ''network_error'' then Some (lit 45 2, lit 75 2)
      else if r = ''bank_gateway_timeout'' then Some (lit 60 2, lit 70 2)
      else if r = ''hard_decline'' then Some (lit 2 2, lit 2 2)
      else if r = ''default'' then Some (lit 15 2, lit 35 2)
      else None)"

definition inherited_key :: "string \<Rightarrow> bool" where
  "inherited_key r = (r = ''constructor'' \<or> r = ''__proto__'')"

text \<open>The fallback chain of \<^verbatim>\<open>getEffectiveProbabilitiesSync\<close>, for a key the table lacks.\<close>

definition static_fallback :: "string \<Rightarrow> string" where
  "static_fallback r =
     (if includes_str r ''insufficient_funds'' then ''insufficient_funds''
      else if includes_str r ''expired_card'' \<or> includes_str r ''card_expired'' then ''expired_card''
      else if includes_str r ''bank_gateway_timeout'' \<or> includes_str r ''gateway_timeout''
        then ''bank_gateway_timeout''
      else if includes_str r ''timeout'' \<or> includes_str r ''network'' then ''network_error''
      else if includes_str r ''generic_decline'' \<or> includes_str r ''do_not_honor''
        then ''generic_decline''
      else ''default'')"

definition static_base :: "string \<Rightarrow> (rat \<times> rat) option" where
  "static_base r =
     (case STATIC_PROBABILITY_TABLE r of
        Some b \<Rightarrow> Some b
      | None \<Rightarrow> if inherited_key r then None
                else STATIC_PROBABILITY_TABLE (static_fallback r))"

section \<open>The calibrator\<close>

datatype model_status = ACTIVE | CANDIDATE

record model_record =
  mr_reason_code :: string
  mr_p_natural_mean :: rat
  mr_p_interv_mean :: rat
  mr_sample_size :: nat
  mr_model_type :: probability_source
  mr_status :: model_status
  mr_lift_vs_baseline :: rat
  mr_p_value :: rat
  mr_updated_at :: string

record prior_record =
  pr_id :: string
  pr_tenant_id :: string
  pr_reason_code :: string
  pr_alpha_natural :: rat
  pr_beta_natural :: rat
  pr_alpha_interv :: rat
  pr_beta_interv :: rat
  pr_sample_size :: nat
  pr_updated_at :: string

record observation =
  ob_natSucc :: nat
  ob_natTot :: nat
  ob_intSucc :: nat
  ob_intTot :: nat

text \<open>The two caches of the class and the two tables.\<close>

record calibrator =
  cb_cache :: "string \<Rightarrow> model_record option"
  cb_observations :: "string \<Rightarrow> observation option"
  cb_models :: "string \<Rightarrow> model_record option"
  cb_priors :: "prior_record list"

definition new_calibrator :: calibrator where
  "new_calibrator = \<lparr>cb_cache = Map.empty, cb_observations = Map.empty, cb_models = Map.empty,
     cb_priors = []\<rparr>"

record beta_distribution =
  bd_alpha :: rat
  bd_beta :: rat
  bd_expected :: rat
  bd_sampleSize :: nat

definition computeBetaPosterior :: "rat \<Rightarrow> rat \<Rightarrow> nat \<Rightarrow> nat \<Rightarrow> beta_distribution" where
  "computeBetaPosterior priorAlpha priorBeta successes tot =
     (let postAlpha = fadd priorAlpha (of_nat successes);
          postBeta = fadd priorBeta (of_int (int tot - int successes));
          expected = fdiv postAlpha (fadd postAlpha postBeta)
      in \<lparr>bd_alpha = postAlpha, bd_beta = postBeta, bd_expected = toFixed 4 expected,
          bd_sampleSize = tot\<rparr>)"

record promotion =
  pm_lift :: rat
  pm_pValue :: rat
  pm_shouldPromote :: bool

definition evaluateModelPromotion :: "js_math \<Rightarrow> rat \<Rightarrow> rat \<Rightarrow> nat \<Rightarrow> promotion" where
  "evaluateModelPromotion jm staticProb calibratedProb sampleSize =
     (if sampleSize < 100 then \<lparr>pm_lift = 0, pm_pValue = 1, pm_shouldPromote = False\<rparr>
      else
        let lift = fdiv (fsub calibratedProb staticProb) staticProb;
            se = m_sqrt jm (fdiv (fmul staticProb (fsub 1 staticProb)) (of_nat sampleSize));
            zScore = (if 0 < se then fdiv (fsub calibratedProb staticProb) se else 0);
            pValue = (if 0 < zScore
                      then max (lit 1 3)
                             (fsub 1 (fmul (lit 5 1) (fadd 1 (m_tanh jm (fmul zScore (lit 797884 6))))))
                      else 1)
        in \<lparr>pm_lift = toFixed 4 lift, pm_pValue = toFixed 4 pValue,
            pm_shouldPromote = (lit 5 2 < lift \<and> pValue < lit 5 2)\<rparr>)"

definition preloadCache :: "model_record list \<Rightarrow> calibrator \<Rightarrow> calibrator" where
  "preloadCache records cb =
     cb\<lparr>cb_cache := fold (\<lambda>r m. m(mr_reason_code r \<mapsto> r)) records (cb_cache cb)\<rparr>"

text \<open>\<^verbatim>\<open>persistPrior\<close>: the conflict clause is on (tenant, reason); a different row with the
  same generated id violates the primary key and raises.\<close>

definition persistPrior ::
  "string \<Rightarrow> string \<Rightarrow> string \<Rightarrow> beta_distribution \<Rightarrow> beta_distribution \<Rightarrow> nat \<Rightarrow>
   calibrator \<Rightarrow> calibrator option" where
  "persistPrior now tenantId reasonCode dn di n cb =
     (let row = \<lparr>pr_id = ''prior_'' @ tenantId @ ''_'' @ reasonCode, pr_tenant_id = tenantId,
                 pr_reason_code = reasonCode,
                 pr_alpha_natural = bd_alpha dn, pr_beta_natural = bd_beta dn,
                 pr_alpha_interv = bd_alpha di, pr_beta_interv = bd_beta di,
                 pr_sample_size = n, pr_updated_at = now\<rparr>;
          pair = (\<lambda>r. (pr_tenant_id r, pr_reason_code r))
      in if \<exists>r \<in> set (cb_priors cb). pr_id r = pr_id row \<and> pair r \<noteq> pair row then None
         else Some (cb\<lparr>cb_priors :=
                row_put pair (\<lambda>old r. case old of None \<Rightarrow> r | Some x \<Rightarrow> r\<lparr>pr_id := pr_id x\<rparr>)
                  row (cb_priors cb)\<rparr>))"

definition loadPriorsFromDatabase :: "string \<Rightarrow> calibrator \<Rightarrow> calibrator" where
  "loadPriorsFromDatabase tenantId cb =
     cb\<lparr>cb_cache :=
        fold (\<lambda>row m. m(pr_reason_code row \<mapsto>
                \<lparr>mr_reason_code = pr_reason_code row,
                 mr_p_natural_mean = toFixed 4 (fdiv (pr_alpha_natural row)
                     (fadd (pr_alpha_natural row) (pr_beta_natural row))),
                 mr_p_interv_mean = toFixed 4 (fdiv (pr_alpha_interv row)
                     (fadd (pr_alpha_interv row) (pr_beta_interv row))),
                 mr_sample_size = pr_sample_size row,
                 mr_model_type = (if 100 \<le> pr_sample_size row then CALIBRATED else STATIC),
                 mr_status = ACTIVE, mr_lift_vs_baseline = 0, mr_p_value = lit 5 2,
                 mr_updated_at = pr_updated_at row\<rparr>))
          (filter (\<lambda>r. pr_tenant_id r = tenantId) (cb_priors cb)) (cb_cache cb)\<rparr>"

definition direct_base :: "string \<Rightarrow> (rat \<times> rat) option" where
  "direct_base r =
     (case STATIC_PROBABILITY_TABLE r of
        Some b \<Rightarrow> Some b
      | None \<Rightarrow> if inherited_key r then None else STATIC_PROBABILITY_TABLE ''default'')"

definition updateCalibratedDistributions ::
  "js_math \<Rightarrow> string \<Rightarrow> string \<Rightarrow> nat \<times> nat \<Rightarrow> nat \<times> nat \<Rightarrow> string \<Rightarrow> calibrator \<Rightarrow>
   model_record option \<times> calibrator" where
  "updateCalibratedDistributions jm now reasonCode natObs intObs tenantId cb =
     (case direct_base reasonCode of
        None \<Rightarrow> (None, cb)
      | Some (bn, bi) \<Rightarrow>
          let priorNatAlpha = fmul bn 10; priorNatBeta = fsub 10 priorNatAlpha;
              priorIntAlpha = fmul bi 10; priorIntBeta = fsub 10 priorIntAlpha;
              postNat = computeBetaPosterior priorNatAlpha priorNatBeta (fst natObs) (snd natObs);
              postInt = computeBetaPosterior priorIntAlpha priorIntBeta (fst intObs) (snd intObs);
              totalObs = snd natObs + snd intObs;
              promo = evaluateModelPromotion jm bi (bd_expected postInt) (snd intObs);
              m = \<lparr>mr_reason_code = reasonCode, mr_p_natural_mean = bd_expected postNat,
                   mr_p_interv_mean = bd_expected postInt, mr_sample_size = totalObs,
                   mr_model_type = (if 100 \<le> totalObs then CALIBRATED else STATIC),
                   mr_status = (if pm_shouldPromote promo \<or> totalObs < 100 then ACTIVE else CANDIDATE),
                   mr_lift_vs_baseline = pm_lift promo, mr_p_value = pm_pValue promo,
                   mr_updated_at = now\<rparr>;
              cb1 = cb\<lparr>cb_models := (cb_models cb)(reasonCode \<mapsto> m)\<rparr>
          in (case persistPrior now tenantId reasonCode postNat postInt totalObs cb1 of
                None \<Rightarrow> (None, cb1)
              | Some cb2 \<Rightarrow> (Some m, cb2)))"

definition observe :: "bool \<Rightarrow> bool \<Rightarrow> observation \<Rightarrow> observation" where
  "observe isRecovered wasIntervention ob =
     (if wasIntervention
      then ob\<lparr>ob_intTot := ob_intTot ob + 1,
              ob_intSucc := ob_intSucc ob + (if isRecovered then 1 else 0)\<rparr>
      else ob\<lparr>ob_natTot := ob_natTot ob + 1,
              ob_natSucc := ob_natSucc ob + (if isRecovered then 1 else 0)\<rparr>)"

definition norm_reason :: "string \<Rightarrow> string" where
  "norm_reason reasonCode = toLowerCase (or_str reasonCode ''generic_decline'')"

definition obs_key :: "string \<Rightarrow> string \<Rightarrow> string" where
  "obs_key tenantId reasonCode = tenantId @ '':'' @ norm_reason reasonCode"

definition recordRealtimeObservation ::
  "js_math \<Rightarrow> string \<Rightarrow> string \<Rightarrow> bool \<Rightarrow> bool \<Rightarrow> string \<Rightarrow> calibrator \<Rightarrow> calibrator" where
  "recordRealtimeObservation jm now reasonCode isRecovered wasIntervention tenantId cb =
     (let normReason = norm_reason reasonCode;
          cacheKey = obs_key tenantId reasonCode;
          old = (case cb_observations cb cacheKey of
                   None \<Rightarrow> \<lparr>ob_natSucc = 0, ob_natTot = 0, ob_intSucc = 0, ob_intTot = 0\<rparr>
                 | Some x \<Rightarrow> x);
          ob = observe isRecovered wasIntervention old;
          cb1 = cb\<lparr>cb_observations := (cb_observations cb)(cacheKey \<mapsto> ob)\<rparr>
      in if 5 \<le> ob_intTot ob + ob_natTot ob
         then (case updateCalibratedDistributions jm now normReason
                      (ob_natSucc ob, ob_natTot ob) (ob_intSucc ob, ob_intTot ob) tenantId cb1 of
                 (None, cb2) \<Rightarrow> cb2
               | (Some m, cb2) \<Rightarrow> cb2\<lparr>cb_cache := (cb_cache cb2)(normReason \<mapsto> m)\<rparr>)
         else cb1)"

record effective_probs =
  ef_p_natural :: rat
  ef_p_intervention :: rat
  ef_source :: probability_source
  ef_credible_interval_95 :: "rat \<times> rat"

definition getEffectiveProbabilitiesSync ::
  "js_math \<Rightarrow> calibrator \<Rightarrow> string \<Rightarrow> decline_type \<Rightarrow> effective_probs option" where
  "getEffectiveProbabilitiesSync jm cb reasonCode declineType =
     (let normReason = toLowerCase reasonCode;
          static = (case static_base normReason of
              None \<Rightarrow> None
            | Some (n, i) \<Rightarrow>
                Some \<lparr>ef_p_natural = n, ef_p_intervention = i, ef_source = STATIC,
                      ef_credible_interval_95 =
                        (max (lit 1 2) (toFixed 2 (fsub i (lit 10 2))),
                         min (lit 99 2) (toFixed 2 (fadd i (lit 10 2))))\<rparr>)
      in if declineType = Hard
         then Some \<lparr>ef_p_natural = lit 2 2, ef_p_intervention = lit 2 2, ef_source = STATIC,
                    ef_credible_interval_95 = (lit 1 2, lit 3 2)\<rparr>
         else case cb_cache cb normReason of
                Some c \<Rightarrow>
                  if 100 \<le> mr_sample_size c \<and> mr_model_type c = CALIBRATED
                  then let p = mr_p_interv_mean c;
                           se = m_sqrt jm (fdiv (fmul p (fsub 1 p)) (of_nat (mr_sample_size c)))
                       in Some \<lparr>ef_p_natural = mr_p_natural_mean c, ef_p_intervention = p,
                                ef_source = CALIBRATED,
                                ef_credible_interval_95 =
                                  (max (lit 1 3) (toFixed 4 (fsub p (fmul (lit 196 2) se))),
                                   min (lit 999 3) (toFixed 4 (fadd p (fmul (lit 196 2) se))))\<rparr>
                  else static
              | None \<Rightarrow> static)"

text \<open>The asynchronous accessor reads the table and requires an ACTIVE record.\<close>

definition getEffectiveProbabilities ::
  "calibrator \<Rightarrow> string \<Rightarrow> (rat \<times> rat \<times> probability_source) option \<times> calibrator" where
  "getEffectiveProbabilities cb reasonCode =
     (let static = (map_option (\<lambda>(n, i). (n, i, STATIC)) (direct_base reasonCode), cb)
      in case cb_models cb reasonCode of
           Some r \<Rightarrow> if mr_status r = ACTIVE \<and> 100 \<le> mr_sample_size r \<and> mr_model_type r = CALIBRATED
                     then (Some (mr_p_natural_mean r, mr_p_interv_mean r, CALIBRATED),
                           cb\<lparr>cb_cache := (cb_cache cb)(reasonCode \<mapsto> r)\<rparr>)
                     else static
         | None \<Rightarrow> static)"

section \<open>The scorer\<close>

definition classifyIVENBand :: "int \<Rightarrow> iven_band" where
  "classifyIVENBand iven =
     (if 15000 \<le> iven then STRONG else if 5000 \<le> iven then MODERATE
      else if 0 < iven then WEAK else NEGATIVE)"

record probability_estimate =
  pe_natural :: rat
  pe_intervention :: rat
  pe_incremental :: rat
  pe_source :: probability_source

definition estimateProbabilities ::
  "js_math \<Rightarrow> calibrator \<Rightarrow> opportunity \<Rightarrow> probability_estimate option" where
  "estimateProbabilities jm cb opp =
     (case getEffectiveProbabilitiesSync jm cb (toLowerCase (o_reason_code opp)) (o_decline_type opp) of
        None \<Rightarrow> None
      | Some bayes \<Rightarrow>
          let natural = (if o_decline_type opp = Hard then lit 2 2 else ef_p_natural bayes);
              intervention = (if o_decline_type opp = Hard then lit 2 2 else ef_p_intervention bayes)
          in Some \<lparr>pe_natural = natural, pe_intervention = intervention,
                   pe_incremental = max 0 (toFixed 4 (fsub intervention natural)),
                   pe_source = ef_source bayes\<rparr>)"

record cost_breakdown =
  cb_operational :: int
  cb_fatigue :: int
  cb_total :: int

definition calculateCosts :: "int \<Rightarrow> cost_breakdown" where
  "calculateCosts attemptCount =
     (let fatigue = (if attemptCount \<le> 1 then 0 else if attemptCount = 2 then 250
                     else if attemptCount = 3 then 750 else 1500 + (attemptCount - 4) * 500)
      in \<lparr>cb_operational = 400, cb_fatigue = fatigue, cb_total = 400 + fatigue\<rparr>)"

definition determineConfidence :: "opportunity \<Rightarrow> confidence_level" where
  "determineConfidence opp =
     (let reason = toLowerCase (o_reason_code opp);
          isBankTimeout = includes_str reason ''timeout'' \<or> includes_str reason ''network'' \<or>
                          includes_str reason ''bank_gateway_timeout''
      in if o_decline_type opp = Unknown \<or> 3 \<le> o_attempt_count opp then Low
         else if o_decline_type opp = Hard \<or> isBankTimeout then High else Medium)"

fun sanitize_amount :: "number \<Rightarrow> int" where
  "sanitize_amount (Fin x) = max 0 \<lfloor>x\<rfloor>"
| "sanitize_amount _ = 0"

fun sanitize_attempts :: "number \<Rightarrow> int" where
  "sanitize_attempts (Fin x) = max 1 (min 20 \<lfloor>x\<rfloor>)"
| "sanitize_attempts _ = 1"

text \<open>What the Thompson sampler drew, when sampling is on.\<close>

record bandit_sample =
  bs_p_natural :: rat
  bs_p_intervention :: rat
  bs_p_incremental :: rat

definition iven_of :: "rat \<Rightarrow> int \<Rightarrow> int \<Rightarrow> int" where
  "iven_of incremental amount fatigue =
     math_round (fsub (fsub (fmul incremental (of_int amount)) 400) (of_int fatigue))"

definition calculateScore ::
  "js_math \<Rightarrow> calibrator \<Rightarrow> bandit_sample option \<Rightarrow> opportunity \<Rightarrow> score option" where
  "calculateScore jm cb sample opp =
     (let safeAmount = sanitize_amount (Fin (of_int (o_amount_paise opp)));
          safeAttempts = sanitize_attempts (Fin (of_int (o_attempt_count opp)));
          probs = (case sample of
                     Some b \<Rightarrow> Some \<lparr>pe_natural = clamp 0 1 (bs_p_natural b),
                                     pe_intervention = clamp 0 1 (bs_p_intervention b),
                                     pe_incremental = clamp 0 1 (bs_p_incremental b),
                                     pe_source = CALIBRATED\<rparr>
                   | None \<Rightarrow> estimateProbabilities jm cb opp)
      in case probs of
           None \<Rightarrow> None
         | Some pe \<Rightarrow>
             let incremental = max 0 (toFixed 4 (fsub (pe_intervention pe) (pe_natural pe)));
                 costs = calculateCosts safeAttempts;
                 raw = iven_of incremental safeAmount (cb_fatigue costs);
                 iven = (if o_decline_type opp = Hard then min 0 raw else raw)
             in Some \<lparr>s_opportunity_id = o_id opp, s_tenant_id = Some (o_tenant_id opp),
                      s_natural_recovery_prob = pe_natural pe,
                      s_intervention_recovery_prob = pe_intervention pe,
                      s_incremental_prob = incremental,
                      s_operational_cost_paise = cb_operational costs,
                      s_fatigue_cost_paise = cb_fatigue costs,
                      s_expected_incremental_value_paise = iven,
                      s_confidence = determineConfidence opp,
                      s_iven_band = Some (classifyIVENBand iven),
                      s_probability_source = Some (pe_source pe)\<rparr>)"

definition scoreOpportunity ::
  "js_math \<Rightarrow> calibrator \<Rightarrow> bandit_sample option \<Rightarrow> opportunity \<Rightarrow> store \<Rightarrow>
   (score \<times> store) option" where
  "scoreOpportunity jm cb sample opp s =
     (case calculateScore jm cb sample opp of
        None \<Rightarrow> None
      | Some sc \<Rightarrow>
          let s1 = upsertScore sc s
          in Some (sc, if o_status opp = Pending then updateOpportunityStatus (o_id opp) Scored s1
                       else s1))"

section \<open>Bounds of the probabilities\<close>

lemma static_table_range:
  "STATIC_PROBABILITY_TABLE r = Some (n, i) \<Longrightarrow> lit 2 2 \<le> n \<and> n \<le> i \<and> i \<le> lit 75 2"
  by (auto simp: STATIC_PROBABILITY_TABLE_def lit_mono split: if_splits)

definition unit_prob :: "rat \<Rightarrow> bool" where
  "unit_prob p \<longleftrightarrow> 0 \<le> p \<and> p \<le> 1"

lemma unit_lit: "0 \<le> a \<Longrightarrow> a \<le> 100 \<Longrightarrow> unit_prob (lit a 2)"
  by (simp add: unit_prob_def lit_nonneg lit_le_one)

lemma table_unit:
  "STATIC_PROBABILITY_TABLE r = Some (n, i) \<Longrightarrow> unit_prob n \<and> unit_prob i \<and> n \<le> i"
  using static_table_range [of r n i] lit_nonneg [of 2 2] lit_le_one [of 75 2]
  by (auto simp: unit_prob_def)

lemma static_base_range: "static_base r = Some (n, i) \<Longrightarrow> unit_prob n \<and> unit_prob i \<and> n \<le> i"
  by (auto simp: static_base_def split: option.splits if_splits dest: table_unit)

lemma direct_base_range: "direct_base r = Some (n, i) \<Longrightarrow> unit_prob n \<and> unit_prob i \<and> n \<le> i"
  by (auto simp: direct_base_def split: option.splits if_splits dest: table_unit)

lemma posterior_unit:
  assumes "0 \<le> a" and "0 \<le> b" and "k \<le> n"
  shows "unit_prob (bd_expected (computeBetaPosterior a b k n))"
proof -
  let ?pa = "fadd a (of_nat k)" and ?pb = "fadd b (of_int (int n - int k))"
  have pa: "0 \<le> ?pa" and pb: "0 \<le> ?pb" using assms by (auto intro: fadd_nonneg)
  have "?pa \<le> fadd ?pa ?pb"
    by (rule fadd_ge_left [OF _ pb]) (simp add: fadd_def ieee.rnd_idem)
  then have "0 \<le> fdiv ?pa (fadd ?pa ?pb)" and "fdiv ?pa (fadd ?pa ?pb) \<le> 1"
    using fdiv_unit [OF pa] by auto
  then show ?thesis
    by (simp add: computeBetaPosterior_def Let_def unit_prob_def toFixed_nonneg toFixed_le_one)
qed

lemma prior_nonneg: "unit_prob p \<Longrightarrow> 0 \<le> fmul p 10 \<and> 0 \<le> fsub 10 (fmul p 10)"
proof
  assume p: "unit_prob p"
  then show "0 \<le> fmul p 10" by (simp add: unit_prob_def fmul_nonneg)
  have ten: "rnd64 10 = 10" using ieee.rnd_int [of 10] by simp
  have "fmul p 10 \<le> 10" using p ten by (intro fmul_le) (auto simp: unit_prob_def)
  then show "0 \<le> fsub 10 (fmul p 10)" by (simp add: fsub_def ieee.rnd_nonneg)
qed

definition model_ok :: "model_record \<Rightarrow> bool" where
  "model_ok m \<longleftrightarrow> unit_prob (mr_p_natural_mean m) \<and> unit_prob (mr_p_interv_mean m)"

definition calib_ok :: "calibrator \<Rightarrow> bool" where
  "calib_ok cb \<longleftrightarrow> (\<forall>r m. cb_cache cb r = Some m \<longrightarrow> model_ok m)"

lemma effective_unit:
  assumes "calib_ok cb" and "getEffectiveProbabilitiesSync jm cb r d = Some e"
  shows "unit_prob (ef_p_natural e) \<and> unit_prob (ef_p_intervention e)"
  using assms static_base_range
  by (auto simp: getEffectiveProbabilitiesSync_def Let_def calib_ok_def model_ok_def unit_lit
        split: if_splits option.splits prod.splits)

section \<open>The value of an intervention\<close>

lemma fatigue_range: "1 \<le> k \<Longrightarrow> k \<le> 20 \<Longrightarrow> 0 \<le> cb_fatigue (calculateCosts k) \<and>
    cb_fatigue (calculateCosts k) \<le> 9500"
  by (auto simp: calculateCosts_def Let_def)

lemma fatigue_mono: "j \<le> k \<Longrightarrow> cb_fatigue (calculateCosts j) \<le> cb_fatigue (calculateCosts k)"
  by (auto simp: calculateCosts_def Let_def)

lemma sanitize_attempts_range: "1 \<le> sanitize_attempts x \<and> sanitize_attempts x \<le> 20"
  by (cases x) auto

lemma iven_mono:
  assumes "0 \<le> p" and "a \<le> a'" and "f' \<le> f"
  shows "iven_of p a f \<le> iven_of p a' f'"
  unfolding iven_of_def using assms
  by (intro math_round_mono fsub_mono fmul_mono) auto

lemma iven_lower:
  assumes "0 \<le> p" and "0 \<le> a" and "0 \<le> f" and "f \<le> 9500"
  shows "- 9900 \<le> iven_of p a f"
proof -
  have g: "0 \<le> fmul p (of_int a)" using assms by (simp add: fmul_nonneg)
  have "of_int (- 400) \<le> fsub (fmul p (of_int a)) 400"
    unfolding fsub_def using g by (intro ieee.int_le_rnd) auto
  moreover have "of_int f \<le> (9500 :: rat)"
    using assms(4) of_int_le_iff [of f 9500, where 'a = rat] by simp
  ultimately have "of_int (- 9900) \<le> fsub (fsub (fmul p (of_int a)) 400) (of_int f)"
    unfolding fsub_def [of _ "of_int f"] by (intro ieee.int_le_rnd) auto
  then show ?thesis unfolding iven_of_def by (rule math_round_ge)
qed

lemma iven_upper:
  assumes "0 \<le> p" and "p \<le> 1" and "0 \<le> a" and "a \<le> 2 ^ 53" and "0 \<le> f" and "f \<le> 9500"
  shows "iven_of p a f \<le> a - 400"
proof -
  have "rnd64 (of_int a) = of_int a" using assms by (intro ieee.rnd_int) auto
  then have g: "fmul p (of_int a) \<le> of_int a" using assms by (intro fmul_le) auto
  have "fsub (fmul p (of_int a)) 400 \<le> of_int (a - 400)"
    unfolding fsub_def using g assms by (intro ieee.rnd_le_int) auto
  then have "fsub (fsub (fmul p (of_int a)) 400) (of_int f) \<le> of_int (a - 400)"
    unfolding fsub_def [of _ "of_int f"] using assms by (intro ieee.rnd_le_int) auto
  then show ?thesis unfolding iven_of_def by (rule math_round_le)
qed

lemma estimate_unit:
  assumes "calib_ok cb" and "estimateProbabilities jm cb opp = Some pe"
  shows "unit_prob (pe_natural pe) \<and> unit_prob (pe_intervention pe)"
  using assms effective_unit
  by (auto simp: estimateProbabilities_def Let_def unit_lit split: option.splits)

lemma incremental_unit:
  assumes "unit_prob n" and "unit_prob i"
  shows "unit_prob (max 0 (toFixed 4 (fsub i n)))"
proof -
  have "fsub i n \<le> 1" using assms by (simp add: fsub_def unit_prob_def ieee.rnd_le_one)
  then show ?thesis by (simp add: unit_prob_def toFixed_le_one)
qed

text \<open>The shape of a computed score: its probabilities and its value.\<close>

definition score_value :: "opportunity \<Rightarrow> rat \<Rightarrow> int" where
  "score_value opp p =
     (let raw = iven_of p (max 0 (o_amount_paise opp))
                  (cb_fatigue (calculateCosts (sanitize_attempts (Fin (of_int (o_attempt_count opp))))))
      in if o_decline_type opp = Hard then min 0 raw else raw)"

lemma calculateScore_shape:
  assumes "calculateScore jm cb sample opp = Some sc"
  shows "0 \<le> s_incremental_prob sc"
    "s_expected_incremental_value_paise sc = score_value opp (s_incremental_prob sc)"
    "s_iven_band sc = Some (classifyIVENBand (s_expected_incremental_value_paise sc))"
    "s_opportunity_id sc = o_id opp" "s_confidence sc = determineConfidence opp"
  using assms by (auto simp: calculateScore_def score_value_def Let_def split: option.splits)

lemma calculateScore_incremental_le:
  assumes "calib_ok cb" and "calculateScore jm cb sample opp = Some sc"
  shows "s_incremental_prob sc \<le> 1"
proof (cases sample)
  case (Some b)
  have "unit_prob (max 0 (toFixed 4 (fsub (clamp 0 1 (bs_p_intervention b)) (clamp 0 1 (bs_p_natural b)))))"
    by (rule incremental_unit) (simp_all add: unit_prob_def clamp_def)
  with Some assms(2) show ?thesis by (auto simp: calculateScore_def Let_def unit_prob_def)
next
  case None
  with assms(2) obtain pe where pe: "estimateProbabilities jm cb opp = Some pe"
    by (auto simp: calculateScore_def Let_def split: option.splits)
  have "unit_prob (max 0 (toFixed 4 (fsub (pe_intervention pe) (pe_natural pe))))"
    using estimate_unit [OF assms(1) pe] by (intro incremental_unit) auto
  with None pe assms(2) show ?thesis by (auto simp: calculateScore_def Let_def unit_prob_def)
qed

lemma calculateScore_rebid:
  assumes "calculateScore jm cb sample opp = Some sc"
  shows "\<exists>sc'. calculateScore jm cb sample (opp\<lparr>o_amount_paise := a, o_attempt_count := k\<rparr>) = Some sc' \<and>
     s_incremental_prob sc' = s_incremental_prob sc"
proof -
  have "estimateProbabilities jm cb (opp\<lparr>o_amount_paise := a, o_attempt_count := k\<rparr>) =
        estimateProbabilities jm cb opp"
    by (auto simp: estimateProbabilities_def Let_def split: option.splits)
  with assms show ?thesis by (auto simp: calculateScore_def Let_def split: option.splits)
qed

section \<open>What the calibrator has seen\<close>

type_synonym obs_event = "string \<times> bool \<times> bool \<times> string"

definition obs_count :: "string \<Rightarrow> obs_event list \<Rightarrow> nat" where
  "obs_count k evs = length (filter (\<lambda>(r, _, _, t). obs_key t r = k) evs)"

definition run_observations :: "js_math \<Rightarrow> string \<Rightarrow> obs_event list \<Rightarrow> calibrator \<Rightarrow> calibrator" where
  "run_observations jm now evs cb =
     fold (\<lambda>(r, rec, itv, t). recordRealtimeObservation jm now r rec itv t) evs cb"

definition obs_ok :: "observation \<Rightarrow> bool" where
  "obs_ok ob \<longleftrightarrow> ob_natSucc ob \<le> ob_natTot ob \<and> ob_intSucc ob \<le> ob_intTot ob"

definition calib_inv :: "obs_event list \<Rightarrow> calibrator \<Rightarrow> bool" where
  "calib_inv evs cb \<longleftrightarrow>
     (\<forall>k. case cb_observations cb k of
            None \<Rightarrow> True
          | Some ob \<Rightarrow> obs_ok ob \<and> ob_natTot ob + ob_intTot ob \<le> obs_count k evs) \<and>
     (\<forall>r m. cb_cache cb r = Some m \<longrightarrow>
        model_ok m \<and> (\<exists>tid. mr_sample_size m \<le> obs_count (tid @ '':'' @ r) evs))"

lemma persistPrior_frame:
  "persistPrior now t r a b n cb = Some cb' \<Longrightarrow>
     cb_cache cb' = cb_cache cb \<and> cb_observations cb' = cb_observations cb \<and> cb_models cb' = cb_models cb"
  by (auto simp: persistPrior_def Let_def split: if_splits)

lemma updateCalibrated_frame:
  assumes "updateCalibratedDistributions jm now r no io t cb = (res, cb')"
  shows "cb_cache cb' = cb_cache cb" "cb_observations cb' = cb_observations cb"
  using assms persistPrior_frame
  by (fastforce simp: updateCalibratedDistributions_def Let_def split: option.splits prod.splits)+

lemma updateCalibrated_model:
  assumes "updateCalibratedDistributions jm now r (a, b) (c, d) t cb = (Some m, cb')"
    and "a \<le> b" and "c \<le> d"
  shows "model_ok m" "mr_sample_size m = b + d"
    "mr_model_type m = (if 100 \<le> b + d then CALIBRATED else STATIC)"
  using assms prior_nonneg direct_base_range
  by (auto simp: updateCalibratedDistributions_def Let_def model_ok_def posterior_unit
        split: option.splits prod.splits)

lemma obs_count_snoc:
  "obs_count k (evs @ [(r, rec, itv, t)]) = obs_count k evs + (if obs_key t r = k then 1 else 0)"
  by (simp add: obs_count_def)

lemma observe_ok:
  "obs_ok ob \<Longrightarrow> obs_ok (observe rec itv ob) \<and>
     ob_natTot (observe rec itv ob) + ob_intTot (observe rec itv ob) = ob_natTot ob + ob_intTot ob + 1"
  by (auto simp: observe_def obs_ok_def)

lemma calib_inv_record:
  assumes inv: "calib_inv evs cb"
  shows "calib_inv (evs @ [(r, rec, itv, t)]) (recordRealtimeObservation jm now r rec itv t cb)"
proof -
  let ?evs = "evs @ [(r, rec, itv, t)]" and ?k = "obs_key t r"
  define old where "old = (case cb_observations cb ?k of
      None \<Rightarrow> \<lparr>ob_natSucc = 0, ob_natTot = 0, ob_intSucc = 0, ob_intTot = 0\<rparr> | Some x \<Rightarrow> x)"
  define ob where "ob = observe rec itv old"
  define cb1 where "cb1 = cb\<lparr>cb_observations := (cb_observations cb)(?k \<mapsto> ob)\<rparr>"
  have mono: "obs_count k evs \<le> obs_count k ?evs" for k by (simp add: obs_count_snoc)
  have old: "obs_ok old \<and> ob_natTot old + ob_intTot old \<le> obs_count ?k evs"
    using inv by (auto simp: calib_inv_def old_def obs_ok_def split: option.splits)
  have ob: "obs_ok ob" "ob_natTot ob + ob_intTot ob \<le> obs_count ?k ?evs"
    using old observe_ok [of old rec itv] by (simp_all add: ob_def obs_count_snoc)
  have inv1: "calib_inv ?evs cb1"
    unfolding calib_inv_def
  proof (intro conjI allI impI)
    fix k
    have "case cb_observations cb k of None \<Rightarrow> True
          | Some ob \<Rightarrow> obs_ok ob \<and> ob_natTot ob + ob_intTot ob \<le> obs_count k ?evs"
      using inv mono [of k] by (auto simp: calib_inv_def split: option.splits dest: spec [of _ k])
    with ob show "case cb_observations cb1 k of None \<Rightarrow> True
          | Some ob \<Rightarrow> obs_ok ob \<and> ob_natTot ob + ob_intTot ob \<le> obs_count k ?evs"
      by (simp add: cb1_def)
  next
    fix q m
    assume "cb_cache cb1 q = Some m"
    with inv have "model_ok m \<and> (\<exists>tid. mr_sample_size m \<le> obs_count (tid @ '':'' @ q) evs)"
      by (simp add: calib_inv_def cb1_def)
    then show "model_ok m" and "\<exists>tid. mr_sample_size m \<le> obs_count (tid @ '':'' @ q) ?evs"
      using mono le_trans by blast+
  qed
  obtain res cb2 where up: "updateCalibratedDistributions jm now (norm_reason r)
      (ob_natSucc ob, ob_natTot ob) (ob_intSucc ob, ob_intTot ob) t cb1 = (res, cb2)"
    by fastforce
  note fr = updateCalibrated_frame [OF up]
  have rec: "recordRealtimeObservation jm now r rec itv t cb =
      (if 5 \<le> ob_intTot ob + ob_natTot ob
       then (case res of None \<Rightarrow> cb2 | Some m \<Rightarrow> cb2\<lparr>cb_cache := (cb_cache cb2)(norm_reason r \<mapsto> m)\<rparr>)
       else cb1)"
    by (simp add: recordRealtimeObservation_def Let_def old_def [symmetric] ob_def [symmetric]
          cb1_def [symmetric] up split: option.split)
  have new: "model_ok m \<and> mr_sample_size m \<le> obs_count (t @ '':'' @ norm_reason r) ?evs"
    if "res = Some m" for m
    using updateCalibrated_model [of jm now "norm_reason r" _ _ _ _ t cb1 m cb2] up that ob
    by (auto simp: obs_ok_def obs_key_def)
  show ?thesis
    unfolding rec using inv1 new fr
    by (cases res) (auto simp: calib_inv_def)
qed

lemma calib_inv_run: "calib_inv evs (run_observations jm now evs new_calibrator)"
proof (induction evs rule: rev_induct)
  case Nil
  show ?case by (simp add: calib_inv_def run_observations_def new_calibrator_def)
next
  case (snoc e evs)
  obtain r rec itv t where e: "e = (r, rec, itv, t)" by (cases e)
  from calib_inv_record [OF snoc, of r rec itv t jm now] show ?case
    by (simp add: run_observations_def e)
qed

lemma calib_inv_ok: "calib_inv evs cb \<Longrightarrow> calib_ok cb"
  by (simp add: calib_inv_def calib_ok_def)

section \<open>Properties\<close>

text \<open>
  C23. The score of an opportunity is economically sound, in the double arithmetic the
  code uses: the incremental probability is in the unit interval, the value lies
  between minus the highest possible cost and the amount less the delivery cost, the
  band is NEGATIVE exactly for values that are not positive, and a hard decline never
  has a positive value.
\<close>

theorem score_sound:
  assumes "calib_ok cb" and "calculateScore jm cb sample opp = Some sc" and "o_amount_paise opp \<le> 2 ^ 53"
  shows "0 \<le> s_incremental_prob sc \<and> s_incremental_prob sc \<le> 1 \<and>
     - 9900 \<le> s_expected_incremental_value_paise sc \<and>
     s_expected_incremental_value_paise sc \<le> max 0 (o_amount_paise opp) - 400 \<and>
     (s_iven_band sc = Some NEGATIVE \<longleftrightarrow> s_expected_incremental_value_paise sc \<le> 0) \<and>
     (o_decline_type opp = Hard \<longrightarrow> s_expected_incremental_value_paise sc \<le> 0)"
proof -
  let ?f = "cb_fatigue (calculateCosts (sanitize_attempts (Fin (of_int (o_attempt_count opp)))))"
  let ?raw = "iven_of (s_incremental_prob sc) (max 0 (o_amount_paise opp)) ?f"
  note sh = calculateScore_shape [OF assms(2)]
  have p: "0 \<le> s_incremental_prob sc" "s_incremental_prob sc \<le> 1"
    using sh(1) calculateScore_incremental_le [OF assms(1,2)] by auto
  have f: "0 \<le> ?f" "?f \<le> 9500" using fatigue_range sanitize_attempts_range by blast+
  have lo: "- 9900 \<le> ?raw" using p f by (intro iven_lower) auto
  have hi: "?raw \<le> max 0 (o_amount_paise opp) - 400"
    using p f assms(3) by (intro iven_upper) auto
  have band: "classifyIVENBand v = NEGATIVE \<longleftrightarrow> v \<le> 0" for v
    by (auto simp: classifyIVENBand_def)
  define raw where "raw = ?raw"
  define v where "v = s_expected_incremental_value_paise sc"
  have v: "v = (if o_decline_type opp = Hard then min 0 raw else raw)"
    unfolding v_def raw_def sh(2) score_value_def Let_def by (rule refl)
  have "- 9900 \<le> v" and "v \<le> max 0 (o_amount_paise opp) - 400" and "o_decline_type opp = Hard \<longrightarrow> v \<le> 0"
    using lo [folded raw_def] hi [folded raw_def] unfolding v by (auto simp: min_def max_def split: if_splits)
  then show ?thesis using p sh(3) unfolding v_def by (simp add: band)
qed

definition sample_math :: js_math where
  "sample_math = \<lparr>m_sqrt = (\<lambda>x. x), m_tanh = (\<lambda>x. if x < 1 then x else 1), m_log = (\<lambda>x. x)\<rparr>"

definition sample_opportunity :: "string \<Rightarrow> string \<Rightarrow> decline_type \<Rightarrow> int \<Rightarrow> opportunity" where
  "sample_opportunity i r d a =
     \<lparr>o_id = i, o_source = Src_real, o_amount_paise = a, o_currency = ''INR'', o_reason_code = r,
      o_decline_type = d, o_attempt_count = 1, o_customer_id = ''c1'', o_customer_trust_score = 1,
      o_created_at = ''2026'', o_status = Pending, o_tenant_id = ''t1'', o_merchant_id = ''t1'',
      o_environment = Env_test, o_razorpay_event_id = None, o_raw_payload_ref = None\<rparr>"

lemma sample_score:
  "map_option s_expected_incremental_value_paise
     (calculateScore sample_math new_calibrator None
        (sample_opportunity ''o1'' ''insufficient_funds'' Soft 185000)) = Some 36600"
proof -
  have l: "toLowerCase ''insufficient_funds'' = ''insufficient_funds''" by code_simp
  have v: "iven_of (max 0 (toFixed 4 (fsub (lit 55 2) (lit 35 2)))) 185000 0 = 36600" by code_simp
  show ?thesis
    using v by (simp add: calculateScore_def estimateProbabilities_def getEffectiveProbabilitiesSync_def
        Let_def sample_opportunity_def l new_calibrator_def static_base_def
        STATIC_PROBABILITY_TABLE_def calculateCosts_def)
qed

theorem score_sound_witness:
  "\<exists>sc. calculateScore sample_math new_calibrator None
     (sample_opportunity ''o1'' ''insufficient_funds'' Soft 185000) = Some sc \<and>
     s_expected_incremental_value_paise sc = 36600 \<and> s_iven_band sc \<noteq> Some NEGATIVE"
proof -
  obtain sc where sc: "calculateScore sample_math new_calibrator None
      (sample_opportunity ''o1'' ''insufficient_funds'' Soft 185000) = Some sc"
      "s_expected_incremental_value_paise sc = 36600"
    using sample_score by auto
  have "calib_ok new_calibrator" by (simp add: calib_ok_def new_calibrator_def)
  from score_sound [OF this sc(1)] sc show ?thesis by (auto simp: sample_opportunity_def)
qed

text \<open>
  The value is monotone: with everything else equal, a larger amount and fewer
  attempts never lower it (no rounding step reverses the order).
\<close>

theorem score_monotone:
  assumes "calculateScore jm cb sample opp = Some sc"
    and "o_amount_paise opp \<le> a" and "k \<le> o_attempt_count opp"
  shows "\<exists>sc'. calculateScore jm cb sample (opp\<lparr>o_amount_paise := a, o_attempt_count := k\<rparr>) = Some sc' \<and>
     s_expected_incremental_value_paise sc \<le> s_expected_incremental_value_paise sc'"
proof -
  obtain sc' where sc': "calculateScore jm cb sample (opp\<lparr>o_amount_paise := a, o_attempt_count := k\<rparr>) = Some sc'"
    and inc: "s_incremental_prob sc' = s_incremental_prob sc"
    using calculateScore_rebid [OF assms(1)] by blast
  have "iven_of (s_incremental_prob sc) (max 0 (o_amount_paise opp))
          (cb_fatigue (calculateCosts (sanitize_attempts (Fin (of_int (o_attempt_count opp)))))) \<le>
        iven_of (s_incremental_prob sc) (max 0 a)
          (cb_fatigue (calculateCosts (sanitize_attempts (Fin (of_int k)))))"
    using calculateScore_shape(1) [OF assms(1)] assms(2,3)
    by (intro iven_mono fatigue_mono) auto
  then have "score_value opp (s_incremental_prob sc) \<le>
      score_value (opp\<lparr>o_amount_paise := a, o_attempt_count := k\<rparr>) (s_incremental_prob sc)"
    unfolding score_value_def Let_def
    by (cases "o_decline_type opp = Hard") (simp_all del: sanitize_attempts.simps add: min.coboundedI2)
  then show ?thesis
    using sc' calculateScore_shape(2) [OF assms(1)] calculateScore_shape(2) [OF sc'] inc by auto
qed

theorem score_monotone_witness:
  "\<exists>sc'. calculateScore sample_math new_calibrator None
      ((sample_opportunity ''o1'' ''insufficient_funds'' Soft 185000)
         \<lparr>o_amount_paise := 200000, o_attempt_count := 1\<rparr>) = Some sc' \<and>
    36600 \<le> s_expected_incremental_value_paise sc'"
proof -
  obtain sc where sc: "calculateScore sample_math new_calibrator None
      (sample_opportunity ''o1'' ''insufficient_funds'' Soft 185000) = Some sc"
      "s_expected_incremental_value_paise sc = 36600"
    using sample_score by auto
  from score_monotone [OF sc(1), of 200000 1] sc(2) show ?thesis
    by (simp add: sample_opportunity_def)
qed

text \<open>
  The calibrated model is used only on evidence: whatever observations have been
  recorded, the probabilities served for a reason are the static ones unless some
  tenant has recorded at least 100 observations under that reason's key, and in both
  cases they are in the unit interval.
\<close>

theorem calibration_needs_evidence:
  "case getEffectiveProbabilitiesSync jm (run_observations jm now evs new_calibrator) r d of
     None \<Rightarrow> inherited_key (toLowerCase r)
   | Some e \<Rightarrow> 0 \<le> ef_p_natural e \<and> ef_p_natural e \<le> 1 \<and>
        0 \<le> ef_p_intervention e \<and> ef_p_intervention e \<le> 1 \<and>
        (ef_source e = STATIC \<or> (\<exists>tid. 100 \<le> obs_count (tid @ '':'' @ toLowerCase r) evs))"
proof (cases "getEffectiveProbabilitiesSync jm (run_observations jm now evs new_calibrator) r d")
  case None
  have "static_base q = None \<Longrightarrow> inherited_key q" for q
    by (auto simp: static_base_def static_fallback_def STATIC_PROBABILITY_TABLE_def
          split: option.splits if_splits)
  with None show ?thesis
    by (auto simp: getEffectiveProbabilitiesSync_def Let_def split: if_splits option.splits)
next
  case (Some e)
  let ?cb = "run_observations jm now evs new_calibrator"
  have inv: "calib_inv evs ?cb" by (rule calib_inv_run)
  have u: "unit_prob (ef_p_natural e) \<and> unit_prob (ef_p_intervention e)"
    by (rule effective_unit [OF calib_inv_ok [OF inv] Some])
  have "\<exists>tid. 100 \<le> obs_count (tid @ '':'' @ toLowerCase r) evs" if "ef_source e \<noteq> STATIC"
  proof -
    from Some that obtain c where c: "cb_cache ?cb (toLowerCase r) = Some c" "100 \<le> mr_sample_size c"
      by (auto simp: getEffectiveProbabilitiesSync_def Let_def split: if_splits option.splits)
    with inv show ?thesis unfolding calib_inv_def by (meson le_trans)
  qed
  with u Some show ?thesis by (auto simp: unit_prob_def)
qed

text \<open>
  The promotion gate is not on the path that scores: an observation that brings a
  reason to 100 observations, fewer than 100 of them interventions, stores a model
  that was not promoted (CANDIDATE).  The asynchronous accessor refuses it, but the
  synchronous accessor, the one the scorer calls, serves it as CALIBRATED.
\<close>

theorem candidate_model_served:
  fixes jm now r rec itv t cb
  assumes "cb_observations cb (obs_key t r) = Some ob"
    and "100 \<le> ob_natTot ob + ob_intTot ob + 1" and "ob_intTot ob < 99"
    and "cb_priors cb = []" and "direct_base (norm_reason r) \<noteq> None"
    and "toLowerCase (norm_reason r) = norm_reason r"
  defines "cb' \<equiv> recordRealtimeObservation jm now r rec itv t cb"
  shows "(\<exists>p q. fst (getEffectiveProbabilities cb' (norm_reason r)) = Some (p, q, STATIC)) \<and>
     (\<exists>e. getEffectiveProbabilitiesSync jm cb' (norm_reason r) Soft = Some e \<and> ef_source e = CALIBRATED)"
proof -
  obtain bn bi where base: "direct_base (norm_reason r) = Some (bn, bi)" using assms(5) by auto
  let ?o = "observe rec itv ob"
  have small: "ob_intTot ?o < 100" and tot: "100 \<le> ob_natTot ?o + ob_intTot ?o"
    and five: "5 \<le> ob_intTot ?o + ob_natTot ?o"
    using assms(2,3) by (auto simp: observe_def)
  obtain m where m: "cb_cache cb' (norm_reason r) = Some m" "cb_models cb' (norm_reason r) = Some m"
    "mr_status m = CANDIDATE" "mr_sample_size m = ob_natTot ?o + ob_intTot ?o"
    "mr_model_type m = CALIBRATED"
    unfolding cb'_def recordRealtimeObservation_def Let_def
    using small tot five assms(1,4) base
    by (simp add: updateCalibratedDistributions_def persistPrior_def Let_def evaluateModelPromotion_def)
  show ?thesis
    using m tot base assms(6)
    by (auto simp: getEffectiveProbabilities_def getEffectiveProbabilitiesSync_def Let_def)
qed

theorem candidate_model_served_witness:
  "\<exists>e. getEffectiveProbabilitiesSync sample_math
     (recordRealtimeObservation sample_math ''2026'' ''expired_card'' True False ''t1''
        (new_calibrator\<lparr>cb_observations := [''t1:expired_card'' \<mapsto>
           \<lparr>ob_natSucc = 40, ob_natTot = 99, ob_intSucc = 0, ob_intTot = 0\<rparr>]\<rparr>))
     ''expired_card'' Soft = Some e \<and> ef_source e = CALIBRATED"
proof -
  have n: "norm_reason ''expired_card'' = ''expired_card''"
    and l: "toLowerCase ''expired_card'' = ''expired_card''"
    by code_simp+
  show ?thesis
    using candidate_model_served [where
        cb = "new_calibrator\<lparr>cb_observations := [''t1:expired_card'' \<mapsto>
           \<lparr>ob_natSucc = 40, ob_natTot = 99, ob_intSucc = 0, ob_intTot = 0\<rparr>]\<rparr>" and t = "''t1''"
        and r = "''expired_card''"
        and ob = "\<lparr>ob_natSucc = 40, ob_natTot = 99, ob_intSucc = 0, ob_intTot = 0\<rparr>"
        and jm = sample_math and now = "''2026''" and rec = True and itv = False]
    by (simp add: n l obs_key_def new_calibrator_def direct_base_def STATIC_PROBABILITY_TABLE_def)
qed

text \<open>
  Scoring writes one score for the opportunity and moves it from pending to
  scored, leaves every other opportunity and every other score as it was, and keeps
  the store invariant.
\<close>

theorem score_stored:
  assumes "store_ok s" and "getOpportunityById s (o_id opp) = Some opp"
    and "scoreOpportunity jm cb sample opp s = Some (sc, s')"
  shows "store_ok s' \<and>
     getScoreByOpportunityId s' (o_id opp) = Some (score_merge None sc) \<and>
     (\<forall>k. k \<noteq> o_id opp \<longrightarrow> getScoreByOpportunityId s' k = getScoreByOpportunityId s k \<and>
            getOpportunityById s' k = getOpportunityById s k) \<and>
     map_option o_status (getOpportunityById s' (o_id opp)) =
       Some (if o_status opp = Pending then Scored else o_status opp)"
proof -
  from assms(3) have sc: "calculateScore jm cb sample opp = Some sc"
    and s': "s' = (if o_status opp = Pending then updateOpportunityStatus (o_id opp) Scored (upsertScore sc s)
                   else upsertScore sc s)"
    by (auto simp: scoreOpportunity_def Let_def split: option.splits)
  from sc have id: "s_opportunity_id sc = o_id opp" by (rule calculateScore_shape(4))
  have mem: "o_id opp \<in> o_id ` set (opportunities s)"
    using assms(2) getOpportunityById_ids [of s "o_id opp"] by auto
  have ok: "store_ok (upsertScore sc s)"
    using assms(1) mem id by (intro store_ok_upsertScore) auto
  have opp: "getOpportunityById (upsertScore sc s) k = getOpportunityById s k" for k
    by (simp add: getOpportunityById_def)
  have get: "getScoreByOpportunityId (updateOpportunityStatus a b u) k = getScoreByOpportunityId u k"
    for a b u k by (simp add: getScoreByOpportunityId_def)
  show ?thesis
    using ok assms(2) id score_repo.get_put_same [of sc s] score_repo.get_put_other [of _ sc s]
    by (auto simp: s' store_ok_updateStatus get opp getOpportunityById_updateStatus next_status_def
          score_merge_def)
qed

theorem score_stored_witness:
  "\<exists>sc s'. scoreOpportunity sample_math new_calibrator None
       (sample_opportunity ''o1'' ''insufficient_funds'' Soft 185000)
       (empty_store\<lparr>opportunities := [sample_opportunity ''o1'' ''insufficient_funds'' Soft 185000]\<rparr>)
     = Some (sc, s') \<and> store_ok s' \<and> map_option o_status (getOpportunityById s' ''o1'') = Some Scored"
proof -
  let ?o = "sample_opportunity ''o1'' ''insufficient_funds'' Soft 185000"
  let ?s = "empty_store\<lparr>opportunities := [?o]\<rparr>"
  obtain sc where sc: "calculateScore sample_math new_calibrator None ?o = Some sc"
    using sample_score by auto
  then obtain s' where s': "scoreOpportunity sample_math new_calibrator None ?o ?s = Some (sc, s')"
    by (simp add: scoreOpportunity_def Let_def)
  have "store_ok ?s" by (simp add: store_ok_def empty_store_def)
  moreover have "getOpportunityById ?s (o_id ?o) = Some ?o"
    by (simp add: getOpportunityById_def row_get_def empty_store_def)
  ultimately show ?thesis
    using score_stored [OF _ _ s'] s' by (auto simp: sample_opportunity_def)
qed

end
