(* ===== verification/Bandit.thy ===== *)
theory Bandit
  imports Economics
begin

text \<open>
  The Thompson-sampling bandit (\<^verbatim>\<open>src/economics/bandit_policy.ts\<close>) and its table
  (\<^verbatim>\<open>bandit_arms\<close> in \<^verbatim>\<open>src/db/database.ts\<close>).  The Gamma sampler is a loop over
  \<^verbatim>\<open>Math.random\<close>: what it draws is an argument, a pair of positive numbers per call of
  \<open>sampleBeta\<close>, and every statement holds for all draws.
\<close>

section \<open>The table of arms\<close>

record bandit_arm =
  ba_id :: string
  ba_tenant_id :: string
  ba_context_key :: string
  ba_alpha_interv :: rat
  ba_beta_interv :: rat
  ba_alpha_nat :: rat
  ba_beta_nat :: rat
  ba_pull_count :: nat
  ba_reward_sum :: rat
  ba_updated_at :: string

type_synonym arms = "bandit_arm list"

definition arm_key :: "bandit_arm \<Rightarrow> string \<times> string" where
  "arm_key a = (ba_tenant_id a, ba_context_key a)"

definition getBanditArm :: "arms \<Rightarrow> string \<Rightarrow> string \<Rightarrow> bandit_arm option" where
  "getBanditArm arms tenantId contextKey = row_get arm_key (tenantId, contextKey) arms"

text \<open>The conflict clause keeps the id of an existing arm.\<close>

definition arm_merge :: "bandit_arm option \<Rightarrow> bandit_arm \<Rightarrow> bandit_arm" where
  "arm_merge old a = (case old of None \<Rightarrow> a | Some x \<Rightarrow> a\<lparr>ba_id := ba_id x\<rparr>)"

definition upsertBanditArm :: "bandit_arm \<Rightarrow> arms \<Rightarrow> arms" where
  "upsertBanditArm a arms = row_put arm_key arm_merge a arms"

definition getAllBanditArms :: "arms \<Rightarrow> string \<Rightarrow> arms" where
  "getAllBanditArms arms tenantId = sort_desc ba_pull_count (filter (\<lambda>a. ba_tenant_id a = tenantId) arms)"

interpretation arm_table: keyed_table arm_key "\<lambda>arms (t, c). getBanditArm arms t c" upsertBanditArm arm_merge
proof
  show k: "arm_key (arm_merge q r) = arm_key r" for q r
    by (simp add: arm_merge_def arm_key_def split: option.split)
  show "(case k of (t, c) \<Rightarrow> getBanditArm (upsertBanditArm r d) t c) =
      (if k = arm_key r
       then Some (arm_merge (case arm_key r of (t, c) \<Rightarrow> getBanditArm d t c) r)
       else case k of (t, c) \<Rightarrow> getBanditArm d t c)" for r d k
    using k by (cases k; cases "arm_key r")
      (simp add: getBanditArm_def upsertBanditArm_def row_get_put)
qed

section \<open>Sampling\<close>

datatype amount_tier = MICRO | MID | HIGH | ENTERPRISE

definition resolveAmountTier :: "int \<Rightarrow> amount_tier" where
  "resolveAmountTier amountPaise =
     (if amountPaise < 100000 then MICRO else if amountPaise < 500000 then MID
      else if amountPaise < 2000000 then HIGH else ENTERPRISE)"

fun show_tier :: "amount_tier \<Rightarrow> string" where
  "show_tier MICRO = ''MICRO''"
| "show_tier MID = ''MID''"
| "show_tier HIGH = ''HIGH''"
| "show_tier ENTERPRISE = ''ENTERPRISE''"

definition getContextKey :: "opportunity \<Rightarrow> string" where
  "getContextKey opp = or_str (o_reason_code opp) ''generic_decline'' @ '':'' @
     show_tier (resolveAmountTier (o_amount_paise opp))"

definition sampleBeta :: "(rat \<Rightarrow> rat) \<Rightarrow> (rat \<Rightarrow> rat) \<Rightarrow> rat \<Rightarrow> rat \<Rightarrow> rat" where
  "sampleBeta gamma1 gamma2 alpha beta =
     (let y1 = gamma1 (max (lit 1 2) alpha); y2 = gamma2 (max (lit 1 2) beta)
      in if fadd y1 y2 = 0 then lit 5 1
         else max (lit 1 3) (min (lit 999 3) (fdiv y1 (fadd y1 y2))))"

record thompson_sample =
  ts_p_natural :: rat
  ts_p_intervention :: rat
  ts_p_incremental :: rat
  ts_context_key :: string
  ts_alpha_interv :: rat
  ts_beta_interv :: rat
  ts_alpha_nat :: rat
  ts_beta_nat :: rat
  ts_is_hard_veto :: bool

record gamma_draws =
  gd_interv_a :: "rat \<Rightarrow> rat"
  gd_interv_b :: "rat \<Rightarrow> rat"
  gd_nat_a :: "rat \<Rightarrow> rat"
  gd_nat_b :: "rat \<Rightarrow> rat"

definition sampleProbabilities :: "gamma_draws \<Rightarrow> arms \<Rightarrow> opportunity \<Rightarrow> string \<Rightarrow> thompson_sample" where
  "sampleProbabilities gd arms opp tenantId =
     (let contextKey = getContextKey opp
      in if o_decline_type opp = Hard
         then \<lparr>ts_p_natural = lit 2 2, ts_p_intervention = lit 2 2, ts_p_incremental = 0,
               ts_context_key = contextKey, ts_alpha_interv = 1, ts_beta_interv = 49,
               ts_alpha_nat = 1, ts_beta_nat = 49, ts_is_hard_veto = True\<rparr>
         else
           let arm = getBanditArm arms tenantId contextKey;
               ai = (case arm of None \<Rightarrow> 3 | Some a \<Rightarrow> ba_alpha_interv a);
               bi = (case arm of None \<Rightarrow> 3 | Some a \<Rightarrow> ba_beta_interv a);
               an = (case arm of None \<Rightarrow> 2 | Some a \<Rightarrow> ba_alpha_nat a);
               bn = (case arm of None \<Rightarrow> 6 | Some a \<Rightarrow> ba_beta_nat a);
               pi = sampleBeta (gd_interv_a gd) (gd_interv_b gd) ai bi;
               pn = sampleBeta (gd_nat_a gd) (gd_nat_b gd) an bn
           in \<lparr>ts_p_natural = toFixed 4 pn, ts_p_intervention = toFixed 4 pi,
               ts_p_incremental = toFixed 4 (max 0 (fsub pi pn)), ts_context_key = contextKey,
               ts_alpha_interv = ai, ts_beta_interv = bi, ts_alpha_nat = an, ts_beta_nat = bn,
               ts_is_hard_veto = False\<rparr>)"

section \<open>Rewards\<close>

definition fresh_arm :: "string \<Rightarrow> string \<Rightarrow> string \<Rightarrow> string \<Rightarrow> bandit_arm" where
  "fresh_arm armId now tenantId contextKey =
     \<lparr>ba_id = armId, ba_tenant_id = tenantId, ba_context_key = contextKey, ba_alpha_interv = 3,
      ba_beta_interv = 3, ba_alpha_nat = 2, ba_beta_nat = 6, ba_pull_count = 0, ba_reward_sum = 0,
      ba_updated_at = now\<rparr>"

definition reward_arm :: "bool \<Rightarrow> bool \<Rightarrow> bandit_arm \<Rightarrow> bandit_arm" where
  "reward_arm isRecovered isIntervention a =
     (if isIntervention
      then (if isRecovered
            then a\<lparr>ba_alpha_interv := fadd (ba_alpha_interv a) 1, ba_reward_sum := fadd (ba_reward_sum a) 1\<rparr>
            else a\<lparr>ba_beta_interv := fadd (ba_beta_interv a) 1\<rparr>)
      else (if isRecovered then a\<lparr>ba_alpha_nat := fadd (ba_alpha_nat a) 1\<rparr>
            else a\<lparr>ba_beta_nat := fadd (ba_beta_nat a) 1\<rparr>))"

definition updateReward ::
  "string \<Rightarrow> string \<Rightarrow> string \<Rightarrow> string \<Rightarrow> bool \<Rightarrow> bool \<Rightarrow> arms \<Rightarrow> bandit_arm \<times> arms" where
  "updateReward armId now tenantId contextKey isRecovered isIntervention arms =
     (let old = (case getBanditArm arms tenantId contextKey of
                   Some a \<Rightarrow> a | None \<Rightarrow> fresh_arm armId now tenantId contextKey);
          a = (reward_arm isRecovered isIntervention old)
                \<lparr>ba_pull_count := ba_pull_count old + 1, ba_updated_at := now\<rparr>
      in (a, upsertBanditArm a arms))"

record arm_analytics =
  an_context_key :: string
  an_expected_p_interv :: rat
  an_expected_p_nat :: rat
  an_expected_incremental_lift :: rat
  an_pull_count :: nat
  an_confidence :: confidence_level

definition getArmAnalytics :: "arms \<Rightarrow> string \<Rightarrow> arm_analytics list" where
  "getArmAnalytics arms tenantId =
     map (\<lambda>arm.
       let expInterv = fdiv (ba_alpha_interv arm) (fadd (ba_alpha_interv arm) (ba_beta_interv arm));
           expNat = fdiv (ba_alpha_nat arm) (fadd (ba_alpha_nat arm) (ba_beta_nat arm));
           lift = max 0 (fsub expInterv expNat)
       in \<lparr>an_context_key = ba_context_key arm, an_expected_p_interv = toFixed 4 expInterv,
           an_expected_p_nat = toFixed 4 expNat, an_expected_incremental_lift = toFixed 4 lift,
           an_pull_count = ba_pull_count arm,
           an_confidence = (if 50 \<le> ba_pull_count arm then High
                            else if 15 \<le> ba_pull_count arm then Medium else Low)\<rparr>)
       (getAllBanditArms arms tenantId)"

section \<open>The posterior counts the rewards\<close>

type_synonym reward_event = "string \<times> string \<times> bool \<times> bool"

fun reward_step :: "string \<Rightarrow> string \<Rightarrow> reward_event \<Rightarrow> arms \<Rightarrow> arms" where
  "reward_step armId now (tenantId, contextKey, isRecovered, isIntervention) arms =
     snd (updateReward armId now tenantId contextKey isRecovered isIntervention arms)"

definition run_rewards :: "string \<Rightarrow> string \<Rightarrow> reward_event list \<Rightarrow> arms" where
  "run_rewards armId now evs = fold (reward_step armId now) evs []"

definition reward_count :: "string \<Rightarrow> string \<Rightarrow> bool \<Rightarrow> bool \<Rightarrow> reward_event list \<Rightarrow> nat" where
  "reward_count t c r i evs = count_list evs (t, c, r, i)"

lemma fadd_count: "n < 2 ^ 52 \<Longrightarrow> k \<le> 8 \<Longrightarrow> fadd (of_nat k + of_nat n) 1 = of_nat k + of_nat (Suc n)"
proof -
  assume "n < 2 ^ 52" "k \<le> 8"
  then have "rnd64 (of_int (int k + int n + 1)) = of_int (int k + int n + 1)"
    by (intro rnd64_int) simp
  then show ?thesis by (simp add: fadd_def add.assoc)
qed

lemma fadd_prior:
  assumes "n < 2 ^ 52"
  shows "fadd (3 + of_nat n) 1 = 3 + of_nat (Suc n)" "fadd (2 + of_nat n) 1 = 2 + of_nat (Suc n)"
    "fadd (6 + of_nat n) 1 = 6 + of_nat (Suc n)" "fadd (of_nat n) 1 = of_nat (Suc n)"
  using fadd_count [OF assms, of 3] fadd_count [OF assms, of 2] fadd_count [OF assms, of 6]
    fadd_count [OF assms, of 0] by simp_all

definition posterior_arm :: "string \<Rightarrow> string \<Rightarrow> reward_event list \<Rightarrow> bandit_arm \<Rightarrow> bool" where
  "posterior_arm t c evs a \<longleftrightarrow>
     ba_tenant_id a = t \<and> ba_context_key a = c \<and>
     ba_alpha_interv a = 3 + of_nat (reward_count t c True True evs) \<and>
     ba_beta_interv a = 3 + of_nat (reward_count t c False True evs) \<and>
     ba_alpha_nat a = 2 + of_nat (reward_count t c True False evs) \<and>
     ba_beta_nat a = 6 + of_nat (reward_count t c False False evs) \<and>
     ba_reward_sum a = of_nat (reward_count t c True True evs) \<and>
     ba_pull_count a = reward_count t c True True evs + reward_count t c False True evs +
       reward_count t c True False evs + reward_count t c False False evs"

lemma posterior_fresh:
  "\<forall>r i. reward_count t c r i evs = 0 \<Longrightarrow> posterior_arm t c evs (fresh_arm armId now t c)"
  by (simp add: posterior_arm_def fresh_arm_def)

lemma posterior_reward:
  assumes "posterior_arm t c evs a" and "length evs < 2 ^ 52"
  shows "posterior_arm t c (evs @ [(t, c, r, i)])
     ((reward_arm r i a)\<lparr>ba_pull_count := ba_pull_count a + 1, ba_updated_at := now\<rparr>)"
proof -
  have "reward_count t c r' i' evs < 2 ^ 52" for r' i'
    using assms(2) count_le_length [of evs "(t, c, r', i')"] by (simp add: reward_count_def)
  note f = fadd_prior [OF this]
  show ?thesis
    using assms(1)
    by (cases r; cases i) (simp_all add: posterior_arm_def reward_arm_def f, simp_all add: reward_count_def)
qed

lemma posterior_other:
  "(t, c) \<noteq> (t', c') \<Longrightarrow> posterior_arm t c (evs @ [(t', c', r, i)]) a \<longleftrightarrow> posterior_arm t c evs a"
  by (auto simp: posterior_arm_def reward_count_def)

lemma arm_get_update:
  "getBanditArm (snd (updateReward armId now t' c' r i arms)) t c =
     (if (t, c) = (t', c')
      then let old = (case getBanditArm arms t c of Some a \<Rightarrow> a | None \<Rightarrow> fresh_arm armId now t c)
           in Some ((reward_arm r i old)\<lparr>ba_pull_count := ba_pull_count old + 1, ba_updated_at := now\<rparr>)
      else getBanditArm arms t c)"
proof -
  define old where "old = (case getBanditArm arms t' c' of Some a \<Rightarrow> a | None \<Rightarrow> fresh_arm armId now t' c')"
  define a where "a = (reward_arm r i old)\<lparr>ba_pull_count := ba_pull_count old + 1, ba_updated_at := now\<rparr>"
  have "arm_key old = (t', c')"
    by (auto simp: old_def getBanditArm_def fresh_arm_def arm_key_def split: option.split dest!: row_get_Some)
  then have key: "arm_key a = (t', c')"
    by (simp add: a_def arm_key_def reward_arm_def)
  have "a\<lparr>ba_id := ba_id old\<rparr> = a" by (simp add: a_def reward_arm_def)
  then have merge: "arm_merge (getBanditArm arms t' c') a = a"
    by (auto simp: arm_merge_def old_def split: option.split)
  have "snd (updateReward armId now t' c' r i arms) = upsertBanditArm a arms"
    by (simp add: updateReward_def Let_def a_def old_def)
  then have "getBanditArm (snd (updateReward armId now t' c' r i arms)) t c =
      (if (t, c) = (t', c') then Some a else getBanditArm arms t c)"
    using arm_table.get_put [of a arms "(t, c)"] key merge by simp
  then show ?thesis by (auto simp: a_def old_def Let_def)
qed

lemma run_rewards_posterior:
  "length evs \<le> 2 ^ 52 \<Longrightarrow>
   (case getBanditArm (run_rewards armId now evs) t c of
      None \<Rightarrow> \<forall>r i. reward_count t c r i evs = 0
    | Some a \<Rightarrow> posterior_arm t c evs a)"
proof (induction evs rule: rev_induct)
  case Nil
  then show ?case by (simp add: run_rewards_def getBanditArm_def row_get_def reward_count_def)
next
  case (snoc ev evs)
  obtain t' c' r i where ev: "ev = (t', c', r, i)" by (cases ev)
  have run: "run_rewards armId now (evs @ [ev]) =
      snd (updateReward armId now t' c' r i (run_rewards armId now evs))"
    by (simp add: run_rewards_def ev)
  have len: "length evs < 2 ^ 52" using snoc.prems by simp
  with snoc.IH have IH: "case getBanditArm (run_rewards armId now evs) t c of
      None \<Rightarrow> \<forall>r i. reward_count t c r i evs = 0 | Some a \<Rightarrow> posterior_arm t c evs a" by simp
  show ?case
  proof (cases "(t, c) = (t', c')")
    case True
    have "posterior_arm t c evs (case getBanditArm (run_rewards armId now evs) t c of
        Some a \<Rightarrow> a | None \<Rightarrow> fresh_arm armId now t c)"
      using IH posterior_fresh by (auto split: option.splits)
    moreover from True have "t' = t" and "c' = c" by auto
    ultimately show ?thesis
      using posterior_reward [OF _ len] unfolding run by (simp add: ev arm_get_update Let_def)
  next
    case False
    then show ?thesis
      using IH posterior_other [OF False]
      unfolding run by (auto simp: ev arm_get_update reward_count_def split: option.splits)
  qed
qed

section \<open>Properties\<close>

text \<open>
  The bandit learns exactly: after any sequence of rewards over any tenants and
  contexts (of at most 2^52, where doubles still count), an arm exists for every key that
  was rewarded, and its Beta parameters are the prior plus the number of successes and
  failures of that tenant and context, with and without intervention, its reward sum the
  number of recovered interventions and its pull count the number of rewards; no reward of
  one tenant or context leaks into another.
\<close>

theorem bandit_posterior_exact:
  assumes "length evs \<le> 2 ^ 52" and "(t, c, r, i) \<in> set evs"
  shows "\<exists>a. getBanditArm (run_rewards armId now evs) t c = Some a \<and> posterior_arm t c evs a"
proof -
  have "reward_count t c r i evs \<noteq> 0"
    using assms(2) by (simp add: reward_count_def count_list_0_iff)
  with run_rewards_posterior [OF assms(1), of t c armId now] show ?thesis
    by (auto split: option.splits)
qed

theorem bandit_posterior_exact_witness:
  "\<exists>a. getBanditArm (run_rewards ''a1'' ''now''
      [(''t'', ''k'', True, True), (''u'', ''k'', False, True), (''t'', ''k'', False, False)]) ''t'' ''k'' = Some a \<and>
    posterior_arm ''t'' ''k''
      [(''t'', ''k'', True, True), (''u'', ''k'', False, True), (''t'', ''k'', False, False)] a"
  by (rule bandit_posterior_exact [where r = True and i = True]) simp_all

end
