(* ===== verification/Reconcile.thy ===== *)
theory Reconcile
  imports Truth Ledger Bandit JSON
begin

text \<open>
  The authoritative reconciler (\<^verbatim>\<open>src/reconciliation/authoritative_reconciler.ts\<close>), its
  sweep, the poller (\<^verbatim>\<open>src/reconciliation/poller.ts\<close>) and the SLA tracker
  (\<^verbatim>\<open>src/truth/reconciliation_sla.ts\<close>).  The provider's answer to a fetch is an argument,
  and so are the generated ids, the clock, \<^verbatim>\<open>Math.pow(x, 2)\<close> and the text of a database
  error.  The state is the store, the calibrator and the bandit's arms; the transaction
  either commits all its writes or none.
\<close>

section \<open>One reconciliation\<close>

record recon_state =
  rs_store :: store
  rs_calibrator :: calibrator
  rs_arms :: arms

record recon_env =
  re_fetch :: "string \<Rightarrow> environment \<Rightarrow> string \<Rightarrow> string + provider_payload"
  re_sha :: "string \<Rightarrow> string"
  re_math :: js_math
  re_square :: "rat \<Rightarrow> rat"
  re_show_error :: "db_error \<Rightarrow> string"

record recon_call =
  rk_now :: string
  rk_del_id :: string
  rk_led_id :: string
  rk_out_id :: string
  rk_mem_id :: string
  rk_div_id :: string
  rk_arm_id :: string
  rk_actor :: string

datatype recon_outcome = MATCHED | TRANSITION | PENDING_out | MISMATCH_out | UNKNOWN_out | ESCALATE

record recon_result =
  rr_opportunity_id :: string
  rr_payment_link_id :: "string option"
  rr_previous_status :: "opportunity_status option"
  rr_new_status :: "opportunity_status option"
  rr_canonical_state :: canonical_state
  rr_is_recovered :: bool
  rr_amount_paid_paise :: int
  rr_payment_id :: "string option"
  rr_ledger_entry_hash :: "string option"
  rr_is_idempotent_no_op :: bool
  rr_outcome :: recon_outcome
  rr_rationale :: string
  rr_timestamp :: string
  rr_error :: "string option"

fun show_status :: "opportunity_status \<Rightarrow> string" where
  "show_status Pending = ''pending''"
| "show_status Scored = ''scored''"
| "show_status Allocated = ''allocated''"
| "show_status Authorized = ''authorized''"
| "show_status Deferred = ''deferred''"
| "show_status Blocked = ''blocked''"
| "show_status Abstained = ''abstained''"
| "show_status Executing = ''executing''"
| "show_status Recovered = ''recovered''"
| "show_status Not_recovered = ''not_recovered''"

text \<open>A result that leaves the opportunity as it was.\<close>

definition unchanged_result ::
  "opportunity \<Rightarrow> string option \<Rightarrow> canonical_state \<Rightarrow> bool \<Rightarrow> recon_outcome \<Rightarrow> string \<Rightarrow> string \<Rightarrow>
   string option \<Rightarrow> recon_result" where
  "unchanged_result opp link cs noop out why now err =
     \<lparr>rr_opportunity_id = o_id opp, rr_payment_link_id = link,
      rr_previous_status = Some (o_status opp), rr_new_status = Some (o_status opp),
      rr_canonical_state = cs, rr_is_recovered = False, rr_amount_paid_paise = 0,
      rr_payment_id = None, rr_ledger_entry_hash = None, rr_is_idempotent_no_op = noop,
      rr_outcome = out, rr_rationale = why, rr_timestamp = now, rr_error = err\<rparr>"

definition not_found_result :: "string \<Rightarrow> string \<Rightarrow> recon_result" where
  "not_found_result oid now =
     \<lparr>rr_opportunity_id = oid, rr_payment_link_id = None, rr_previous_status = None, rr_new_status = None,
      rr_canonical_state = C_UNKNOWN, rr_is_recovered = False, rr_amount_paid_paise = 0,
      rr_payment_id = None, rr_ledger_entry_hash = None, rr_is_idempotent_no_op = False,
      rr_outcome = UNKNOWN_out, rr_rationale = ''Opportunity not found in database: '' @ oid,
      rr_timestamp = now, rr_error = Some ''OPPORTUNITY_NOT_FOUND''\<rparr>"

text \<open>The target of the transition: status of the opportunity, of the execution record,
  and the outcome.\<close>

definition target_of ::
  "opportunity_status \<Rightarrow> canonical_state \<Rightarrow> bool \<Rightarrow> opportunity_status \<times> string \<times> recon_outcome" where
  "target_of cur cs is_recovered =
     (if cs = C_PAYMENT_CONFIRMED \<or> is_recovered then (Recovered, ''completed'', TRANSITION)
      else if cs \<in> {C_EXPIRED, C_CANCELLED, C_FAILED} then (Not_recovered, ''failed'', TRANSITION)
      else if cs = C_MISMATCH then (Executing, ''created'', MISMATCH_out)
      else (if cur \<in> {Pending, Deferred, Allocated} then Executing else cur, ''created'', PENDING_out))"

definition recon_entry :: "opportunity \<Rightarrow> int \<Rightarrow> entry_params" where
  "recon_entry opp paid = \<lparr>ep_opportunity_id = o_id opp, ep_event_type = ''PAYMENT_RECOVERED'',
     ep_debit_account = Bank_settlement, ep_credit_account = Recovered_revenue, ep_amount_paise = paid\<rparr>"

definition recon_audit :: "recon_call \<Rightarrow> opportunity \<Rightarrow> truth_evaluation \<Rightarrow> ledger_entry" where
  "recon_audit k opp te =
     \<lparr>le_id = rk_led_id k, le_opportunity_id = o_id opp, le_event_type = Ev_recovered,
      le_amount_paise = te_amount_paid_paise te, le_timestamp = rk_now k,
      le_raw_payload_ref = Some (stringify (JObj
        [(''payment_link_id'', JStr (te_payment_link_id te)),
         (''payment_id'', case te_payment_id te of None \<Rightarrow> JNull | Some i \<Rightarrow> JStr i),
         (''amount_paid'', JNum (of_int (te_amount_paid_paise te))),
         (''reconciled_by'', JStr (or_str (rk_actor k) ''authoritative_reconciler''))]))\<rparr>"

definition recon_run_id :: "opportunity \<Rightarrow> string" where
  "recon_run_id opp = ''run_rec_'' @ o_id opp"

definition recon_run :: "recon_call \<Rightarrow> opportunity \<Rightarrow> agent_run" where
  "recon_run k opp =
     \<lparr>ar_id = recon_run_id opp, ar_mission_id = ''miss_'' @ recon_run_id opp, ar_opportunity_id = o_id opp,
      ar_goal_type = ''RECOVER_PAYMENT'', ar_status = ''completed'', ar_start_time = rk_now k,
      ar_end_time = rk_now k, ar_total_steps = 1, ar_llm_calls = 0, ar_tool_calls = 1,
      ar_replan_count = 0, ar_total_tokens = 0, ar_latency_ms = 50,
      ar_termination_reason = ''Mission completed normally via Authoritative Reconciliation'',
      ar_created_at = rk_now k\<rparr>"

definition predicted_prob :: "score option \<Rightarrow> rat" where
  "predicted_prob sc = (case sc of None \<Rightarrow> lit 65 2 | Some x \<Rightarrow> s_intervention_recovery_prob x)"

definition recon_cost :: "score option \<Rightarrow> int" where
  "recon_cost sc = (case sc of None \<Rightarrow> 400
     | Some x \<Rightarrow> if s_operational_cost_paise x = 0 then 400 else s_operational_cost_paise x)"

definition brier_error :: "recon_env \<Rightarrow> score option \<Rightarrow> rat" where
  "brier_error re sc = toFixed 4 (re_square re (fsub 1 (predicted_prob sc)))"

definition recon_learned :: "recon_env \<Rightarrow> recon_call \<Rightarrow> opportunity \<Rightarrow> truth_evaluation \<Rightarrow> score option \<Rightarrow> agent_outcome" where
  "recon_learned re k opp te sc =
     \<lparr>ao_id = rk_out_id k, ao_run_id = recon_run_id opp, ao_opportunity_id = o_id opp,
      ao_predicted = predicted_prob sc, ao_recovered = True, ao_error = brier_error re sc,
      ao_revenue = te_amount_paid_paise te, ao_op_cost = recon_cost sc,
      ao_net_gain = te_amount_paid_paise te - recon_cost sc,
      ao_customer_response = ''PAYMENT_CONFIRMED'', ao_evaluated_at = rk_now k\<rparr>"

definition recon_memory :: "recon_env \<Rightarrow> recon_call \<Rightarrow> opportunity \<Rightarrow> truth_evaluation \<Rightarrow> score option \<Rightarrow> agent_memory" where
  "recon_memory re k opp te sc =
     \<lparr>am_id = rk_mem_id k, am_memory_type = ''episodic'', am_run_id = recon_run_id opp,
      am_opportunity_id = o_id opp, am_failure_type = o_reason_code opp,
      am_context_summary = ''Reconciled confirmed provider payment of Rs.'' @
        show_rupees (te_amount_paid_paise te) @ '' on '' @ te_payment_link_id te @ ''.'',
      am_action_taken = ''SEND_PAYMENT_LINK'', am_predicted_outcome = ''P(int)='' @ show_number (predicted_prob sc),
      am_actual_outcome = ''RECOVERED'', am_prediction_error = Some (brier_error re sc),
      am_semantic_key = ''opp:'' @ o_id opp @ '':recovery'',
      am_semantic_value = stringify (JObj
        [(''payment_id'', case te_payment_id te of None \<Rightarrow> JNull | Some i \<Rightarrow> JStr i),
         (''amount_paid'', JNum (of_int (te_amount_paid_paise te)))]),
      am_confidence = 1, am_provenance = ''AUTHORITATIVE_RECONCILER'', am_created_at = rk_now k\<rparr>"

definition recon_divergence :: "recon_call \<Rightarrow> opportunity \<Rightarrow> truth_evaluation \<Rightarrow> divergence_row" where
  "recon_divergence k opp te =
     \<lparr>dv_id = rk_div_id k, dv_tenant_id = o_tenant_id opp, dv_opportunity_id = o_id opp,
      dv_type = ''AMOUNT_OR_STATE_MISMATCH'', dv_severity = ''HIGH'',
      dv_description = ''Reconciliation mismatch: provider status is '' @ te_provider_status te @
        '' with paid amount '' @ show_int (te_amount_paid_paise te),
      dv_status = ''OPEN'', dv_created_at = rk_now k\<rparr>"

text \<open>A plain \<^verbatim>\<open>INSERT\<close> into a table with a primary key.\<close>

definition sql_insert :: "('r \<Rightarrow> string) \<Rightarrow> 'r \<Rightarrow> 'r list \<Rightarrow> db_error + 'r list" where
  "sql_insert key r rows = (if key r \<in> key ` set rows then Inl (UniqueViolation (key r)) else Inr (rows @ [r]))"

definition set_statuses :: "opportunity \<Rightarrow> execution_record option \<Rightarrow> opportunity_status \<Rightarrow> string \<Rightarrow> store \<Rightarrow> store" where
  "set_statuses opp rec target exec_status s =
     (let s1 = s\<lparr>opportunities := row_update o_id (o_id opp) (\<lambda>x. x\<lparr>o_status := target\<rparr>) (opportunities s)\<rparr>
      in if rec = None then s1
         else s1\<lparr>execution_records :=
            row_update er_opportunity_id (o_id opp) (\<lambda>x. x\<lparr>er_status := exec_status\<rparr>) (execution_records s1)\<rparr>)"

text \<open>The writes of a settlement, in the order of the code; the first that violates a
  primary key aborts the transaction.\<close>

definition settle_writes ::
  "recon_env \<Rightarrow> recon_call \<Rightarrow> opportunity \<Rightarrow> truth_evaluation \<Rightarrow> store \<Rightarrow> db_error + string \<times> store" where
  "settle_writes re k opp te s =
     (case recordEntry (re_sha re) (rk_del_id k) (rk_now k) (recon_entry opp (te_amount_paid_paise te))
             (double_entry_ledger s) of
        Inl e \<Rightarrow> Inl e
      | Inr (entry, led) \<Rightarrow>
          (case sql_insert le_id (recon_audit k opp te) (ledger_entries s) of
             Inl e \<Rightarrow> Inl e
           | Inr les \<Rightarrow>
               let runs = (if recon_run_id opp \<in> ar_id ` set (agent_runs s) then agent_runs s
                           else agent_runs s @ [recon_run k opp]);
                   sc = getScoreByOpportunityId s (o_id opp);
                   outs = filter (\<lambda>x. ao_id x \<noteq> rk_out_id k) (agent_outcomes s) @ [recon_learned re k opp te sc]
               in (case sql_insert am_id (recon_memory re k opp te sc) (agent_memories s) of
                     Inl e \<Rightarrow> Inl e
                   | Inr mems \<Rightarrow>
                       Inr (de_entry_hash entry,
                            s\<lparr>double_entry_ledger := led, ledger_entries := les, agent_runs := runs,
                              agent_outcomes := outs, agent_memories := mems\<rparr>))))"

definition recon_transaction ::
  "recon_env \<Rightarrow> recon_call \<Rightarrow> opportunity \<Rightarrow> execution_record option \<Rightarrow> truth_evaluation \<Rightarrow>
   opportunity_status \<times> string \<times> recon_outcome \<Rightarrow> store \<Rightarrow> db_error + string option \<times> store" where
  "recon_transaction re k opp rec te tgt s =
     (case tgt of (target, exec_status, out) \<Rightarrow>
        let s1 = set_statuses opp rec target exec_status s;
            settled = (if target = Recovered
                       then (case settle_writes re k opp te s1 of
                               Inl e \<Rightarrow> Inl e | Inr (h, s2) \<Rightarrow> Inr (Some h, s2))
                       else Inr (None, s1))
        in (case settled of
              Inl e \<Rightarrow> Inl e
            | Inr (h, s2) \<Rightarrow>
                if out = MISMATCH_out
                then (case sql_insert dv_id (recon_divergence k opp te) (divergences s2) of
                        Inl e \<Rightarrow> Inl e | Inr ds \<Rightarrow> Inr (h, s2\<lparr>divergences := ds\<rparr>))
                else Inr (h, s2)))"

text \<open>The feedback to the calibrator and the bandit after the commit.\<close>

definition recon_feedback ::
  "recon_env \<Rightarrow> recon_call \<Rightarrow> opportunity \<Rightarrow> truth_evaluation \<Rightarrow> opportunity_status \<Rightarrow> recon_state \<Rightarrow> recon_state" where
  "recon_feedback re k opp te target st =
     (if target = Recovered \<or> target = Not_recovered
      then let isRecovered = (target = Recovered);
               wasIntervention = (te_payment_link_id te \<noteq> [] \<or>
                 o_status opp \<in> {Executing, Allocated, Authorized})
           in st\<lparr>rs_calibrator := recordRealtimeObservation (re_math re) (rk_now k) (o_reason_code opp)
                   isRecovered wasIntervention (o_tenant_id opp) (rs_calibrator st),
                 rs_arms := snd (updateReward (rk_arm_id k) (rk_now k) (o_tenant_id opp) (getContextKey opp)
                   isRecovered wasIntervention (rs_arms st))\<rparr>
      else st)"

definition provider_answer ::
  "recon_env \<Rightarrow> opportunity \<Rightarrow> execution_record option \<Rightarrow> provider_payload option \<Rightarrow> (string \<times> string) + provider_payload option" where
  "provider_answer re opp rec override =
     (case override of
        Some p \<Rightarrow> Inr (Some p)
      | None \<Rightarrow> (case rec of
          None \<Rightarrow> Inr None
        | Some r \<Rightarrow>
            if er_payment_link_id r = [] then Inr None
            else (case re_fetch re (o_tenant_id opp) (o_environment opp) (er_payment_link_id r) of
                    Inl e \<Rightarrow> Inl (er_payment_link_id r, e)
                  | Inr p \<Rightarrow> Inr (Some p))))"

definition reconcileOpportunity ::
  "recon_env \<Rightarrow> recon_call \<Rightarrow> string \<Rightarrow> provider_payload option \<Rightarrow> recon_state \<Rightarrow> recon_result \<times> recon_state" where
  "reconcileOpportunity re k opportunityId override st =
     (let s = rs_store st; now = rk_now k
      in case getOpportunityById s opportunityId of
        None \<Rightarrow> (not_found_result opportunityId now, st)
      | Some opp \<Rightarrow>
          let rec = getExecutionRecordByOpportunityId s (o_id opp)
          in (case provider_answer re opp rec override of
            Inl (link, e) \<Rightarrow>
              (unchanged_result opp (Some link) C_UNKNOWN True UNKNOWN_out
                 (''Failed to query Razorpay API ('' @ e @ ''). Opportunity quarantined in '' @
                  squote (show_status (o_status opp)) @ '' state.'') now (Some e), st)
          | Inr None \<Rightarrow>
              (unchanged_result opp None C_PENDING True PENDING_out
                 ''No provider payment link exists for this opportunity; remaining in current state.'' now None, st)
          | Inr (Some payload) \<Rightarrow>
              let te = evaluate now payload;
                  cm = mapRazorpayStatusToCanonicalState (te_provider_status te) (o_amount_paise opp)
                         (te_amount_paid_paise te)
              in if o_status opp = Recovered
                 then ((unchanged_result opp (Some (te_payment_link_id te)) C_RECOVERED True MATCHED
                          ''Opportunity is already settled in terminal RECOVERED state. Out-of-order events ignored.''
                          now None)
                         \<lparr>rr_is_recovered := True,
                          rr_amount_paid_paise := (if te_amount_paid_paise te = 0 then o_amount_paise opp
                                                   else te_amount_paid_paise te),
                          rr_payment_id := te_payment_id te\<rparr>, st)
                 else
                   let tgt = target_of (o_status opp) (sm_canonical_state cm) (te_is_recovered te)
                   in (case recon_transaction re k opp rec te tgt s of
                         Inl e \<Rightarrow>
                           (unchanged_result opp (Some (te_payment_link_id te)) C_UNKNOWN False UNKNOWN_out
                              (''Database transaction rolled back due to error: '' @ re_show_error re e) now
                              (Some (re_show_error re e)), st)
                       | Inr (h, s2) \<Rightarrow>
                           (\<lparr>rr_opportunity_id = o_id opp, rr_payment_link_id = Some (te_payment_link_id te),
                             rr_previous_status = Some (o_status opp), rr_new_status = Some (fst tgt),
                             rr_canonical_state = sm_canonical_state cm, rr_is_recovered = (fst tgt = Recovered),
                             rr_amount_paid_paise = te_amount_paid_paise te, rr_payment_id = te_payment_id te,
                             rr_ledger_entry_hash = h, rr_is_idempotent_no_op = False,
                             rr_outcome = snd (snd tgt), rr_rationale = sm_rationale cm,
                             rr_timestamp = now, rr_error = None\<rparr>,
                            recon_feedback re k opp te (fst tgt) (st\<lparr>rs_store := s2\<rparr>)))))"

section \<open>The sweep, the poller and the SLA tracker\<close>

fun sweep_loop ::
  "recon_env \<Rightarrow> (nat \<Rightarrow> recon_call) \<Rightarrow> nat \<Rightarrow> string list \<Rightarrow> recon_state \<Rightarrow> recon_result list \<times> recon_state" where
  "sweep_loop re calls i [] st = ([], st)"
| "sweep_loop re calls i (oid # rest) st =
     (let (r, st1) = reconcileOpportunity re (calls i) oid None st;
          (rs, st2) = sweep_loop re calls (i + 1) rest st1
      in (r # rs, st2))"

record sweep_report =
  sw_total_scanned :: nat
  sw_reconciled_count :: nat
  sw_recovered_count :: nat
  sw_pending_count :: nat
  sw_results :: "recon_result list"

definition reconcileAllActive ::
  "recon_env \<Rightarrow> (nat \<Rightarrow> recon_call) \<Rightarrow> recon_state \<Rightarrow> sweep_report \<times> recon_state" where
  "reconcileAllActive re calls st =
     (let oids = map er_opportunity_id (execution_records (rs_store st));
          (rs, st1) = sweep_loop re calls 0 oids st
      in (\<lparr>sw_total_scanned = length oids,
           sw_reconciled_count = length (filter (\<lambda>r. \<not> rr_is_idempotent_no_op r) rs),
           sw_recovered_count = length (filter rr_is_recovered rs),
           sw_pending_count = length (filter (\<lambda>r. \<not> rr_is_recovered r) rs),
           sw_results = rs\<rparr>, st1))"

record polled_item =
  pi_opportunity_id :: string
  pi_payment_link_id :: string
  pi_previous_status :: "opportunity_status option"
  pi_new_status :: "opportunity_status option"
  pi_reconciled :: bool
  pi_error :: "string option"

record poller_report =
  pr_reconciled_count :: nat
  pr_still_executing_count :: nat
  pr_failed_count :: nat
  pr_items :: "polled_item list"

definition poll_failed :: "recon_result \<Rightarrow> bool" where
  "poll_failed r \<longleftrightarrow> rr_outcome r = UNKNOWN_out \<and> truthy_str (rr_error r)"

definition poll_settled :: "recon_result \<Rightarrow> bool" where
  "poll_settled r \<longleftrightarrow> rr_new_status r = Some Recovered \<or> rr_new_status r = Some Not_recovered"

definition poll_count :: "string \<Rightarrow> recon_result \<Rightarrow> poller_report \<Rightarrow> poller_report" where
  "poll_count link r p =
     (let item = \<lparr>pi_opportunity_id = rr_opportunity_id r, pi_payment_link_id = link,
                  pi_previous_status = rr_previous_status r, pi_new_status = rr_new_status r,
                  pi_reconciled = (\<not> poll_failed r \<and> poll_settled r),
                  pi_error = (if poll_failed r then rr_error r else None)\<rparr>;
          p1 = p\<lparr>pr_items := pr_items p @ [item]\<rparr>
      in if poll_failed r then p1\<lparr>pr_failed_count := pr_failed_count p + 1\<rparr>
         else if poll_settled r then p1\<lparr>pr_reconciled_count := pr_reconciled_count p + 1\<rparr>
         else p1\<lparr>pr_still_executing_count := pr_still_executing_count p + 1\<rparr>)"

fun poll_loop ::
  "recon_env \<Rightarrow> (nat \<Rightarrow> recon_call) \<Rightarrow> nat \<Rightarrow> string list \<Rightarrow> poller_report \<Rightarrow> recon_state \<Rightarrow>
   poller_report \<times> recon_state" where
  "poll_loop re calls i [] p st = (p, st)"
| "poll_loop re calls i (oid # rest) p st =
     (case getExecutionRecordByOpportunityId (rs_store st) oid of
        None \<Rightarrow> poll_loop re calls (i + 1) rest p st
      | Some rec \<Rightarrow>
          if er_payment_link_id rec = [] then poll_loop re calls (i + 1) rest p st
          else let (r, st1) = reconcileOpportunity re (calls i) oid None st
               in poll_loop re calls (i + 1) rest (poll_count (er_payment_link_id rec) r p) st1)"

definition pollAndReconcile ::
  "recon_env \<Rightarrow> (nat \<Rightarrow> recon_call) \<Rightarrow> string option \<Rightarrow> recon_state \<Rightarrow> poller_report \<times> recon_state" where
  "pollAndReconcile re calls tenantId st =
     (let inflight = filter (\<lambda>o'. o_status o' \<in> {Executing, Authorized, Allocated})
                       (getAllOpportunities (rs_store st) tenantId None)
      in poll_loop re calls 0 (map o_id inflight)
           \<lparr>pr_reconciled_count = 0, pr_still_executing_count = 0, pr_failed_count = 0, pr_items = []\<rparr> st)"

datatype sla_path = Path_webhook | Path_poller

record sla_metric =
  sl_path :: sla_path
  sl_latency_ms :: int
  sl_sla_target_ms :: int
  sl_passed_sla :: bool
  sl_opportunity_id :: string

definition trackLatency :: "string \<Rightarrow> sla_path \<Rightarrow> int \<Rightarrow> sla_metric" where
  "trackLatency oid path latencyMs =
     (let targetMs = (case path of Path_webhook \<Rightarrow> 5000 | Path_poller \<Rightarrow> 300000)
      in \<lparr>sl_path = path, sl_latency_ms = latencyMs, sl_sla_target_ms = targetMs,
          sl_passed_sla = (latencyMs \<le> targetMs), sl_opportunity_id = oid\<rparr>)"

text \<open>The alert compares ISO strings with the cut-off; \<open>to_iso\<close> renders milliseconds and
  \<open>date_ms\<close> parses.\<close>

definition checkUnreconciledAlerts ::
  "(int \<Rightarrow> string) \<Rightarrow> (string \<Rightarrow> int) \<Rightarrow> int \<Rightarrow> store \<Rightarrow> (string \<times> int) list" where
  "checkUnreconciledAlerts to_iso date_ms now_ms s =
     map (\<lambda>r. (er_opportunity_id r, (now_ms - date_ms (er_created_at r)) div 60000))
       (filter (\<lambda>r. (case getOpportunityById s (er_opportunity_id r) of
                       None \<Rightarrow> False | Some o' \<Rightarrow> o_status o' = Executing) \<and>
                    er_created_at r \<le> to_iso (now_ms - 1800000)) (execution_records s))"

section \<open>What one call does\<close>

definition payload_of :: "recon_env \<Rightarrow> opportunity \<Rightarrow> store \<Rightarrow> provider_payload option \<Rightarrow> provider_payload option" where
  "payload_of re opp s override =
     (case provider_answer re opp (getExecutionRecordByOpportunityId s (o_id opp)) override of
        Inl _ \<Rightarrow> None | Inr p \<Rightarrow> p)"

definition ids_fresh :: "recon_call \<Rightarrow> store \<Rightarrow> bool" where
  "ids_fresh k s \<longleftrightarrow> rk_del_id k \<notin> de_id ` set (double_entry_ledger s) \<and>
     rk_led_id k \<notin> le_id ` set (ledger_entries s) \<and> rk_mem_id k \<notin> am_id ` set (agent_memories s) \<and>
     rk_div_id k \<notin> dv_id ` set (divergences s)"

text \<open>The rows of the opportunity table and the ledger entry of a committed call.\<close>

definition set_status :: "string \<Rightarrow> opportunity_status \<Rightarrow> opportunity list \<Rightarrow> opportunity list" where
  "set_status oid target rows = row_update o_id oid (\<lambda>x. x\<lparr>o_status := target\<rparr>) rows"

lemma set_statuses_simps:
  "opportunities (set_statuses opp rec target es s) = set_status (o_id opp) target (opportunities s)"
  "double_entry_ledger (set_statuses opp rec target es s) = double_entry_ledger s"
  "ledger_entries (set_statuses opp rec target es s) = ledger_entries s"
  "agent_memories (set_statuses opp rec target es s) = agent_memories s"
  "divergences (set_statuses opp rec target es s) = divergences s"
  by (simp_all add: set_statuses_def set_status_def Let_def)

definition settle_entry :: "recon_env \<Rightarrow> recon_call \<Rightarrow> opportunity \<Rightarrow> int \<Rightarrow> double_entry list \<Rightarrow> double_entry" where
  "settle_entry re k opp paid l = new_entry (re_sha re) (rk_del_id k) (rk_now k) (recon_entry opp paid) l"

lemma settle_writes_effect:
  "settle_writes re k opp te s = Inr (h, s') \<Longrightarrow>
     opportunities s' = opportunities s \<and> divergences s' = divergences s \<and>
     double_entry_ledger s' =
       double_entry_ledger s @ [settle_entry re k opp (te_amount_paid_paise te) (double_entry_ledger s)] \<and>
     h = de_entry_hash (settle_entry re k opp (te_amount_paid_paise te) (double_entry_ledger s))"
  by (auto simp: settle_writes_def recordEntry_def settle_entry_def sql_insert_def Let_def split: if_splits)

lemma settle_writes_ok:
  assumes "rk_del_id k \<notin> de_id ` set (double_entry_ledger s)" "rk_led_id k \<notin> le_id ` set (ledger_entries s)"
    "rk_mem_id k \<notin> am_id ` set (agent_memories s)"
  shows "\<exists>h s'. settle_writes re k opp te s = Inr (h, s')"
  using assms
  by (simp add: settle_writes_def recordEntry_def sql_insert_def recon_audit_def recon_memory_def Let_def)

lemma transaction_effect:
  assumes "recon_transaction re k opp rec te (target, es, out) s = Inr (h, s')"
  defines "e \<equiv> settle_entry re k opp (te_amount_paid_paise te) (double_entry_ledger s)"
  shows "opportunities s' = set_status (o_id opp) target (opportunities s) \<and>
    double_entry_ledger s' = double_entry_ledger s @ (if target = Recovered then [e] else []) \<and>
    h = (if target = Recovered then Some (de_entry_hash e) else None)"
  using assms(1)
  by (auto simp: recon_transaction_def sql_insert_def Let_def set_statuses_simps e_def
        split: if_splits sum.splits prod.splits dest!: settle_writes_effect)

lemma transaction_ok:
  assumes "ids_fresh k s"
  shows "\<exists>h s'. recon_transaction re k opp rec te (target, es, out) s = Inr (h, s')"
proof -
  let ?s = "set_statuses opp rec target es s"
  have "\<exists>h s'. settle_writes re k opp te ?s = Inr (h, s')"
    using assms by (intro settle_writes_ok) (simp_all add: ids_fresh_def set_statuses_simps)
  then obtain h s' where w: "settle_writes re k opp te ?s = Inr (h, s')" by blast
  have "dv_id (recon_divergence k opp te) = rk_div_id k" by (simp add: recon_divergence_def)
  moreover have "divergences s' = divergences s" "divergences ?s = divergences s"
    using settle_writes_effect [OF w] by (simp_all add: set_statuses_simps)
  ultimately show ?thesis
    using assms w by (cases "target = Recovered")
      (auto simp: recon_transaction_def sql_insert_def ids_fresh_def Let_def)
qed

lemma set_status_ids [simp]: "map o_id (set_status oid t rows) = map o_id rows"
  by (simp add: set_status_def row_update_keys)

lemma row_get_set_status:
  "row_get o_id j (set_status oid t rows) =
     (if j = oid then map_option (\<lambda>x. x\<lparr>o_status := t\<rparr>) (row_get o_id j rows) else row_get o_id j rows)"
  by (simp add: set_status_def row_get_update)

lemma target_recovered:
  assumes "cur \<noteq> Recovered"
  shows "fst (target_of cur (sm_canonical_state (mapRazorpayStatusToCanonicalState
      (te_provider_status (evaluate now p)) amount (te_amount_paid_paise (evaluate now p))))
      (te_is_recovered (evaluate now p))) = Recovered \<longleftrightarrow> settled_by p"
  using assms canonical_confirmed_iff [of p amount]
  by (auto simp: target_of_def evaluate_simps evaluate_recovered)

lemma feedback_store [simp]: "rs_store (recon_feedback re k opp te t st) = rs_store st"
  by (simp add: recon_feedback_def Let_def)

text \<open>A call with a payload for an opportunity that is not recovered runs the transaction.\<close>

definition recon_target :: "opportunity \<Rightarrow> provider_payload \<Rightarrow> opportunity_status \<times> string \<times> recon_outcome" where
  "recon_target opp p =
     target_of (o_status opp)
       (sm_canonical_state (mapRazorpayStatusToCanonicalState (provider_status_of p) (o_amount_paise opp)
          (or_zero (pp_amount_paid p)))) (settled_by p)"

lemma recon_target_recovered: "o_status opp \<noteq> Recovered \<Longrightarrow> fst (recon_target opp p) = Recovered \<longleftrightarrow> settled_by p"
  using target_recovered [of "o_status opp" "[]" p "o_amount_paise opp"]
  by (simp add: recon_target_def evaluate_simps evaluate_recovered)

lemma reconcile_commits:
  assumes "getOpportunityById (rs_store st) oid = Some opp" and "o_status opp \<noteq> Recovered"
    and "payload_of re opp (rs_store st) ov = Some p"
    and "reconcileOpportunity re k oid ov st = (r, st')"
  shows "(case recon_transaction re k opp (getExecutionRecordByOpportunityId (rs_store st) (o_id opp))
            (evaluate (rk_now k) p) (recon_target opp p) (rs_store st) of
       Inl e \<Rightarrow> st' = st \<and> rr_error r = Some (re_show_error re e)
     | Inr (h, s2) \<Rightarrow> rs_store st' = s2 \<and> rr_error r = None \<and> rr_ledger_entry_hash r = h \<and>
         rr_new_status r = Some (fst (recon_target opp p)) \<and>
         rr_is_recovered r = (fst (recon_target opp p) = Recovered) \<and>
         rr_canonical_state r = sm_canonical_state (mapRazorpayStatusToCanonicalState
           (provider_status_of p) (o_amount_paise opp) (or_zero (pp_amount_paid p))) \<and>
         rr_payment_id r = first_payment p \<and> rr_outcome r = snd (snd (recon_target opp p)))"
  using assms
  by (auto simp: reconcileOpportunity_def payload_of_def Let_def recon_target_def evaluate_simps
        evaluate_recovered unchanged_result_def split: sum.splits option.splits prod.splits)

lemma reconcile_idle:
  assumes "reconcileOpportunity re k oid ov st = (r, st')"
    and "case getOpportunityById (rs_store st) oid of None \<Rightarrow> True
         | Some opp \<Rightarrow> o_status opp = Recovered \<or> payload_of re opp (rs_store st) ov = None"
  shows "st' = st"
  using assms
  by (auto simp: reconcileOpportunity_def payload_of_def Let_def split: option.splits sum.splits prod.splits if_splits)

text \<open>The whole effect of a call on the opportunities and the ledger.\<close>

lemma reconcile_effect:
  assumes "reconcileOpportunity re k oid ov st = (r, st')"
  shows "st' = st \<or> (\<exists>opp p target.
     getOpportunityById (rs_store st) oid = Some opp \<and> o_status opp \<noteq> Recovered \<and>
     (target = Recovered \<longleftrightarrow> settled_by p) \<and>
     opportunities (rs_store st') = set_status oid target (opportunities (rs_store st)) \<and>
     double_entry_ledger (rs_store st') = double_entry_ledger (rs_store st) @
       (if settled_by p
        then [settle_entry re k opp (or_zero (pp_amount_paid p)) (double_entry_ledger (rs_store st))] else []))"
proof (cases "case getOpportunityById (rs_store st) oid of None \<Rightarrow> True
    | Some opp \<Rightarrow> o_status opp = Recovered \<or> payload_of re opp (rs_store st) ov = None")
  case True
  then show ?thesis using reconcile_idle [OF assms] by blast
next
  case False
  then obtain opp p where opp: "getOpportunityById (rs_store st) oid = Some opp" "o_status opp \<noteq> Recovered"
      and p: "payload_of re opp (rs_store st) ov = Some p"
    by (auto split: option.splits)
  have oid: "o_id opp = oid" using opp(1) by (auto simp: getOpportunityById_def dest: row_get_Some)
  obtain target es out where t: "recon_target opp p = (target, es, out)"
    by (cases "recon_target opp p") auto
  have rec: "target = Recovered \<longleftrightarrow> settled_by p"
    using recon_target_recovered [OF opp(2), of p] t by simp
  let ?tx = "recon_transaction re k opp (getExecutionRecordByOpportunityId (rs_store st) (o_id opp))
      (evaluate (rk_now k) p) (target, es, out) (rs_store st)"
  show ?thesis
  proof (cases ?tx)
    case (Inl e)
    then show ?thesis using reconcile_commits [OF opp p assms] t by simp
  next
    case (Inr hs)
    then obtain h s2 where tx: "?tx = Inr (h, s2)" by (cases hs) auto
    then have "rs_store st' = s2" using reconcile_commits [OF opp p assms] t by simp
    with transaction_effect [OF tx] rec opp oid show ?thesis
      by (auto simp: evaluate_simps)
  qed
qed

section \<open>Sequences of calls\<close>

type_synonym recon_op = "recon_call \<times> string \<times> provider_payload option"

fun recon_step :: "recon_env \<Rightarrow> recon_op \<Rightarrow> recon_state \<Rightarrow> recon_state" where
  "recon_step re (k, oid, ov) st = snd (reconcileOpportunity re k oid ov st)"

definition settle_count :: "string \<Rightarrow> double_entry list \<Rightarrow> nat" where
  "settle_count oid l =
     length (filter (\<lambda>e. de_opportunity_id e = oid \<and> de_event_type e = ''PAYMENT_RECOVERED'') l)"

definition settled_once :: "recon_state \<Rightarrow> bool" where
  "settled_once st \<longleftrightarrow> distinct (map o_id (opportunities (rs_store st))) \<and>
     (\<forall>o' \<in> set (opportunities (rs_store st)).
        settle_count (o_id o') (double_entry_ledger (rs_store st)) = (if o_status o' = Recovered then 1 else 0))"

lemma settle_entry_simps:
  "de_opportunity_id (settle_entry re k opp paid l) = o_id opp"
  "de_event_type (settle_entry re k opp paid l) = ''PAYMENT_RECOVERED''"
  "de_amount_paise (settle_entry re k opp paid l) = paid"
  "entry_stamp (settle_entry re k opp paid l) = (rk_now k, rk_del_id k)"
  by (simp_all add: settle_entry_def new_entry_def recon_entry_def entry_stamp_def Let_def)

lemma settle_count_snoc:
  "settle_count oid (l @ (if b then [settle_entry re k opp paid m] else [])) =
     settle_count oid l + (if b \<and> o_id opp = oid then 1 else 0)"
  by (simp add: settle_count_def settle_entry_simps)

lemma settled_once_step:
  assumes "settled_once st"
  shows "settled_once (recon_step re op st)"
proof -
  obtain k oid ov where op: "op = (k, oid, ov)" by (cases op)
  obtain r st' where rec: "reconcileOpportunity re k oid ov st = (r, st')" by fastforce
  from reconcile_effect [OF rec] show ?thesis
  proof
    assume "st' = st"
    with assms rec show ?thesis by (simp add: op)
  next
    assume "\<exists>opp p target. getOpportunityById (rs_store st) oid = Some opp \<and> o_status opp \<noteq> Recovered \<and>
     (target = Recovered \<longleftrightarrow> settled_by p) \<and>
     opportunities (rs_store st') = set_status oid target (opportunities (rs_store st)) \<and>
     double_entry_ledger (rs_store st') = double_entry_ledger (rs_store st) @
       (if settled_by p
        then [settle_entry re k opp (or_zero (pp_amount_paid p)) (double_entry_ledger (rs_store st))] else [])"
    then obtain opp p target where opp: "opp \<in> set (opportunities (rs_store st))" "o_id opp = oid"
        "o_status opp \<noteq> Recovered" and t: "target = Recovered \<longleftrightarrow> settled_by p"
      and rows: "opportunities (rs_store st') = set_status oid target (opportunities (rs_store st))"
      and led: "double_entry_ledger (rs_store st') = double_entry_ledger (rs_store st) @
       (if settled_by p
        then [settle_entry re k opp (or_zero (pp_amount_paid p)) (double_entry_ledger (rs_store st))] else [])"
      by (auto simp: getOpportunityById_def dest!: row_get_Some)
    have dist: "distinct (map o_id (opportunities (rs_store st)))"
      using assms by (simp add: settled_once_def)
    have zero: "settle_count oid (double_entry_ledger (rs_store st)) = 0"
      using assms opp by (auto simp: settled_once_def)
    have count: "settle_count j (double_entry_ledger (rs_store st')) =
        settle_count j (double_entry_ledger (rs_store st)) + (if settled_by p \<and> oid = j then 1 else 0)" for j
      unfolding led settle_count_snoc opp(2) ..
    have "settle_count (o_id o') (double_entry_ledger (rs_store st')) = (if o_status o' = Recovered then 1 else 0)"
      if "o' \<in> set (opportunities (rs_store st'))" for o'
    proof -
      from that rows obtain x where x: "x \<in> set (opportunities (rs_store st))"
          "o' = (if o_id x = oid then x\<lparr>o_status := target\<rparr> else x)"
        by (auto simp: set_status_def row_update_def)
      have "settle_count (o_id x) (double_entry_ledger (rs_store st)) = (if o_status x = Recovered then 1 else 0)"
        using assms x(1) by (simp add: settled_once_def)
      then show ?thesis using x(2) zero t by (cases "o_id x = oid") (simp_all add: count)
    qed
    with dist rows rec show ?thesis by (simp add: op settled_once_def)
  qed
qed

lemma recovered_stays_step:
  assumes "getOpportunityById (rs_store st) j = Some o'" and "o_status o' = Recovered"
  shows "getOpportunityById (rs_store (recon_step re op st)) j = Some o'"
proof -
  obtain k oid ov where op: "op = (k, oid, ov)" by (cases op)
  obtain r st' where rec: "reconcileOpportunity re k oid ov st = (r, st')" by fastforce
  show ?thesis
    using reconcile_effect [OF rec] assms rec
    by (auto simp: op getOpportunityById_def row_get_set_status)
qed

lemma ledger_valid_step:
  assumes "chained (re_sha re) GENESIS_HASH (ledger_order (double_entry_ledger (rs_store st)))"
    and "\<forall>e \<in> set (double_entry_ledger (rs_store st)). entry_stamp e < (rk_now k, rk_del_id k)"
    and "reconcileOpportunity re k oid ov st = (r, st')"
  shows "chained (re_sha re) GENESIS_HASH (ledger_order (double_entry_ledger (rs_store st')))"
    and "\<forall>e \<in> set (double_entry_ledger (rs_store st')). entry_stamp e \<le> (rk_now k, rk_del_id k)"
proof -
  from reconcile_effect [OF assms(3)] obtain opp paid b where
    led: "double_entry_ledger (rs_store st') = double_entry_ledger (rs_store st) @
      (if b then [settle_entry re k opp paid (double_entry_ledger (rs_store st))] else [])"
    by (metis (full_types) append_Nil2)
  show "chained (re_sha re) GENESIS_HASH (ledger_order (double_entry_ledger (rs_store st')))"
    unfolding led using assms(1,2) append_valid [of "re_sha re" "double_entry_ledger (rs_store st)" "rk_now k" "rk_del_id k"]
    by (cases b) (simp_all add: settle_entry_def)
  show "\<forall>e \<in> set (double_entry_ledger (rs_store st')). entry_stamp e \<le> (rk_now k, rk_del_id k)"
    unfolding led using assms(2) by (cases b) (auto simp: settle_entry_simps simp del: less_prod_simp intro: less_imp_le)
qed

text \<open>Calls whose stamps increase keep the chain of the ledger.\<close>

definition op_stamp :: "recon_op \<Rightarrow> string \<times> string" where
  "op_stamp op = (rk_now (fst op), rk_del_id (fst op))"

lemma ledger_valid_run:
  assumes "chained (re_sha re) GENESIS_HASH (ledger_order (double_entry_ledger (rs_store st)))"
    and "sorted_wrt (<) (map op_stamp ops)"
    and "\<forall>e \<in> set (double_entry_ledger (rs_store st)). \<forall>op \<in> set ops. entry_stamp e < op_stamp op"
  shows "chained (re_sha re) GENESIS_HASH (ledger_order (double_entry_ledger (rs_store (fold (recon_step re) ops st))))"
  using assms
proof (induction ops arbitrary: st)
  case (Cons op ops)
  obtain k oid ov where op: "op = (k, oid, ov)" by (cases op)
  obtain r st' where rec: "reconcileOpportunity re k oid ov st = (r, st')" by fastforce
  have stamp: "\<forall>e \<in> set (double_entry_ledger (rs_store st)). entry_stamp e < (rk_now k, rk_del_id k)"
    using Cons.prems(3) by (simp add: op op_stamp_def)
  note step = ledger_valid_step [OF Cons.prems(1) stamp rec]
  have "entry_stamp e < op_stamp op'" if "e \<in> set (double_entry_ledger (rs_store st'))" "op' \<in> set ops" for e op'
  proof -
    have "entry_stamp e \<le> op_stamp op" using step(2) that(1) by (simp add: op op_stamp_def)
    also have "op_stamp op < op_stamp op'" using Cons.prems(2) that(2) by simp
    finally show ?thesis .
  qed
  then have "chained (re_sha re) GENESIS_HASH
      (ledger_order (double_entry_ledger (rs_store (fold (recon_step re) ops st'))))"
    using Cons.IH [of st'] step(1) Cons.prems(2) by simp
  then show ?case by (simp add: op rec)
qed simp

section \<open>A concrete call\<close>

definition sample_link :: "string \<Rightarrow> int \<Rightarrow> provider_payload" where
  "sample_link status paid = \<lparr>pp_id = ''plink_1'', pp_status = Some status, pp_amount = Some 1000,
     pp_amount_paid = Some paid, pp_payments = Some [''pay_1''], pp_source_env = None\<rparr>"

definition sample_recon_env :: recon_env where
  "sample_recon_env = \<lparr>re_fetch = (\<lambda>t e l. Inl ''ETIMEDOUT''), re_sha = tagged, re_math = sample_math,
     re_square = (\<lambda>x. x * x), re_show_error = (\<lambda>e. ''UNIQUE constraint failed'')\<rparr>"

definition sample_call :: recon_call where
  "sample_call = \<lparr>rk_now = ''t5'', rk_del_id = ''del_1'', rk_led_id = ''led_1'', rk_out_id = ''out_1'',
     rk_mem_id = ''mem_1'', rk_div_id = ''div_1'', rk_arm_id = ''arm_1'', rk_actor = ''poller''\<rparr>"

definition sample_recon_state :: recon_state where
  "sample_recon_state = \<lparr>rs_store = empty_store\<lparr>opportunities :=
       [(sample_opportunity ''o1'' ''insufficient_funds'' Soft 1000)\<lparr>o_status := Executing\<rparr>]\<rparr>,
     rs_calibrator = new_calibrator, rs_arms = []\<rparr>"

lemma sample_recon:
  "getOpportunityById (rs_store sample_recon_state) ''o1'' =
     Some ((sample_opportunity ''o1'' ''insufficient_funds'' Soft 1000)\<lparr>o_status := Executing\<rparr>)"
  "payload_of re opp s (Some p) = Some p"
  "ids_fresh k (rs_store sample_recon_state)"
  "provider_status_of (sample_link ''paid'' n) = ''paid''"
  "settled_once sample_recon_state"
  "double_entry_ledger (rs_store sample_recon_state) = []"
  by (simp_all add: sample_recon_state_def getOpportunityById_def row_get_def sample_opportunity_def
        payload_of_def provider_answer_def ids_fresh_def empty_store_def settled_once_def settle_count_def
        provider_status_of_def sample_link_def or_opt_def or_str_def toLowerCase_def lower_char_def)

section \<open>Properties\<close>

text \<open>
  The reconciler in closed form, for every payload: the call recovers the opportunity
  exactly when the provider reports \<^verbatim>\<open>paid\<close> or \<^verbatim>\<open>captured\<close> with a positive amount.
\<close>

lemma reconcile_exact:
  assumes "getOpportunityById (rs_store st) oid = Some opp" and "o_status opp \<noteq> Recovered"
    and "payload_of re opp (rs_store st) ov = Some p" and "ids_fresh k (rs_store st)"
  shows "\<exists>r st' target. reconcileOpportunity re k oid ov st = (r, st') \<and> rr_error r = None \<and>
     rr_new_status r = Some target \<and>
     getOpportunityById (rs_store st') oid = Some (opp\<lparr>o_status := target\<rparr>) \<and>
     (target = Recovered \<longleftrightarrow> provider_status_of p \<in> {''paid'', ''captured''} \<and> 0 < or_zero (pp_amount_paid p)) \<and>
     (if target = Recovered
      then \<exists>e. double_entry_ledger (rs_store st') = double_entry_ledger (rs_store st) @ [e] \<and>
             de_opportunity_id e = o_id opp \<and> de_amount_paise e = or_zero (pp_amount_paid p) \<and>
             rr_ledger_entry_hash r = Some (de_entry_hash e)
      else double_entry_ledger (rs_store st') = double_entry_ledger (rs_store st) \<and>
           rr_ledger_entry_hash r = None)"
proof -
  obtain r st' where rec: "reconcileOpportunity re k oid ov st = (r, st')" by fastforce
  obtain target es out where t: "recon_target opp p = (target, es, out)" by (cases "recon_target opp p") auto
  obtain h s2 where tx: "recon_transaction re k opp (getExecutionRecordByOpportunityId (rs_store st) (o_id opp))
      (evaluate (rk_now k) p) (target, es, out) (rs_store st) = Inr (h, s2)"
    using transaction_ok [OF assms(4)] by blast
  note c = reconcile_commits [OF assms(1-3) rec, unfolded t tx, simplified]
  note e = transaction_effect [OF tx]
  have "o_id opp = oid" using assms(1) by (auto simp: getOpportunityById_def dest: row_get_Some)
  then have "getOpportunityById s2 oid = Some (opp\<lparr>o_status := target\<rparr>)"
    using e assms(1) by (simp add: getOpportunityById_def row_get_set_status)
  moreover have "target = Recovered \<longleftrightarrow> settled_by p"
    using recon_target_recovered [OF assms(2), of p] by (simp add: t)
  ultimately show ?thesis
    using rec c e by (auto simp: settled_by_def settle_entry_simps evaluate_simps)
qed

text \<open>
  C3. Recovery follows provider truth: for an opportunity that is not recovered and a
  payload from the provider or the caller, a call with unused ids commits.  It makes the
  opportunity recovered only when the provider reports \<^verbatim>\<open>paid\<close> or \<^verbatim>\<open>captured\<close> with a
  positive amount paid, and then appends exactly one double entry, of that amount, whose
  hash the result returns; in every other case (a created link included) the opportunity is
  not recovered and the ledger is unchanged.  Conversely a payment the provider reports with
  a payment id, and that covers the amount due, does recover it.  The converse stops there
  because the code goes further than its documents: it also recovers on an underpaid link
  (\<open>underpaid_is_recovered\<close>) and without a payment id (\<open>recovered_without_payment_id\<close>).
\<close>

theorem recovery_follows_provider:
  assumes "getOpportunityById (rs_store st) oid = Some opp" and "o_status opp \<noteq> Recovered"
    and "payload_of re opp (rs_store st) ov = Some p" and "ids_fresh k (rs_store st)"
  shows "\<exists>r st' target. reconcileOpportunity re k oid ov st = (r, st') \<and> rr_error r = None \<and>
     rr_new_status r = Some target \<and>
     getOpportunityById (rs_store st') oid = Some (opp\<lparr>o_status := target\<rparr>) \<and>
     (target = Recovered \<longrightarrow>
        provider_status_of p \<in> {''paid'', ''captured''} \<and> 0 < or_zero (pp_amount_paid p) \<and>
        (\<exists>e. double_entry_ledger (rs_store st') = double_entry_ledger (rs_store st) @ [e] \<and>
           de_opportunity_id e = o_id opp \<and> de_amount_paise e = or_zero (pp_amount_paid p) \<and>
           rr_ledger_entry_hash r = Some (de_entry_hash e))) \<and>
     (target \<noteq> Recovered \<longrightarrow>
        double_entry_ledger (rs_store st') = double_entry_ledger (rs_store st) \<and>
        rr_ledger_entry_hash r = None) \<and>
     (provider_status_of p \<in> {''paid'', ''captured''} \<and> 0 < or_zero (pp_amount_paid p) \<and>
      o_amount_paise opp \<le> or_zero (pp_amount_paid p) \<and> first_payment p \<noteq> None \<longrightarrow> target = Recovered)"
proof -
  obtain r st' target where e: "reconcileOpportunity re k oid ov st = (r, st')"
    "rr_error r = None" "rr_new_status r = Some target"
    "getOpportunityById (rs_store st') oid = Some (opp\<lparr>o_status := target\<rparr>)"
    "target = Recovered \<longleftrightarrow> provider_status_of p \<in> {''paid'', ''captured''} \<and> 0 < or_zero (pp_amount_paid p)"
    "if target = Recovered
     then \<exists>e. double_entry_ledger (rs_store st') = double_entry_ledger (rs_store st) @ [e] \<and>
            de_opportunity_id e = o_id opp \<and> de_amount_paise e = or_zero (pp_amount_paid p) \<and>
            rr_ledger_entry_hash r = Some (de_entry_hash e)
     else double_entry_ledger (rs_store st') = double_entry_ledger (rs_store st) \<and>
          rr_ledger_entry_hash r = None"
    using reconcile_exact [OF assms] by (elim exE conjE)
  show ?thesis
    using e(5,6) by (intro exI [of _ r] exI [of _ st'] exI [of _ target]) (auto simp: e(1-4) split: if_splits)
qed

theorem recovery_follows_provider_witness:
  "\<exists>r st' target. reconcileOpportunity sample_recon_env sample_call ''o1'' (Some (sample_link ''paid'' 1000))
      sample_recon_state = (r, st') \<and> rr_error r = None \<and> rr_new_status r = Some target \<and> target = Recovered"
proof -
  have "o_status ((sample_opportunity ''o1'' ''insufficient_funds'' Soft 1000)\<lparr>o_status := Executing\<rparr>) \<noteq> Recovered"
    by simp
  from recovery_follows_provider [OF sample_recon(1) this sample_recon(2,3), where re = sample_recon_env
      and p = "sample_link ''paid'' 1000" and k = sample_call]
  show ?thesis
    by (auto simp: sample_recon(4))
       (auto simp: sample_link_def or_zero_def first_payment_def sample_opportunity_def)
qed

text \<open>
  C2. At most one settlement per opportunity: over any sequence of reconciliations, in any
  order, with any answers, errors and duplicate or late events, an opportunity has exactly
  one settlement entry in the ledger when it is recovered and none otherwise, and a
  recovered row is never changed again.
\<close>

theorem settlement_exactly_once:
  assumes "settled_once st"
  shows "settled_once (fold (recon_step re) ops st) \<and>
     (\<forall>j o'. getOpportunityById (rs_store st) j = Some o' \<longrightarrow> o_status o' = Recovered \<longrightarrow>
        getOpportunityById (rs_store (fold (recon_step re) ops st)) j = Some o')"
  using assms
proof (induction ops arbitrary: st)
  case (Cons op ops)
  have s: "settled_once (recon_step re op st)" using Cons.prems by (rule settled_once_step)
  note IH = Cons.IH [OF s]
  show ?case using IH recovered_stays_step [of st _ _ re op] by simp
qed simp

theorem settlement_exactly_once_witness:
  "settled_once (fold (recon_step sample_recon_env)
     [(sample_call, ''o1'', Some (sample_link ''paid'' 1000)), (sample_call, ''o1'', Some (sample_link ''paid'' 1000))]
     sample_recon_state)"
  using settlement_exactly_once [OF sample_recon(5)] by blast

text \<open>
  C8. The reconciler and the ledger compose: while the stamps of the calls increase and
  start after the last entry, every sequence of reconciliations, settled, failed or
  ignored, leaves a ledger that passes the integrity check.
\<close>

theorem reconciler_keeps_ledger_valid:
  assumes "ir_valid (verifyLedgerIntegrity (re_sha re) (double_entry_ledger (rs_store st)))"
    and "sorted_wrt (<) (map op_stamp ops)"
    and "\<forall>e \<in> set (double_entry_ledger (rs_store st)). \<forall>op \<in> set ops. entry_stamp e < op_stamp op"
  shows "ir_valid (verifyLedgerIntegrity (re_sha re) (double_entry_ledger (rs_store (fold (recon_step re) ops st))))"
  using ledger_valid_run [of re st ops] assms by (simp add: valid_chained)

theorem reconciler_keeps_ledger_valid_witness:
  "ir_valid (verifyLedgerIntegrity tagged (double_entry_ledger (rs_store (fold (recon_step sample_recon_env)
     [(sample_call, ''o1'', Some (sample_link ''paid'' 1000)),
      (sample_call\<lparr>rk_now := ''t6''\<rparr>, ''o1'', Some (sample_link ''paid'' 1000))] sample_recon_state))))"
proof -
  have sha: "re_sha sample_recon_env = tagged" by (simp add: sample_recon_env_def)
  show ?thesis
    unfolding sha [symmetric]
    by (rule reconciler_keeps_ledger_valid)
      (simp_all add: sample_recon(6) valid_chained ledger_order_def op_stamp_def sample_call_def less_prod_def list_less_def)
qed

text \<open>
  C37. A call that reports an error changes nothing: an unknown opportunity, a failed fetch
  and a transaction that violates a key leave the store, the calibrator and the arms as
  they were.
\<close>

theorem reconcile_error_no_effect:
  assumes "reconcileOpportunity re k oid ov st = (r, st')" and "rr_error r \<noteq> None"
  shows "st' = st"
proof (cases "case getOpportunityById (rs_store st) oid of None \<Rightarrow> True
    | Some opp \<Rightarrow> o_status opp = Recovered \<or> payload_of re opp (rs_store st) ov = None")
  case True
  then show ?thesis by (rule reconcile_idle [OF assms(1)])
next
  case False
  then obtain opp p where "getOpportunityById (rs_store st) oid = Some opp" "o_status opp \<noteq> Recovered"
      "payload_of re opp (rs_store st) ov = Some p"
    by (auto split: option.splits)
  from reconcile_commits [OF this assms(1)] assms(2) show ?thesis
    by (auto split: sum.splits)
qed

theorem reconcile_error_no_effect_witness:
  "snd (reconcileOpportunity sample_recon_env sample_call ''o9'' None sample_recon_state) = sample_recon_state"
proof -
  obtain r st' where rec: "reconcileOpportunity sample_recon_env sample_call ''o9'' None sample_recon_state = (r, st')"
    by fastforce
  then have "rr_error r \<noteq> None"
    by (auto simp: reconcileOpportunity_def sample_recon_state_def getOpportunityById_def row_get_def
          sample_opportunity_def not_found_result_def)
  from reconcile_error_no_effect [OF rec this] rec show ?thesis by simp
qed

text \<open>
  A payment below the amount due settles: when the provider reports \<^verbatim>\<open>paid\<close> with a
  positive amount below the opportunity's, the canonical mapping quarantines it as a
  mismatch, but the call recovers the opportunity, posts the smaller amount and opens no
  divergence; the result says both \<^verbatim>\<open>MISMATCH\<close> and recovered.
\<close>

theorem underpaid_is_recovered:
  assumes "getOpportunityById (rs_store st) oid = Some opp" and "o_status opp \<noteq> Recovered"
    and "payload_of re opp (rs_store st) ov = Some p" and "ids_fresh k (rs_store st)"
    and "provider_status_of p = ''paid''" and "0 < or_zero (pp_amount_paid p)"
    and "or_zero (pp_amount_paid p) < o_amount_paise opp"
  shows "\<exists>r st'. reconcileOpportunity re k oid ov st = (r, st') \<and>
     rr_canonical_state r = C_MISMATCH \<and> rr_is_recovered r \<and> rr_outcome r = TRANSITION"
proof -
  obtain r st' where rec: "reconcileOpportunity re k oid ov st = (r, st')" by fastforce
  have m: "sm_canonical_state (mapRazorpayStatusToCanonicalState (provider_status_of p) (o_amount_paise opp)
      (or_zero (pp_amount_paid p))) = C_MISMATCH"
    using assms(5-7) provider_status_raw [of p]
    by (simp add: mapRazorpayStatusToCanonicalState_def partial_mapping_def Let_def)
  then have t: "recon_target opp p = (Recovered, ''completed'', TRANSITION)"
    using assms(5,6) by (simp add: recon_target_def target_of_def settled_by_def)
  obtain h s2 where tx: "recon_transaction re k opp (getExecutionRecordByOpportunityId (rs_store st) (o_id opp))
      (evaluate (rk_now k) p) (Recovered, ''completed'', TRANSITION) (rs_store st) = Inr (h, s2)"
    using transaction_ok [OF assms(4)] by blast
  show ?thesis
    using reconcile_commits [OF assms(1-3) rec, unfolded t tx, simplified] rec m by auto
qed

theorem underpaid_is_recovered_witness:
  "\<exists>r st'. reconcileOpportunity sample_recon_env sample_call ''o1'' (Some (sample_link ''paid'' 1))
      sample_recon_state = (r, st') \<and>
     rr_canonical_state r = C_MISMATCH \<and> rr_is_recovered r \<and> rr_outcome r = TRANSITION"
proof (rule underpaid_is_recovered [OF sample_recon(1) _ sample_recon(2,3,4)])
  show "0 < or_zero (pp_amount_paid (sample_link ''paid'' 1))" by (simp add: sample_link_def or_zero_def)
qed (simp_all add: sample_link_def or_zero_def sample_opportunity_def)

text \<open>
  The provider's payment id is not needed: the evaluator copies the first payment's id into
  its result but does not look at it, so a paid payload without a payment recovers the
  opportunity and returns no payment id.
\<close>

theorem recovered_without_payment_id:
  assumes "getOpportunityById (rs_store st) oid = Some opp" and "o_status opp \<noteq> Recovered"
    and "payload_of re opp (rs_store st) ov = Some p" and "ids_fresh k (rs_store st)"
    and "settled_by p" and "first_payment p = None"
  shows "\<exists>r st'. reconcileOpportunity re k oid ov st = (r, st') \<and> rr_is_recovered r \<and> rr_payment_id r = None"
proof -
  obtain r st' where rec: "reconcileOpportunity re k oid ov st = (r, st')" by fastforce
  obtain target es out where t: "recon_target opp p = (target, es, out)" by (cases "recon_target opp p") auto
  obtain h s2 where tx: "recon_transaction re k opp (getExecutionRecordByOpportunityId (rs_store st) (o_id opp))
      (evaluate (rk_now k) p) (target, es, out) (rs_store st) = Inr (h, s2)"
    using transaction_ok [OF assms(4)] by blast
  have "target = Recovered" using recon_target_recovered [OF assms(2), of p] assms(5) by (simp add: t)
  then show ?thesis
    using reconcile_commits [OF assms(1-3) rec, unfolded t tx, simplified] rec assms(6)
    by (auto simp: evaluate_simps)
qed

end
