(* ===== verification/Cache.thy ===== *)
theory Cache
  imports Ctrl_Prelude
begin

text \<open>
  The cache of \<^verbatim>\<open>src/cache/redis.ts\<close> as it runs without a Redis server: an
  insertion-ordered map from keys to values with an expiry time, bounded by evicting
  the oldest key.  The clock (\<^verbatim>\<open>Date.now()\<close>) is the argument \<open>now\<close>, in milliseconds.
  The locale \<open>ttl_store\<close> states what its clients rely on.
\<close>

datatype cache_value = CV_num int | CV_str string

type_synonym cache = "(string \<times> cache_value \<times> int) list"

definition MAX_FALLBACK_KEYS :: nat where
  "MAX_FALLBACK_KEYS = 10000"

text \<open>\<^verbatim>\<open>Map.prototype.set\<close>: a key that is present keeps its place.\<close>

fun js_map_set :: "string \<Rightarrow> cache_value \<times> int \<Rightarrow> cache \<Rightarrow> cache" where
  "js_map_set k v [] = [(k, v)]"
| "js_map_set k v ((k', v') # rest) = (if k' = k then (k, v) # rest else (k', v') # js_map_set k v rest)"

definition js_map_delete :: "string \<Rightarrow> cache \<Rightarrow> cache" where
  "js_map_delete k c = filter (\<lambda>e. fst e \<noteq> k) c"

definition cache_get :: "int \<Rightarrow> string \<Rightarrow> cache \<Rightarrow> cache_value option \<times> cache" where
  "cache_get now k c =
     (case map_of c k of
        None \<Rightarrow> (None, c)
      | Some (v, expiresAt) \<Rightarrow> if expiresAt < now then (None, js_map_delete k c) else (Some v, c))"

definition cache_set :: "int \<Rightarrow> string \<Rightarrow> cache_value \<Rightarrow> int \<Rightarrow> cache \<Rightarrow> cache" where
  "cache_set now k v ttlSeconds c =
     (let c1 = (if MAX_FALLBACK_KEYS \<le> length c
                then (case c of [] \<Rightarrow> c
                      | (oldest, _) # _ \<Rightarrow> if oldest = [] then c else js_map_delete oldest c)
                else c)
      in js_map_set k (v, now + ttlSeconds * 1000) c1)"

definition cache_del :: "string \<Rightarrow> cache \<Rightarrow> cache" where
  "cache_del k c = js_map_delete k c"

definition num_or_zero :: "cache_value option \<Rightarrow> int" where
  "num_or_zero v = (case v of Some (CV_num n) \<Rightarrow> n | _ \<Rightarrow> 0)"

definition cache_incr :: "int \<Rightarrow> string \<Rightarrow> cache \<Rightarrow> int \<times> cache" where
  "cache_incr now k c =
     (let (v, c1) = cache_get now k c; next = num_or_zero v + 1
      in (next, cache_set now k (CV_num next) 60 c1))"

definition cache_expire :: "int \<Rightarrow> string \<Rightarrow> int \<Rightarrow> cache \<Rightarrow> cache" where
  "cache_expire now k seconds c =
     map (\<lambda>(k', v, e). if k' = k then (k', v, now + seconds * 1000) else (k', v, e)) c"

definition cleanup :: "int \<Rightarrow> cache \<Rightarrow> cache" where
  "cleanup now c = filter (\<lambda>(_, _, e). \<not> e < now) c"

definition acquireIdempotencyKey :: "int \<Rightarrow> string \<Rightarrow> int \<Rightarrow> cache \<Rightarrow> bool \<times> cache" where
  "acquireIdempotencyKey now key ttlSeconds c =
     (let lockKey = ''ctrl:idemp:'' @ key;
          fresh = (True, js_map_set lockKey (CV_str ''locked'', now + ttlSeconds * 1000) c)
      in case map_of c lockKey of
           Some (_, expiresAt) \<Rightarrow> if now \<le> expiresAt then (False, c) else fresh
         | None \<Rightarrow> fresh)"

section \<open>Laws\<close>

lemma map_of_js_map_set: "map_of (js_map_set k v c) = (map_of c)(k \<mapsto> v)"
  by (induction c) (auto simp: fun_upd_twist)

lemma map_of_js_map_delete: "map_of (js_map_delete k c) = (map_of c)(k := None)"
  by (induction c) (auto simp: js_map_delete_def fun_upd_twist)

definition live :: "cache \<Rightarrow> int \<Rightarrow> string \<Rightarrow> cache_value option" where
  "live c now k = (case map_of c k of None \<Rightarrow> None | Some (v, e) \<Rightarrow> if e < now then None else Some v)"

lemma cache_get_value: "fst (cache_get now k c) = live c now k"
  by (auto simp: cache_get_def live_def split: option.split)

lemma cache_get_keeps:
  "now \<le> t \<Longrightarrow> live (snd (cache_get now k c)) t k' = live c t k'"
  by (auto simp: cache_get_def live_def map_of_js_map_delete split: option.split)

lemma length_cache_get: "length (snd (cache_get now k c)) \<le> length c"
  by (auto simp: cache_get_def js_map_delete_def split: option.split)

lemma length_js_map_set: "length (js_map_set k v c) \<le> Suc (length c)"
  by (induction c) auto

definition room :: "nat \<Rightarrow> cache \<Rightarrow> bool" where
  "room n c \<longleftrightarrow> length c + n < MAX_FALLBACK_KEYS"

lemma live_cache_set:
  assumes "length c < MAX_FALLBACK_KEYS"
  shows "live (cache_set now k v ttl c) t k' =
     (if k' = k then (if t \<le> now + ttl * 1000 then Some v else None) else live c t k')"
  using assms by (auto simp: cache_set_def live_def map_of_js_map_set Let_def)

text \<open>
  The contract: with room for the key, a value is served until its time to live has
  passed, and no other key is disturbed.
\<close>

locale ttl_store =
  fixes lookup :: "'c \<Rightarrow> int \<Rightarrow> string \<Rightarrow> 'v option"
    and put_at :: "int \<Rightarrow> string \<Rightarrow> 'v \<Rightarrow> int \<Rightarrow> 'c \<Rightarrow> 'c"
    and space :: "nat \<Rightarrow> 'c \<Rightarrow> bool"
  assumes lookup_put: "space 0 c \<Longrightarrow> lookup (put_at now k v ttl c) t k' =
       (if k' = k then (if t \<le> now + ttl * 1000 then Some v else None) else lookup c t k')"
    and space_put: "space (Suc n) c \<Longrightarrow> space n (put_at now k v ttl c)"
    and space_mono: "space (Suc n) c \<Longrightarrow> space n c"
begin

lemma space_zero: "space n c \<Longrightarrow> space 0 c"
  by (induction n) (auto dest: space_mono)

lemma lookup_two:
  assumes "space 1 c" and "k1 \<noteq> k2"
  shows "lookup (put_at now k2 v2 ttl2 (put_at now k1 v1 ttl1 c)) t k1 =
         (if t \<le> now + ttl1 * 1000 then Some v1 else None)"
  using assms space_zero [of 1 c] space_put [of 0 c] by (simp add: lookup_put)

end

interpretation mem_cache: ttl_store live cache_set room
proof
  fix c now k v ttl t k'
  assume "room 0 c"
  then show "live (cache_set now k v ttl c) t k' =
      (if k' = k then (if t \<le> now + ttl * 1000 then Some v else None) else live c t k')"
    by (simp add: live_cache_set room_def)
next
  fix n c now k v ttl
  assume "room (Suc n) c"
  then show "room n (cache_set now k v ttl c)"
    using length_js_map_set [of k "(v, now + ttl * 1000)" c]
    by (simp add: room_def cache_set_def)
qed (simp add: room_def)

section \<open>Properties\<close>

text \<open>
  The idempotency lock excludes a second holder for its whole time to live: after a
  key has been acquired, every attempt in the next \<open>ttl\<close> seconds is refused and leaves
  the cache alone, the first attempt after that succeeds, and the lock of another key
  is not affected.
\<close>

theorem idempotency_lock_exclusive:
  assumes "acquireIdempotencyKey now key ttl c = (True, c')"
  shows "(t \<le> now + ttl * 1000 \<longrightarrow> acquireIdempotencyKey t key ttl' c' = (False, c')) \<and>
     (now + ttl * 1000 < t \<longrightarrow> fst (acquireIdempotencyKey t key ttl' c')) \<and>
     (key' \<noteq> key \<longrightarrow> fst (acquireIdempotencyKey t key' ttl' c') = fst (acquireIdempotencyKey t key' ttl' c))"
proof -
  have c': "c' = js_map_set (''ctrl:idemp:'' @ key) (CV_str ''locked'', now + ttl * 1000) c"
    using assms by (auto simp: acquireIdempotencyKey_def Let_def split: option.splits if_splits)
  show ?thesis
    unfolding c'
    by (auto simp: acquireIdempotencyKey_def Let_def map_of_js_map_set split: option.split)
qed

theorem idempotency_lock_exclusive_witness:
  "fst (acquireIdempotencyKey 1000 ''pay_1'' 86400 (snd (acquireIdempotencyKey 0 ''pay_1'' 86400 []))) = False"
proof -
  have "acquireIdempotencyKey 0 ''pay_1'' 86400 [] =
      (True, snd (acquireIdempotencyKey 0 ''pay_1'' 86400 []))"
    by (simp add: acquireIdempotencyKey_def Let_def)
  from idempotency_lock_exclusive [OF this, of 1000 86400] show ?thesis by simp
qed

text \<open>
  The exclusion does not survive eviction: when the cache is full and the lock is
  its oldest entry, one write under any other key removes the lock, and the same
  idempotency key is acquired a second time within its time to live.
\<close>

theorem idempotency_lock_evicted:
  assumes "c = (''ctrl:idemp:'' @ key, CV_str ''locked'', expiry) # rest"
    and "MAX_FALLBACK_KEYS \<le> length c" and "distinct (map fst c)"
    and "k \<noteq> ''ctrl:idemp:'' @ key" and "now \<le> expiry"
  shows "fst (acquireIdempotencyKey now key ttl c) = False \<and>
     fst (acquireIdempotencyKey now key ttl (cache_set now k v ttl' c)) = True"
  using assms
  by (auto simp: acquireIdempotencyKey_def cache_set_def Let_def map_of_js_map_set
        map_of_js_map_delete split: option.split)

definition filler :: "nat \<Rightarrow> cache" where
  "filler n = map (\<lambda>i. (''k'' @ show_nat i, CV_num 0, 0)) [0..<n]"

theorem idempotency_lock_evicted_witness:
  "\<exists>c. fst (acquireIdempotencyKey 5 ''pay_1'' 86400 c) = False \<and>
     fst (acquireIdempotencyKey 5 ''pay_1'' 86400 (cache_set 5 ''x'' (CV_num 1) 60 c)) = True"
proof -
  let ?c = "(''ctrl:idemp:'' @ ''pay_1'', CV_str ''locked'', 86400000) # filler 10000"
  have "inj_on (\<lambda>i. ''k'' @ show_nat i) {0..<10000}"
    by (auto simp: inj_on_def show_nat_inject)
  then have "distinct (map fst ?c)"
    by (auto simp: filler_def o_def distinct_map)
  moreover have "MAX_FALLBACK_KEYS \<le> length ?c" by (simp add: MAX_FALLBACK_KEYS_def filler_def)
  ultimately have "fst (acquireIdempotencyKey 5 ''pay_1'' 86400 ?c) = False \<and>
      fst (acquireIdempotencyKey 5 ''pay_1'' 86400 (cache_set 5 ''x'' (CV_num 1) 60 ?c)) = True"
    by (intro idempotency_lock_evicted [OF refl]) simp_all
  then show ?thesis by blast
qed

end
