(* ===== verification/Capacity.thy ===== *)
theory Capacity
  imports Cache JS_Number
begin

text \<open>
  Capacity limits and budget pacing (\<^verbatim>\<open>src/market/capacity_policy.ts\<close>): the
  per-customer, hourly, daily and monthly limits, kept as counters with a time to
  live in the cache, and the dual-descent pacer with its pacing arms.
\<close>

section \<open>Capacity policy\<close>

record capacity_policy =
  cp_merchant_id :: string
  cp_max_links_per_hour :: int
  cp_max_links_per_day :: int
  cp_max_links_per_customer_per_day :: int
  cp_time_window_hours :: int
  cp_monthly_budget_paise :: int

record policy_patch =
  pp_max_links_per_hour :: "int option"
  pp_max_links_per_day :: "int option"
  pp_max_links_per_customer_per_day :: "int option"
  pp_time_window_hours :: "int option"
  pp_monthly_budget_paise :: "int option"

definition no_patch :: policy_patch where
  "no_patch = \<lparr>pp_max_links_per_hour = None, pp_max_links_per_day = None,
     pp_max_links_per_customer_per_day = None, pp_time_window_hours = None,
     pp_monthly_budget_paise = None\<rparr>"

definition or_default :: "'a option \<Rightarrow> 'a \<Rightarrow> 'a" where
  "or_default x d = (case x of None \<Rightarrow> d | Some v \<Rightarrow> v)"

definition merged_policy :: "string \<Rightarrow> policy_patch \<Rightarrow> capacity_policy" where
  "merged_policy merchantId p =
     \<lparr>cp_merchant_id = merchantId,
      cp_max_links_per_hour = or_default (pp_max_links_per_hour p) 20,
      cp_max_links_per_day = or_default (pp_max_links_per_day p) 100,
      cp_max_links_per_customer_per_day = or_default (pp_max_links_per_customer_per_day p) 1,
      cp_time_window_hours = or_default (pp_time_window_hours p) 1,
      cp_monthly_budget_paise = or_default (pp_monthly_budget_paise p) 5000000\<rparr>"

record capacity_check =
  cc_allowed :: bool
  cc_reason :: string
  cc_hourly_remaining :: int
  cc_daily_remaining :: int
  cc_budget_remaining_paise :: int

definition customerKey :: "string \<Rightarrow> string \<Rightarrow> string" where
  "customerKey m cu = ''fatigue:'' @ m @ '':'' @ cu"

definition hourlyKey :: "string \<Rightarrow> string" where
  "hourlyKey m = ''capacity:hourly:'' @ m"

definition dailyKey :: "string \<Rightarrow> string" where
  "dailyKey m = ''capacity:daily:'' @ m"

definition budgetKey :: "string \<Rightarrow> string" where
  "budgetKey m = ''budget:monthly:'' @ m"

definition evaluateCapacity ::
  "int \<Rightarrow> string \<Rightarrow> string \<Rightarrow> int \<Rightarrow> policy_patch \<Rightarrow> cache \<Rightarrow> capacity_check \<times> cache" where
  "evaluateCapacity now merchantId customerId operationalCostPaise patch c0 =
     (let policy = merged_policy merchantId patch;
          (v1, c1) = cache_get now (customerKey merchantId customerId) c0;
          custCount = num_or_zero v1
      in if cp_max_links_per_customer_per_day policy \<le> custCount
         then (\<lparr>cc_allowed = False,
                cc_reason = ''Customer fatigue limit reached ('' @ show_int custCount @ ''/'' @
                  show_int (cp_max_links_per_customer_per_day policy) @ '' in 24h)'',
                cc_hourly_remaining = 0, cc_daily_remaining = 0, cc_budget_remaining_paise = 0\<rparr>, c1)
         else
      let (v2, c2) = cache_get now (hourlyKey merchantId) c1; hourlyCount = num_or_zero v2
      in if cp_max_links_per_hour policy \<le> hourlyCount
         then (\<lparr>cc_allowed = False,
                cc_reason = ''Merchant hourly capacity limit reached ('' @ show_int hourlyCount @ ''/'' @
                  show_int (cp_max_links_per_hour policy) @ '')'',
                cc_hourly_remaining = 0,
                cc_daily_remaining = max 0 (cp_max_links_per_day policy - hourlyCount),
                cc_budget_remaining_paise = 0\<rparr>, c2)
         else
      let (v3, c3) = cache_get now (dailyKey merchantId) c2; dailyCount = num_or_zero v3
      in if cp_max_links_per_day policy \<le> dailyCount
         then (\<lparr>cc_allowed = False,
                cc_reason = ''Merchant daily capacity limit reached ('' @ show_int dailyCount @ ''/'' @
                  show_int (cp_max_links_per_day policy) @ '')'',
                cc_hourly_remaining = max 0 (cp_max_links_per_hour policy - hourlyCount),
                cc_daily_remaining = 0, cc_budget_remaining_paise = 0\<rparr>, c3)
         else
      let (v4, c4) = cache_get now (budgetKey merchantId) c3; spentPaise = num_or_zero v4
      in if cp_monthly_budget_paise policy < spentPaise + operationalCostPaise
         then (\<lparr>cc_allowed = False,
                cc_reason = ''Merchant monthly operational budget exceeded (spent: Rs.'' @
                  show_rupees spentPaise @ '', limit: Rs.'' @
                  show_rupees (cp_monthly_budget_paise policy) @ '')'',
                cc_hourly_remaining = cp_max_links_per_hour policy - hourlyCount,
                cc_daily_remaining = cp_max_links_per_day policy - dailyCount,
                cc_budget_remaining_paise = max 0 (cp_monthly_budget_paise policy - spentPaise)\<rparr>, c4)
         else (\<lparr>cc_allowed = True, cc_reason = '''',
                cc_hourly_remaining = cp_max_links_per_hour policy - hourlyCount - 1,
                cc_daily_remaining = cp_max_links_per_day policy - dailyCount - 1,
                cc_budget_remaining_paise =
                  cp_monthly_budget_paise policy - (spentPaise + operationalCostPaise)\<rparr>, c4))"

section \<open>The pacer\<close>

datatype pacing_arm = CONSERVATIVE | NEUTRAL | AGGRESSIVE

datatype time_window = NIGHT_QUIET | MORNING_PEAK | AFTERNOON_TROUGH | EVENING_SURGE

record clock =
  ck_ms :: int
  ck_iso :: string
  ck_hours :: int
  ck_minutes :: int

record pacing_state =
  ps_lambda :: rat
  ps_daily_budget_paise :: int
  ps_spent_today_paise :: int
  ps_target_rate :: rat
  ps_active_arm :: pacing_arm
  ps_time_window :: time_window
  ps_update_count :: nat
  ps_last_updated :: string

record pacing_log =
  pl_tenant_id :: string
  pl_time_window :: time_window
  pl_pacing_arm :: pacing_arm
  pl_lambda_applied :: rat
  pl_spent_paise :: int
  pl_budget_paise :: int
  pl_created_at :: string

record pacer =
  pc_states :: "string \<Rightarrow> pacing_state option"
  pc_armStats :: "time_window \<times> pacing_arm \<Rightarrow> (nat \<times> rat) option"
  pc_logs :: "pacing_log list"

definition new_pacer :: pacer where
  "new_pacer = \<lparr>pc_states = Map.empty, pc_armStats = Map.empty, pc_logs = []\<rparr>"

fun armMultipliers :: "pacing_arm \<Rightarrow> rat" where
  "armMultipliers CONSERVATIVE = lit 120 2"
| "armMultipliers NEUTRAL = 1"
| "armMultipliers AGGRESSIVE = lit 85 2"

definition getTimeWindow :: "clock \<Rightarrow> time_window" where
  "getTimeWindow ck =
     (if ck_hours ck < 6 then NIGHT_QUIET else if ck_hours ck < 12 then MORNING_PEAK
      else if ck_hours ck < 18 then AFTERNOON_TROUGH else EVENING_SURGE)"

definition arm_stats :: "pacer \<Rightarrow> time_window \<Rightarrow> pacing_arm \<Rightarrow> nat \<times> rat" where
  "arm_stats p w a = (case pc_armStats p (w, a) of None \<Rightarrow> (0, 0) | Some s \<Rightarrow> s)"

definition ucb_score :: "js_math \<Rightarrow> nat \<Rightarrow> nat \<times> rat \<Rightarrow> rat" where
  "ucb_score jm totalPulls st =
     fadd (if 0 < fst st then fdiv (snd st) (of_nat (fst st)) else lit 5 1)
       (m_sqrt jm (fdiv (fmul 2 (m_log jm (of_nat (totalPulls + 1)))) (of_nat (fst st + 1))))"

definition selectPacingArm :: "js_math \<Rightarrow> pacer \<Rightarrow> time_window \<Rightarrow> pacing_arm" where
  "selectPacingArm jm p w =
     (let arms = [CONSERVATIVE, NEUTRAL, AGGRESSIVE];
          totalPulls = sum_list (map (\<lambda>a. fst (arm_stats p w a)) arms)
      in if totalPulls < 3 then arms ! (totalPulls mod 3)
         else fst (foldl (\<lambda>(bestArm, bestScore) a.
                let u = ucb_score jm totalPulls (arm_stats p w a)
                in if (case bestScore of None \<Rightarrow> True | Some b \<Rightarrow> b < u) then (a, Some u)
                   else (bestArm, bestScore)) (NEUTRAL, None) arms))"

definition getPacingState ::
  "js_math \<Rightarrow> clock \<Rightarrow> string \<Rightarrow> int \<Rightarrow> pacer \<Rightarrow> pacing_state \<times> pacer" where
  "getPacingState jm ck merchantId dailyBudgetPaise p =
     (let w = getTimeWindow ck
      in case pc_states p merchantId of
           Some st \<Rightarrow>
             let st' = (if ps_time_window st \<noteq> w
                        then st\<lparr>ps_time_window := w, ps_active_arm := selectPacingArm jm p w\<rparr> else st)
             in (st', p\<lparr>pc_states := (pc_states p)(merchantId \<mapsto> st')\<rparr>)
         | None \<Rightarrow>
             let st = \<lparr>ps_lambda = 1, ps_daily_budget_paise = dailyBudgetPaise,
                       ps_spent_today_paise = 0,
                       ps_target_rate = fdiv (of_int dailyBudgetPaise) 24,
                       ps_active_arm = selectPacingArm jm p w, ps_time_window = w,
                       ps_update_count = 0, ps_last_updated = ck_iso ck\<rparr>
             in (st, p\<lparr>pc_states := (pc_states p)(merchantId \<mapsto> st)\<rparr>))"

definition updateDualMultiplier ::
  "js_math \<Rightarrow> clock \<Rightarrow> string \<Rightarrow> int \<Rightarrow> pacer \<Rightarrow> rat \<times> pacer" where
  "updateDualMultiplier jm ck merchantId additionalSpendPaise p =
     (let (st0, p1) = getPacingState jm ck merchantId 200000 p;
          spent = ps_spent_today_paise st0 + additionalSpendPaise;
          count = ps_update_count st0 + 1;
          hoursElapsed = max 1 (fadd (of_int (ck_hours ck)) (fdiv (of_int (ck_minutes ck)) 60));
          expectedSpend = fmul (ps_target_rate st0) hoursElapsed;
          subgradient = fsub (of_int spent) expectedSpend;
          decayingEta = fdiv (lit 5 3) (m_sqrt jm (of_nat count));
          rawLambda = fadd (ps_lambda st0) (fmul decayingEta (fdiv subgradient 50000));
          modulated = fmul rawLambda (armMultipliers (ps_active_arm st0));
          st = st0\<lparr>ps_spent_today_paise := spent, ps_update_count := count,
                   ps_lambda := clamp (lit 1 1) 1000 (toFixed 4 modulated),
                   ps_last_updated := ck_iso ck\<rparr>
      in (ps_lambda st,
          p1\<lparr>pc_states := (pc_states p1)(merchantId \<mapsto> st),
             pc_logs := pc_logs p1 @
               [\<lparr>pl_tenant_id = merchantId, pl_time_window = ps_time_window st,
                 pl_pacing_arm = ps_active_arm st, pl_lambda_applied = ps_lambda st,
                 pl_spent_paise = ps_spent_today_paise st,
                 pl_budget_paise = ps_daily_budget_paise st, pl_created_at = ck_iso ck\<rparr>]\<rparr>))"

definition recordPacingReward :: "time_window \<Rightarrow> pacing_arm \<Rightarrow> rat \<Rightarrow> pacer \<Rightarrow> pacer" where
  "recordPacingReward w a reward p =
     p\<lparr>pc_armStats := (pc_armStats p)((w, a) \<mapsto>
        (fst (arm_stats p w a) + 1, fadd (snd (arm_stats p w a)) (clamp 0 1 reward)))\<rparr>"

record hurdle =
  hu_clears_hurdle :: bool
  hu_shadow_threshold_paise :: int
  hu_current_lambda :: rat

definition shouldAllocate ::
  "js_math \<Rightarrow> clock \<Rightarrow> string \<Rightarrow> int \<Rightarrow> int \<Rightarrow> pacer \<Rightarrow> hurdle \<times> pacer" where
  "shouldAllocate jm ck merchantId ivenPaise costPaise p =
     (let (st, p1) = getPacingState jm ck merchantId 200000 p;
          threshold = math_round (fmul (ps_lambda st) (of_int costPaise))
      in (\<lparr>hu_clears_hurdle = (threshold \<le> ivenPaise), hu_shadow_threshold_paise = threshold,
           hu_current_lambda = ps_lambda st\<rparr>, p1))"

text \<open>One read-increment-write of a counter.\<close>

definition bump :: "int \<Rightarrow> string \<Rightarrow> int \<Rightarrow> int \<Rightarrow> cache \<Rightarrow> cache" where
  "bump now k d ttl c =
     (let (v, c1) = cache_get now k c in cache_set now k (CV_num (num_or_zero v + d)) ttl c1)"

definition recordConsumption ::
  "js_math \<Rightarrow> clock \<Rightarrow> string \<Rightarrow> string \<Rightarrow> int \<Rightarrow> cache \<times> pacer \<Rightarrow> cache \<times> pacer" where
  "recordConsumption jm ck merchantId customerId operationalCostPaise cp =
     (let now = ck_ms ck; (c0, p) = cp;
          c1 = bump now (customerKey merchantId customerId) 1 86400 c0;
          c2 = bump now (hourlyKey merchantId) 1 3600 c1;
          c3 = bump now (dailyKey merchantId) 1 86400 c2;
          c4 = bump now (budgetKey merchantId) operationalCostPaise 2592000 c3
      in (c4, snd (updateDualMultiplier jm ck merchantId operationalCostPaise p)))"

section \<open>The counters\<close>

definition counter :: "cache \<Rightarrow> int \<Rightarrow> string \<Rightarrow> int" where
  "counter c now k = num_or_zero (live c now k)"

lemma room_cache_get: "room n c \<Longrightarrow> room n (snd (cache_get now k c))"
  using length_cache_get [of now k c] by (simp add: room_def)

lemma room_bump: "room (Suc n) c \<Longrightarrow> room n (bump now k d ttl c)"
  using mem_cache.space_put [OF room_cache_get [of "Suc n" c now k]]
  by (simp add: bump_def case_prod_unfold Let_def)

lemma room_le: "room n c \<Longrightarrow> m \<le> n \<Longrightarrow> room m c"
  by (simp add: room_def)

lemma live_bump:
  assumes "room 0 c" and "now \<le> t"
  shows "live (bump now k d ttl c) t k' =
     (if k' = k then (if t \<le> now + ttl * 1000 then Some (CV_num (counter c now k + d)) else None)
      else live c t k')"
  using mem_cache.lookup_put [OF room_cache_get [OF assms(1), of now k]] assms(2)
  by (simp add: bump_def case_prod_unfold Let_def counter_def cache_get_value cache_get_keeps)

lemma keys_distinct [simp]:
  "customerKey m cu \<noteq> hourlyKey m'" "customerKey m cu \<noteq> dailyKey m'" "customerKey m cu \<noteq> budgetKey m'"
  "hourlyKey m \<noteq> customerKey m' cu" "dailyKey m \<noteq> customerKey m' cu" "budgetKey m \<noteq> customerKey m' cu"
  "hourlyKey m \<noteq> dailyKey m'" "dailyKey m \<noteq> hourlyKey m'" "hourlyKey m \<noteq> budgetKey m'"
  "budgetKey m \<noteq> hourlyKey m'" "dailyKey m \<noteq> budgetKey m'" "budgetKey m \<noteq> dailyKey m'"
  by (simp_all add: customerKey_def hourlyKey_def dailyKey_def budgetKey_def)

lemma consumption_counters:
  assumes "room 4 c" and "ck_ms ck \<le> t"
  shows "counter (fst (recordConsumption jm ck m cu cost (c, p))) t (customerKey m cu) =
       (if t \<le> ck_ms ck + 86400000 then counter c (ck_ms ck) (customerKey m cu) + 1 else 0)"
    "counter (fst (recordConsumption jm ck m cu cost (c, p))) t (hourlyKey m) =
       (if t \<le> ck_ms ck + 3600000 then counter c (ck_ms ck) (hourlyKey m) + 1 else 0)"
    "counter (fst (recordConsumption jm ck m cu cost (c, p))) t (dailyKey m) =
       (if t \<le> ck_ms ck + 86400000 then counter c (ck_ms ck) (dailyKey m) + 1 else 0)"
    "counter (fst (recordConsumption jm ck m cu cost (c, p))) t (budgetKey m) =
       (if t \<le> ck_ms ck + 2592000000 then counter c (ck_ms ck) (budgetKey m) + cost else 0)"
proof -
  let ?n = "ck_ms ck"
  let ?c1 = "bump ?n (customerKey m cu) 1 86400 c"
  let ?c2 = "bump ?n (hourlyKey m) 1 3600 ?c1"
  let ?c3 = "bump ?n (dailyKey m) 1 86400 ?c2"
  have r1: "room 3 ?c1" using room_bump [of 3 c] assms(1) by simp
  have r2: "room 2 ?c2" using room_bump [of 2 ?c1] r1 by simp
  have r3: "room 1 ?c3" using room_bump [of 1 ?c2] r2 by (simp add: numeral_2_eq_2)
  note r0 = room_le [OF assms(1), of 0] room_le [OF r1, of 0] room_le [OF r2, of 0] room_le [OF r3, of 0]
  note live = live_bump [OF r0(1)] live_bump [OF r0(2)] live_bump [OF r0(3)] live_bump [OF r0(4)]
  show "counter (fst (recordConsumption jm ck m cu cost (c, p))) t (customerKey m cu) =
       (if t \<le> ck_ms ck + 86400000 then counter c (ck_ms ck) (customerKey m cu) + 1 else 0)"
    and "counter (fst (recordConsumption jm ck m cu cost (c, p))) t (hourlyKey m) =
       (if t \<le> ck_ms ck + 3600000 then counter c (ck_ms ck) (hourlyKey m) + 1 else 0)"
    and "counter (fst (recordConsumption jm ck m cu cost (c, p))) t (dailyKey m) =
       (if t \<le> ck_ms ck + 86400000 then counter c (ck_ms ck) (dailyKey m) + 1 else 0)"
    and "counter (fst (recordConsumption jm ck m cu cost (c, p))) t (budgetKey m) =
       (if t \<le> ck_ms ck + 2592000000 then counter c (ck_ms ck) (budgetKey m) + cost else 0)"
    using assms(2)
    by (auto simp: recordConsumption_def Let_def counter_def live num_or_zero_def)
qed

lemma room_consumption: "room (n + 4) c \<Longrightarrow> room n (fst (recordConsumption jm ck m cu cost (c, p)))"
  by (simp add: recordConsumption_def Let_def) (intro room_bump, simp add: numeral_eq_Suc)

lemma counter_get: "num_or_zero (fst (cache_get now k c)) = counter c now k"
  by (simp add: counter_def cache_get_value)

lemma counter_keep: "counter (snd (cache_get now k c)) now k' = counter c now k'"
  by (simp add: counter_def cache_get_keeps)

lemma evaluateCapacity_allowed:
  "cc_allowed (fst (evaluateCapacity now m cu cost patch c)) \<longleftrightarrow>
     counter c now (customerKey m cu) < cp_max_links_per_customer_per_day (merged_policy m patch) \<and>
     counter c now (hourlyKey m) < cp_max_links_per_hour (merged_policy m patch) \<and>
     counter c now (dailyKey m) < cp_max_links_per_day (merged_policy m patch) \<and>
     counter c now (budgetKey m) + cost \<le> cp_monthly_budget_paise (merged_policy m patch)"
  by (auto simp: evaluateCapacity_def Let_def case_prod_unfold counter_get counter_keep)

section \<open>The pacer\<close>

datatype pacer_op =
    Op_spend clock string int
  | Op_read clock string int
  | Op_hurdle clock string int int
  | Op_reward time_window pacing_arm rat

fun pacer_step :: "js_math \<Rightarrow> pacer_op \<Rightarrow> pacer \<Rightarrow> pacer" where
  "pacer_step jm (Op_spend ck m d) p = snd (updateDualMultiplier jm ck m d p)"
| "pacer_step jm (Op_read ck m b) p = snd (getPacingState jm ck m b p)"
| "pacer_step jm (Op_hurdle ck m v cost) p = snd (shouldAllocate jm ck m v cost p)"
| "pacer_step jm (Op_reward w a r) p = recordPacingReward w a r p"

fun spends_of :: "string \<Rightarrow> pacer_op \<Rightarrow> int list" where
  "spends_of m (Op_spend ck m' d) = (if m' = m then [d] else [])"
| "spends_of m _ = []"

definition spends :: "string \<Rightarrow> pacer_op list \<Rightarrow> int list" where
  "spends m ops = concat (map (spends_of m) ops)"

fun pacing_ok :: "int list \<Rightarrow> pacing_state option \<Rightarrow> bool" where
  "pacing_ok ds None = (ds = [])"
| "pacing_ok ds (Some st) =
     (lit 1 1 \<le> ps_lambda st \<and> ps_lambda st \<le> 1000 \<and>
      ps_spent_today_paise st = sum_list ds \<and> ps_update_count st = length ds)"

definition pacer_inv :: "pacer_op list \<Rightarrow> pacer \<Rightarrow> bool" where
  "pacer_inv ops p \<longleftrightarrow> (\<forall>m. pacing_ok (spends m ops) (pc_states p m))"

lemma lit_tenth_le: "lit 1 1 \<le> 1"
  by (rule lit_le_one) simp

lemma pacer_inv_get:
  assumes "pacer_inv ops p"
  shows "pacer_inv ops (snd (getPacingState jm ck m b p))"
    "pc_states (snd (getPacingState jm ck m b p)) m = Some (fst (getPacingState jm ck m b p))"
proof -
  have "pacing_ok (spends m ops) (pc_states p m)" using assms by (simp add: pacer_inv_def)
  then have "pacing_ok (spends m ops) (Some (fst (getPacingState jm ck m b p)))"
    by (cases "pc_states p m") (auto simp: getPacingState_def Let_def lit_tenth_le [simplified])
  moreover have "pc_states (snd (getPacingState jm ck m b p)) =
      (pc_states p)(m \<mapsto> fst (getPacingState jm ck m b p))"
    by (auto simp: getPacingState_def Let_def split: option.split)
  ultimately show "pacer_inv ops (snd (getPacingState jm ck m b p))"
    and "pc_states (snd (getPacingState jm ck m b p)) m = Some (fst (getPacingState jm ck m b p))"
    using assms by (simp_all add: pacer_inv_def)
qed

lemma spends_snoc: "spends m (ops @ [op]) = spends m ops @ spends_of m op"
  by (simp add: spends_def)

lemma pacer_inv_spend:
  assumes "pacer_inv ops p"
  shows "pacer_inv (ops @ [Op_spend ck m d]) (snd (updateDualMultiplier jm ck m d p))"
proof -
  obtain st p1 where g: "getPacingState jm ck m 200000 p = (st, p1)" by fastforce
  from pacer_inv_get [OF assms, of jm ck m 200000] g
  have inv: "pacer_inv ops p1" and st: "pc_states p1 m = Some st" by auto
  have ok: "pacing_ok (spends m' ops) (pc_states p1 m')" for m'
    using inv by (simp add: pacer_inv_def)
  have bnd: "lit 1 1 \<le> clamp (lit 1 1) 1000 x \<and> clamp (lit 1 1) 1000 x \<le> (1000 :: rat)" for x
    using lit_tenth_le by (intro clamp_bounds) simp
  show ?thesis
    using ok [of m] ok bnd
    by (simp add: pacer_inv_def updateDualMultiplier_def g st Let_def spends_snoc)
qed

lemma pacer_inv_step: "pacer_inv ops p \<Longrightarrow> pacer_inv (ops @ [op]) (pacer_step jm op p)"
proof (cases op)
  case (Op_spend ck m d)
  then show "pacer_inv ops p \<Longrightarrow> ?thesis" by (simp add: pacer_inv_spend)
next
  case (Op_read ck m b)
  then show "pacer_inv ops p \<Longrightarrow> ?thesis"
    using pacer_inv_get(1) [of ops p jm ck m b] by (simp add: pacer_inv_def spends_snoc)
next
  case (Op_hurdle ck m v cost)
  then show "pacer_inv ops p \<Longrightarrow> ?thesis"
    using pacer_inv_get(1) [of ops p jm ck m 200000]
    by (simp add: pacer_inv_def spends_snoc shouldAllocate_def Let_def case_prod_unfold)
next
  case (Op_reward w a r)
  then show "pacer_inv ops p \<Longrightarrow> ?thesis"
    by (simp add: pacer_inv_def spends_snoc recordPacingReward_def)
qed

lemma pacer_inv_run: "pacer_inv ops (fold (pacer_step jm) ops new_pacer)"
proof (induction ops rule: rev_induct)
  case Nil
  show ?case by (simp add: pacer_inv_def new_pacer_def spends_def)
next
  case (snoc op ops)
  then show ?case using pacer_inv_step by simp
qed

section \<open>Properties\<close>

text \<open>
  A link is allowed exactly when all four limits have room, counting what the
  cache still holds: the customer's daily count, the merchant's hourly and daily
  counts, and the month's spend plus this cost; and what an allowed check reports as
  remaining is never negative.
\<close>

theorem capacity_allowed_iff:
  fixes now m cu cost patch c
  defines "r \<equiv> fst (evaluateCapacity now m cu cost patch c)"
    and "pol \<equiv> merged_policy m patch"
  shows "(cc_allowed r \<longleftrightarrow>
       counter c now (customerKey m cu) < cp_max_links_per_customer_per_day pol \<and>
       counter c now (hourlyKey m) < cp_max_links_per_hour pol \<and>
       counter c now (dailyKey m) < cp_max_links_per_day pol \<and>
       counter c now (budgetKey m) + cost \<le> cp_monthly_budget_paise pol) \<and>
     (cc_allowed r \<longrightarrow> 0 \<le> cc_hourly_remaining r \<and> 0 \<le> cc_daily_remaining r \<and>
        0 \<le> cc_budget_remaining_paise r)"
  using evaluateCapacity_allowed [of now m cu cost patch c]
  unfolding r_def pol_def
  by (auto simp: evaluateCapacity_def Let_def case_prod_unfold counter_get counter_keep
        split: if_splits)

theorem capacity_allowed_iff_witness:
  "cc_allowed (fst (evaluateCapacity 0 ''m'' ''c1'' 400 no_patch [])) \<and>
   0 \<le> cc_hourly_remaining (fst (evaluateCapacity 0 ''m'' ''c1'' 400 no_patch []))"
  using capacity_allowed_iff [of 0 "''m''" "''c1''" 400 no_patch "[]"]
  by (auto simp: counter_def live_def num_or_zero_def merged_policy_def no_patch_def or_default_def)

text \<open>
  Recorded consumption is enforced: after a link to a customer, a further link to
  the same customer is refused for the next 24 hours under the default policy,
  whatever else is asked.
\<close>

theorem fatigue_enforced:
  assumes "room 4 c" and "ck_ms ck \<le> t" and "t \<le> ck_ms ck + 86400000"
    and "0 \<le> counter c (ck_ms ck) (customerKey m cu)"
  shows "\<not> cc_allowed (fst (evaluateCapacity t m cu cost no_patch
            (fst (recordConsumption jm ck m cu spent (c, p)))))"
  using assms(3,4) consumption_counters(1) [OF assms(1,2), of jm m cu spent p]
  by (simp add: evaluateCapacity_allowed merged_policy_def no_patch_def or_default_def)

definition sample_clock :: "int \<Rightarrow> clock" where
  "sample_clock ms = \<lparr>ck_ms = ms, ck_iso = ''2026'', ck_hours = 10, ck_minutes = 0\<rparr>"

definition plain_math :: js_math where
  "plain_math = \<lparr>m_sqrt = (\<lambda>x. x), m_tanh = (\<lambda>x. x), m_log = (\<lambda>x. x)\<rparr>"

theorem fatigue_enforced_witness:
  "\<not> cc_allowed (fst (evaluateCapacity 1000 ''m'' ''c1'' 400 no_patch
      (fst (recordConsumption plain_math (sample_clock 0) ''m'' ''c1'' 400 ([], new_pacer)))))"
  by (rule fatigue_enforced)
     (simp_all add: sample_clock_def room_def MAX_FALLBACK_KEYS_def counter_def live_def num_or_zero_def)

text \<open>
  The hourly limit is not a limit per hour: each link renews the hour of the
  counter, so links that follow each other by at most an hour are all still counted
  after the last one, over however many hours they were spread.
\<close>

theorem hourly_counter_never_resets:
  assumes "successively (\<lambda>a b. ck_ms a \<le> ck_ms b \<and> ck_ms b \<le> ck_ms a + 3600000) cks"
    and "cks \<noteq> []" and "room (4 * length cks) c" and "counter c (ck_ms (hd cks)) (hourlyKey m) = 0"
  shows "counter (fst (foldl (\<lambda>st ck. recordConsumption jm ck m (f ck) cost st) (c, p) cks))
           (ck_ms (last cks)) (hourlyKey m) = int (length cks)"
  using assms
proof (induction cks rule: rev_induct)
  case (snoc ck cks)
  let ?step = "\<lambda>st ck. recordConsumption jm ck m (f ck) cost st"
  obtain c1 p1 where st: "foldl ?step (c, p) cks = (c1, p1)" by fastforce
  have rm: "room (n + 4 * length cs) c' \<Longrightarrow> room n (fst (foldl ?step (c', p') cs))" for n cs c' p'
  proof (induction cs arbitrary: c' p')
    case (Cons x xs)
    obtain c2 p2 where e: "recordConsumption jm x m (f x) cost (c', p') = (c2, p2)" by fastforce
    have "room (n + 4 * length xs) c2"
      using room_consumption [of "n + 4 * length xs" c' jm x m "f x" cost p'] Cons.prems e
      by (simp add: algebra_simps)
    with Cons.IH e show ?case by simp
  qed simp
  have r1: "room 4 c1" using rm [of 4 cks c p] snoc.prems(3) st by (simp add: algebra_simps)
  have "counter c1 (ck_ms ck) (hourlyKey m) = int (length cks)"
  proof (cases "cks = []")
    case True
    with st snoc.prems(4) show ?thesis by simp
  next
    case False
    define l where "l = last cks"
    have gap: "ck_ms l \<le> ck_ms ck" "ck_ms ck \<le> ck_ms l + 3600000"
      using snoc.prems(1) False by (auto simp: successively_append_iff l_def)
    define b where "b = butlast cks"
    have cks: "cks = b @ [l]" using False by (simp add: b_def l_def)
    obtain c0 p0 where st0: "foldl ?step (c, p) b = (c0, p0)" by fastforce
    have r0: "room 4 c0" using rm [of 4 b c p] snoc.prems(3) st0 cks by (simp add: room_def)
    have eq: "(c1, p1) = recordConsumption jm l m (f l) cost (c0, p0)" using st cks st0 by simp
    have "counter c1 (ck_ms l) (hourlyKey m) = int (length cks)"
      using snoc.IH snoc.prems False st room_le [of "4 * length (cks @ [ck])" c "4 * length cks"]
      by (simp add: successively_append_iff l_def)
    with consumption_counters(2) [OF r0, of l "ck_ms l" jm m "f l" cost p0]
      consumption_counters(2) [OF r0, of l "ck_ms ck" jm m "f l" cost p0] gap
    show ?thesis by (simp add: eq [symmetric])
  qed
  then show ?case
    using consumption_counters(2) [OF r1, of ck "ck_ms ck" jm m "f ck" cost p1] st by simp
qed simp

theorem hourly_counter_never_resets_witness:
  "\<not> cc_allowed (fst (evaluateCapacity (19 * 3600000) ''m'' ''c99'' 400 no_patch
      (fst (foldl (\<lambda>st ck. recordConsumption plain_math ck ''m'' (show_int (ck_ms ck)) 400 st)
         ([], new_pacer) (map (\<lambda>i. sample_clock (int i * 3600000)) [0..<20])))))"
proof -
  let ?cks = "map (\<lambda>i. sample_clock (int i * 3600000)) [0..<20]"
  have sc: "successively (\<lambda>a b. ck_ms a \<le> ck_ms b \<and> ck_ms b \<le> ck_ms a + 3600000) ?cks"
    by (simp add: upt_rec sample_clock_def)
  have l: "ck_ms (last ?cks) = 19 * 3600000" by (simp add: upt_rec sample_clock_def)
  have "counter (fst (foldl (\<lambda>st ck. recordConsumption plain_math ck ''m'' (show_int (ck_ms ck)) 400 st)
      ([], new_pacer) ?cks)) (ck_ms (last ?cks)) (hourlyKey ''m'') = int (length ?cks)"
    by (rule hourly_counter_never_resets [OF sc])
       (simp_all add: room_def MAX_FALLBACK_KEYS_def counter_def live_def num_or_zero_def)
  then show ?thesis
    unfolding evaluateCapacity_allowed l
    by (simp add: merged_policy_def no_patch_def or_default_def)
qed

text \<open>
  Under any sequence of spends, reads, hurdle checks and rewards the multiplier of
  every merchant stays within its bounds, and the recorded spend is the sum of every
  spend ever reported: nothing starts a new day.
\<close>

theorem pacer_bounded:
  "case pc_states (fold (pacer_step jm) ops new_pacer) m of
     None \<Rightarrow> spends m ops = []
   | Some st \<Rightarrow> lit 1 1 \<le> ps_lambda st \<and> ps_lambda st \<le> 1000 \<and>
       ps_spent_today_paise st = sum_list (spends m ops) \<and>
       ps_update_count st = length (spends m ops)"
  using pacer_inv_run [of ops jm]
  by (cases "pc_states (fold (pacer_step jm) ops new_pacer) m") (auto simp: pacer_inv_def dest: spec [of _ m])

end
