(* ===== verification/Market.thy ===== *)
theory Market
  imports Economics Capacity "HOL-Library.Word"
begin

text \<open>
  The allocation market (\<^verbatim>\<open>src/market/allocator.ts\<close>) and the anti-blast engine
  (\<^verbatim>\<open>src/economics/anti_blast_engine.ts\<close>).  The environment of a run (mathematical
  functions, calibrator, Thompson samples, \<^verbatim>\<open>MAX_LINKS_PER_RUN\<close>, the locale's money
  format, generated ids, the clock) is the record \<open>market_env\<close>.  The bookkeeping of
  prevented interventions, which the code starts without waiting for it, is performed
  where it is started; it writes one table that nothing else in the run reads.
\<close>

unbundle bit_operations_syntax

section \<open>Anti-blast engine\<close>

record savings =
  sv_messaging :: int
  sv_provider :: int
  sv_goodwill :: int
  sv_total :: int

definition calculateSavings :: "opportunity \<Rightarrow> string \<Rightarrow> savings" where
  "calculateSavings opp reason =
     (let goodwill = (if o_decline_type opp = Hard then 5000
                      else if 3 \<le> o_attempt_count opp then 1500
                      else if includes_str reason ''timeout'' \<or> includes_str reason ''gateway'' then 1000
                      else 500)
      in \<lparr>sv_messaging = 85, sv_provider = 400, sv_goodwill = goodwill, sv_total = 85 + 400 + goodwill\<rparr>)"

definition recordPreventedIntervention ::
  "string \<Rightarrow> string \<Rightarrow> opportunity \<Rightarrow> string \<Rightarrow> store \<Rightarrow> store" where
  "recordPreventedIntervention new_id now opp reason s =
     (if \<exists>r \<in> set (interventions_prevented s). pv_opportunity_id r = o_id opp then s
      else let sv = calculateSavings opp reason
           in s\<lparr>interventions_prevented := interventions_prevented s @
                [\<lparr>pv_id = new_id, pv_opportunity_id = o_id opp,
                  pv_tenant_id = or_str (o_tenant_id opp) ''tenant_system_default'',
                  pv_reason = reason, pv_messaging = sv_messaging sv, pv_provider = sv_provider sv,
                  pv_goodwill = sv_goodwill sv, pv_total = sv_total sv, pv_timestamp = now\<rparr>]\<rparr>)"

record anti_blast_summary =
  ab_total_prevented :: nat
  ab_messaging_saved :: int
  ab_provider_saved :: int
  ab_goodwill_saved :: int
  ab_total_saved :: int

definition getAntiBlastSummary ::
  "store \<Rightarrow> string option \<Rightarrow> environment option \<Rightarrow> anti_blast_summary" where
  "getAntiBlastSummary s tid env =
     (let rows = filter (\<lambda>p.
            (env = Some Env_live \<longrightarrow>
               (\<exists>o' \<in> set (opportunities s). o_id o' = pv_opportunity_id p \<and> o_environment o' = Env_live)) \<and>
            (truthy_str tid \<longrightarrow> pv_tenant_id p = the tid)) (interventions_prevented s)
      in \<lparr>ab_total_prevented = length rows,
          ab_messaging_saved = sum_list (map pv_messaging rows),
          ab_provider_saved = sum_list (map pv_provider rows),
          ab_goodwill_saved = sum_list (map pv_goodwill rows),
          ab_total_saved = sum_list (map pv_total rows)\<rparr>)"

text \<open>The 32-bit string hash: \<^verbatim>\<open>hash = (hash << 5) - hash + charCodeAt(i); hash |= 0\<close>.\<close>

definition holdout_hash :: "string \<Rightarrow> 32 word" where
  "holdout_hash s = foldl (\<lambda>h c. push_bit 5 h - h + of_nat (of_char c)) 0 s"

definition isSyntheticHoldout :: "string \<Rightarrow> bool" where
  "isSyntheticHoldout oid = (\<bar>sint (holdout_hash oid)\<bar> mod 100 < 5)"

section \<open>The market\<close>

record market_item =
  mi_opportunity_id :: string
  mi_amount_paise :: int
  mi_currency :: string
  mi_reason_code :: string
  mi_decline_type :: decline_type
  mi_attempt_count :: int
  mi_incremental_prob :: rat
  mi_iven :: int
  mi_confidence :: confidence_level
  mi_decision :: decision_type
  mi_rank :: nat
  mi_shadow_price :: int
  mi_reason :: string

record market_result =
  mr_capacity :: int
  mr_total_opportunities :: nat
  mr_eligible_count :: nat
  mr_abstained_count :: nat
  mr_accepted_count :: int
  mr_deferred_count :: int
  mr_shadow_price_paise :: int
  mr_items :: "market_item list"
  mr_lagrangian_multiplier :: rat
  mr_lagrangian_target :: int
  mr_burn_rate :: rat

record market_options =
  op_capacity :: "int option"
  op_opportunities :: "opportunity list option"
  op_tenantId :: "string option"
  op_environment :: "environment option"

record market_env =
  me_math :: js_math
  me_calibrator :: calibrator
  me_sample :: "opportunity \<Rightarrow> bandit_sample option"
  me_max_links :: "int option"
  me_money :: "int \<Rightarrow> string"
  me_prevent_id :: "string \<Rightarrow> string"
  me_clock :: clock

definition resolve_capacity :: "market_env \<Rightarrow> market_options \<Rightarrow> store \<Rightarrow> int" where
  "resolve_capacity me opt s =
     (let row = (if truthy_str (op_tenantId opt) then getTenant s (the (op_tenantId opt)) else None);
          env_cap = (case me_max_links me of None \<Rightarrow> 5 | Some n \<Rightarrow> if n = 0 then 5 else n)
      in case op_capacity opt of
           Some c \<Rightarrow> c
         | None \<Rightarrow> (case row of
                      Some r \<Rightarrow> if tn_capacity_limit r \<noteq> 0 then tn_capacity_limit r else env_cap
                    | None \<Rightarrow> env_cap))"

definition resolve_environment :: "market_options \<Rightarrow> store \<Rightarrow> environment option" where
  "resolve_environment opt s =
     (case op_environment opt of
        Some e \<Rightarrow> Some e
      | None \<Rightarrow> if truthy_str (op_tenantId opt)
                then (case getTenant s (the (op_tenantId opt)) of
                        Some r \<Rightarrow> tn_environment r | None \<Rightarrow> None)
                else None)"

definition candidate_opportunities :: "market_options \<Rightarrow> store \<Rightarrow> opportunity list" where
  "candidate_opportunities opt s =
     filter (\<lambda>o'. o_status o' \<in> {Pending, Scored, Deferred})
       (case op_opportunities opt of
          Some os \<Rightarrow> os
        | None \<Rightarrow> getAllOpportunities s (op_tenantId opt) (resolve_environment opt s))"

type_synonym scored_item = "opportunity \<times> score"

text \<open>Fetch or compute the score of each opportunity, in order; a score that cannot be
  stored ends the run.\<close>

fun score_all :: "market_env \<Rightarrow> opportunity list \<Rightarrow> store \<Rightarrow> scored_item list option \<times> store" where
  "score_all me [] s = (Some [], s)"
| "score_all me (opp # rest) s =
     (case getScoreByOpportunityId s (o_id opp) of
        Some sc \<Rightarrow> (case score_all me rest s of
                      (None, s') \<Rightarrow> (None, s') | (Some xs, s') \<Rightarrow> (Some ((opp, sc) # xs), s'))
      | None \<Rightarrow>
          (case scoreOpportunity (me_math me) (me_calibrator me) (me_sample me opp) opp s of
             None \<Rightarrow> (None, s)
           | Some (sc, s1) \<Rightarrow>
               (case score_all me rest s1 of
                  (None, s') \<Rightarrow> (None, s') | (Some xs, s') \<Rightarrow> (Some ((opp, sc) # xs), s'))))"

fun show_decline :: "decline_type \<Rightarrow> string" where
  "show_decline Hard = ''hard''"
| "show_decline Soft = ''soft''"
| "show_decline Unknown = ''unknown''"

definition abstain_reason :: "scored_item \<Rightarrow> string option" where
  "abstain_reason e =
     (case e of (opp, sc) \<Rightarrow>
        if s_confidence sc = Low
        then Some (''abstained - low confidence score ('' @ show_decline (o_decline_type opp) @
               '', attempt '' @ show_int (o_attempt_count opp) @ '')'')
        else if s_expected_incremental_value_paise sc \<le> 0
        then Some (''abstained - non-positive expected incremental value (Rs.'' @
               show_rupees (s_expected_incremental_value_paise sc) @ '')'')
        else if isSyntheticHoldout (o_id opp)
        then Some ''abstained - counterfactual holdout (5% deterministic control group)''
        else None)"

definition iven :: "scored_item \<Rightarrow> int" where
  "iven e = s_expected_incremental_value_paise (snd e)"

definition eligible_ranked :: "scored_item list \<Rightarrow> scored_item list" where
  "eligible_ranked es = sort_desc iven (filter (\<lambda>e. abstain_reason e = None) es)"

definition shadow_price :: "int \<Rightarrow> scored_item list \<Rightarrow> int" where
  "shadow_price capacity ranked =
     (let accepted = min capacity (int (length ranked));
          binds = capacity \<le> int (length ranked) \<and> 0 < capacity
      in if binds \<and> 0 < accepted then iven (ranked ! nat (accepted - 1)) else 0)"

definition item_of :: "scored_item \<Rightarrow> decision_type \<Rightarrow> nat \<Rightarrow> int \<Rightarrow> string \<Rightarrow> market_item" where
  "item_of e d rank shadow reason =
     (case e of (opp, sc) \<Rightarrow>
        \<lparr>mi_opportunity_id = o_id opp, mi_amount_paise = o_amount_paise opp,
         mi_currency = o_currency opp, mi_reason_code = o_reason_code opp,
         mi_decline_type = o_decline_type opp, mi_attempt_count = o_attempt_count opp,
         mi_incremental_prob = s_incremental_prob sc, mi_iven = iven e,
         mi_confidence = s_confidence sc, mi_decision = d, mi_rank = rank,
         mi_shadow_price = shadow, mi_reason = reason\<rparr>)"

definition ranked_item :: "(int \<Rightarrow> string) \<Rightarrow> int \<Rightarrow> int \<Rightarrow> nat \<times> scored_item \<Rightarrow> market_item" where
  "ranked_item money capacity shadow re =
     (case re of (rank, e) \<Rightarrow>
        if int rank \<le> capacity
        then item_of e ACT rank shadow
               (''accepted - rank #'' @ show_nat rank @ '' within capacity limit of '' @
                show_int capacity @ '' (marginal cutoff: '' @ money shadow @ '')'')
        else item_of e WAIT rank shadow
               (''deferred - below this run's marginal value of '' @ money shadow @ '' (rank #'' @
                show_nat rank @ '' vs cap '' @ show_int capacity @ '')''))"

fun decision_status :: "decision_type \<Rightarrow> opportunity_status" where
  "decision_status ACT = Allocated"
| "decision_status WAIT = Deferred"
| "decision_status ABSTAIN = Abstained"

definition decision_record :: "market_item \<Rightarrow> allocation_decision" where
  "decision_record i =
     \<lparr>ad_opportunity_id = mi_opportunity_id i, ad_decision = mi_decision i,
      ad_rank_in_batch = mi_rank i, ad_shadow_price_paise = mi_shadow_price i, ad_reason = mi_reason i\<rparr>"

text \<open>One turn of the decision loops: status, then decision record.\<close>

definition commit_item :: "market_item \<Rightarrow> store \<Rightarrow> store" where
  "commit_item i s =
     upsertAllocationDecision (decision_record i)
       (updateOpportunityStatus (mi_opportunity_id i) (decision_status (mi_decision i)) s)"

definition abstained_item :: "int \<Rightarrow> scored_item \<Rightarrow> market_item" where
  "abstained_item shadow e = item_of e ABSTAIN 0 shadow (the (abstain_reason e))"

definition commit_abstained :: "market_env \<Rightarrow> int \<Rightarrow> scored_item \<Rightarrow> store \<Rightarrow> store" where
  "commit_abstained me shadow e s =
     recordPreventedIntervention (me_prevent_id me (o_id (fst e))) (ck_iso (me_clock me)) (fst e)
       (the (abstain_reason e)) (commit_item (abstained_item shadow e) s)"

definition market_items :: "(int \<Rightarrow> string) \<Rightarrow> int \<Rightarrow> scored_item list \<Rightarrow> market_item list" where
  "market_items money capacity es =
     (let ranked = eligible_ranked es; shadow = shadow_price capacity ranked
      in map (ranked_item money capacity shadow) (enumerate 1 ranked) @
         map (abstained_item shadow) (filter (\<lambda>e. abstain_reason e \<noteq> None) es))"

definition runMarketAllocation ::
  "market_env \<Rightarrow> market_options \<Rightarrow> store \<times> pacer \<Rightarrow> market_result option \<times> store \<times> pacer" where
  "runMarketAllocation me opt st =
     (let (s, p) = st; capacity = resolve_capacity me opt s;
          allOpps = candidate_opportunities opt s
      in case score_all me allOpps s of
           (None, s1) \<Rightarrow> (None, s1, p)
         | (Some scored, s1) \<Rightarrow>
             let ranked = eligible_ranked scored;
                 abstained = filter (\<lambda>e. abstain_reason e \<noteq> None) scored;
                 shadow = shadow_price capacity ranked;
                 s2 = fold commit_item
                        (map (ranked_item (me_money me) capacity shadow) (enumerate 1 ranked)) s1;
                 s3 = fold (commit_abstained me shadow) abstained s2;
                 (pst, p1) = getPacingState (me_math me) (me_clock me)
                               (or_opt (op_tenantId opt) ''merchant_default'') 200000 p
             in (Some \<lparr>mr_capacity = capacity, mr_total_opportunities = length allOpps,
                       mr_eligible_count = length ranked, mr_abstained_count = length abstained,
                       mr_accepted_count = min capacity (int (length ranked)),
                       mr_deferred_count = max 0 (int (length ranked) - capacity),
                       mr_shadow_price_paise = shadow,
                       mr_items = market_items (me_money me) capacity scored,
                       mr_lagrangian_multiplier = ps_lambda pst,
                       mr_lagrangian_target = math_round (fmul (ps_lambda pst) 400),
                       mr_burn_rate = toFixed 4 (fdiv (of_int (ps_spent_today_paise pst))
                          (if ps_daily_budget_paise pst = 0 then 1 else of_int (ps_daily_budget_paise pst)))\<rparr>,
                 s3, p1))"

section \<open>Ranking\<close>

lemma topk_optimal:
  assumes "sorted_wrt (\<lambda>a b. f b \<le> f a) xs" and "mset ys \<subseteq># mset xs" and "length ys \<le> k"
    and "\<forall>x \<in> set xs. 0 \<le> f x"
  shows "sum_list (map f ys) \<le> (sum_list (map f (take k xs)) :: int)"
  using assms
proof (induction xs arbitrary: ys k)
  case Nil
  then show ?case by simp
next
  case (Cons x xs)
  show ?case
  proof (cases "ys = [] \<or> k = 0")
    case True
    have "0 \<le> sum_list (map f (take k (x # xs)))"
      using Cons.prems(4) by (intro sum_list_nonneg) (fastforce dest: in_set_takeD)
    with True Cons.prems(3) show ?thesis by auto
  next
    case False
    then obtain k' where k: "k = Suc k'" by (cases k) auto
    define y where "y = (if x \<in> set ys then x else hd ys)"
    have y: "y \<in> set ys" using False by (simp add: y_def)
    then have "y \<in># mset (x # xs)" using Cons.prems(2) by (metis mset_subset_eqD set_mset_mset)
    then have le: "f y \<le> f x" using Cons.prems(1) by auto
    have split: "mset ys = add_mset y (mset (remove1 y ys))" using y by simp
    have sub: "mset (remove1 y ys) \<subseteq># mset xs"
    proof (cases "x \<in> set ys")
      case True
      then have "y = x" by (simp add: y_def)
      with Cons.prems(2) split have "add_mset x (mset (remove1 y ys)) \<subseteq># add_mset x (mset xs)"
        by (metis mset.simps(2))
      then show ?thesis by (simp only: mset_subset_eq_add_mset_cancel)
    next
      case notin: False
      then have "mset ys \<subseteq># mset xs"
        using Cons.prems(2) subset_eq_diff_conv [of "mset ys" "{#x#}" "mset xs"]
        by (simp add: diff_single_trivial)
      moreover have "mset (remove1 y ys) \<subseteq># mset ys" by simp
      ultimately show ?thesis using subset_mset.order_trans by blast
    qed
    have "sum_list (map f (remove1 y ys)) \<le> sum_list (map f (take k' xs))"
      using Cons.prems sub k y by (intro Cons.IH) (auto simp: length_remove1)
    moreover have "sum_list (map f ys) = f y + sum_list (map f (remove1 y ys))"
      using y by (simp add: sum_list_map_remove1)
    ultimately show ?thesis using le k by simp
  qed
qed

lemma filter_rank:
  "filter (\<lambda>p. int (fst p) \<le> c) (enumerate n xs) = take (nat (c + 1 - int n)) (enumerate n xs)"
proof (induction xs arbitrary: n)
  case (Cons x xs)
  show ?case
  proof (cases "int n \<le> c")
    case True
    then have "nat (c + 1 - int n) = Suc (nat (c + 1 - int (Suc n)))" by simp
    with True Cons [of "Suc n"] show ?thesis by simp
  next
    case False
    then have "filter (\<lambda>p. int (fst p) \<le> c) (enumerate (Suc n) xs) = []"
      by (simp only: Cons) simp
    with False show ?thesis by simp
  qed
qed simp

lemma item_of_simps [simp]:
  "mi_decision (item_of e d r sh t) = d" "mi_iven (item_of e d r sh t) = iven e"
  "mi_opportunity_id (item_of e d r sh t) = o_id (fst e)" "mi_rank (item_of e d r sh t) = r"
  "mi_confidence (item_of e d r sh t) = s_confidence (snd e)"
  "mi_shadow_price (item_of e d r sh t) = sh"
  by (simp_all add: item_of_def split: prod.split)

lemma ranked_item_simps [simp]:
  "mi_iven (ranked_item m c sh re) = iven (snd re)"
  "mi_opportunity_id (ranked_item m c sh re) = o_id (fst (snd re))"
  "mi_confidence (ranked_item m c sh re) = s_confidence (snd (snd re))"
  "mi_decision (ranked_item m c sh re) = (if int (fst re) \<le> c then ACT else WAIT)"
  by (auto simp: ranked_item_def split: prod.split)

lemma abstained_item_simps [simp]:
  "mi_decision (abstained_item sh e) = ABSTAIN" "mi_opportunity_id (abstained_item sh e) = o_id (fst e)"
  by (simp_all add: abstained_item_def)

abbreviation decided :: "decision_type \<Rightarrow> market_item list \<Rightarrow> market_item list" where
  "decided d is \<equiv> filter (\<lambda>i. mi_decision i = d) is"

lemma decided_ACT:
  "decided ACT (market_items m c es) =
     map (ranked_item m c (shadow_price c (eligible_ranked es)))
       (take (nat c) (enumerate 1 (eligible_ranked es)))"
proof -
  let ?f = "ranked_item m c (shadow_price c (eligible_ranked es))"
  have "filter (\<lambda>p. mi_decision (?f p) = ACT) (enumerate 1 (eligible_ranked es)) =
        filter (\<lambda>p. int (fst p) \<le> c) (enumerate 1 (eligible_ranked es))"
    by (intro filter_cong) auto
  then show ?thesis
    by (simp add: market_items_def Let_def filter_map o_def filter_rank)
qed

lemma decided_not_ABSTAIN:
  "filter (\<lambda>i. mi_decision i \<noteq> ABSTAIN) (market_items m c es) =
     map (ranked_item m c (shadow_price c (eligible_ranked es))) (enumerate 1 (eligible_ranked es))"
  by (simp add: market_items_def Let_def filter_map o_def filter_True)

lemma eligible_sound:
  "e \<in> set (eligible_ranked es) \<Longrightarrow>
     e \<in> set es \<and> 0 < iven e \<and> s_confidence (snd e) \<noteq> Low \<and> \<not> isSyntheticHoldout (o_id (fst e))"
  by (auto simp: eligible_ranked_def abstain_reason_def iven_def split: prod.splits if_splits)

lemma ranked_sorted: "sorted_wrt (\<lambda>a b. iven b \<le> iven a) (eligible_ranked es)"
  by (simp add: eligible_ranked_def sorted_sort_desc)

lemma map_snd_enum: "map (\<lambda>x. f (snd x)) (enumerate n xs) = map f xs"
  by (metis (no_types, lifting) comp_def map_eq_conv map_map map_snd_enumerate)

lemma ranked_items_optimal:
  assumes "mset alt \<subseteq># mset (filter (\<lambda>i. mi_decision i \<noteq> ABSTAIN) (market_items m c es))"
    and "int (length alt) \<le> max 0 c"
  shows "sum_list (map mi_iven alt) \<le> sum_list (map mi_iven (decided ACT (market_items m c es)))"
proof -
  let ?all = "filter (\<lambda>i. mi_decision i \<noteq> ABSTAIN) (market_items m c es)"
  have iv: "map mi_iven ?all = map iven (eligible_ranked es)"
    unfolding decided_not_ABSTAIN by (simp add: o_def map_snd_enum)
  have srt: "sorted_wrt (\<lambda>a b. mi_iven b \<le> mi_iven a) ?all"
    using ranked_sorted [of es] iv sorted_wrt_map [of "\<lambda>a b. b \<le> a" mi_iven ?all]
      sorted_wrt_map [of "\<lambda>a b. b \<le> a" iven "eligible_ranked es"] by simp
  have pos: "\<forall>i \<in> set ?all. 0 \<le> mi_iven i"
  proof
    fix i
    assume "i \<in> set ?all"
    then have "mi_iven i \<in> set (map mi_iven ?all)" by simp
    then obtain e where "e \<in> set (eligible_ranked es)" "mi_iven i = iven e" unfolding iv by auto
    then show "0 \<le> mi_iven i" using eligible_sound [of e es] by simp
  qed
  have "sum_list (map mi_iven alt) \<le> sum_list (map mi_iven (take (nat c) ?all))"
    using assms srt pos by (intro topk_optimal) auto
  moreover have "take (nat c) ?all = decided ACT (market_items m c es)"
    unfolding decided_not_ABSTAIN decided_ACT by (simp add: take_map)
  ultimately show ?thesis by simp
qed

section \<open>Shadow price\<close>

lemma shadow_price_binds:
  assumes "0 < c" and "c \<le> int (length xs)"
  shows "shadow_price c xs = iven (xs ! (nat c - 1))"
  using assms by (simp add: shadow_price_def Let_def min_def nat_diff_distrib)

lemma sorted_wrt_split:
  assumes "sorted_wrt (\<lambda>a b. iven b \<le> iven a) xs" and "k < length xs"
  shows "x \<in> set (take (Suc k) xs) \<Longrightarrow> iven (xs ! k) \<le> iven x"
    and "x \<in> set (drop (Suc k) xs) \<Longrightarrow> iven x \<le> iven (xs ! k)"
proof -
  note nth = sorted_wrt_nth_less [OF assms(1)]
  show "iven (xs ! k) \<le> iven x" if "x \<in> set (take (Suc k) xs)"
  proof -
    from that obtain j where "j < Suc k" "x = xs ! j" by (auto simp: in_set_conv_nth)
    then show ?thesis using nth [of j k] assms(2) by (cases "j = k") auto
  qed
  show "iven x \<le> iven (xs ! k)" if "x \<in> set (drop (Suc k) xs)"
  proof -
    from that obtain j where "j < length xs - Suc k" "x = xs ! (Suc k + j)"
      by (auto simp: in_set_conv_nth)
    then show ?thesis using nth [of k "Suc k + j"] by simp
  qed
qed

lemma enumerate_mem: "(r, e) \<in> set (enumerate 1 xs) \<Longrightarrow> 1 \<le> r \<and> r - 1 < length xs \<and> xs ! (r - 1) = e"
  unfolding in_set_enumerate_eq by auto

lemma take_enumerate_mem:
  assumes "(r, e) \<in> set (enumerate 1 xs)" and "r \<le> k"
  shows "e \<in> set (take k xs)"
proof -
  note m = enumerate_mem [OF assms(1)]
  have "take k xs ! (r - 1) = e" and "r - 1 < length (take k xs)" using m assms(2) by auto
  then show ?thesis by (metis nth_mem)
qed

lemma drop_enumerate_mem:
  assumes "(r, e) \<in> set (enumerate 1 xs)" and "k < r"
  shows "e \<in> set (drop k xs)"
proof -
  note m = enumerate_mem [OF assms(1)]
  have "drop k xs ! (r - 1 - k) = e" and "r - 1 - k < length (drop k xs)" using m assms(2) by auto
  then show ?thesis by (metis nth_mem)
qed

lemma shadow_price_separates:
  assumes "0 < c" and "c \<le> int (length (eligible_ranked es))" and "i \<in> set (market_items m c es)"
  shows "mi_decision i = ACT \<Longrightarrow> shadow_price c (eligible_ranked es) \<le> mi_iven i"
    and "mi_decision i = WAIT \<Longrightarrow> mi_iven i \<le> shadow_price c (eligible_ranked es)"
proof -
  let ?xs = "eligible_ranked es"
  have k: "nat c - 1 < length ?xs" "Suc (nat c - 1) = nat c" using assms(1,2) by auto
  note sep = sorted_wrt_split [OF ranked_sorted k(1), unfolded k(2)]
  note sh = shadow_price_binds [OF assms(1,2)]
  from assms(3) consider (r) r e where "(r, e) \<in> set (enumerate 1 ?xs)"
      "i = ranked_item m c (shadow_price c ?xs) (r, e)" | (a) "mi_decision i = ABSTAIN"
    by (auto simp: market_items_def Let_def)
  note cases = this
  show "mi_decision i = ACT \<Longrightarrow> shadow_price c ?xs \<le> mi_iven i"
    using cases sep(1) take_enumerate_mem [of _ _ ?xs "nat c"] assms(1)
    by cases (fastforce simp: sh split: if_splits)+
  show "mi_decision i = WAIT \<Longrightarrow> mi_iven i \<le> shadow_price c ?xs"
    using cases sep(2) drop_enumerate_mem [of _ _ ?xs "nat c"] assms(1)
    by cases (fastforce simp: sh split: if_splits)+
qed

section \<open>What the run stores\<close>

definition core ::
  "store \<Rightarrow> opportunity list \<times> tenant_row list \<times> score list \<times> allocation_decision list \<times> execution_record list" where
  "core s = (opportunities s, tenants s, scores s, allocation_decisions s, execution_records s)"

lemma core_reads:
  assumes "core s = core t"
  shows "getOpportunityById s = getOpportunityById t"
    "getAllocationDecisionByOpportunityId s = getAllocationDecisionByOpportunityId t"
    "store_ok s = store_ok t"
  using assms
  by (auto simp: core_def getOpportunityById_def getAllocationDecisionByOpportunityId_def store_ok_def)

lemma core_commit_item: "core s = core t \<Longrightarrow> core (commit_item i s) = core (commit_item i t)"
  by (simp add: core_def commit_item_def upsertAllocationDecision_def updateOpportunityStatus_def)

lemma core_recordPrevented: "core (recordPreventedIntervention n now opp r s) = core s"
  by (simp add: recordPreventedIntervention_def core_def Let_def)

lemma core_fold_commit: "core s = core t \<Longrightarrow> core (fold commit_item is s) = core (fold commit_item is t)"
proof (induction "is" arbitrary: s t)
  case (Cons i rest)
  from Cons.IH [OF core_commit_item [OF Cons.prems, of i]] show ?case by simp
qed simp

lemma core_fold_abstained:
  "core (fold (commit_abstained me sh) es s) = core (fold commit_item (map (abstained_item sh) es) s)"
proof (induction es arbitrary: s)
  case (Cons e es)
  have "core (commit_abstained me sh e s) = core (commit_item (abstained_item sh e) s)"
    by (simp add: commit_abstained_def core_recordPrevented)
  from core_fold_commit [OF this] Cons show ?case by simp
qed simp

lemma commit_item_reads:
  "getAllocationDecisionByOpportunityId (commit_item i s) k =
     (if k = mi_opportunity_id i then Some (decision_record i)
      else getAllocationDecisionByOpportunityId s k)"
  "getOpportunityById (commit_item i s) k =
     (if k = mi_opportunity_id i
      then map_option (\<lambda>o'. o'\<lparr>o_status := next_status (o_status o') (decision_status (mi_decision i))\<rparr>)
             (getOpportunityById s k)
      else getOpportunityById s k)"
proof -
  let ?s = "updateOpportunityStatus (mi_opportunity_id i) (decision_status (mi_decision i)) s"
  have "getAllocationDecisionByOpportunityId ?s = getAllocationDecisionByOpportunityId s"
    by (intro ext) (simp add: getAllocationDecisionByOpportunityId_def)
  with alloc_repo.get_put [of "decision_record i" ?s k]
  show "getAllocationDecisionByOpportunityId (commit_item i s) k =
     (if k = mi_opportunity_id i then Some (decision_record i)
      else getAllocationDecisionByOpportunityId s k)"
    by (simp add: commit_item_def replace_merge_def decision_record_def)
  have "getOpportunityById (commit_item i s) k = getOpportunityById ?s k"
    by (simp add: commit_item_def getOpportunityById_def)
  then show "getOpportunityById (commit_item i s) k =
     (if k = mi_opportunity_id i
      then map_option (\<lambda>o'. o'\<lparr>o_status := next_status (o_status o') (decision_status (mi_decision i))\<rparr>)
             (getOpportunityById s k)
      else getOpportunityById s k)"
    by (simp add: getOpportunityById_updateStatus)
qed

lemma fold_commit_other:
  "k \<notin> mi_opportunity_id ` set is \<Longrightarrow>
     getAllocationDecisionByOpportunityId (fold commit_item is s) k = getAllocationDecisionByOpportunityId s k \<and>
     getOpportunityById (fold commit_item is s) k = getOpportunityById s k"
  by (induction "is" arbitrary: s) (auto simp: commit_item_reads)

lemma fold_commit_same:
  "distinct (map mi_opportunity_id is) \<Longrightarrow> i \<in> set is \<Longrightarrow>
     getAllocationDecisionByOpportunityId (fold commit_item is s) (mi_opportunity_id i) = Some (decision_record i) \<and>
     getOpportunityById (fold commit_item is s) (mi_opportunity_id i) =
       map_option (\<lambda>o'. o'\<lparr>o_status := next_status (o_status o') (decision_status (mi_decision i))\<rparr>)
         (getOpportunityById s (mi_opportunity_id i))"
proof (induction "is" arbitrary: s)
  case (Cons x xs)
  show ?case
  proof (cases "i = x")
    case True
    with Cons.prems(1) have "mi_opportunity_id i \<notin> mi_opportunity_id ` set xs" by auto
    with True show ?thesis by (simp add: fold_commit_other commit_item_reads)
  next
    case False
    with Cons.prems have "i \<in> set xs" "mi_opportunity_id i \<noteq> mi_opportunity_id x"
      by (auto simp: image_iff)
    with Cons show ?thesis by (simp add: commit_item_reads)
  qed
qed simp

lemma store_ok_commit:
  assumes "store_ok s" and "mi_opportunity_id i \<in> o_id ` set (opportunities s)"
  shows "store_ok (commit_item i s)"
  unfolding commit_item_def using assms
  by (intro store_ok_upsertAllocationDecision store_ok_updateStatus) (simp_all add: decision_record_def)

lemma commit_item_ids: "o_id ` set (opportunities (commit_item i s)) = o_id ` set (opportunities s)"
  by (simp add: commit_item_def)

lemma store_ok_fold_commit:
  "store_ok s \<Longrightarrow> mi_opportunity_id ` set is \<subseteq> o_id ` set (opportunities s) \<Longrightarrow>
   store_ok (fold commit_item is s)"
  by (induction "is" arbitrary: s) (auto simp: store_ok_commit commit_item_ids)

lemma scoreOpportunity_effect:
  assumes "scoreOpportunity jm cb sm opp s = Some (sc, s')"
  shows "getOpportunityById s' k = (if k = o_id opp \<and> o_status opp = Pending
           then map_option (\<lambda>o'. o'\<lparr>o_status := next_status (o_status o') Scored\<rparr>) (getOpportunityById s k)
           else getOpportunityById s k)"
    "o_id ` set (opportunities s') = o_id ` set (opportunities s)"
    "allocation_decisions s' = allocation_decisions s"
    "store_ok s \<Longrightarrow> o_id opp \<in> o_id ` set (opportunities s) \<Longrightarrow> store_ok s'"
proof -
  from assms have sc: "calculateScore jm cb sm opp = Some sc"
    and s': "s' = (if o_status opp = Pending then updateOpportunityStatus (o_id opp) Scored (upsertScore sc s)
                   else upsertScore sc s)"
    by (auto simp: scoreOpportunity_def Let_def split: option.splits)
  have eq: "getOpportunityById (upsertScore sc s) = getOpportunityById s"
    by (intro ext) (simp add: getOpportunityById_def)
  show "getOpportunityById s' k = (if k = o_id opp \<and> o_status opp = Pending
           then map_option (\<lambda>o'. o'\<lparr>o_status := next_status (o_status o') Scored\<rparr>) (getOpportunityById s k)
           else getOpportunityById s k)"
    and "o_id ` set (opportunities s') = o_id ` set (opportunities s)"
    and "allocation_decisions s' = allocation_decisions s"
    by (simp_all add: s' getOpportunityById_updateStatus eq)
  show "store_ok s'" if "store_ok s" "o_id opp \<in> o_id ` set (opportunities s)"
    using that calculateScore_shape(4) [OF sc] unfolding s'
    by (simp add: store_ok_updateStatus store_ok_upsertScore)
qed

text \<open>Scoring a batch keeps everything but the score table and pending statuses.\<close>

definition open_status :: "opportunity_status \<Rightarrow> bool" where
  "open_status st \<longleftrightarrow> st \<in> {Pending, Scored, Deferred}"

lemma open_status_decided: "open_status st \<Longrightarrow> next_status st (decision_status d) = decision_status d"
  by (cases d) (auto simp: open_status_def next_status_def)

lemma open_status_scored: "open_status st \<Longrightarrow> open_status (next_status st Scored)"
  by (auto simp: open_status_def next_status_def)

lemma score_all_items: "score_all me opps s = (Some es, s') \<Longrightarrow> map fst es = opps"
  by (induction me opps s arbitrary: es s' rule: score_all.induct)
     (auto split: option.splits prod.splits)

definition scoring_rel :: "string set \<Rightarrow> store \<Rightarrow> store \<Rightarrow> bool" where
  "scoring_rel K s s' \<longleftrightarrow>
     o_id ` set (opportunities s') = o_id ` set (opportunities s) \<and>
     allocation_decisions s' = allocation_decisions s \<and>
     (store_ok s \<longrightarrow> store_ok s') \<and>
     (\<forall>k. k \<notin> K \<longrightarrow> getOpportunityById s' k = getOpportunityById s k) \<and>
     (\<forall>k x. getOpportunityById s k = Some x \<and> open_status (o_status x) \<longrightarrow>
        (\<exists>y. getOpportunityById s' k = Some y \<and> open_status (o_status y)))"

lemma scoring_rel_refl: "scoring_rel K s s"
  by (simp add: scoring_rel_def)

lemma scoring_rel_trans: "scoring_rel J s t \<Longrightarrow> scoring_rel K t u \<Longrightarrow> scoring_rel (J \<union> K) s u"
  unfolding scoring_rel_def by (intro conjI) (metis Un_iff)+

lemma scoring_rel_mono: "scoring_rel J s t \<Longrightarrow> J \<subseteq> K \<Longrightarrow> scoring_rel K s t"
  unfolding scoring_rel_def by (metis subsetD)

lemma scoring_rel_score:
  assumes "scoreOpportunity jm cb sm opp s = Some (sc, s')" and "o_id opp \<in> o_id ` set (opportunities s)"
  shows "scoring_rel {o_id opp} s s'"
  using scoreOpportunity_effect [OF assms(1)] assms(2) open_status_scored
  by (auto simp: scoring_rel_def)

lemma score_all_rel:
  assumes "score_all me opps s = (res, s')" and "o_id ` set opps \<subseteq> o_id ` set (opportunities s)"
  shows "scoring_rel (o_id ` set opps) s s'"
  using assms
proof (induction me opps s arbitrary: res s' rule: score_all.induct)
  case (1 me s)
  then show ?case by (simp add: scoring_rel_refl)
next
  case (2 me opp rest s)
  have mem: "o_id opp \<in> o_id ` set (opportunities s)" using "2.prems"(2) by simp
  show ?case
  proof (cases "getScoreByOpportunityId s (o_id opp)")
    case (Some sc)
    obtain r t where rt: "score_all me rest s = (r, t)" by fastforce
    then have "t = s'" using "2.prems"(1) Some by (auto split: option.splits)
    with "2.IH"(2) [OF Some rt] "2.prems"(2) show ?thesis
      by (auto intro: scoring_rel_mono)
  next
    case None
    show ?thesis
    proof (cases "scoreOpportunity (me_math me) (me_calibrator me) (me_sample me opp) opp s")
      case none: None
      then show ?thesis using "2.prems"(1) None by (simp add: scoring_rel_refl)
    next
      case (Some p)
      obtain sc s1 where p: "p = (sc, s1)" by (cases p)
      have r1: "scoring_rel {o_id opp} s s1"
        using scoring_rel_score [OF Some [unfolded p] mem] .
      obtain r t where rt: "score_all me rest s1 = (r, t)" by fastforce
      then have t: "t = s'" using "2.prems"(1) None Some p by (auto split: option.splits)
      have "o_id ` set rest \<subseteq> o_id ` set (opportunities s1)"
        using r1 "2.prems"(2) by (simp add: scoring_rel_def)
      with "2.IH"(1) [OF None Some p [symmetric] rt] t have "scoring_rel (o_id ` set rest) s1 s'" by simp
      from scoring_rel_trans [OF r1 this] show ?thesis by simp
    qed
  qed
qed

text \<open>The whole run: the items of the result, committed in order to the scored store.\<close>

lemma run_shape:
  assumes "runMarketAllocation me opt (s, p) = (Some r, s', p')"
  obtains es s1 where
    "score_all me (candidate_opportunities opt s) s = (Some es, s1)"
    "map fst es = candidate_opportunities opt s"
    "mr_capacity r = resolve_capacity me opt s"
    "mr_items r = market_items (me_money me) (mr_capacity r) es"
    "mr_shadow_price_paise r = shadow_price (mr_capacity r) (eligible_ranked es)"
    "mr_eligible_count r = length (eligible_ranked es)"
    "mr_accepted_count r = min (mr_capacity r) (int (length (eligible_ranked es)))"
    "core s' = core (fold commit_item (mr_items r) s1)"
proof -
  obtain es s1 where sa: "score_all me (candidate_opportunities opt s) s = (Some es, s1)"
    using assms
    by (cases "score_all me (candidate_opportunities opt s) s"; cases "fst (score_all me (candidate_opportunities opt s) s)")
       (auto simp: runMarketAllocation_def Let_def)
  show ?thesis
    using assms sa score_all_items [OF sa] core_fold_abstained
    by (intro that [OF sa])
       (auto simp: runMarketAllocation_def Let_def market_items_def case_prod_unfold)
qed

lemma market_items_ids:
  "image_mset mi_opportunity_id (mset (market_items m c es)) = image_mset (o_id \<circ> fst) (mset es)"
proof -
  have "image_mset mi_opportunity_id (mset (market_items m c es)) =
      mset (map (\<lambda>x. o_id (fst (snd x))) (enumerate 1 (eligible_ranked es))) +
      mset (map (o_id \<circ> fst) (filter (\<lambda>e. abstain_reason e \<noteq> None) es))"
    by (simp add: market_items_def Let_def o_def image_mset.compositionality)
  also have "mset (map (\<lambda>x. o_id (fst (snd x))) (enumerate 1 (eligible_ranked es))) =
      image_mset (o_id \<circ> fst) (mset (filter (\<lambda>e. abstain_reason e = None) es))"
    using map_snd_enum [of "o_id \<circ> fst" 1 "eligible_ranked es"]
    by (simp add: o_def eligible_ranked_def)
  finally have "image_mset mi_opportunity_id (mset (market_items m c es)) =
      image_mset (o_id \<circ> fst) (filter_mset (\<lambda>e. abstain_reason e = None) (mset es) +
        filter_mset (\<lambda>e. \<not> abstain_reason e = None) (mset es))"
    by (simp only: mset_map mset_filter image_mset_union)
  then show ?thesis by (simp only: multiset_partition [symmetric])
qed

section \<open>The hash\<close>

text \<open>The polynomial the code means to compute, on unbounded integers.\<close>

fun poly_hash :: "int \<Rightarrow> string \<Rightarrow> int" where
  "poly_hash h [] = h"
| "poly_hash h (c # cs) = poly_hash (31 * h + of_char c) cs"

lemma push5: "push_bit 5 h - h = 31 * (h :: 32 word)"
  by (simp add: push_bit_eq_mult algebra_simps)

lemma holdout_hash_poly: "foldl (\<lambda>h c. push_bit 5 h - h + of_nat (of_char c)) (of_int h) s =
    (of_int (poly_hash h s) :: 32 word)"
proof (induction s arbitrary: h)
  case (Cons c s)
  have "(31 :: 32 word) * of_int h + of_nat (of_char c) = of_int (31 * h + of_char c)"
    by (simp only: of_int_add of_int_mult of_nat_of_char of_int_of_char of_int_numeral)
  then show ?case using Cons [of "31 * h + of_char c"] by (simp add: push5)
qed simp

section \<open>What a run guarantees\<close>

lemma run_feasible:
  assumes "runMarketAllocation me opt (s, p) = (Some r, s', p')"
  shows "int (length (decided ACT (mr_items r))) = max 0 (mr_accepted_count r) \<and>
     mr_accepted_count r \<le> mr_capacity r \<and>
     (\<forall>i \<in> set (decided ACT (mr_items r)).
        0 < mi_iven i \<and> mi_confidence i \<noteq> Low \<and> \<not> isSyntheticHoldout (mi_opportunity_id i)) \<and>
     image_mset mi_opportunity_id (mset (mr_items r)) =
       image_mset o_id (mset (candidate_opportunities opt s))"
proof -
  from assms obtain es s1 where sh:
    "map fst es = candidate_opportunities opt s"
    "mr_items r = market_items (me_money me) (mr_capacity r) es"
    "mr_accepted_count r = min (mr_capacity r) (int (length (eligible_ranked es)))"
    by (rule run_shape)
  let ?xs = "eligible_ranked es" and ?c = "mr_capacity r"
  have len: "int (length (decided ACT (mr_items r))) = max 0 (mr_accepted_count r)"
    unfolding sh(2) decided_ACT sh(3) by auto
  have safe: "0 < mi_iven i \<and> mi_confidence i \<noteq> Low \<and> \<not> isSyntheticHoldout (mi_opportunity_id i)"
    if i: "i \<in> set (decided ACT (mr_items r))" for i
  proof -
    from i obtain rk e where "(rk, e) \<in> set (enumerate 1 ?xs)"
      "i = ranked_item (me_money me) ?c (shadow_price ?c ?xs) (rk, e)"
      unfolding sh(2) decided_ACT by (auto dest: in_set_takeD)
    then show ?thesis
      using enumerate_mem [of rk e ?xs] eligible_sound [of e es] by (auto simp: nth_mem)
  qed
  have "image_mset mi_opportunity_id (mset (mr_items r)) = image_mset o_id (mset (map fst es))"
    unfolding sh(2) market_items_ids by (simp add: image_mset.compositionality)
  with len safe sh(1,3) show ?thesis by simp
qed

lemma run_effect:
  assumes "store_ok s" and "op_opportunities opt = None"
    and "runMarketAllocation me opt (s, p) = (Some r, s', p')"
  shows "store_ok s' \<and>
     (\<forall>i \<in> set (mr_items r).
        getAllocationDecisionByOpportunityId s' (mi_opportunity_id i) = Some (decision_record i) \<and>
        map_option o_status (getOpportunityById s' (mi_opportunity_id i)) =
          Some (decision_status (mi_decision i))) \<and>
     (\<forall>k. k \<notin> mi_opportunity_id ` set (mr_items r) \<longrightarrow>
        getOpportunityById s' k = getOpportunityById s k \<and>
        getAllocationDecisionByOpportunityId s' k = getAllocationDecisionByOpportunityId s k)"
proof -
  let ?C = "candidate_opportunities opt s"
  from assms(3) obtain es s1 where sh:
    "score_all me ?C s = (Some es, s1)" "map fst es = ?C"
    "mr_items r = market_items (me_money me) (mr_capacity r) es"
    "core s' = core (fold commit_item (mr_items r) s1)"
    by (rule run_shape)
  have C: "o' \<in> set (opportunities s) \<and> open_status (o_status o')" if "o' \<in> set ?C" for o'
    using that assms(2) by (auto simp: candidate_opportunities_def open_status_def dest: getAllOpportunities_mem)
  have "distinct (map o_id (filter P (opportunities s)))" for P
    using assms(1) distinct_map_filter by (auto simp: store_ok_def)
  then have "distinct (map o_id ?C)"
    using assms(2) by (simp add: candidate_opportunities_def getAllOpportunities_def distinct_map_filter distinct_sort_desc)
  moreover have ids: "mset (map mi_opportunity_id (mr_items r)) = mset (map o_id ?C)"
    using market_items_ids [of "me_money me" "mr_capacity r" es] sh(2,3)
    by (simp add: image_mset.compositionality flip: sh(2))
  ultimately have d: "distinct (map mi_opportunity_id (mr_items r))"
    by (metis mset_eq_imp_distinct_iff)
  have idset: "mi_opportunity_id ` set (mr_items r) = o_id ` set ?C"
    using arg_cong [OF ids, of set_mset] by simp
  have sub: "o_id ` set ?C \<subseteq> o_id ` set (opportunities s)" using C by auto
  have rel: "scoring_rel (o_id ` set ?C) s s1" by (rule score_all_rel [OF sh(1) sub])
  have ok: "store_ok s'"
    using core_reads(3) [OF sh(4)] store_ok_fold_commit [of s1 "mr_items r"] rel assms(1) sub idset
    by (simp add: scoring_rel_def)
  have item: "getAllocationDecisionByOpportunityId s' (mi_opportunity_id i) = Some (decision_record i) \<and>
        map_option o_status (getOpportunityById s' (mi_opportunity_id i)) = Some (decision_status (mi_decision i))"
    if i: "i \<in> set (mr_items r)" for i
  proof -
    from i idset obtain o' where o': "o' \<in> set ?C" "o_id o' = mi_opportunity_id i"
      by (metis imageE imageI)
    have "getOpportunityById s (o_id o') = Some o'"
      using C [OF o'(1)] assms(1) by (simp add: getOpportunityById_def row_get_mem store_ok_def)
    then obtain y where "getOpportunityById s1 (mi_opportunity_id i) = Some y" "open_status (o_status y)"
      using rel C [OF o'(1)] o'(2) unfolding scoring_rel_def by metis
    with fold_commit_same [OF d i, of s1] show ?thesis
      by (simp add: core_reads [OF sh(4)] open_status_decided)
  qed
  have other: "getOpportunityById s' k = getOpportunityById s k \<and>
        getAllocationDecisionByOpportunityId s' k = getAllocationDecisionByOpportunityId s k"
    if "k \<notin> mi_opportunity_id ` set (mr_items r)" for k
    using fold_commit_other [OF that, of s1] rel that idset
    by (simp add: core_reads [OF sh(4)] scoring_rel_def getAllocationDecisionByOpportunityId_def)
  show ?thesis using ok item other by blast
qed

text \<open>Rows keep everything but their status, and the tenants are not touched.\<close>

definition strip :: "opportunity \<Rightarrow> opportunity" where
  "strip o' = o'\<lparr>o_status := Pending\<rparr>"

definition same_rows :: "store \<Rightarrow> store \<Rightarrow> bool" where
  "same_rows s s' \<longleftrightarrow>
     map strip (opportunities s') = map strip (opportunities s) \<and> tenants s' = tenants s"

lemma same_rows_refl [simp]: "same_rows s s"
  by (simp add: same_rows_def)

lemma same_rows_trans: "same_rows s t \<Longrightarrow> same_rows t u \<Longrightarrow> same_rows s u"
  by (simp add: same_rows_def)

lemma same_rows_updateStatus: "same_rows s (updateOpportunityStatus oid st s)"
  by (simp add: same_rows_def updateOpportunityStatus_def row_update_def strip_def)

lemma same_rows_opps: "opportunities s = opportunities t \<Longrightarrow> tenants s = tenants t \<Longrightarrow> same_rows s t"
  by (simp add: same_rows_def)

lemma same_rows_score: "scoreOpportunity jm cb sm opp s = Some (sc, s') \<Longrightarrow> same_rows s s'"
  using same_rows_updateStatus [of "upsertScore sc s"] same_rows_opps [of s "upsertScore sc s"]
  by (auto simp: scoreOpportunity_def Let_def split: option.splits if_splits intro: same_rows_trans)

lemma same_rows_commit: "same_rows s (commit_item i s)"
  unfolding commit_item_def
  by (rule same_rows_trans [OF same_rows_updateStatus same_rows_opps]) simp_all

lemma same_rows_fold_commit: "same_rows s (fold commit_item is s)"
proof (induction "is" arbitrary: s)
  case (Cons i rest)
  from same_rows_trans [OF same_rows_commit [of s i] Cons.IH] show ?case by simp
qed simp

lemma same_rows_score_all: "score_all me opps s = (res, s') \<Longrightarrow> same_rows s s'"
proof (induction me opps s arbitrary: res s' rule: score_all.induct)
  case (2 me opp rest s)
  show ?case
  proof (cases "getScoreByOpportunityId s (o_id opp)")
    case (Some sc)
    obtain r t where rt: "score_all me rest s = (r, t)" by fastforce
    then have "t = s'" using "2.prems" Some by (auto split: option.splits)
    with "2.IH"(2) [OF Some rt] show ?thesis by simp
  next
    case None
    show ?thesis
    proof (cases "scoreOpportunity (me_math me) (me_calibrator me) (me_sample me opp) opp s")
      case none: None
      then show ?thesis using "2.prems" None by simp
    next
      case (Some p)
      obtain sc s1 where p: "p = (sc, s1)" by (cases p)
      obtain r t where rt: "score_all me rest s1 = (r, t)" by fastforce
      then have "t = s'" using "2.prems" None Some p by (auto split: option.splits)
      with "2.IH"(1) [OF None Some p [symmetric] rt] same_rows_score [OF Some [unfolded p]]
      show ?thesis using same_rows_trans by blast
    qed
  qed
qed simp

lemma run_same_rows:
  assumes "runMarketAllocation me opt (s, p) = (Some r, s', p')"
  shows "same_rows s s'"
proof -
  from assms obtain es s1 where sa: "score_all me (candidate_opportunities opt s) s = (Some es, s1)"
    and c: "core s' = core (fold commit_item (mr_items r) s1)"
    by (rule run_shape)
  have "same_rows (fold commit_item (mr_items r) s1) s'"
    using c by (intro same_rows_opps) (simp_all add: core_def)
  with same_rows_fold_commit have "same_rows s1 s'" by (rule same_rows_trans)
  with same_rows_score_all [OF sa] show ?thesis by (rule same_rows_trans)
qed

section \<open>Properties\<close>

text \<open>
  C5. A market run respects its capacity and its admission rule: it takes exactly
  \<^verbatim>\<open>accepted_count\<close> actions, never more than the capacity, and every opportunity it acts
  on has a positive value, more than low confidence, is outside the holdout group, and
  was an open candidate of the run; the items of the result are the candidates, each
  exactly once.
\<close>

theorem market_feasible:
  assumes "runMarketAllocation me opt (s, p) = (Some r, s', p')"
  shows "int (length (decided ACT (mr_items r))) = max 0 (mr_accepted_count r) \<and>
     mr_accepted_count r \<le> mr_capacity r \<and>
     (\<forall>i \<in> set (decided ACT (mr_items r)).
        0 < mi_iven i \<and> mi_confidence i \<noteq> Low \<and> \<not> isSyntheticHoldout (mi_opportunity_id i)) \<and>
     image_mset mi_opportunity_id (mset (mr_items r)) =
       image_mset o_id (mset (candidate_opportunities opt s))"
  using assms by (rule run_feasible)

definition sample_market_env :: market_env where
  "sample_market_env =
     \<lparr>me_math = sample_math, me_calibrator = new_calibrator, me_sample = (\<lambda>_. None),
      me_max_links = None, me_money = show_rupees, me_prevent_id = (\<lambda>i. ''prev_'' @ i),
      me_clock = sample_clock 0\<rparr>"

definition sample_score_row :: "string \<Rightarrow> int \<Rightarrow> score" where
  "sample_score_row i v =
     \<lparr>s_opportunity_id = i, s_tenant_id = None, s_natural_recovery_prob = 0,
      s_intervention_recovery_prob = 0, s_incremental_prob = 0, s_operational_cost_paise = 400,
      s_fatigue_cost_paise = 0, s_expected_incremental_value_paise = v, s_confidence = Medium,
      s_iven_band = None, s_probability_source = None\<rparr>"

definition sample_market_store :: store where
  "sample_market_store = empty_store
     \<lparr>opportunities := [sample_opportunity ''a'' ''expired_card'' Soft 5000,
                        sample_opportunity ''b'' ''expired_card'' Soft 9000],
      scores := [sample_score_row ''a'' 700, sample_score_row ''b'' 900]\<rparr>"

definition sample_market_options :: market_options where
  "sample_market_options = \<lparr>op_capacity = Some 1, op_opportunities = None, op_tenantId = None,
     op_environment = None\<rparr>"

lemma sample_market_opps:
  "candidate_opportunities sample_market_options sample_market_store =
     [sample_opportunity ''a'' ''expired_card'' Soft 5000,
      sample_opportunity ''b'' ''expired_card'' Soft 9000]"
  by (simp add: candidate_opportunities_def sample_market_options_def getAllOpportunities_def
        sample_market_store_def sample_opportunity_def truthy_str_def resolve_environment_def
        sort_desc_def empty_store_def)

lemma sample_id [simp]: "o_id (sample_opportunity i r d a) = i"
  by (simp add: sample_opportunity_def)

definition sample_scored :: "scored_item list" where
  "sample_scored =
     [(sample_opportunity ''a'' ''expired_card'' Soft 5000, sample_score_row ''a'' 700),
      (sample_opportunity ''b'' ''expired_card'' Soft 9000, sample_score_row ''b'' 900)]"

lemma sample_market_scores:
  "getScoreByOpportunityId sample_market_store ''a'' = Some (sample_score_row ''a'' 700)"
  "getScoreByOpportunityId sample_market_store ''b'' = Some (sample_score_row ''b'' 900)"
  by (simp_all add: getScoreByOpportunityId_def row_get_def sample_market_store_def sample_score_row_def)

lemma sample_score_all:
  "score_all sample_market_env (candidate_opportunities sample_market_options sample_market_store)
     sample_market_store = (Some sample_scored, sample_market_store)"
  by (simp add: sample_market_opps sample_market_scores sample_scored_def)

lemma sample_ranked: "eligible_ranked sample_scored =
    [(sample_opportunity ''b'' ''expired_card'' Soft 9000, sample_score_row ''b'' 900),
     (sample_opportunity ''a'' ''expired_card'' Soft 5000, sample_score_row ''a'' 700)]"
proof -
  have "\<not> isSyntheticHoldout ''a''" "\<not> isSyntheticHoldout ''b''" by code_simp+
  then show ?thesis
    by (simp add: eligible_ranked_def sample_scored_def abstain_reason_def sample_score_row_def
          sort_desc_def iven_def)
qed

lemma sample_market_run:
  obtains r s' p' where "runMarketAllocation sample_market_env sample_market_options
      (sample_market_store, new_pacer) = (Some r, s', p')"
    "mr_items r = market_items show_rupees 1 sample_scored" "mr_capacity r = 1"
    "mr_eligible_count r = 2" "mr_shadow_price_paise r = 900"
proof -
  have c: "resolve_capacity sample_market_env sample_market_options sample_market_store = 1"
    by (simp add: resolve_capacity_def sample_market_options_def Let_def)
  have sh: "shadow_price 1 (eligible_ranked sample_scored) = 900"
    by (simp add: sample_ranked shadow_price_def Let_def iven_def sample_score_row_def)
  have m: "me_money sample_market_env = show_rupees" by (simp add: sample_market_env_def)
  have "\<exists>r s' p'. runMarketAllocation sample_market_env sample_market_options
      (sample_market_store, new_pacer) = (Some r, s', p') \<and>
      mr_items r = market_items show_rupees 1 sample_scored \<and> mr_capacity r = 1 \<and>
      mr_eligible_count r = 2 \<and> mr_shadow_price_paise r = 900"
    using sh by (simp add: runMarketAllocation_def Let_def sample_score_all c m case_prod_unfold sample_ranked)
  then show ?thesis using that by blast
qed

lemma sample_market_ok: "store_ok sample_market_store"
  by (simp add: store_ok_def sample_market_store_def sample_opportunity_def sample_score_row_def
        empty_store_def)

theorem market_feasible_witness:
  "\<exists>r s' p'. runMarketAllocation sample_market_env sample_market_options
      (sample_market_store, new_pacer) = (Some r, s', p') \<and>
     image_mset mi_opportunity_id (mset (mr_items r)) = {#''a'', ''b''#}"
proof -
  obtain r s' p' where run: "runMarketAllocation sample_market_env sample_market_options
      (sample_market_store, new_pacer) = (Some r, s', p')"
    by (rule sample_market_run)
  from market_feasible [OF run] run show ?thesis
    by (auto simp: sample_market_opps sample_opportunity_def)
qed

text \<open>
  C6. The allocation is optimal: no other choice of at most \<^verbatim>\<open>capacity\<close> of the eligible
  items has a larger total value than the ones the run acts on.
\<close>

theorem market_optimal:
  assumes "runMarketAllocation me opt (s, p) = (Some r, s', p')"
    and "mset alt \<subseteq># mset (filter (\<lambda>i. mi_decision i \<noteq> ABSTAIN) (mr_items r))"
    and "int (length alt) \<le> max 0 (mr_capacity r)"
  shows "sum_list (map mi_iven alt) \<le> sum_list (map mi_iven (decided ACT (mr_items r)))"
proof -
  from assms(1) obtain es s1 where "mr_items r = market_items (me_money me) (mr_capacity r) es"
    by (rule run_shape)
  with ranked_items_optimal [of alt "me_money me" "mr_capacity r" es] assms(2,3) show ?thesis by simp
qed

theorem market_optimal_witness:
  "\<exists>r s' p'. runMarketAllocation sample_market_env sample_market_options
      (sample_market_store, new_pacer) = (Some r, s', p') \<and>
     900 \<le> sum_list (map mi_iven (decided ACT (mr_items r)))"
proof -
  obtain r s' p' where run: "runMarketAllocation sample_market_env sample_market_options
      (sample_market_store, new_pacer) = (Some r, s', p')"
    "mr_items r = market_items show_rupees 1 sample_scored" "mr_capacity r = 1"
    by (rule sample_market_run)
  let ?b = "ranked_item show_rupees 1 (shadow_price 1 (eligible_ranked sample_scored)) (1, eligible_ranked sample_scored ! 0)"
  have "mset [?b] \<subseteq># mset (filter (\<lambda>i. mi_decision i \<noteq> ABSTAIN) (mr_items r))"
    unfolding run(2) decided_not_ABSTAIN by (simp add: sample_ranked)
  from market_optimal [OF run(1) this] run show ?thesis
    by (auto simp: sample_ranked iven_def sample_score_row_def)
qed

text \<open>
  The shadow price is the marginal value: whenever the capacity is positive and
  binds, it is positive, it is attained by an accepted item, every accepted item is
  worth at least that much and every deferred item at most that much; otherwise it is
  zero.
\<close>

theorem shadow_price_marginal:
  assumes "runMarketAllocation me opt (s, p) = (Some r, s', p')"
  shows "if 0 < mr_capacity r \<and> mr_capacity r \<le> int (mr_eligible_count r)
     then 0 < mr_shadow_price_paise r \<and>
          (\<exists>i \<in> set (decided ACT (mr_items r)). mi_iven i = mr_shadow_price_paise r) \<and>
          (\<forall>i \<in> set (decided ACT (mr_items r)). mr_shadow_price_paise r \<le> mi_iven i) \<and>
          (\<forall>i \<in> set (decided WAIT (mr_items r)). mi_iven i \<le> mr_shadow_price_paise r)
     else mr_shadow_price_paise r = 0"
proof -
  from assms obtain es s1 where sh:
    "mr_items r = market_items (me_money me) (mr_capacity r) es"
    "mr_shadow_price_paise r = shadow_price (mr_capacity r) (eligible_ranked es)"
    "mr_eligible_count r = length (eligible_ranked es)"
    by (rule run_shape)
  let ?xs = "eligible_ranked es" and ?c = "mr_capacity r"
  show ?thesis
  proof (cases "0 < ?c \<and> ?c \<le> int (length ?xs)")
    case True
    then have c: "0 < ?c" "?c \<le> int (length ?xs)" by auto
    have k: "nat ?c - 1 < length ?xs" using c by auto
    let ?m = "?xs ! (nat ?c - 1)"
    have el: "?m \<in> set ?xs" using k by (rule nth_mem)
    have "(nat ?c, ?m) \<in> set (enumerate 1 ?xs)"
      unfolding in_set_enumerate_eq using c k by auto
    moreover have "int (fst (nat ?c, ?m)) \<le> ?c" using c by simp
    ultimately have fm: "(nat ?c, ?m) \<in> set (filter (\<lambda>p. int (fst p) \<le> ?c) (enumerate 1 ?xs))"
      unfolding set_filter by blast
    have n: "nat (?c + 1 - int 1) = nat ?c" by simp
    have "(nat ?c, ?m) \<in> set (take (nat ?c) (enumerate 1 ?xs))"
      using fm unfolding filter_rank n .
    then have mem: "ranked_item (me_money me) ?c (shadow_price ?c ?xs) (nat ?c, ?m) \<in> set (decided ACT (mr_items r))"
      unfolding sh(1) decided_ACT set_map by (rule imageI)
    have sp: "mr_shadow_price_paise r = iven ?m"
      unfolding sh(2) by (rule shadow_price_binds [OF c])
    have "\<exists>i \<in> set (decided ACT (mr_items r)). mi_iven i = mr_shadow_price_paise r"
      by (rule bexI [OF _ mem]) (simp add: sp)
    moreover have "0 < mr_shadow_price_paise r" using eligible_sound [OF el] sp by simp
    ultimately show ?thesis
      using shadow_price_separates [OF c] True sh by auto
  next
    case False
    then show ?thesis using sh by (auto simp: shadow_price_def Let_def)
  qed
qed

theorem shadow_price_marginal_witness:
  "\<exists>r s' p'. runMarketAllocation sample_market_env sample_market_options
      (sample_market_store, new_pacer) = (Some r, s', p') \<and> mr_shadow_price_paise r = 900 \<and>
     (\<exists>i \<in> set (decided ACT (mr_items r)). mi_iven i = 900)"
proof -
  obtain r s' p' where run: "runMarketAllocation sample_market_env sample_market_options
      (sample_market_store, new_pacer) = (Some r, s', p')"
    "mr_capacity r = 1" "mr_eligible_count r = 2" "mr_shadow_price_paise r = 900"
    by (rule sample_market_run)
  from shadow_price_marginal [OF run(1)] run show ?thesis by auto
qed

text \<open>
  What the run returns is what it stores: for each item the stored decision is the
  one returned and the opportunity's status is the one that belongs to the decision
  (allocated, deferred or abstained); every opportunity that is not an item keeps its
  row and its decision; the store invariant is kept.
\<close>

theorem market_persisted:
  assumes "store_ok s" and "op_opportunities opt = None"
    and "runMarketAllocation me opt (s, p) = (Some r, s', p')"
  shows "store_ok s' \<and>
     (\<forall>i \<in> set (mr_items r).
        getAllocationDecisionByOpportunityId s' (mi_opportunity_id i) = Some (decision_record i) \<and>
        map_option o_status (getOpportunityById s' (mi_opportunity_id i)) =
          Some (decision_status (mi_decision i))) \<and>
     (\<forall>k. k \<notin> mi_opportunity_id ` set (mr_items r) \<longrightarrow>
        getOpportunityById s' k = getOpportunityById s k \<and>
        getAllocationDecisionByOpportunityId s' k = getAllocationDecisionByOpportunityId s k)"
  using assms by (rule run_effect)

theorem market_persisted_witness:
  "\<exists>r s' p'. runMarketAllocation sample_market_env sample_market_options
      (sample_market_store, new_pacer) = (Some r, s', p') \<and> store_ok s'"
proof -
  obtain r s' p' where run: "runMarketAllocation sample_market_env sample_market_options
      (sample_market_store, new_pacer) = (Some r, s', p')"
    by (rule sample_market_run)
  have "op_opportunities sample_market_options = None" by (simp add: sample_market_options_def)
  from market_persisted [OF sample_market_ok this run] run show ?thesis by blast
qed

text \<open>
  The holdout assignment is the 32-bit polynomial hash: the loop of shifts,
  subtractions and truncations computes the base-31 polynomial of the character codes
  reduced to a signed 32-bit number, so the group of an opportunity depends on its id
  only.
\<close>

theorem holdout_is_polynomial_hash:
  "isSyntheticHoldout oid \<longleftrightarrow> \<bar>signed_take_bit 31 (poly_hash 0 oid)\<bar> mod 100 < 5"
proof -
  have "holdout_hash oid = of_int (poly_hash 0 oid)"
    using holdout_hash_poly [of 0 oid] by (simp add: holdout_hash_def)
  then show ?thesis by (simp add: isSyntheticHoldout_def signed_of_int)
qed

end
