(* ===== verification/Authority.thy ===== *)
theory Authority
  imports Market
begin

text \<open>
  The action authority gate: the kill switches and the pipeline of
  \<^verbatim>\<open>src/authority/gate.ts\<close>, the rule engine of \<^verbatim>\<open>src/authority/rule_registry.ts\<close> and
  the rules of \<^verbatim>\<open>src/authority/rules/core_rules.ts\<close>.  A rule is a record with an
  evaluation function, so that the engine is modelled for every set of registered
  rules, as the code allows.  The abstract specification of the engine is the highest
  severity among the failed rules.
\<close>

section \<open>Kill switches\<close>

record kill_switches =
  ks_global :: bool
  ks_tenants :: "string \<Rightarrow> bool option"
  ks_providers :: "string \<Rightarrow> bool option"

definition resetAllKillSwitches :: kill_switches where
  "resetAllKillSwitches = \<lparr>ks_global = False, ks_tenants = Map.empty, ks_providers = Map.empty\<rparr>"

definition isKillSwitchActive :: "kill_switches \<Rightarrow> string option \<Rightarrow> string option \<Rightarrow> bool" where
  "isKillSwitchActive ks tenantId provider =
     (if ks_global ks then True
      else if truthy_str tenantId \<and> ks_tenants ks (the tenantId) = Some True then True
      else if truthy_str provider \<and> ks_providers ks (the provider) = Some True then True
      else False)"

definition setKillSwitch :: "bool \<Rightarrow> kill_switches \<Rightarrow> kill_switches" where
  "setKillSwitch enabled ks = ks\<lparr>ks_global := enabled\<rparr>"

definition setTenantKillSwitch :: "string \<Rightarrow> bool \<Rightarrow> kill_switches \<Rightarrow> kill_switches" where
  "setTenantKillSwitch tenantId enabled ks = ks\<lparr>ks_tenants := (ks_tenants ks)(tenantId \<mapsto> enabled)\<rparr>"

definition setProviderKillSwitch :: "string \<Rightarrow> bool \<Rightarrow> kill_switches \<Rightarrow> kill_switches" where
  "setProviderKillSwitch provider enabled ks =
     ks\<lparr>ks_providers := (ks_providers ks)(provider \<mapsto> enabled)\<rparr>"

section \<open>Rules\<close>

text \<open>What a rule sees: the context object, the kill switches of the process, the clock
  and the date parser.\<close>

record rule_context =
  rc_opportunity :: opportunity
  rc_score :: score
  rc_decision :: allocation_decision
  rc_tenantId :: string
  rc_kill :: kill_switches
  rc_now_ms :: int
  rc_date_ms :: "string \<Rightarrow> int option"

record rule_result =
  rr_passed :: bool
  rr_reason :: string
  rr_verdict :: authority_verdict
  rr_status :: opportunity_status

record authority_rule =
  ru_id :: string
  ru_priority :: int
  ru_isBlocking :: bool
  ru_evaluate :: "rule_context \<Rightarrow> rule_result"

definition HardDeclineRule :: authority_rule where
  "HardDeclineRule = \<lparr>ru_id = ''hard_decline_check'', ru_priority = 10, ru_isBlocking = True,
     ru_evaluate = (\<lambda>c. if o_decline_type (rc_opportunity c) = Hard
        then \<lparr>rr_passed = False, rr_reason = ''no auto-contact after a hard/fraud-coded decline'',
              rr_verdict = V_BLOCKED, rr_status = Blocked\<rparr>
        else \<lparr>rr_passed = True,
              rr_reason = ''decline type is recoverable ('' @ show_decline (o_decline_type (rc_opportunity c)) @ '')'',
              rr_verdict = V_BLOCKED, rr_status = Blocked\<rparr>)\<rparr>"

definition RetryCapRule :: "int \<Rightarrow> authority_rule" where
  "RetryCapRule maxAttempts = \<lparr>ru_id = ''retry_cap_check'', ru_priority = 20, ru_isBlocking = True,
     ru_evaluate = (\<lambda>c. if maxAttempts \<le> o_attempt_count (rc_opportunity c)
        then \<lparr>rr_passed = False,
              rr_reason = ''retry cap reached - route to manual fallback, not further auto-contact'',
              rr_verdict = V_BLOCKED, rr_status = Blocked\<rparr>
        else \<lparr>rr_passed = True,
              rr_reason = ''attempt count ('' @ show_int (o_attempt_count (rc_opportunity c)) @
                '') within retry cap limit of '' @ show_int maxAttempts,
              rr_verdict = V_BLOCKED, rr_status = Blocked\<rparr>)\<rparr>"

definition KillSwitchRule :: authority_rule where
  "KillSwitchRule = \<lparr>ru_id = ''kill_switch_check'', ru_priority = 5, ru_isBlocking = True,
     ru_evaluate = (\<lambda>c. if isKillSwitchActive (rc_kill c)
            (Some (or_str (rc_tenantId c) (o_tenant_id (rc_opportunity c)))) None
        then \<lparr>rr_passed = False, rr_reason = ''manual kill switch engaged'',
              rr_verdict = V_BLOCKED, rr_status = Blocked\<rparr>
        else \<lparr>rr_passed = True, rr_reason = ''system operating normally (kill switch disengaged)'',
              rr_verdict = V_BLOCKED, rr_status = Blocked\<rparr>)\<rparr>"

fun show_confidence :: "confidence_level \<Rightarrow> string" where
  "show_confidence Low = ''low''"
| "show_confidence Medium = ''medium''"
| "show_confidence High = ''high''"

fun show_decision :: "decision_type \<Rightarrow> string" where
  "show_decision ACT = ''ACT''"
| "show_decision WAIT = ''WAIT''"
| "show_decision ABSTAIN = ''ABSTAIN''"

definition ConfidenceRecheckRule :: authority_rule where
  "ConfidenceRecheckRule = \<lparr>ru_id = ''confidence_recheck'', ru_priority = 30, ru_isBlocking = False,
     ru_evaluate = (\<lambda>c. if s_confidence (rc_score c) = Low
        then \<lparr>rr_passed = False,
              rr_reason = ''low confidence score - requires human or observational review'',
              rr_verdict = V_ABSTAIN, rr_status = Abstained\<rparr>
        else \<lparr>rr_passed = True,
              rr_reason = ''confidence level is sufficient ('' @ show_confidence (s_confidence (rc_score c)) @ '')'',
              rr_verdict = V_ABSTAIN, rr_status = Abstained\<rparr>)\<rparr>"

definition CapacityRecheckRule :: authority_rule where
  "CapacityRecheckRule = \<lparr>ru_id = ''capacity_recheck'', ru_priority = 40, ru_isBlocking = False,
     ru_evaluate = (\<lambda>c. if ad_decision (rc_decision c) \<noteq> ACT
        then \<lparr>rr_passed = False,
              rr_reason = ''not within active market allocation batch (market status: '' @
                show_decision (ad_decision (rc_decision c)) @ '')'',
              rr_verdict = V_WAIT, rr_status = Deferred\<rparr>
        else \<lparr>rr_passed = True,
              rr_reason = ''allocated in current active batch (rank #'' @
                show_nat (ad_rank_in_batch (rc_decision c)) @ '')'',
              rr_verdict = V_WAIT, rr_status = Deferred\<rparr>)\<rparr>"

text \<open>The cool-off rule: an unparsable date is \<^verbatim>\<open>NaN\<close>, which is below no bound.  The
  elapsed hours in its message are rendered by \<open>show_h\<close>.\<close>

definition CoolOffWindowRule :: "(rat \<Rightarrow> string) \<Rightarrow> int \<Rightarrow> authority_rule" where
  "CoolOffWindowRule show_h windowHours =
     \<lparr>ru_id = ''cool_off_window_check'', ru_priority = 25, ru_isBlocking = False,
     ru_evaluate = (\<lambda>c.
        let opp = rc_opportunity c;
            elapsed = map_option (\<lambda>t. fdiv (of_int (rc_now_ms c - t)) 3600000) (rc_date_ms c (o_created_at opp));
            ok = \<lparr>rr_passed = True,
                  rr_reason = ''cool-off pacing compliant (window: '' @ show_int windowHours @ ''h)'',
                  rr_verdict = V_WAIT, rr_status = Deferred\<rparr>
        in if 1 < o_attempt_count opp \<and> o_created_at opp \<noteq> []
           then (case elapsed of
                   None \<Rightarrow> ok
                 | Some h \<Rightarrow>
                     if h < lit 16 2 \<and> 2 \<le> o_attempt_count opp
                     then \<lparr>rr_passed = False,
                           rr_reason = ''pacing window violation: retry attempted too quickly ('' @ show_h h @
                             ''h elapsed, min pacing required)'',
                           rr_verdict = V_WAIT, rr_status = Deferred\<rparr>
                     else ok)
           else ok)\<rparr>"

section \<open>The registry\<close>

type_synonym registry = "authority_rule list"

definition registerRule :: "authority_rule \<Rightarrow> registry \<Rightarrow> registry" where
  "registerRule rule rules = row_put ru_id replace_merge rule rules"

definition unregisterRule :: "string \<Rightarrow> registry \<Rightarrow> bool \<times> registry" where
  "unregisterRule ruleId rules =
     (ruleId \<in> ru_id ` set rules, filter (\<lambda>r. ru_id r \<noteq> ruleId) rules)"

definition registerDefaultRules :: "registry \<Rightarrow> registry" where
  "registerDefaultRules rules =
     fold registerRule
       [KillSwitchRule, HardDeclineRule, RetryCapRule 3, ConfidenceRecheckRule, CapacityRecheckRule] rules"

definition resetToDefaults :: "registry \<Rightarrow> registry" where
  "resetToDefaults rules = registerDefaultRules []"

definition default_registry :: registry where
  "default_registry = registerDefaultRules []"

definition getActiveRules :: "registry \<Rightarrow> authority_rule list" where
  "getActiveRules rules = sort_key ru_priority rules"

record engine_result =
  en_verdict :: authority_verdict
  en_checks :: "authority_check list"
  en_suggestedStatus :: opportunity_status
  en_summaryReason :: string

definition engine_start :: engine_result where
  "engine_start = \<lparr>en_verdict = V_AUTHORIZED, en_checks = [], en_suggestedStatus = Authorized,
     en_summaryReason = ''all deterministic compliance checks passed''\<rparr>"

definition engine_step :: "rule_context \<Rightarrow> authority_rule \<Rightarrow> engine_result \<Rightarrow> engine_result" where
  "engine_step ctx rule acc =
     (let res = ru_evaluate rule ctx;
          acc1 = acc\<lparr>en_checks := en_checks acc @
             [\<lparr>ac_opportunity_id = o_id (rc_opportunity ctx), ac_check_name = ru_id rule,
               ac_passed = rr_passed res, ac_reason = rr_reason res\<rparr>]\<rparr>;
          hit = acc1\<lparr>en_verdict := rr_verdict res, en_suggestedStatus := rr_status res,
                      en_summaryReason := rr_reason res\<rparr>
      in if rr_passed res then acc1
         else if rr_verdict res = V_BLOCKED then hit
         else if rr_verdict res = V_ABSTAIN \<and> en_verdict acc \<noteq> V_BLOCKED then hit
         else if rr_verdict res = V_WAIT \<and> en_verdict acc = V_AUTHORIZED then hit
         else acc1)"

definition registry_evaluate :: "registry \<Rightarrow> rule_context \<Rightarrow> engine_result" where
  "registry_evaluate rules ctx = fold (engine_step ctx) (getActiveRules rules) engine_start"

section \<open>The gate\<close>

record gate_env =
  ge_market :: market_env
  ge_kill :: kill_switches
  ge_registry :: registry
  ge_date_ms :: "string \<Rightarrow> int option"

record authority_evaluation =
  ae_opportunity_id :: string
  ae_verdict :: authority_verdict
  ae_checks :: "authority_check list"
  ae_summary_reason :: string

definition unallocated :: "string \<Rightarrow> string \<Rightarrow> allocation_decision" where
  "unallocated oid reason = \<lparr>ad_opportunity_id = oid, ad_decision = WAIT, ad_rank_in_batch = 999,
     ad_shadow_price_paise = 0, ad_reason = reason\<rparr>"

text \<open>\<^verbatim>\<open>score || getScoreByOpportunityId(id) || scoreOpportunity(opp)\<close>.\<close>

definition effective_score ::
  "gate_env \<Rightarrow> opportunity \<Rightarrow> score option \<Rightarrow> store \<Rightarrow> (score \<times> store) option" where
  "effective_score ge opp given s =
     (case given of
        Some sc \<Rightarrow> Some (sc, s)
      | None \<Rightarrow> (case getScoreByOpportunityId s (o_id opp) of
                   Some sc \<Rightarrow> Some (sc, s)
                 | None \<Rightarrow> scoreOpportunity (me_math (ge_market ge)) (me_calibrator (ge_market ge))
                             (me_sample (ge_market ge) opp) opp s))"

definition evaluateOpportunity ::
  "gate_env \<Rightarrow> opportunity \<Rightarrow> allocation_decision option \<Rightarrow> score option \<Rightarrow> store \<Rightarrow>
   (authority_evaluation \<times> store) option" where
  "evaluateOpportunity ge opp decision sc0 s =
     (case effective_score ge opp sc0 s of
        None \<Rightarrow> None
      | Some (sc, s1) \<Rightarrow>
          let dec = (case decision of
                       Some d \<Rightarrow> d
                     | None \<Rightarrow> (case getAllocationDecisionByOpportunityId s1 (o_id opp) of
                                  Some d \<Rightarrow> d
                                | None \<Rightarrow> unallocated (o_id opp)
                                    ''Unallocated opportunity pending market allocation run''));
              res = registry_evaluate (ge_registry ge)
                      \<lparr>rc_opportunity = opp, rc_score = sc, rc_decision = dec,
                       rc_tenantId = o_tenant_id opp, rc_kill = ge_kill ge,
                       rc_now_ms = ck_ms (me_clock (ge_market ge)), rc_date_ms = ge_date_ms ge\<rparr>;
              s2 = clearAuthorityChecksForOpportunity (o_id opp) s1;
              s3 = fold (insertAuthorityCheck (ck_iso (me_clock (ge_market ge)))) (en_checks res) s2;
              s4 = updateOpportunityStatus (o_id opp) (en_suggestedStatus res) s3
          in Some (\<lparr>ae_opportunity_id = o_id opp, ae_verdict = en_verdict res,
                    ae_checks = en_checks res, ae_summary_reason = en_summaryReason res\<rparr>, s4))"

text \<open>One turn of the pipeline loop: the score is fetched or computed, the decision
  fetched or defaulted, and both are handed to the gate.\<close>

definition pipeline_turn ::
  "gate_env \<Rightarrow> opportunity \<Rightarrow> store \<Rightarrow> (authority_evaluation \<times> store) option" where
  "pipeline_turn ge opp s =
     (case effective_score ge opp None s of
        None \<Rightarrow> None
      | Some (sc, s1) \<Rightarrow>
          evaluateOpportunity ge opp
            (Some (case getAllocationDecisionByOpportunityId s1 (o_id opp) of
                     Some d \<Rightarrow> d | None \<Rightarrow> unallocated (o_id opp) ''Unallocated evaluation''))
            (Some sc) s1)"

fun pipeline_loop ::
  "gate_env \<Rightarrow> opportunity list \<Rightarrow> store \<Rightarrow> (authority_evaluation list \<times> store) option" where
  "pipeline_loop ge [] s = Some ([], s)"
| "pipeline_loop ge (opp # rest) s =
     (case pipeline_turn ge opp s of
        None \<Rightarrow> None
      | Some (ev, s1) \<Rightarrow>
          (case pipeline_loop ge rest s1 of
             None \<Rightarrow> None
           | Some (evs, s2) \<Rightarrow> Some (ev # evs, s2)))"

record pipeline_result =
  pl_kill_switch_active :: bool
  pl_total_evaluated :: nat
  pl_authorized_count :: nat
  pl_blocked_count :: nat
  pl_abstained_count :: nat
  pl_deferred_count :: nat
  pl_results :: "authority_evaluation list"

definition gate_candidates :: "market_options \<Rightarrow> store \<Rightarrow> opportunity list" where
  "gate_candidates opt s =
     filter (\<lambda>o'. o_status o' \<in> {Allocated, Pending, Scored})
       (getAllOpportunities s (op_tenantId opt) (resolve_environment opt s))"

definition count_verdict :: "authority_verdict \<Rightarrow> authority_evaluation list \<Rightarrow> nat" where
  "count_verdict v evs = length (filter (\<lambda>e. ae_verdict e = v) evs)"

definition runAuthorityPipeline ::
  "gate_env \<Rightarrow> market_options \<Rightarrow> store \<times> pacer \<Rightarrow> (pipeline_result \<times> store \<times> pacer) option" where
  "runAuthorityPipeline ge opt st =
     (case runMarketAllocation (ge_market ge) opt st of
        (None, _) \<Rightarrow> None
      | (Some r, s1, p1) \<Rightarrow>
          let allOpps = gate_candidates opt s1
          in (case pipeline_loop ge allOpps s1 of
                None \<Rightarrow> None
              | Some (evs, s2) \<Rightarrow>
                  Some (\<lparr>pl_kill_switch_active = isKillSwitchActive (ge_kill ge) (op_tenantId opt) None,
                         pl_total_evaluated = length allOpps,
                         pl_authorized_count = count_verdict V_AUTHORIZED evs,
                         pl_blocked_count = count_verdict V_BLOCKED evs,
                         pl_abstained_count = count_verdict V_ABSTAIN evs,
                         pl_deferred_count = count_verdict V_WAIT evs,
                         pl_results = evs\<rparr>, s2, p1)))"

section \<open>The engine against its specification\<close>

fun severity :: "authority_verdict \<Rightarrow> nat" where
  "severity V_AUTHORIZED = 0"
| "severity V_WAIT = 1"
| "severity V_ABSTAIN = 2"
| "severity V_BLOCKED = 3"

lemma severity_inj: "severity a = severity b \<longleftrightarrow> a = b"
  by (cases a; cases b) auto

definition failed_severity :: "rule_context \<Rightarrow> authority_rule \<Rightarrow> nat" where
  "failed_severity ctx r =
     (let res = ru_evaluate r ctx in if rr_passed res then 0 else severity (rr_verdict res))"

definition check_of :: "rule_context \<Rightarrow> authority_rule \<Rightarrow> authority_check" where
  "check_of ctx r = \<lparr>ac_opportunity_id = o_id (rc_opportunity ctx), ac_check_name = ru_id r,
     ac_passed = rr_passed (ru_evaluate r ctx), ac_reason = rr_reason (ru_evaluate r ctx)\<rparr>"

lemma engine_step_severity:
  "severity (en_verdict (engine_step ctx r acc)) = max (severity (en_verdict acc)) (failed_severity ctx r)"
  by (cases "en_verdict acc"; cases "rr_verdict (ru_evaluate r ctx)")
     (auto simp: engine_step_def failed_severity_def Let_def)

lemma engine_step_checks: "en_checks (engine_step ctx r acc) = en_checks acc @ [check_of ctx r]"
  by (simp add: engine_step_def check_of_def Let_def)

lemma engine_fold_severity:
  "severity (en_verdict (fold (engine_step ctx) rs acc)) =
     Max (insert (severity (en_verdict acc)) (failed_severity ctx ` set rs))"
proof (induction rs arbitrary: acc)
  case (Cons r rs)
  have "Max (insert (max a b) S) = max b (Max (insert a S))" if "finite S" for a b :: nat and S
    using that by (cases "S = {}") (simp_all add: max.commute max.left_commute)
  with Cons show ?case by (simp add: engine_step_severity insert_commute)
qed simp

lemma engine_fold_checks:
  "en_checks (fold (engine_step ctx) rs acc) = en_checks acc @ map (check_of ctx) rs"
  by (induction rs arbitrary: acc) (simp_all add: engine_step_checks)

lemma registry_verdict:
  "severity (en_verdict (registry_evaluate rules ctx)) = Max (insert 0 (failed_severity ctx ` set rules))"
  by (simp add: registry_evaluate_def engine_fold_severity engine_start_def getActiveRules_def)

lemma registry_checks:
  "en_checks (registry_evaluate rules ctx) = map (check_of ctx) (getActiveRules rules)"
  by (simp add: registry_evaluate_def engine_fold_checks engine_start_def)

text \<open>The five default rules, in priority order.\<close>

lemmas core_rules = KillSwitchRule_def HardDeclineRule_def RetryCapRule_def
  ConfidenceRecheckRule_def CapacityRecheckRule_def

lemma default_rules:
  "getActiveRules default_registry =
     [KillSwitchRule, HardDeclineRule, RetryCapRule 3, ConfidenceRecheckRule, CapacityRecheckRule]"
  by (simp add: getActiveRules_def default_registry_def registerDefaultRules_def registerRule_def
        core_rules replace_merge_def)

definition blocked_by_rules :: "rule_context \<Rightarrow> bool" where
  "blocked_by_rules c \<longleftrightarrow>
     isKillSwitchActive (rc_kill c) (Some (or_str (rc_tenantId c) (o_tenant_id (rc_opportunity c)))) None \<or>
     o_decline_type (rc_opportunity c) = Hard \<or> 3 \<le> o_attempt_count (rc_opportunity c)"

definition outcome :: "engine_result \<Rightarrow> authority_verdict \<times> opportunity_status" where
  "outcome acc = (en_verdict acc, en_suggestedStatus acc)"

lemma outcome_step:
  "outcome (engine_step c r acc) =
     (let res = ru_evaluate r c; hit = (rr_verdict res, rr_status res); v = fst (outcome acc)
      in if rr_passed res then outcome acc else if rr_verdict res = V_BLOCKED then hit
         else if rr_verdict res = V_ABSTAIN \<and> v \<noteq> V_BLOCKED then hit
         else if rr_verdict res = V_WAIT \<and> v = V_AUTHORIZED then hit else outcome acc)"
  by (simp add: outcome_def engine_step_def Let_def)

lemma core_rule_results:
  "rr_passed (ru_evaluate KillSwitchRule c) \<longleftrightarrow> \<not> isKillSwitchActive (rc_kill c)
     (Some (or_str (rc_tenantId c) (o_tenant_id (rc_opportunity c)))) None"
  "rr_verdict (ru_evaluate KillSwitchRule c) = V_BLOCKED" "rr_status (ru_evaluate KillSwitchRule c) = Blocked"
  "rr_passed (ru_evaluate HardDeclineRule c) \<longleftrightarrow> o_decline_type (rc_opportunity c) \<noteq> Hard"
  "rr_verdict (ru_evaluate HardDeclineRule c) = V_BLOCKED" "rr_status (ru_evaluate HardDeclineRule c) = Blocked"
  "rr_passed (ru_evaluate (RetryCapRule n) c) \<longleftrightarrow> \<not> n \<le> o_attempt_count (rc_opportunity c)"
  "rr_verdict (ru_evaluate (RetryCapRule n) c) = V_BLOCKED" "rr_status (ru_evaluate (RetryCapRule n) c) = Blocked"
  "rr_passed (ru_evaluate ConfidenceRecheckRule c) \<longleftrightarrow> s_confidence (rc_score c) \<noteq> Low"
  "rr_verdict (ru_evaluate ConfidenceRecheckRule c) = V_ABSTAIN" "rr_status (ru_evaluate ConfidenceRecheckRule c) = Abstained"
  "rr_passed (ru_evaluate CapacityRecheckRule c) \<longleftrightarrow> ad_decision (rc_decision c) = ACT"
  "rr_verdict (ru_evaluate CapacityRecheckRule c) = V_WAIT" "rr_status (ru_evaluate CapacityRecheckRule c) = Deferred"
  by (simp_all add: core_rules)

lemma default_outcome:
  "outcome (registry_evaluate default_registry c) =
     (if blocked_by_rules c then (V_BLOCKED, Blocked)
      else if s_confidence (rc_score c) = Low then (V_ABSTAIN, Abstained)
      else if ad_decision (rc_decision c) \<noteq> ACT then (V_WAIT, Deferred) else (V_AUTHORIZED, Authorized))"
proof -
  have start: "outcome engine_start = (V_AUTHORIZED, Authorized)"
    by (simp add: outcome_def engine_start_def)
  show ?thesis
    by (simp add: registry_evaluate_def default_rules outcome_step core_rule_results start Let_def
          blocked_by_rules_def)
qed

lemma default_engine:
  "en_verdict (registry_evaluate default_registry c) =
     (if blocked_by_rules c then V_BLOCKED else if s_confidence (rc_score c) = Low then V_ABSTAIN
      else if ad_decision (rc_decision c) \<noteq> ACT then V_WAIT else V_AUTHORIZED)"
  "en_suggestedStatus (registry_evaluate default_registry c) =
     (if blocked_by_rules c then Blocked else if s_confidence (rc_score c) = Low then Abstained
      else if ad_decision (rc_decision c) \<noteq> ACT then Deferred else Authorized)"
  using default_outcome [of c] unfolding outcome_def by (simp_all split: if_splits)

section \<open>What the gate stores\<close>

text \<open>Inserting checks for an opportunity that exists only appends them.\<close>

lemma fold_insert_checks:
  assumes "getOpportunityById s oid \<noteq> None" and "\<forall>c \<in> set cs. ac_opportunity_id c = oid"
  shows "fold (insertAuthorityCheck now) cs s = s\<lparr>authority_checks := authority_checks s @ cs\<rparr>"
  using assms
proof (induction cs arbitrary: s)
  case (Cons c cs)
  let ?s = "s\<lparr>authority_checks := authority_checks s @ [c]\<rparr>"
  have "getOpportunityById ?s oid = getOpportunityById s oid" by (simp add: getOpportunityById_def)
  with Cons.IH [of ?s] Cons.prems show ?case by (simp add: insertAuthorityCheck_present)
qed simp

definition gate_context ::
  "gate_env \<Rightarrow> opportunity \<Rightarrow> allocation_decision \<Rightarrow> score \<Rightarrow> rule_context" where
  "gate_context ge opp d sc = \<lparr>rc_opportunity = opp, rc_score = sc, rc_decision = d,
     rc_tenantId = o_tenant_id opp, rc_kill = ge_kill ge,
     rc_now_ms = ck_ms (me_clock (ge_market ge)), rc_date_ms = ge_date_ms ge\<rparr>"

lemma evaluate_given:
  fixes ge opp d sc s
  assumes "getOpportunityById s (o_id opp) \<noteq> None"
  defines "res \<equiv> registry_evaluate (ge_registry ge) (gate_context ge opp d sc)"
  shows "\<exists>ev. evaluateOpportunity ge opp (Some d) (Some sc) s =
       Some (ev, updateOpportunityStatus (o_id opp) (en_suggestedStatus res)
          (s\<lparr>authority_checks := filter (\<lambda>c. ac_opportunity_id c \<noteq> o_id opp) (authority_checks s)
               @ en_checks res\<rparr>)) \<and>
     ae_opportunity_id ev = o_id opp \<and> ae_verdict ev = en_verdict res \<and> ae_checks ev = en_checks res"
proof -
  let ?s2 = "clearAuthorityChecksForOpportunity (o_id opp) s"
  have get: "getOpportunityById ?s2 (o_id opp) \<noteq> None"
    using assms(1) by (simp add: getOpportunityById_def)
  have own: "\<forall>c \<in> set (en_checks res). ac_opportunity_id c = o_id opp"
    by (simp add: res_def registry_checks check_of_def gate_context_def)
  have upd: "?s2\<lparr>authority_checks := authority_checks ?s2 @ cs\<rparr> =
      s\<lparr>authority_checks := filter (\<lambda>c. ac_opportunity_id c \<noteq> o_id opp) (authority_checks s) @ cs\<rparr>" for cs
    by (simp add: clearAuthorityChecksForOpportunity_def)
  show ?thesis
    using fold_insert_checks [OF get own, of "ck_iso (me_clock (ge_market ge))"]
    by (simp add: evaluateOpportunity_def effective_score_def Let_def gate_context_def [symmetric]
          res_def [symmetric] upd)
qed

lemma checks_stored:
  "\<forall>c \<in> set cs. ac_opportunity_id c = oid \<Longrightarrow>
   getAuthorityChecksByOpportunityId (updateOpportunityStatus oid st
      (s\<lparr>authority_checks := filter (\<lambda>c. ac_opportunity_id c \<noteq> oid) (authority_checks s) @ cs\<rparr>)) k =
     (if k = oid then cs else getAuthorityChecksByOpportunityId s k)"
  by (auto simp: getAuthorityChecksByOpportunityId_def filter_empty_conv filter_id_conv
        intro: filter_cong)

lemma gate_effect:
  fixes ge opp d sc s ev s'
  assumes "evaluateOpportunity ge opp (Some d) (Some sc) s = Some (ev, s')"
    and "getOpportunityById s (o_id opp) \<noteq> None"
  defines "res \<equiv> registry_evaluate (ge_registry ge) (gate_context ge opp d sc)"
  shows "ae_verdict ev = en_verdict res" "ae_checks ev = en_checks res"
    "getAuthorityChecksByOpportunityId s' k =
       (if k = o_id opp then en_checks res else getAuthorityChecksByOpportunityId s k)"
    "getOpportunityById s' k =
       (if k = o_id opp
        then map_option (\<lambda>o'. o'\<lparr>o_status := next_status (o_status o') (en_suggestedStatus res)\<rparr>)
               (getOpportunityById s k)
        else getOpportunityById s k)"
    "allocation_decisions s' = allocation_decisions s" "scores s' = scores s"
    "execution_records s' = execution_records s"
    "store_ok s \<Longrightarrow> store_ok s'" "ae_opportunity_id ev = o_id opp"
proof -
  let ?t = "s\<lparr>authority_checks := filter (\<lambda>c. ac_opportunity_id c \<noteq> o_id opp) (authority_checks s) @ en_checks res\<rparr>"
  obtain ev' where ev: "evaluateOpportunity ge opp (Some d) (Some sc) s =
      Some (ev', updateOpportunityStatus (o_id opp) (en_suggestedStatus res) ?t)"
    "ae_opportunity_id ev' = o_id opp" "ae_verdict ev' = en_verdict res" "ae_checks ev' = en_checks res"
    using evaluate_given [OF assms(2), of ge d sc] unfolding res_def by blast
  have s': "s' = updateOpportunityStatus (o_id opp) (en_suggestedStatus res) ?t" "ev = ev'"
    using ev(1) assms(1) by simp_all
  have own: "\<forall>c \<in> set (en_checks res). ac_opportunity_id c = o_id opp"
    by (simp add: res_def registry_checks check_of_def gate_context_def)
  have get: "getOpportunityById ?t = getOpportunityById s"
    by (intro ext) (simp add: getOpportunityById_def)
  show "ae_verdict ev = en_verdict res" "ae_checks ev = en_checks res" "ae_opportunity_id ev = o_id opp"
    using ev s' by simp_all
  show "getAuthorityChecksByOpportunityId s' k =
       (if k = o_id opp then en_checks res else getAuthorityChecksByOpportunityId s k)"
    unfolding s' by (rule checks_stored [OF own])
  show "getOpportunityById s' k =
       (if k = o_id opp
        then map_option (\<lambda>o'. o'\<lparr>o_status := next_status (o_status o') (en_suggestedStatus res)\<rparr>)
               (getOpportunityById s k)
        else getOpportunityById s k)"
    unfolding s' by (simp add: getOpportunityById_updateStatus get)
  show "allocation_decisions s' = allocation_decisions s" "scores s' = scores s"
    "execution_records s' = execution_records s"
    unfolding s' by simp_all
  show "store_ok s'" if "store_ok s"
    unfolding s' using that by (intro store_ok_updateStatus) (simp add: store_ok_def)
qed

text \<open>One turn of the pipeline: which decision and score the gate gets, and what it leaves.\<close>

definition turn_decision :: "store \<Rightarrow> string \<Rightarrow> allocation_decision" where
  "turn_decision s oid = (case getAllocationDecisionByOpportunityId s oid of
     Some d \<Rightarrow> d | None \<Rightarrow> unallocated oid ''Unallocated evaluation'')"

lemma turn_effect:
  assumes "pipeline_turn ge opp s = Some (ev, s')" and "getOpportunityById s (o_id opp) = Some opp"
    and "o_status opp \<in> {Allocated, Pending, Scored}" and "ge_registry ge = default_registry"
  obtains sc c where
    "c = gate_context ge opp (turn_decision s (o_id opp)) sc"
    "ae_verdict ev = (if blocked_by_rules c then V_BLOCKED else if s_confidence sc = Low then V_ABSTAIN
        else if ad_decision (turn_decision s (o_id opp)) \<noteq> ACT then V_WAIT else V_AUTHORIZED)"
    "\<And>k. k \<noteq> o_id opp \<Longrightarrow> getOpportunityById s' k = getOpportunityById s k"
    "map_option o_status (getOpportunityById s' (o_id opp)) =
       Some (if blocked_by_rules c then Blocked else if s_confidence sc = Low then Abstained
        else if ad_decision (turn_decision s (o_id opp)) \<noteq> ACT then Deferred else Authorized)"
    "allocation_decisions s' = allocation_decisions s"
proof -
  from assms(1) obtain sc s1 where sc: "effective_score ge opp None s = Some (sc, s1)"
    by (auto simp: pipeline_turn_def split: option.splits)
  have mem: "o_id opp \<in> o_id ` set (opportunities s)"
    using assms(2) getOpportunityById_ids [of s "o_id opp"] by auto
  have rel: "scoring_rel {o_id opp} s s1"
    using sc scoring_rel_score [OF _ mem] scoring_rel_refl
    by (auto simp: effective_score_def split: option.splits)
  have st1: "map_option o_status (getOpportunityById s1 (o_id opp)) \<in> {Some (o_status opp), Some Scored}"
    using sc assms(2,3) scoreOpportunity_effect(1)
    by (auto simp: effective_score_def next_status_def split: option.splits if_splits)
  then obtain x where x: "getOpportunityById s1 (o_id opp) = Some x" "o_status x \<in> {Allocated, Pending, Scored}"
    using assms(3) by auto
  have alloc: "allocation_decisions s1 = allocation_decisions s" using rel by (simp add: scoring_rel_def)
  then have td: "turn_decision s1 = turn_decision s"
    by (intro ext) (simp add: turn_decision_def getAllocationDecisionByOpportunityId_def)
  let ?c = "gate_context ge opp (turn_decision s (o_id opp)) sc"
  have ev: "evaluateOpportunity ge opp (Some (turn_decision s (o_id opp))) (Some sc) s1 = Some (ev, s')"
    using assms(1) sc by (simp add: pipeline_turn_def turn_decision_def [symmetric] td)
  have ne: "getOpportunityById s1 (o_id opp) \<noteq> None" using x by simp
  note eff = gate_effect [OF ev ne, unfolded assms(4) default_engine]
  have nx: "next_status (o_status x) st = st" if "st \<in> {Blocked, Abstained, Deferred, Authorized}" for st
    using x(2) that by (auto simp: next_status_def)
  show ?thesis
  proof (rule that [of ?c sc])
    show "ae_verdict ev = (if blocked_by_rules ?c then V_BLOCKED else if s_confidence sc = Low then V_ABSTAIN
        else if ad_decision (turn_decision s (o_id opp)) \<noteq> ACT then V_WAIT else V_AUTHORIZED)"
      using eff(1) by (simp add: gate_context_def)
    show "getOpportunityById s' k = getOpportunityById s k" if "k \<noteq> o_id opp" for k
      using eff(4) [of k] rel that by (simp add: scoring_rel_def)
    show "map_option o_status (getOpportunityById s' (o_id opp)) =
       Some (if blocked_by_rules ?c then Blocked else if s_confidence sc = Low then Abstained
        else if ad_decision (turn_decision s (o_id opp)) \<noteq> ACT then Deferred else Authorized)"
      using eff(4) [of "o_id opp"] x nx by (simp add: gate_context_def)
    show "allocation_decisions s' = allocation_decisions s" using eff(5) alloc by simp
  qed simp
qed

fun verdict_status :: "authority_verdict \<Rightarrow> opportunity_status" where
  "verdict_status V_AUTHORIZED = Authorized"
| "verdict_status V_BLOCKED = Blocked"
| "verdict_status V_ABSTAIN = Abstained"
| "verdict_status V_WAIT = Deferred"

definition opp_killed :: "gate_env \<Rightarrow> opportunity \<Rightarrow> bool" where
  "opp_killed ge opp = isKillSwitchActive (ge_kill ge) (Some (o_tenant_id opp)) None"

definition admissible :: "gate_env \<Rightarrow> allocation_decision \<Rightarrow> opportunity \<Rightarrow> bool" where
  "admissible ge d opp \<longleftrightarrow> \<not> opp_killed ge opp \<and> o_decline_type opp \<noteq> Hard \<and>
     o_attempt_count opp < 3 \<and> ad_decision d = ACT"

definition turn_ok :: "gate_env \<Rightarrow> store \<Rightarrow> store \<Rightarrow> opportunity \<Rightarrow> authority_evaluation \<Rightarrow> bool" where
  "turn_ok ge s s' opp ev \<longleftrightarrow>
     map_option o_status (getOpportunityById s' (o_id opp)) = Some (verdict_status (ae_verdict ev)) \<and>
     (ae_verdict ev = V_AUTHORIZED \<longrightarrow> admissible ge (turn_decision s (o_id opp)) opp) \<and>
     (opp_killed ge opp \<longrightarrow> ae_verdict ev = V_BLOCKED)"

lemma turn_turn_ok:
  assumes "pipeline_turn ge opp s = Some (ev, s')" and "getOpportunityById s (o_id opp) = Some opp"
    and "o_status opp \<in> {Allocated, Pending, Scored}" and "ge_registry ge = default_registry"
  shows "turn_ok ge s s' opp ev"
proof -
  from assms obtain sc c where c: "c = gate_context ge opp (turn_decision s (o_id opp)) sc"
    "ae_verdict ev = (if blocked_by_rules c then V_BLOCKED else if s_confidence sc = Low then V_ABSTAIN
        else if ad_decision (turn_decision s (o_id opp)) \<noteq> ACT then V_WAIT else V_AUTHORIZED)"
    "map_option o_status (getOpportunityById s' (o_id opp)) =
       Some (if blocked_by_rules c then Blocked else if s_confidence sc = Low then Abstained
        else if ad_decision (turn_decision s (o_id opp)) \<noteq> ACT then Deferred else Authorized)"
    by (rule turn_effect)
  have "blocked_by_rules c \<longleftrightarrow> opp_killed ge opp \<or> o_decline_type opp = Hard \<or> 3 \<le> o_attempt_count opp"
    by (simp add: c(1) blocked_by_rules_def gate_context_def opp_killed_def or_str_def)
  with c(2,3) show ?thesis by (auto simp: turn_ok_def admissible_def)
qed

lemma loop_effect:
  assumes "pipeline_loop ge opps s = Some (evs, s')" and "distinct (map o_id opps)"
    and "\<forall>opp \<in> set opps. getOpportunityById s (o_id opp) = Some opp \<and>
           o_status opp \<in> {Allocated, Pending, Scored}"
    and "ge_registry ge = default_registry"
  shows "list_all2 (turn_ok ge s s') opps evs \<and>
     (\<forall>k. k \<notin> o_id ` set opps \<longrightarrow> getOpportunityById s' k = getOpportunityById s k)"
  using assms
proof (induction opps arbitrary: s evs)
  case (Cons opp rest)
  from Cons.prems(1) obtain ev s1 evs1 where t: "pipeline_turn ge opp s = Some (ev, s1)"
    and l: "pipeline_loop ge rest s1 = Some (evs1, s')" and evs: "evs = ev # evs1"
    by (auto split: option.splits)
  have pre: "getOpportunityById s (o_id opp) = Some opp" "o_status opp \<in> {Allocated, Pending, Scored}"
    using Cons.prems(3) by auto
  from turn_effect [OF t pre Cons.prems(4)]
  have other: "\<And>k. k \<noteq> o_id opp \<Longrightarrow> getOpportunityById s1 k = getOpportunityById s k"
    and alloc: "allocation_decisions s1 = allocation_decisions s" by metis+
  have td: "turn_decision s1 = turn_decision s"
    using alloc by (intro ext) (simp add: turn_decision_def getAllocationDecisionByOpportunityId_def)
  have ne: "o_id opp \<noteq> o_id o'" if "o' \<in> set rest" for o'
    using Cons.prems(2) that by (auto simp: image_iff)
  have ih: "list_all2 (turn_ok ge s1 s') rest evs1 \<and>
      (\<forall>k. k \<notin> o_id ` set rest \<longrightarrow> getOpportunityById s' k = getOpportunityById s1 k)"
  proof (rule Cons.IH [OF l _ _ Cons.prems(4)])
    show "\<forall>opp \<in> set rest. getOpportunityById s1 (o_id opp) = Some opp \<and>
        o_status opp \<in> {Allocated, Pending, Scored}"
      using Cons.prems(3) ne other by (metis list.set_intros(2))
  qed (use Cons.prems(2) in simp)
  have "turn_ok ge s s1 opp ev" by (rule turn_turn_ok [OF t pre Cons.prems(4)])
  moreover have "getOpportunityById s' (o_id opp) = getOpportunityById s1 (o_id opp)"
    using ih Cons.prems(2) by auto
  ultimately have "turn_ok ge s s' opp ev" by (simp add: turn_ok_def)
  moreover have "turn_ok ge s1 s' = turn_ok ge s s'" by (intro ext) (simp add: turn_ok_def td)
  ultimately show ?case using ih other evs by auto
qed simp

lemma gate_candidates_ok:
  assumes "store_ok s"
  shows "distinct (map o_id (gate_candidates opt s))"
    "\<forall>opp \<in> set (gate_candidates opt s). getOpportunityById s (o_id opp) = Some opp \<and>
       o_status opp \<in> {Allocated, Pending, Scored}"
proof -
  have "distinct (map o_id (filter P (opportunities s)))" for P
    using assms distinct_map_filter by (auto simp: store_ok_def)
  then show "distinct (map o_id (gate_candidates opt s))"
    by (simp add: gate_candidates_def getAllOpportunities_def distinct_map_filter distinct_sort_desc)
  show "\<forall>opp \<in> set (gate_candidates opt s). getOpportunityById s (o_id opp) = Some opp \<and>
       o_status opp \<in> {Allocated, Pending, Scored}"
    using assms
    by (auto simp: gate_candidates_def getOpportunityById_def store_ok_def
          dest!: getAllOpportunities_mem intro!: row_get_mem)
qed

lemma pipeline_shape:
  assumes "runAuthorityPipeline ge opt (s, p) = Some (r, s', p')"
  obtains mr s1 where "runMarketAllocation (ge_market ge) opt (s, p) = (Some mr, s1, p')"
    "pipeline_loop ge (gate_candidates opt s1) s1 = Some (pl_results r, s')"
    "pl_total_evaluated r = length (gate_candidates opt s1)"
    "pl_authorized_count r = count_verdict V_AUTHORIZED (pl_results r)"
  using assms
  by (auto simp: runAuthorityPipeline_def Let_def split: prod.splits option.splits)

text \<open>Which rows the gate sees after a market run: exactly rows the run acted on, unless
  some row was already allocated before it.\<close>

lemma resolve_environment_cong:
  "tenants s = tenants t \<Longrightarrow> resolve_environment opt s = resolve_environment opt t"
  by (auto simp: resolve_environment_def getTenant_def split: option.split)

lemma gate_sees_actions:
  assumes "store_ok s" and "op_opportunities opt = None"
    and run: "runMarketAllocation me opt (s, p) = (Some r, s', p')"
    and none: "\<forall>o' \<in> set (opportunities s). o_status o' \<noteq> Allocated"
  shows "o_id ` set (gate_candidates opt s') \<subseteq> mi_opportunity_id ` set (decided ACT (mr_items r))"
proof
  fix k
  assume "k \<in> o_id ` set (gate_candidates opt s')"
  then obtain x where x: "x \<in> set (gate_candidates opt s')" "k = o_id x" by auto
  note eff = run_effect [OF assms(1,2) run]
  have env: "resolve_environment opt s' = resolve_environment opt s"
    using run_same_rows [OF run] by (intro resolve_environment_cong) (simp add: same_rows_def)
  have gx: "getOpportunityById s' k = Some x" "o_status x \<in> {Allocated, Pending, Scored}"
    using gate_candidates_ok(2) [of s' opt] eff x by auto
  have "strip x \<in> set (map strip (opportunities s'))"
    using x(1) by (auto simp: gate_candidates_def dest!: getAllOpportunities_mem)
  then have "strip x \<in> strip ` set (opportunities s)"
    using run_same_rows [OF run] unfolding same_rows_def by simp
  then obtain y where y: "y \<in> set (opportunities s)" "strip x = strip y" by auto
  have idy: "o_id y = k" "o_tenant_id y = o_tenant_id x" "o_merchant_id y = o_merchant_id x"
    "o_environment y = o_environment x"
    using y(2) x(2) by (auto simp: strip_def dest: arg_cong [of _ _ o_id] arg_cong [of _ _ o_tenant_id]
      arg_cong [of _ _ o_merchant_id] arg_cong [of _ _ o_environment])
  have gy: "getOpportunityById s k = Some y"
    using y(1) idy(1) assms(1) row_get_mem [of o_id "opportunities s" y]
    by (simp add: getOpportunityById_def store_ok_def)
  have "k \<in> mi_opportunity_id ` set (mr_items r)"
  proof (rule ccontr)
    assume k: "k \<notin> mi_opportunity_id ` set (mr_items r)"
    then have "x = y" using eff gx gy by auto
    then have "y \<in> set (candidate_opportunities opt s)"
      using x(1) y(1) none assms(2) env gx(2)
      by (auto simp: candidate_opportunities_def gate_candidates_def getAllOpportunities_def)
    then have "k \<in> set_mset (image_mset o_id (mset (candidate_opportunities opt s)))"
      using idy(1) by auto
    then show False
      using k run_feasible [OF run] by (metis (no_types, lifting) set_image_mset set_mset_mset)
  qed
  then obtain i where i: "i \<in> set (mr_items r)" "k = mi_opportunity_id i" by auto
  then have "o_status x = decision_status (mi_decision i)" using eff gx by force
  then have "mi_decision i = ACT" using gx(2) by (cases "mi_decision i") auto
  then show "k \<in> mi_opportunity_id ` set (decided ACT (mr_items r))" using i by auto
qed

section \<open>Properties\<close>

text \<open>
  C28. The rule engine refines its specification for every set of registered rules: the
  verdict is the highest severity among the failed rules (BLOCKED above ABSTAIN above
  WAIT), whatever the priorities and the order of registration, and every rule leaves
  exactly one check with its result, in priority order.
\<close>

theorem engine_refines_max_severity:
  "severity (en_verdict (registry_evaluate rules ctx)) = Max (insert 0 (failed_severity ctx ` set rules)) \<and>
   en_checks (registry_evaluate rules ctx) = map (check_of ctx) (getActiveRules rules) \<and>
   mset (getActiveRules rules) = mset rules \<and> sorted (map ru_priority (getActiveRules rules))"
  using registry_verdict registry_checks by (auto simp: getActiveRules_def)

text \<open>
  The default engine in closed form, for every input: the first three conditions block,
  then low confidence abstains, then a missing ACT waits.
\<close>

lemma default_verdict:
  assumes "ge_registry ge = default_registry" and "getOpportunityById s (o_id opp) \<noteq> None"
  obtains ev s' where "evaluateOpportunity ge opp (Some d) (Some sc) s = Some (ev, s')"
    "ae_verdict ev =
       (if opp_killed ge opp \<or> o_decline_type opp = Hard \<or> 3 \<le> o_attempt_count opp then V_BLOCKED
        else if s_confidence sc = Low then V_ABSTAIN
        else if ad_decision d \<noteq> ACT then V_WAIT else V_AUTHORIZED)"
proof -
  obtain ev s' where ev: "evaluateOpportunity ge opp (Some d) (Some sc) s = Some (ev, s')"
    using evaluate_given [OF assms(2), of ge d sc] by blast
  have "blocked_by_rules (gate_context ge opp d sc) \<longleftrightarrow>
      opp_killed ge opp \<or> o_decline_type opp = Hard \<or> 3 \<le> o_attempt_count opp"
    by (simp add: blocked_by_rules_def gate_context_def opp_killed_def or_str_def)
  with gate_effect(1) [OF ev assms(2), unfolded assms(1) default_engine]
  show ?thesis by (intro that [OF ev]) (simp add: gate_context_def)
qed

text \<open>
  C4. What the gate authorises, with the default rules and a decision and score at hand:
  every evaluation returns a verdict; an authorised opportunity has no kill switch on for
  its tenant, a decline that is not hard, fewer than three attempts, a confidence that is
  not low and the market's ACT; an active kill switch and more than three attempts always
  block (the code blocks from three attempts on, see \<open>default_verdict\<close>; the comment of the
  rule reads \<^verbatim>\<open><= 3\<close>).  For a decline that is not hard and a first contact (at most one
  attempt) the verdict is exact: BLOCKED if and only if killed, else ABSTAIN if and only if
  the confidence is low, else WAIT if and only if the market did not decide ACT, and
  otherwise AUTHORIZED.  In two cases left out here the code and the documentation part:
  the README has a hard decline
  ABSTAIN where the code answers BLOCKED (\<open>hard_decline_blocked\<close>), and names a contact
  fatigue limit that no rule of the gate implements (\<open>no_fatigue_rule\<close>).
\<close>

theorem gate_verdict_exact:
  assumes "ge_registry ge = default_registry" and "getOpportunityById s (o_id opp) \<noteq> None"
  shows "\<exists>ev s'. evaluateOpportunity ge opp (Some d) (Some sc) s = Some (ev, s') \<and>
     (ae_verdict ev = V_AUTHORIZED \<longrightarrow> admissible ge d opp \<and> s_confidence sc \<noteq> Low) \<and>
     (opp_killed ge opp \<or> 3 < o_attempt_count opp \<longrightarrow> ae_verdict ev = V_BLOCKED) \<and>
     (o_decline_type opp \<noteq> Hard \<and> o_attempt_count opp \<le> 1 \<longrightarrow>
        (ae_verdict ev = V_BLOCKED \<longleftrightarrow> opp_killed ge opp) \<and>
        (ae_verdict ev = V_ABSTAIN \<longleftrightarrow> \<not> opp_killed ge opp \<and> s_confidence sc = Low) \<and>
        (ae_verdict ev = V_WAIT \<longleftrightarrow> \<not> opp_killed ge opp \<and> s_confidence sc \<noteq> Low \<and> ad_decision d \<noteq> ACT) \<and>
        (ae_verdict ev = V_AUTHORIZED \<longleftrightarrow> admissible ge d opp \<and> s_confidence sc \<noteq> Low))"
proof -
  obtain ev s' where "evaluateOpportunity ge opp (Some d) (Some sc) s = Some (ev, s')"
    "ae_verdict ev =
       (if opp_killed ge opp \<or> o_decline_type opp = Hard \<or> 3 \<le> o_attempt_count opp then V_BLOCKED
        else if s_confidence sc = Low then V_ABSTAIN
        else if ad_decision d \<noteq> ACT then V_WAIT else V_AUTHORIZED)"
    using default_verdict [OF assms] by blast
  then show ?thesis by (auto simp: admissible_def)
qed

definition sample_gate_env :: gate_env where
  "sample_gate_env = \<lparr>ge_market = sample_market_env, ge_kill = resetAllKillSwitches,
     ge_registry = default_registry, ge_date_ms = (\<lambda>_. None)\<rparr>"

lemma sample_market_get:
  "getOpportunityById sample_market_store ''b'' = Some (sample_opportunity ''b'' ''expired_card'' Soft 9000)"
  by (simp add: getOpportunityById_def row_get_def sample_market_store_def)

theorem gate_verdict_exact_witness:
  "\<exists>ev s'. evaluateOpportunity sample_gate_env (sample_opportunity ''b'' ''expired_card'' Soft 9000)
      (Some ((unallocated ''b'' ''x'')\<lparr>ad_decision := ACT\<rparr>)) (Some (sample_score_row ''b'' 900))
      sample_market_store = Some (ev, s') \<and> ae_verdict ev = V_AUTHORIZED"
proof -
  have "ge_registry sample_gate_env = default_registry" by (simp add: sample_gate_env_def)
  from gate_verdict_exact [OF this, of sample_market_store "sample_opportunity ''b'' ''expired_card'' Soft 9000"
      "(unallocated ''b'' ''x'')\<lparr>ad_decision := ACT\<rparr>" "sample_score_row ''b'' 900"]
  show ?thesis
    by (auto simp: sample_market_get admissible_def opp_killed_def sample_gate_env_def
          resetAllKillSwitches_def isKillSwitchActive_def sample_opportunity_def sample_score_row_def)
qed

text \<open>
  A hard decline is BLOCKED, whatever else holds: the hard decline rule answers BLOCKED,
  where the README's list of the gate's checks says a hard decline is an immediate ABSTAIN.
\<close>

theorem hard_decline_blocked:
  assumes "ge_registry ge = default_registry" and "getOpportunityById s (o_id opp) \<noteq> None"
    and "o_decline_type opp = Hard"
  shows "\<exists>ev s'. evaluateOpportunity ge opp (Some d) (Some sc) s = Some (ev, s') \<and> ae_verdict ev = V_BLOCKED"
  by (rule default_verdict [OF assms(1,2), of d sc]) (use assms(3) in auto)

text \<open>
  Besides the retry ceiling the gate has no contact fatigue rule, although the README and
  the project document list fatigue limits beside the ceiling: below it the number of attempts already made does not change the
  verdict, so a second contact is authorised exactly as a first one.  (The cost of fatigue
  enters the score, and through it the market's decision.)
\<close>

theorem no_fatigue_rule:
  assumes "ge_registry ge = default_registry" and "getOpportunityById s (o_id opp) \<noteq> None"
    and "o_attempt_count opp \<le> 2" and "n \<le> 2"
  shows "\<exists>ev s' ev' s''. evaluateOpportunity ge opp (Some d) (Some sc) s = Some (ev, s') \<and>
     evaluateOpportunity ge (opp\<lparr>o_attempt_count := n\<rparr>) (Some d) (Some sc) s = Some (ev', s'') \<and>
     ae_verdict ev' = ae_verdict ev"
proof -
  let ?o = "opp\<lparr>o_attempt_count := n\<rparr>"
  obtain ev s' where "evaluateOpportunity ge opp (Some d) (Some sc) s = Some (ev, s')"
    "ae_verdict ev = (if opp_killed ge opp \<or> o_decline_type opp = Hard \<or> 3 \<le> o_attempt_count opp then V_BLOCKED
        else if s_confidence sc = Low then V_ABSTAIN
        else if ad_decision d \<noteq> ACT then V_WAIT else V_AUTHORIZED)"
    using default_verdict [OF assms(1,2)] by blast
  moreover obtain ev' s'' where "evaluateOpportunity ge ?o (Some d) (Some sc) s = Some (ev', s'')"
    "ae_verdict ev' = (if opp_killed ge ?o \<or> o_decline_type ?o = Hard \<or> 3 \<le> o_attempt_count ?o then V_BLOCKED
        else if s_confidence sc = Low then V_ABSTAIN
        else if ad_decision d \<noteq> ACT then V_WAIT else V_AUTHORIZED)"
    using default_verdict [OF assms(1), of s ?o d sc] assms(2) by (metis opportunity.select_convs(1) opportunity.update_convs opportunity.surjective)
  ultimately show ?thesis using assms(3,4) by (auto simp: opp_killed_def)
qed

text \<open>
  The audit trail is complete and current: after an evaluation the stored checks of
  the opportunity are exactly the ones of this evaluation, one per registered rule; the
  checks, rows and decisions of every other opportunity are untouched, and the store
  invariant is kept.
\<close>

theorem gate_audit_trail:
  assumes "evaluateOpportunity ge opp (Some d) (Some sc) s = Some (ev, s')"
    and "getOpportunityById s (o_id opp) \<noteq> None"
  shows "getAuthorityChecksByOpportunityId s' (o_id opp) = ae_checks ev \<and>
     map ac_check_name (ae_checks ev) = map ru_id (getActiveRules (ge_registry ge)) \<and>
     (\<forall>k. k \<noteq> o_id opp \<longrightarrow>
        getAuthorityChecksByOpportunityId s' k = getAuthorityChecksByOpportunityId s k \<and>
        getOpportunityById s' k = getOpportunityById s k) \<and>
     allocation_decisions s' = allocation_decisions s \<and> (store_ok s \<longrightarrow> store_ok s')"
  using gate_effect [OF assms] by (simp add: registry_checks check_of_def o_def)

theorem gate_audit_trail_witness:
  "\<exists>ev s'. evaluateOpportunity sample_gate_env (sample_opportunity ''b'' ''expired_card'' Soft 9000)
      (Some (unallocated ''b'' ''x'')) (Some (sample_score_row ''b'' 900)) sample_market_store = Some (ev, s') \<and>
     length (getAuthorityChecksByOpportunityId s' ''b'') = 5"
proof -
  let ?o = "sample_opportunity ''b'' ''expired_card'' Soft 9000"
  have ne: "getOpportunityById sample_market_store (o_id ?o) \<noteq> None" by (simp add: sample_market_get)
  obtain ev s' where ev: "evaluateOpportunity sample_gate_env ?o
      (Some (unallocated ''b'' ''x'')) (Some (sample_score_row ''b'' 900)) sample_market_store = Some (ev, s')"
    using evaluate_given [OF ne] by blast
  have "map ac_check_name (ae_checks ev) = map ru_id (getActiveRules (ge_registry sample_gate_env))"
    and g: "getAuthorityChecksByOpportunityId s' (o_id ?o) = ae_checks ev"
    using gate_audit_trail [OF ev ne] by auto
  then have "length (ae_checks ev) = length (getActiveRules (ge_registry sample_gate_env))"
    by (metis length_map)
  with ev g show ?thesis by (simp add: sample_gate_env_def default_rules)
qed

text \<open>
  C17. The kill switch stops the whole pipeline: while the global switch is on, a run of
  market and gate authorises nothing, every evaluated opportunity ends up blocked, and
  no row becomes authorized that was not authorized before.
\<close>

theorem kill_switch_stops_pipeline:
  assumes "store_ok s" and "op_opportunities opt = None" and "ge_registry ge = default_registry"
    and "ks_global (ge_kill ge)" and "runAuthorityPipeline ge opt (s, p) = Some (r, s', p')"
  shows "pl_authorized_count r = 0 \<and>
     (\<forall>ev \<in> set (pl_results r). ae_verdict ev = V_BLOCKED) \<and>
     (\<forall>k x. getOpportunityById s' k = Some x \<and> o_status x = Authorized \<longrightarrow>
        getOpportunityById s k = Some x)"
proof -
  from assms(5) obtain mr s1 where sh:
    "runMarketAllocation (ge_market ge) opt (s, p) = (Some mr, s1, p')"
    "pipeline_loop ge (gate_candidates opt s1) s1 = Some (pl_results r, s')"
    "pl_authorized_count r = count_verdict V_AUTHORIZED (pl_results r)"
    by (rule pipeline_shape)
  note eff = run_effect [OF assms(1,2) sh(1)]
  then have ok: "store_ok s1" by simp
  note loop = loop_effect [OF sh(2) gate_candidates_ok [OF ok] assms(3)]
  have killed: "opp_killed ge opp" for opp
    using assms(4) by (simp add: opp_killed_def isKillSwitchActive_def)
  have blocked: "ae_verdict ev = V_BLOCKED" if "ev \<in> set (pl_results r)" for ev
    using loop that killed by (fastforce simp: turn_ok_def list_all2_conv_all_nth in_set_conv_nth)
  have "getOpportunityById s k = Some x"
    if x: "getOpportunityById s' k = Some x" "o_status x = Authorized" for k x
  proof (cases "k \<in> o_id ` set (gate_candidates opt s1)")
    case True
    then obtain n where n: "n < length (gate_candidates opt s1)" "k = o_id (gate_candidates opt s1 ! n)"
      by (auto simp: in_set_conv_nth)
    with loop have "turn_ok ge s1 s' (gate_candidates opt s1 ! n) (pl_results r ! n)"
      "n < length (pl_results r)" by (auto simp: list_all2_conv_all_nth)
    then show ?thesis using x n blocked [of "pl_results r ! n"] by (auto simp: turn_ok_def)
  next
    case False
    then have g1: "getOpportunityById s1 k = Some x" using loop x by auto
    have "k \<notin> mi_opportunity_id ` set (mr_items mr)"
    proof
      assume "k \<in> mi_opportunity_id ` set (mr_items mr)"
      then obtain i where "i \<in> set (mr_items mr)" "k = mi_opportunity_id i" by auto
      then have "o_status x = decision_status (mi_decision i)" using eff g1 by force
      then show False using x(2) by (cases "mi_decision i") auto
    qed
    with eff g1 show ?thesis by auto
  qed
  with blocked sh(3) show ?thesis by (auto simp: count_verdict_def filter_empty_conv)
qed

lemma pipeline_total:
  assumes "runAuthorityPipeline ge opt (s, p) = Some (r, s', p')"
    and "store_ok s" and "op_opportunities opt = None" and "ge_registry ge = default_registry"
  shows "pl_authorized_count r \<le> pl_total_evaluated r"
proof -
  from assms(1) obtain mr s1 where sh:
    "runMarketAllocation (ge_market ge) opt (s, p) = (Some mr, s1, p')"
    "pipeline_loop ge (gate_candidates opt s1) s1 = Some (pl_results r, s')"
    "pl_total_evaluated r = length (gate_candidates opt s1)"
    "pl_authorized_count r = count_verdict V_AUTHORIZED (pl_results r)"
    by (rule pipeline_shape)
  have "store_ok s1" using run_effect [OF assms(2,3) sh(1)] by simp
  then have "length (pl_results r) = length (gate_candidates opt s1)"
    using loop_effect [OF sh(2) gate_candidates_ok assms(4)] by (auto dest: list_all2_lengthD)
  then show ?thesis unfolding sh(3,4) count_verdict_def by (metis length_filter_le)
qed

text \<open>
  Market and gate together respect the capacity: a pipeline run that starts with no
  allocated row evaluates, and so authorises, at most as many opportunities as the
  capacity resolved for the run.
\<close>

theorem pipeline_within_capacity:
  assumes "store_ok s" and "op_opportunities opt = None" and "ge_registry ge = default_registry"
    and "\<forall>o' \<in> set (opportunities s). o_status o' \<noteq> Allocated"
    and "runAuthorityPipeline ge opt (s, p) = Some (r, s', p')"
  shows "pl_authorized_count r \<le> pl_total_evaluated r \<and>
     int (pl_total_evaluated r) \<le> max 0 (resolve_capacity (ge_market ge) opt s)"
proof -
  from assms(5) obtain mr s1 where sh:
    "runMarketAllocation (ge_market ge) opt (s, p) = (Some mr, s1, p')"
    "pl_total_evaluated r = length (gate_candidates opt s1)"
    by (rule pipeline_shape)
  have ok: "store_ok s1" using run_effect [OF assms(1,2) sh(1)] by simp
  have cap: "mr_capacity mr = resolve_capacity (ge_market ge) opt s"
    using sh(1) by (rule run_shape)
  have "length (gate_candidates opt s1) = card (o_id ` set (gate_candidates opt s1))"
    using gate_candidates_ok(1) [OF ok, of opt] distinct_card by fastforce
  also have "\<dots> \<le> card (mi_opportunity_id ` set (decided ACT (mr_items mr)))"
    by (intro card_mono gate_sees_actions [OF assms(1,2) sh(1) assms(4)]) simp
  also have "\<dots> \<le> length (decided ACT (mr_items mr))"
    by (metis card_length length_map set_map)
  finally have "int (length (gate_candidates opt s1)) \<le> max 0 (mr_accepted_count mr)"
    using run_feasible [OF sh(1)] by linarith
  then have "int (pl_total_evaluated r) \<le> max 0 (resolve_capacity (ge_market ge) opt s)"
    using run_feasible [OF sh(1)] sh(2) cap by linarith
  with pipeline_total [OF assms(5,1,2,3)] show ?thesis by simp
qed

section \<open>A concrete pipeline run\<close>

lemma evaluate_scores:
  "\<exists>ev s'. evaluateOpportunity ge opp (Some d) (Some sc) s = Some (ev, s') \<and> scores s' = scores s"
proof -
  have "scores (insertAuthorityCheck now c t) = scores t" for now c t
    by (simp add: insertAuthorityCheck_def ensureOpportunity_def putOpportunity_def Let_def)
  then have "scores (fold (insertAuthorityCheck now) cs t) = scores t" for now cs t
    by (induction cs arbitrary: t) auto
  then show ?thesis by (simp add: evaluateOpportunity_def effective_score_def Let_def)
qed

lemma pipeline_loop_total:
  "\<forall>opp \<in> set opps. getScoreByOpportunityId s (o_id opp) \<noteq> None \<Longrightarrow> \<exists>evs s'. pipeline_loop ge opps s = Some (evs, s')"
proof (induction opps arbitrary: s)
  case (Cons opp rest)
  then obtain sc where sc: "getScoreByOpportunityId s (o_id opp) = Some sc" by auto
  obtain ev s1 where "evaluateOpportunity ge opp (Some (turn_decision s (o_id opp))) (Some sc) s = Some (ev, s1)"
    "scores s1 = scores s"
    using evaluate_scores by blast
  then have t: "pipeline_turn ge opp s = Some (ev, s1)" "scores s1 = scores s"
    using sc by (simp_all add: pipeline_turn_def effective_score_def turn_decision_def)
  have "\<exists>evs s'. pipeline_loop ge rest s1 = Some (evs, s')"
    using Cons t(2) by (intro Cons.IH) (auto simp: getScoreByOpportunityId_def)
  with t show ?case by auto
qed simp

lemma scores_fold_commit: "scores (fold commit_item is s) = scores s"
  by (induction "is" arbitrary: s) (auto simp: commit_item_def)

lemma sample_pipeline_run:
  assumes "ge_market ge = sample_market_env"
  shows "\<exists>r s' p'. runAuthorityPipeline ge sample_market_options (sample_market_store, new_pacer) = Some (r, s', p')"
proof -
  obtain mr s1 p1 where run: "runMarketAllocation sample_market_env sample_market_options
      (sample_market_store, new_pacer) = (Some mr, s1, p1)"
    by (rule sample_market_run)
  then have "core s1 = core (fold commit_item (mr_items mr) sample_market_store)"
    using sample_score_all by (elim run_shape) simp
  then have sc: "scores s1 = scores sample_market_store" by (simp add: core_def scores_fold_commit)
  have "o_id o' \<in> {''a'', ''b''}" if "o' \<in> set (gate_candidates sample_market_options s1)" for o'
  proof -
    have "strip o' \<in> strip ` set (opportunities sample_market_store)"
      using that run_same_rows [OF run] unfolding same_rows_def
      by (metis (no_types, lifting) filter_is_subset gate_candidates_def getAllOpportunities_mem image_eqI
          set_map subsetD)
    then obtain y where "y \<in> set (opportunities sample_market_store)" "strip o' = strip y" by auto
    then show ?thesis
      by (auto simp: sample_market_store_def strip_def dest: arg_cong [of _ _ o_id])
  qed
  then have "\<forall>o' \<in> set (gate_candidates sample_market_options s1). getScoreByOpportunityId s1 (o_id o') \<noteq> None"
    using sample_market_scores sc unfolding getScoreByOpportunityId_def
    by (metis insertE option.distinct(1) singletonD)
  then obtain evs s' where "pipeline_loop ge (gate_candidates sample_market_options s1) s1 = Some (evs, s')"
    using pipeline_loop_total by blast
  with run assms show ?thesis by (simp add: runAuthorityPipeline_def Let_def)
qed

theorem kill_switch_stops_pipeline_witness:
  "\<exists>r s' p'. runAuthorityPipeline (sample_gate_env\<lparr>ge_kill := setKillSwitch True resetAllKillSwitches\<rparr>)
      sample_market_options (sample_market_store, new_pacer) = Some (r, s', p') \<and> pl_authorized_count r = 0"
proof -
  let ?ge = "sample_gate_env\<lparr>ge_kill := setKillSwitch True resetAllKillSwitches\<rparr>"
  obtain r s' p' where run: "runAuthorityPipeline ?ge sample_market_options
      (sample_market_store, new_pacer) = Some (r, s', p')"
    using sample_pipeline_run [of ?ge] by (auto simp: sample_gate_env_def)
  have "op_opportunities sample_market_options = None" by (simp add: sample_market_options_def)
  from kill_switch_stops_pipeline [OF sample_market_ok this _ _ run] run show ?thesis
    by (auto simp: sample_gate_env_def setKillSwitch_def)
qed

theorem pipeline_within_capacity_witness:
  "\<exists>r s' p'. runAuthorityPipeline sample_gate_env sample_market_options
      (sample_market_store, new_pacer) = Some (r, s', p') \<and> pl_authorized_count r \<le> 1"
proof -
  obtain r s' p' where run: "runAuthorityPipeline sample_gate_env sample_market_options
      (sample_market_store, new_pacer) = Some (r, s', p')"
    using sample_pipeline_run [of sample_gate_env] by (auto simp: sample_gate_env_def)
  have o: "op_opportunities sample_market_options = None" by (simp add: sample_market_options_def)
  have n: "\<forall>o' \<in> set (opportunities sample_market_store). o_status o' \<noteq> Allocated"
    by (simp add: sample_market_store_def sample_opportunity_def)
  have c: "resolve_capacity (ge_market sample_gate_env) sample_market_options sample_market_store = 1"
    by (simp add: resolve_capacity_def sample_market_options_def Let_def)
  from pipeline_within_capacity [OF sample_market_ok o _ n run] c run show ?thesis
    by (auto simp: sample_gate_env_def)
qed

end
