(* ===== verification/Resilience.thy ===== *)
theory Resilience
  imports JS_Number
begin

text \<open>
  Protection of the calls to the provider: the circuit breaker with its retry loop
  (\<^verbatim>\<open>src/execution/circuit_breaker.ts\<close>), the token bucket
  (\<^verbatim>\<open>src/execution/rate_limiter.ts\<close>) and the sliding-window limiter in its in-memory form
  (\<^verbatim>\<open>src/cache/rate_limiter.ts\<close>).  The clock and \<^verbatim>\<open>Math.random\<close> are arguments, and what the
  protected operation does on its \<open>n\<close>-th attempt (a timeout is a failure) is the argument
  \<open>op\<close>.
\<close>

section \<open>The circuit breaker\<close>

datatype circuit_state = CLOSED | OPEN | HALF_OPEN

record breaker_config =
  bc_failureThreshold :: nat
  bc_cooldownMs :: int
  bc_maxRetries :: nat

definition default_breaker_config :: breaker_config where
  "default_breaker_config = \<lparr>bc_failureThreshold = 5, bc_cooldownMs = 30000, bc_maxRetries = 5\<rparr>"

record saved_state =
  sv_state :: circuit_state
  sv_failureCount :: nat
  sv_lastFailureTime :: int
  sv_expires :: int

record breaker =
  bk_state :: circuit_state
  bk_failureCount :: nat
  bk_successCount :: nat
  bk_lastFailureTime :: int
  bk_lastStateChange :: int
  bk_saved :: "saved_state option"

definition new_breaker :: "int \<Rightarrow> saved_state option \<Rightarrow> breaker" where
  "new_breaker now saved = \<lparr>bk_state = CLOSED, bk_failureCount = 0, bk_successCount = 0,
     bk_lastFailureTime = 0, bk_lastStateChange = now, bk_saved = saved\<rparr>"

text \<open>An expired entry of the cache is absent.\<close>

definition loadPersistedState :: "int \<Rightarrow> breaker \<Rightarrow> breaker" where
  "loadPersistedState now b =
     (case bk_saved b of
        None \<Rightarrow> b
      | Some v \<Rightarrow>
          if sv_expires v < now then b
          else b\<lparr>bk_state := sv_state v, bk_failureCount := sv_failureCount v,
                 bk_lastFailureTime := sv_lastFailureTime v\<rparr>)"

definition persistState :: "breaker_config \<Rightarrow> int \<Rightarrow> breaker \<Rightarrow> breaker" where
  "persistState cfg now b =
     b\<lparr>bk_saved := Some \<lparr>sv_state = bk_state b, sv_failureCount = bk_failureCount b,
          sv_lastFailureTime = bk_lastFailureTime b,
          sv_expires = now + (bc_cooldownMs cfg + 999) div 1000 * 2 * 1000\<rparr>\<rparr>"

definition checkCooldown :: "breaker_config \<Rightarrow> int \<Rightarrow> breaker \<Rightarrow> breaker" where
  "checkCooldown cfg now b =
     (if bk_state b = OPEN \<and> bc_cooldownMs cfg \<le> now - bk_lastFailureTime b
      then persistState cfg now (b\<lparr>bk_state := HALF_OPEN, bk_lastStateChange := now\<rparr>)
      else b)"

definition recordSuccess :: "breaker_config \<Rightarrow> int \<Rightarrow> breaker \<Rightarrow> breaker" where
  "recordSuccess cfg now b =
     (let b1 = b\<lparr>bk_failureCount := 0, bk_successCount := bk_successCount b + 1\<rparr>
      in if bk_state b1 = HALF_OPEN
         then persistState cfg now (b1\<lparr>bk_state := CLOSED, bk_lastStateChange := now\<rparr>)
         else b1)"

definition recordFailure :: "breaker_config \<Rightarrow> int \<Rightarrow> breaker \<Rightarrow> breaker" where
  "recordFailure cfg now b =
     (let b1 = b\<lparr>bk_failureCount := bk_failureCount b + 1, bk_lastFailureTime := now\<rparr>;
          b2 = (if bk_state b1 = HALF_OPEN \<or> bc_failureThreshold cfg \<le> bk_failureCount b1
                then b1\<lparr>bk_state := OPEN, bk_lastStateChange := now\<rparr> else b1)
      in persistState cfg now b2)"

definition reset :: "int \<Rightarrow> breaker \<Rightarrow> breaker" where
  "reset now b = b\<lparr>bk_state := CLOSED, bk_failureCount := 0, bk_successCount := 0,
     bk_lastFailureTime := 0, bk_lastStateChange := now\<rparr>"

section \<open>The retry loop\<close>

record attempt_error =
  ax_statusCode :: "int option"
  ax_description :: "string option"
  ax_code :: "string option"
  ax_message :: string

datatype 'a attempt = Success 'a | Failed attempt_error

definition isRateLimitOrClientError :: "attempt_error \<Rightarrow> bool" where
  "isRateLimitOrClientError e \<longleftrightarrow> ax_statusCode e = Some 429 \<or> ax_statusCode e = Some 400 \<or>
     (case ax_description e of None \<Rightarrow> False | Some d \<Rightarrow> includes_str d ''Too many requests'') \<or>
     ax_code e = Some ''BAD_REQUEST_ERROR''"

definition totalDelayMs :: "rat \<Rightarrow> nat \<Rightarrow> int" where
  "totalDelayMs random attempt =
     (let baseDelayMs = 2 ^ (attempt - 1) * 1000;
          jitterMs = \<lfloor>fmul random (fmul (of_int baseDelayMs) (lit 3 1))\<rfloor>
      in min (baseDelayMs + jitterMs) 8000)"

record 'a loop_result =
  lr_value :: "'a option"
  lr_error :: "attempt_error option"
  lr_attempts :: nat
  lr_delays :: "int list"

function attempt_loop ::
  "(nat \<Rightarrow> 'a attempt) \<Rightarrow> (nat \<Rightarrow> rat) \<Rightarrow> nat \<Rightarrow> nat \<Rightarrow> attempt_error option \<Rightarrow> 'a loop_result" where
  "attempt_loop op random maxRetries attempt lastError =
     (if maxRetries < attempt then \<lparr>lr_value = None, lr_error = lastError, lr_attempts = 0, lr_delays = []\<rparr>
      else (case op attempt of
              Success v \<Rightarrow> \<lparr>lr_value = Some v, lr_error = lastError, lr_attempts = 1, lr_delays = []\<rparr>
            | Failed e \<Rightarrow>
                if attempt = maxRetries \<or> isRateLimitOrClientError e
                then \<lparr>lr_value = None, lr_error = Some e, lr_attempts = 1, lr_delays = []\<rparr>
                else let r = attempt_loop op random maxRetries (attempt + 1) (Some e)
                     in r\<lparr>lr_attempts := lr_attempts r + 1,
                          lr_delays := totalDelayMs (random attempt) attempt # lr_delays r\<rparr>))"
  by pat_completeness auto
termination
  by (relation "measure (\<lambda>(op, random, maxRetries, attempt, lastError). maxRetries + 1 - attempt)") auto

declare attempt_loop.simps [simp del]

datatype 'a resilience_result =
    Value 'a
  | SuspendedError
  | LastError "attempt_error option"

definition executeWithResilience ::
  "breaker_config \<Rightarrow> int \<Rightarrow> int \<Rightarrow> (nat \<Rightarrow> rat) \<Rightarrow> (nat \<Rightarrow> 'a attempt) \<Rightarrow> breaker \<Rightarrow>
   'a resilience_result \<times> nat \<times> breaker" where
  "executeWithResilience cfg started ended random op b =
     (let b1 = checkCooldown cfg started b
      in if bk_state b1 = OPEN then (SuspendedError, 0, b1)
         else let r = attempt_loop op random (bc_maxRetries cfg) 1 None
              in (case lr_value r of
                    Some v \<Rightarrow> (Value v, lr_attempts r, recordSuccess cfg ended b1)
                  | None \<Rightarrow> (LastError (lr_error r), lr_attempts r, recordFailure cfg ended b1)))"

section \<open>The token bucket\<close>

record token_bucket =
  tb_capacity :: rat
  tb_refillRatePerSecond :: rat
  tb_tokens :: rat
  tb_lastRefillTimestamp :: int

definition new_bucket :: "int \<Rightarrow> rat \<Rightarrow> rat \<Rightarrow> token_bucket" where
  "new_bucket now capacity rate =
     \<lparr>tb_capacity = capacity, tb_refillRatePerSecond = rate, tb_tokens = capacity, tb_lastRefillTimestamp = now\<rparr>"

definition refill :: "int \<Rightarrow> token_bucket \<Rightarrow> token_bucket" where
  "refill now t =
     (let elapsedSeconds = fdiv (of_int (now - tb_lastRefillTimestamp t)) 1000;
          tokensToAdd = fmul elapsedSeconds (tb_refillRatePerSecond t)
      in if 0 < tokensToAdd
         then t\<lparr>tb_tokens := min (tb_capacity t) (fadd (tb_tokens t) tokensToAdd), tb_lastRefillTimestamp := now\<rparr>
         else t)"

definition tryConsume :: "int \<Rightarrow> rat \<Rightarrow> token_bucket \<Rightarrow> bool \<times> token_bucket" where
  "tryConsume now tokens t =
     (let t1 = refill now t
      in if tokens \<le> tb_tokens t1 then (True, t1\<lparr>tb_tokens := fsub (tb_tokens t1) tokens\<rparr>) else (False, t1))"

definition getAvailableTokens :: "int \<Rightarrow> token_bucket \<Rightarrow> int \<times> token_bucket" where
  "getAvailableTokens now t = (let t1 = refill now t in (\<lfloor>tb_tokens t1\<rfloor>, t1))"

definition reset_bucket :: "int \<Rightarrow> token_bucket \<Rightarrow> token_bucket" where
  "reset_bucket now t = t\<lparr>tb_tokens := tb_capacity t, tb_lastRefillTimestamp := now\<rparr>"

section \<open>The sliding window\<close>

type_synonym buckets = "string \<Rightarrow> int list"

record rate_limit_result =
  rl_allowed :: bool
  rl_remaining :: int
  rl_resetSeconds :: int

definition checkLimit :: "int \<Rightarrow> string \<Rightarrow> int \<Rightarrow> int \<Rightarrow> buckets \<Rightarrow> rate_limit_result \<times> buckets" where
  "checkLimit now key maxRequests windowSeconds b =
     (let windowMs = windowSeconds * 1000;
          timestamps = filter (\<lambda>t. now - windowMs < t) (b key)
      in if maxRequests \<le> int (length timestamps)
         then let oldest = (case timestamps of [] \<Rightarrow> now | t # _ \<Rightarrow> t)
              in (\<lparr>rl_allowed = False, rl_remaining = 0,
                   rl_resetSeconds = max 1 (- ((- (oldest + windowMs - now)) div 1000))\<rparr>, b)
         else (\<lparr>rl_allowed = True, rl_remaining = maxRequests - int (length timestamps + 1),
                rl_resetSeconds = windowSeconds\<rparr>, b(key := timestamps @ [now])))"

definition clear_limits :: "buckets \<Rightarrow> buckets" where
  "clear_limits b = (\<lambda>_. [])"

section \<open>Lemmas\<close>

lemma attempt_loop_bounds:
  assumes "attempt \<le> Suc maxRetries"
  shows "lr_attempts (attempt_loop op random maxRetries attempt le) \<le> Suc maxRetries - attempt \<and>
     length (lr_delays (attempt_loop op random maxRetries attempt le)) \<le> maxRetries - attempt"
  using assms
proof (induction op random maxRetries attempt le rule: attempt_loop.induct)
  case (1 op random maxRetries attempt le)
  show ?case
    using "1.IH" "1.prems"
    by (subst (1 2) attempt_loop.simps) (fastforce simp: Let_def split: attempt.split)
qed

lemma attempt_loop_some:
  assumes "attempt \<le> maxRetries"
  shows "0 < lr_attempts (attempt_loop op random maxRetries attempt le)"
  using assms by (subst attempt_loop.simps) (auto simp: Let_def split: attempt.split)

lemma totalDelay_bounds:
  assumes "0 \<le> random"
  shows "min (2 ^ (attempt - 1) * 1000) 8000 \<le> totalDelayMs random attempt \<and> totalDelayMs random attempt \<le> 8000"
proof -
  have "0 \<le> fmul random (fmul (of_int (2 ^ (attempt - 1) * 1000)) (lit 3 1))"
    using assms by (intro fmul_nonneg lit_nonneg) simp_all
  then have "0 \<le> \<lfloor>fmul random (fmul (of_int (2 ^ (attempt - 1) * 1000)) (lit 3 1))\<rfloor>" by simp
  then show ?thesis unfolding totalDelayMs_def Let_def by linarith
qed

lemma attempt_loop_delays:
  assumes "\<forall>n. 0 \<le> random n" and "d \<in> set (lr_delays (attempt_loop op random maxRetries attempt le))"
    and "1 \<le> attempt"
  shows "1000 \<le> d \<and> d \<le> 8000"
  using assms
proof (induction op random maxRetries attempt le rule: attempt_loop.induct)
  case (1 op random maxRetries attempt le)
  have "1000 \<le> min (2 ^ (attempt - 1) * 1000) (8000 :: int)" by simp
  with totalDelay_bounds [of "random attempt" attempt] "1.prems"(1)
  have "1000 \<le> totalDelayMs (random attempt) attempt \<and> totalDelayMs (random attempt) attempt \<le> 8000"
    by (meson order_trans)
  then show ?case
    using "1.prems"(2) "1.IH" "1.prems"(1,3)
    by (subst (asm) attempt_loop.simps) (auto simp: Let_def split: if_splits attempt.splits)
qed

lemma attempt_loop_success_value:
  assumes "lr_value (attempt_loop op random maxRetries attempt le) = Some v"
  shows "\<exists>n. attempt \<le> n \<and> n \<le> maxRetries \<and> op n = Success v"
  using assms
proof (induction op random maxRetries attempt le rule: attempt_loop.induct)
  case (1 op random maxRetries attempt le)
  then show ?case
    by (subst (asm) (2) attempt_loop.simps)
       (auto simp: Let_def split: if_splits attempt.splits intro: Suc_leD)
qed

lemma breaker_simps:
  "bk_state (persistState cfg now b) = bk_state b"
  "bk_failureCount (persistState cfg now b) = bk_failureCount b"
  "bk_lastFailureTime (persistState cfg now b) = bk_lastFailureTime b"
  by (simp_all add: persistState_def)

lemma checkCooldown_simps:
  "bk_state (checkCooldown cfg now b) =
     (if bk_state b = OPEN \<and> bc_cooldownMs cfg \<le> now - bk_lastFailureTime b then HALF_OPEN else bk_state b)"
  "bk_failureCount (checkCooldown cfg now b) = bk_failureCount b"
  "bk_lastFailureTime (checkCooldown cfg now b) = bk_lastFailureTime b"
  by (simp_all add: checkCooldown_def breaker_simps)

lemma recordFailure_simps:
  "bk_state (recordFailure cfg now b) =
     (if bk_state b = HALF_OPEN \<or> bc_failureThreshold cfg \<le> bk_failureCount b + 1 then OPEN else bk_state b)"
  "bk_failureCount (recordFailure cfg now b) = bk_failureCount b + 1"
  "bk_lastFailureTime (recordFailure cfg now b) = now"
  by (simp_all add: recordFailure_def breaker_simps Let_def)

lemma recordSuccess_simps:
  "bk_state (recordSuccess cfg now b) = (if bk_state b = HALF_OPEN then CLOSED else bk_state b)"
  "bk_failureCount (recordSuccess cfg now b) = 0"
  by (simp_all add: recordSuccess_def breaker_simps Let_def)

text \<open>A call whose operation never succeeds, and a batch of them.\<close>

definition never_succeeds :: "(nat \<Rightarrow> 'a attempt) \<Rightarrow> bool" where
  "never_succeeds op \<longleftrightarrow> (\<forall>n v. op n \<noteq> Success v)"

lemma never_succeeds_loop: "never_succeeds op \<Longrightarrow> lr_value (attempt_loop op random m attempt le) = None"
  using attempt_loop_success_value [of op random m attempt le]
  by (cases "lr_value (attempt_loop op random m attempt le)") (auto simp: never_succeeds_def)

fun run_calls ::
  "breaker_config \<Rightarrow> (nat \<Rightarrow> rat) \<Rightarrow> (int \<times> int \<times> (nat \<Rightarrow> 'a attempt)) list \<Rightarrow> breaker \<Rightarrow> breaker" where
  "run_calls cfg random [] b = b"
| "run_calls cfg random ((t, u, op) # rest) b =
     run_calls cfg random rest (snd (snd (executeWithResilience cfg t u random op b)))"

definition breaker_ok :: "breaker_config \<Rightarrow> breaker \<Rightarrow> bool" where
  "breaker_ok cfg b \<longleftrightarrow> (bk_state b = CLOSED \<longrightarrow> bk_failureCount b < bc_failureThreshold cfg)"

lemma breaker_ok_call:
  "0 < bc_failureThreshold cfg \<Longrightarrow> breaker_ok cfg b \<Longrightarrow>
   breaker_ok cfg (snd (snd (executeWithResilience cfg t u random op b)))"
  by (auto simp: executeWithResilience_def breaker_ok_def Let_def checkCooldown_simps recordFailure_simps
        recordSuccess_simps split: option.splits if_splits)

lemma failing_call:
  fixes cfg :: breaker_config and t u :: int and random :: "nat \<Rightarrow> rat" and op :: "nat \<Rightarrow> 'a attempt" and b :: breaker
  assumes "never_succeeds op"
  defines "b' \<equiv> snd (snd (executeWithResilience cfg t u random op b))"
  shows "bk_state b \<noteq> CLOSED \<Longrightarrow> bk_state b' = OPEN"
    and "bk_state b = CLOSED \<Longrightarrow> bk_failureCount b' = bk_failureCount b + 1 \<and>
      bk_state b' = (if bc_failureThreshold cfg \<le> bk_failureCount b + 1 then OPEN else CLOSED)"
  using circuit_state.exhaust [of "bk_state b"]
  by (auto simp: b'_def executeWithResilience_def Let_def never_succeeds_loop [OF assms(1)]
        checkCooldown_simps recordFailure_simps)

lemma failing_calls_keep_open:
  "\<forall>(t, u, op) \<in> set calls. never_succeeds op \<Longrightarrow> bk_state b = OPEN \<Longrightarrow>
   bk_state (run_calls cfg random calls b) = OPEN"
proof (induction calls arbitrary: b)
  case (Cons c calls)
  then show ?case using failing_call(1) [of "snd (snd c)" b] by (cases c) auto
qed simp

lemma failing_calls_open:
  "\<forall>(t, u, op) \<in> set calls. never_succeeds op \<Longrightarrow> bk_state b = CLOSED \<Longrightarrow> calls \<noteq> [] \<Longrightarrow>
   bc_failureThreshold cfg \<le> bk_failureCount b + length calls \<Longrightarrow>
   bk_state (run_calls cfg random calls b) = OPEN"
proof (induction calls arbitrary: b)
  case (Cons c calls)
  obtain t u op where c: "c = (t, u, op)" by (cases c)
  let ?b = "snd (snd (executeWithResilience cfg t u random op b))"
  have never: "never_succeeds op" and rest: "\<forall>(t, u, op) \<in> set calls. never_succeeds op"
    using Cons.prems(1) by (auto simp: c)
  note f = failing_call(2) [OF never Cons.prems(2), of cfg t u random]
  show ?case
  proof (cases "bk_state ?b = OPEN")
    case True
    then show ?thesis using failing_calls_keep_open [OF rest] by (simp add: c)
  next
    case False
    then have "bk_state ?b = CLOSED" "\<not> bc_failureThreshold cfg \<le> bk_failureCount b + 1"
        "bk_failureCount ?b = bk_failureCount b + 1"
      using f by (auto split: if_splits)
    moreover from this have "calls \<noteq> []" using Cons.prems(4) by (cases calls) auto
    ultimately show ?thesis using Cons.IH [OF rest, of ?b] Cons.prems(4) by (auto simp: c)
  qed
qed simp

text \<open>The limiter: \<open>H\<close> are the times of the granted requests of the key so far.\<close>

definition in_window :: "int \<Rightarrow> int \<Rightarrow> int list \<Rightarrow> nat" where
  "in_window w t H = length (filter (\<lambda>x. t - w < x \<and> x \<le> t) H)"

fun run_limit :: "string \<Rightarrow> int \<Rightarrow> int \<Rightarrow> int list \<Rightarrow> int list \<times> buckets \<Rightarrow> int list \<times> buckets" where
  "run_limit key m ws [] (H, b) = (H, b)"
| "run_limit key m ws (now # rest) (H, b) =
     (case checkLimit now key m ws b of (r, b') \<Rightarrow>
        run_limit key m ws rest (if rl_allowed r then H @ [now] else H, b'))"

definition limit_inv :: "string \<Rightarrow> int \<Rightarrow> int \<Rightarrow> int \<Rightarrow> int list \<times> buckets \<Rightarrow> bool" where
  "limit_inv key m ws now s \<longleftrightarrow>
     (case s of (H, b) \<Rightarrow> (\<forall>x \<in> set H. x \<le> now) \<and>
        (\<forall>t \<ge> now. filter (\<lambda>x. t - ws * 1000 < x) (b key) = filter (\<lambda>x. t - ws * 1000 < x) H) \<and>
        (\<forall>t. int (in_window (ws * 1000) t H) \<le> m))"

lemma filter_filter_mono: "c \<le> d \<Longrightarrow> filter (\<lambda>x. d < x) (filter (\<lambda>x. c < x) l) = filter (\<lambda>x. d < (x :: int)) l"
  by (induction l) auto

lemma in_window_snoc:
  assumes "\<forall>x \<in> set H. x \<le> now" and "\<forall>t. int (in_window w t H) \<le> m"
    and "int (length (filter (\<lambda>x. now - w < x) H)) < m"
  shows "int (in_window w t (H @ [now])) \<le> m"
proof (cases "t < now")
  case True
  then have "in_window w t (H @ [now]) = in_window w t H" by (simp add: in_window_def)
  with assms(2) show ?thesis by simp
next
  case False
  have "length (filter (\<lambda>x. t - w < x \<and> x \<le> t) H) \<le> length (filter (\<lambda>x. now - w < x) H)"
    using False by (induction H) auto
  then show ?thesis using assms(3) by (simp add: in_window_def)
qed

lemma limit_inv_step:
  assumes "limit_inv key m ws prev (H, b)" and "prev \<le> now" and "checkLimit now key m ws b = (r, b')"
  shows "limit_inv key m ws now (if rl_allowed r then H @ [now] else H, b')"
proof -
  have le: "\<forall>x \<in> set H. x \<le> now" and win: "\<forall>t. int (in_window (ws * 1000) t H) \<le> m"
    and same: "\<forall>t \<ge> now. filter (\<lambda>x. t - ws * 1000 < x) (b key) = filter (\<lambda>x. t - ws * 1000 < x) H"
    using assms(1,2) by (auto simp: limit_inv_def)
  have now: "filter (\<lambda>x. now - ws * 1000 < x) (b key) = filter (\<lambda>x. now - ws * 1000 < x) H"
    using same by simp
  show ?thesis
  proof (cases "m \<le> int (length (filter (\<lambda>x. now - ws * 1000 < x) (b key)))")
    case True
    then show ?thesis using assms(3) le win same by (auto simp: checkLimit_def limit_inv_def Let_def)
  next
    case False
    have "filter (\<lambda>x. t - ws * 1000 < x) (filter (\<lambda>x. now - ws * 1000 < x) H @ [now]) =
        filter (\<lambda>x. t - ws * 1000 < x) (H @ [now])" if "now \<le> t" for t
      using that filter_filter_mono [of "now - ws * 1000" "t - ws * 1000" H] by simp
    then show ?thesis
      using False assms(3) le in_window_snoc [OF le win] now
      by (auto simp: checkLimit_def limit_inv_def Let_def)
  qed
qed

lemma limit_inv_run:
  "limit_inv key m ws prev (H, b) \<Longrightarrow> sorted (prev # clock) \<Longrightarrow>
   (\<forall>t. int (in_window (ws * 1000) t (fst (run_limit key m ws clock (H, b)))) \<le> m)"
proof (induction clock arbitrary: prev H b)
  case Nil
  then show ?case by (simp add: limit_inv_def)
next
  case (Cons now clock)
  obtain r b' where c: "checkLimit now key m ws b = (r, b')" by fastforce
  have "prev \<le> now" using Cons.prems(2) by simp
  from limit_inv_step [OF Cons.prems(1) this c] Cons.IH Cons.prems(2) show ?case
    by (simp add: c)
qed

section \<open>Properties\<close>

text \<open>
  The retry loop ends for every operation and configuration: it calls the operation at
  most \<^verbatim>\<open>maxRetries\<close> times, and at least once when retries are allowed, sleeps at most
  \<^verbatim>\<open>maxRetries - 1\<close> times, each time between one and eight seconds, and a value it returns
  is one the operation returned.
\<close>

theorem retry_loop_bounded:
  assumes "\<forall>n. 0 \<le> random n"
  shows "lr_attempts (attempt_loop op random maxRetries 1 le) \<le> maxRetries \<and>
     (0 < maxRetries \<longrightarrow> 0 < lr_attempts (attempt_loop op random maxRetries 1 le)) \<and>
     length (lr_delays (attempt_loop op random maxRetries 1 le)) \<le> maxRetries - 1 \<and>
     (\<forall>d \<in> set (lr_delays (attempt_loop op random maxRetries 1 le)). 1000 \<le> d \<and> d \<le> 8000) \<and>
     (\<forall>v. lr_value (attempt_loop op random maxRetries 1 le) = Some v \<longrightarrow> (\<exists>n \<le> maxRetries. op n = Success v))"
  using attempt_loop_bounds [of 1 maxRetries op random le] attempt_loop_some [of 1 maxRetries op random le]
    attempt_loop_delays [OF assms, of _ op maxRetries 1 le] attempt_loop_success_value [of op random maxRetries 1 le]
  by fastforce

definition flaky :: "nat \<Rightarrow> string attempt" where
  "flaky n = (if n < 3 then Failed \<lparr>ax_statusCode = Some 502, ax_description = None, ax_code = None,
     ax_message = ''bad gateway''\<rparr> else Success ''plink_1'')"

theorem retry_loop_bounded_witness:
  "lr_attempts (attempt_loop flaky (\<lambda>n. 0) 5 1 None) \<le> 5 \<and>
   lr_value (attempt_loop flaky (\<lambda>n. 0) 5 1 None) = Some ''plink_1''"
  using retry_loop_bounded [of "\<lambda>n. 0" flaky 5 None]
  by (simp add: attempt_loop.simps flaky_def isRateLimitOrClientError_def Let_def)

text \<open>
  C26. The breaker trips and recovers: from a closed breaker, at least
  \<^verbatim>\<open>failureThreshold\<close> calls that all fail, at any times, leave it open; from then on a call
  that comes before the cool-down is over is refused without calling the operation and
  without changing the breaker, and a call after it whose operation succeeds closes the
  breaker and returns the value, while one that fails opens it again.
\<close>

theorem breaker_trips_and_recovers:
  fixes random :: "nat \<Rightarrow> rat"
  assumes "bk_state b = CLOSED" and "calls \<noteq> []" and "bc_failureThreshold cfg \<le> length calls"
    and "\<forall>(t, u, op) \<in> set calls. never_succeeds op"
  defines "b' \<equiv> run_calls cfg random calls b"
  shows "bk_state b' = OPEN \<and>
     (\<forall>t u op. t - bk_lastFailureTime b' < bc_cooldownMs cfg \<longrightarrow>
        executeWithResilience cfg t u random op b' = (SuspendedError :: 'a resilience_result, 0, b')) \<and>
     (\<forall>t u op v. bc_cooldownMs cfg \<le> t - bk_lastFailureTime b' \<longrightarrow> 0 < bc_maxRetries cfg \<longrightarrow>
        op 1 = Success (v :: 'a) \<longrightarrow>
        (\<exists>b''. executeWithResilience cfg t u random op b' = (Value v, 1, b'') \<and> bk_state b'' = CLOSED \<and>
           bk_failureCount b'' = 0)) \<and>
     (\<forall>t u op. never_succeeds (op :: nat \<Rightarrow> 'a attempt) \<longrightarrow>
        bk_state (snd (snd (executeWithResilience cfg t u random op b'))) = OPEN)"
proof -
  have o: "bk_state b' = OPEN"
    unfolding b'_def using assms(1-4) by (intro failing_calls_open) auto
  have "executeWithResilience cfg t u random op b' = (SuspendedError, 0, b')"
    if "t - bk_lastFailureTime b' < bc_cooldownMs cfg" for t u and op :: "nat \<Rightarrow> 'a attempt"
    using that o by (simp add: executeWithResilience_def checkCooldown_def)
  moreover have "\<exists>b''. executeWithResilience cfg t u random op b' = (Value v, 1, b'') \<and> bk_state b'' = CLOSED \<and>
      bk_failureCount b'' = 0"
    if "bc_cooldownMs cfg \<le> t - bk_lastFailureTime b'" "0 < bc_maxRetries cfg" "op 1 = Success v"
    for t u v and op :: "nat \<Rightarrow> 'a attempt"
    using that o
    by (simp add: executeWithResilience_def checkCooldown_simps recordSuccess_simps attempt_loop.simps Let_def)
  moreover have "bk_state (snd (snd (executeWithResilience cfg t u random op b'))) = OPEN"
    if "never_succeeds op" for t u and op :: "nat \<Rightarrow> 'a attempt"
    using failing_call(1) [OF that] o by simp
  ultimately show ?thesis using o by simp
qed

definition down :: "nat \<Rightarrow> string attempt" where
  "down n = Failed \<lparr>ax_statusCode = Some 503, ax_description = None, ax_code = None, ax_message = ''down''\<rparr>"

theorem breaker_trips_and_recovers_witness:
  "bk_state (run_calls default_breaker_config (\<lambda>n. 0) (replicate 5 (0, 1, down)) (new_breaker 0 None)) = OPEN"
  by (rule breaker_trips_and_recovers [THEN conjunct1])
    (simp_all add: new_breaker_def default_breaker_config_def never_succeeds_def down_def)

text \<open>
  C27. The sliding-window limiter is exact in every window: for any sequence of requests of
  a key at non-decreasing times, no interval of the window's length holds more than
  \<^verbatim>\<open>maxRequests\<close> granted requests.
\<close>

theorem rate_limit_every_window:
  assumes "sorted clock" and "0 \<le> m" and "b key = []"
  shows "int (in_window (ws * 1000) t (fst (run_limit key m ws clock ([], b)))) \<le> m"
proof (cases clock)
  case Nil
  with assms(2) show ?thesis by (simp add: in_window_def)
next
  case (Cons now rest)
  have "limit_inv key m ws now ([], b)" using assms(2,3) by (simp add: limit_inv_def in_window_def)
  from limit_inv_run [OF this, of clock] assms(1) show ?thesis by (simp add: Cons)
qed

theorem rate_limit_every_window_witness:
  "int (in_window 60000 70000 (fst (run_limit ''k'' 2 60 [1000, 2000, 3000, 65000] ([], \<lambda>_. [])))) \<le> 2"
  using rate_limit_every_window [of "[1000, 2000, 3000, 65000]" 2 "\<lambda>_. []" "''k''" 60 70000] by simp


text \<open>An open breaker has saved itself when it tripped.\<close>

definition open_saved :: "breaker_config \<Rightarrow> breaker \<Rightarrow> bool" where
  "open_saved cfg b \<longleftrightarrow> (bk_state b = OPEN \<longrightarrow>
     bk_saved b = Some \<lparr>sv_state = OPEN, sv_failureCount = bk_failureCount b,
       sv_lastFailureTime = bk_lastFailureTime b,
       sv_expires = bk_lastFailureTime b + (bc_cooldownMs cfg + 999) div 1000 * 2 * 1000\<rparr>)"

lemma open_saved_call:
  "open_saved cfg b \<Longrightarrow> open_saved cfg (snd (snd (executeWithResilience cfg t u random op b)))"
  by (auto simp: open_saved_def executeWithResilience_def checkCooldown_def recordSuccess_def
      recordFailure_def persistState_def Let_def split: option.split)

lemma open_saved_run: "open_saved cfg b \<Longrightarrow> open_saved cfg (run_calls cfg random calls b)"
  by (induction cfg random calls b rule: run_calls.induct) (simp_all add: open_saved_call)

text \<open>
  An open breaker survives a restart: after any sequence of calls that leaves it open, a
  fresh breaker that loads the persisted entry before the cool-down has passed has the same
  state, failure count and failure time, and refuses every call without calling the operation.
\<close>

theorem breaker_survives_restart:
  fixes b0 :: breaker and op :: "nat \<Rightarrow> 'a attempt"
  assumes "run_calls cfg random calls (new_breaker t0 None) = b0"
    and "bk_state b0 = OPEN" and "0 \<le> bc_cooldownMs cfg" and "t < bk_lastFailureTime b0 + bc_cooldownMs cfg"
    and "b1 = loadPersistedState t (new_breaker t (bk_saved b0))"
  shows "bk_state b1 = OPEN \<and> bk_failureCount b1 = bk_failureCount b0 \<and>
    bk_lastFailureTime b1 = bk_lastFailureTime b0 \<and>
    executeWithResilience cfg t u random op b1 = (SuspendedError, 0, b1)"
proof -
  have "open_saved cfg b0"
    unfolding assms(1) [symmetric] by (rule open_saved_run) (simp add: open_saved_def new_breaker_def)
  moreover have "bc_cooldownMs cfg \<le> (bc_cooldownMs cfg + 999) div 1000 * 2 * 1000"
    using assms(3) by simp
  ultimately have "bk_state b1 = OPEN" "bk_failureCount b1 = bk_failureCount b0"
      "bk_lastFailureTime b1 = bk_lastFailureTime b0"
    using assms(2,4,5) by (simp_all add: open_saved_def loadPersistedState_def new_breaker_def)
  then show ?thesis using assms(4) by (simp add: executeWithResilience_def checkCooldown_def)
qed

theorem breaker_survives_restart_witness:
  "bk_state (loadPersistedState 20000 (new_breaker 20000 (bk_saved
     (run_calls default_breaker_config (\<lambda>n. 0) (replicate 5 (0, 1, down)) (new_breaker 0 None))))) = OPEN"
proof -
  let ?b = "run_calls default_breaker_config (\<lambda>n. 0) (replicate 5 (0, 1, down)) (new_breaker 0 None)"
  have o: "bk_state ?b = OPEN"
    by (rule failing_calls_open)
      (simp_all add: new_breaker_def default_breaker_config_def never_succeeds_def down_def)
  have "never_succeeds down" by (simp add: never_succeeds_def down_def)
  then have l: "bk_lastFailureTime ?b = 1"
    by (simp add: numeral_eq_Suc executeWithResilience_def never_succeeds_loop checkCooldown_simps
        recordFailure_simps new_breaker_def default_breaker_config_def Let_def)
  have c: "0 \<le> bc_cooldownMs default_breaker_config"
      "20000 < bk_lastFailureTime ?b + bc_cooldownMs default_breaker_config"
    by (simp_all add: l) (simp_all add: default_breaker_config_def)
  show ?thesis
    by (rule breaker_survives_restart [OF refl o c refl, THEN conjunct1])
qed

end
