(* ===== verification/Hitl.thy ===== *)
theory Hitl
  imports Store
begin

text \<open>
  The human-in-the-loop queue (\<^verbatim>\<open>src/agents/hitl/hitl_manager.ts\<close>,
  \<^verbatim>\<open>src/agents/hitl/hitl_types.ts\<close>): a map of requests in insertion order.  Times are
  milliseconds; ids and the clock are arguments, and the one-decimal rendering of a
  percentage in a message is the argument \<open>pct\<close>.
\<close>

datatype hitl_decision = APPROVE | REJECT | OVERRIDE | TIMEOUT

datatype hitl_reason =
    HIGH_TICKET_VALUE | LOW_CONFIDENCE | OUTREACH_REVIEW | HARD_DECLINE_REVIEW | MERCHANT_POLICY
  | EXECUTION_DLQ_EXHAUSTED

datatype hitl_status = HS_PENDING | HS_APPROVED | HS_REJECTED | HS_OVERRIDDEN | HS_TIMED_OUT

record hitl_request =
  hr_id :: string
  hr_opportunity_id :: string
  hr_run_id :: "string option"
  hr_proposed_action :: decision_type
  hr_amount_paise :: int
  hr_reason :: hitl_reason
  hr_explanation :: string
  hr_status :: hitl_status
  hr_operator_id :: "string option"
  hr_operator_feedback :: "string option"
  hr_overridden_action :: "decision_type option"
  hr_timeout_at :: int
  hr_created_at :: int
  hr_resolved_at :: "int option"

type_synonym hitl_queue = "hitl_request list"

definition shouldRequireReview ::
  "(rat \<Rightarrow> string) \<Rightarrow> opportunity \<Rightarrow> rat \<Rightarrow> (hitl_reason \<times> string) option" where
  "shouldRequireReview pct opp confidence =
     (if 2500000 \<le> o_amount_paise opp
      then Some (HIGH_TICKET_VALUE, ''Transaction amount Rs.'' @ show_rupees (o_amount_paise opp) @
             '' exceeds high-value threshold (Rs.25,000). Operator sign-off required.'')
      else if confidence < lit 40 2 \<and> o_decline_type opp \<noteq> Hard
      then Some (LOW_CONFIDENCE, ''Agent confidence score ('' @ pct confidence @
             ''%) is below acceptable threshold (40%). Operator verification required.'')
      else None)"

record hitl_params =
  hp_opportunity :: opportunity
  hp_runId :: "string option"
  hp_proposedAction :: decision_type
  hp_reason :: hitl_reason
  hp_explanation :: string
  hp_slaMinutes :: "int option"

definition createRequest :: "string \<Rightarrow> int \<Rightarrow> hitl_params \<Rightarrow> hitl_queue \<Rightarrow> hitl_request \<times> hitl_queue" where
  "createRequest rid now p q =
     (let sla = (case hp_slaMinutes p of None \<Rightarrow> 30 | Some m \<Rightarrow> if m = 0 then 30 else m);
          r = \<lparr>hr_id = rid, hr_opportunity_id = o_id (hp_opportunity p),
               hr_run_id = (if truthy_str (hp_runId p) then hp_runId p else None),
               hr_proposed_action = hp_proposedAction p, hr_amount_paise = o_amount_paise (hp_opportunity p),
               hr_reason = hp_reason p, hr_explanation = hp_explanation p, hr_status = HS_PENDING,
               hr_operator_id = None, hr_operator_feedback = None, hr_overridden_action = None,
               hr_timeout_at = now + sla * 60 * 1000, hr_created_at = now, hr_resolved_at = None\<rparr>
      in (r, row_put hr_id replace_merge r q))"

definition time_out :: "int \<Rightarrow> hitl_request \<Rightarrow> hitl_request" where
  "time_out now r =
     (if hr_status r = HS_PENDING \<and> hr_timeout_at r \<le> now
      then r\<lparr>hr_status := HS_TIMED_OUT, hr_operator_id := Some ''system_timeout_daemon'',
             hr_operator_feedback := Some ''SLA expired without merchant response. Defaulting to safe ABSTAIN.'',
             hr_resolved_at := Some now\<rparr>
      else r)"

definition checkTimeouts :: "int \<Rightarrow> hitl_queue \<Rightarrow> nat \<times> hitl_queue" where
  "checkTimeouts now q =
     (length (filter (\<lambda>r. hr_status r = HS_PENDING \<and> hr_timeout_at r \<le> now) q), map (time_out now) q)"

definition getPendingRequests :: "int \<Rightarrow> hitl_queue \<Rightarrow> hitl_request list \<times> hitl_queue" where
  "getPendingRequests now q =
     (let q1 = snd (checkTimeouts now q) in (filter (\<lambda>r. hr_status r = HS_PENDING) q1, q1))"

definition getAllRequests :: "int \<Rightarrow> hitl_queue \<Rightarrow> hitl_request list \<times> hitl_queue" where
  "getAllRequests now q = (let q1 = snd (checkTimeouts now q) in (sort_desc hr_created_at q1, q1))"

definition getRequestById :: "int \<Rightarrow> string \<Rightarrow> hitl_queue \<Rightarrow> hitl_request option \<times> hitl_queue" where
  "getRequestById now rid q = (let q1 = snd (checkTimeouts now q) in (row_get hr_id rid q1, q1))"

datatype hitl_error = RequestNotFound string | AlreadyResolved hitl_status

fun decided_status :: "hitl_decision \<Rightarrow> hitl_status" where
  "decided_status REJECT = HS_REJECTED"
| "decided_status OVERRIDE = HS_OVERRIDDEN"
| "decided_status TIMEOUT = HS_TIMED_OUT"
| "decided_status APPROVE = HS_APPROVED"

definition resolveRequest ::
  "int \<Rightarrow> string \<Rightarrow> hitl_decision \<Rightarrow> string \<Rightarrow> string option \<Rightarrow> decision_type option \<Rightarrow> hitl_queue \<Rightarrow>
   (hitl_error + hitl_request) \<times> hitl_queue" where
  "resolveRequest now rid decision operatorId feedback overridden q =
     (case row_get hr_id rid q of
        None \<Rightarrow> (Inl (RequestNotFound rid), q)
      | Some req \<Rightarrow>
          if hr_status req \<noteq> HS_PENDING then (Inl (AlreadyResolved (hr_status req)), q)
          else let r = req\<lparr>hr_status := decided_status decision, hr_operator_id := Some operatorId,
                           hr_operator_feedback := (if truthy_str feedback then feedback else None),
                           hr_overridden_action := overridden, hr_resolved_at := Some now\<rparr>
               in (Inr r, row_update hr_id rid (\<lambda>_. r) q))"

section \<open>Operations in sequence\<close>

datatype hitl_op =
    OpCreate string int hitl_params
  | OpResolve int string hitl_decision string "string option" "decision_type option"
  | OpSweep int

fun hitl_step :: "hitl_op \<Rightarrow> hitl_queue \<Rightarrow> hitl_queue" where
  "hitl_step (OpCreate rid now p) q = snd (createRequest rid now p q)"
| "hitl_step (OpResolve now rid d operator fb ov) q = snd (resolveRequest now rid d operator fb ov q)"
| "hitl_step (OpSweep now) q = snd (checkTimeouts now q)"

definition creates :: "string \<Rightarrow> hitl_op \<Rightarrow> bool" where
  "creates rid op \<longleftrightarrow> (\<exists>now p. op = OpCreate rid now p)"

lemma row_get_map:
  assumes "\<And>x. key (f x) = key x"
  shows "row_get key k (map f rows) = map_option f (row_get key k rows)"
  using assms by (induction rows) (auto simp: row_get_def)

lemma time_out_id [simp]: "hr_id (time_out now r) = hr_id r"
  by (simp add: time_out_def)

lemma createRequest_get:
  "row_get hr_id k (snd (createRequest rid now p q)) =
     (if k = rid then Some (fst (createRequest rid now p q)) else row_get hr_id k q)"
  by (simp add: createRequest_def Let_def row_get_put replace_merge_def)

lemma row_get_replace:
  "key r = j \<Longrightarrow> row_get key k (row_update key j (\<lambda>_. r) rows) =
     (if k = j then map_option (\<lambda>_. r) (row_get key k rows) else row_get key k rows)"
  by (induction rows) (auto simp: row_get_def row_update_def)

lemma resolveRequest_cases:
  obtains r where "hr_id r = rid" "row_get hr_id rid q \<noteq> None"
      "\<forall>x. row_get hr_id rid q = Some x \<longrightarrow> hr_status x = HS_PENDING"
      "snd (resolveRequest now rid d operator fb ov q) = row_update hr_id rid (\<lambda>_. r) q"
  | "snd (resolveRequest now rid d operator fb ov q) = q"
proof (cases "row_get hr_id rid q")
  case (Some x)
  then have "hr_id x = rid" by (auto dest: row_get_Some)
  let ?r = "x\<lparr>hr_status := decided_status d, hr_operator_id := Some operator,
      hr_operator_feedback := (if truthy_str fb then fb else None),
      hr_overridden_action := ov, hr_resolved_at := Some now\<rparr>"
  show ?thesis
  proof (cases "hr_status x = HS_PENDING")
    case True
    with Some \<open>hr_id x = rid\<close> show ?thesis
      by (intro that(1) [of ?r]) (simp_all add: resolveRequest_def Let_def)
  next
    case False
    with Some show ?thesis by (intro that(2)) (simp add: resolveRequest_def)
  qed
qed (use that in \<open>auto simp: resolveRequest_def\<close>)

lemma resolved_stays_step:
  assumes "row_get hr_id k q = Some r" and "hr_status r \<noteq> HS_PENDING" and "\<not> creates k op"
  shows "row_get hr_id k (hitl_step op q) = Some r"
proof (cases op)
  case (OpCreate rid now p)
  with assms show ?thesis by (auto simp: creates_def createRequest_get)
next
  case (OpResolve now rid d operator fb ov)
  show ?thesis
  proof (rule resolveRequest_cases [of rid q now d operator fb ov])
    fix r' assume "hr_id r' = rid" "\<forall>x. row_get hr_id rid q = Some x \<longrightarrow> hr_status x = HS_PENDING"
      "snd (resolveRequest now rid d operator fb ov q) = row_update hr_id rid (\<lambda>_. r') q"
    with assms OpResolve show ?thesis by (auto simp: row_get_replace)
  qed (use assms OpResolve in simp)
next
  case (OpSweep now)
  with assms show ?thesis by (simp add: checkTimeouts_def row_get_map time_out_def)
qed

section \<open>Properties\<close>

text \<open>
  A review is decided once: when a request has been approved, rejected, overridden or
  timed out, no later decision, sweep or new request changes it (new requests have other
  ids), and a second decision is refused with its status.
\<close>

theorem review_decided_once:
  assumes "row_get hr_id k q = Some r" and "hr_status r \<noteq> HS_PENDING" and "\<forall>op \<in> set ops. \<not> creates k op"
  shows "row_get hr_id k (fold hitl_step ops q) = Some r \<and>
     fst (resolveRequest now k d operator fb ov (fold hitl_step ops q)) = Inl (AlreadyResolved (hr_status r))"
proof -
  have "row_get hr_id k (fold hitl_step ops q) = Some r"
    using assms by (induction ops arbitrary: q) (simp_all add: resolved_stays_step)
  then show ?thesis using assms(2) by (simp add: resolveRequest_def)
qed

definition sample_request :: "hitl_status \<Rightarrow> hitl_request" where
  "sample_request st = \<lparr>hr_id = ''h1'', hr_opportunity_id = ''o1'', hr_run_id = None, hr_proposed_action = ACT,
     hr_amount_paise = 3000000, hr_reason = HIGH_TICKET_VALUE, hr_explanation = '''', hr_status = st,
     hr_operator_id = None, hr_operator_feedback = None, hr_overridden_action = None,
     hr_timeout_at = 1800000, hr_created_at = 0, hr_resolved_at = None\<rparr>"

theorem review_decided_once_witness:
  "row_get hr_id ''h1'' (fold hitl_step [OpSweep 5, OpResolve 6 ''h1'' APPROVE ''ops'' None None]
      [sample_request HS_REJECTED]) = Some (sample_request HS_REJECTED)"
  using review_decided_once [of "''h1''" "[sample_request HS_REJECTED]" "sample_request HS_REJECTED"
      "[OpSweep 5, OpResolve 6 ''h1'' APPROVE ''ops'' None None]"]
  by (simp add: row_get_def sample_request_def creates_def del: fold.simps)

text \<open>
  The deadline is enforced only by a sweep: every reading operation first turns expired
  requests into \<^verbatim>\<open>TIMED_OUT\<close>, so none it returns is pending past its deadline, but
  \<^verbatim>\<open>resolveRequest\<close> does not look at the deadline, and a decision that comes after it on a
  request no sweep has reached is accepted, an approval included.
\<close>

theorem deadline_only_by_sweep:
  "(\<forall>r \<in> set (fst (getPendingRequests now q)). now < hr_timeout_at r) \<and>
   (row_get hr_id k q = Some r \<and> hr_status r = HS_PENDING \<and> hr_timeout_at r \<le> now \<longrightarrow>
      (\<exists>r' q'. resolveRequest now k APPROVE operator fb ov q = (Inr r', q') \<and> hr_status r' = HS_APPROVED))"
  by (auto simp: getPendingRequests_def checkTimeouts_def time_out_def resolveRequest_def Let_def
        split: if_splits)

theorem deadline_only_by_sweep_witness:
  "\<exists>r' q'. resolveRequest 9999999 ''h1'' APPROVE ''ops'' None None [sample_request HS_PENDING] = (Inr r', q') \<and>
     hr_status r' = HS_APPROVED"
  using deadline_only_by_sweep [of 9999999 "[sample_request HS_PENDING]" "''h1''" "sample_request HS_PENDING"
      "''ops''" None None]
  by (simp add: row_get_def sample_request_def)

end
