(* ===== verification/Executor.thy ===== *)
theory Executor
  imports Perception Authority Resilience Hitl JSON
begin

text \<open>
  The execution stage: the dead-letter queue (\<^verbatim>\<open>src/execution/dlq.ts\<close>) and the executor
  (\<^verbatim>\<open>src/execution/executor.ts\<close>) with its batch and replay loops.  The provider's client
  pool, the answers to \<^verbatim>\<open>paymentLink.create\<close> (per attempt) and \<^verbatim>\<open>paymentLink.all\<close>, the clock
  and the generated ids (taken as unused) are arguments.  The contact details that the
  executor resolves only go into the request to the provider and into the messages sent
  after it returns; neither is part of the model.
\<close>

record exec_state =
  xs_store :: store
  xs_breaker :: breaker
  xs_hitl :: hitl_queue

section \<open>The dead-letter queue\<close>

definition retryIntervalsMin :: "int list" where
  "retryIntervalsMin = [5, 15, 60, 240]"

text \<open>The \<^verbatim>\<open>CHECK\<close> of the table admits three statuses: an update to any other fails as a
  whole when a row matches.\<close>

definition dlq_set_status ::
  "int \<Rightarrow> string \<Rightarrow> string \<Rightarrow> dlq_job list \<Rightarrow> db_error + dlq_job list" where
  "dlq_set_status now oid st jobs =
     (let hit = (\<lambda>j. dj_opportunity_id j = oid \<and> dj_status j = ''PENDING_RETRY'')
      in if list_ex hit jobs \<and> st \<notin> {''PENDING_RETRY'', ''DEAD_LETTER'', ''RESOLVED''}
         then Inl (CheckViolation st)
         else Inr (map (\<lambda>j. if hit j then j\<lparr>dj_status := st, dj_updated_at := now\<rparr> else j) jobs))"

definition latest_failures :: "string \<Rightarrow> dlq_job list \<Rightarrow> nat" where
  "latest_failures oid jobs =
     (case filter (\<lambda>j. dj_opportunity_id j = oid) (rev jobs) of [] \<Rightarrow> 0 | j # _ \<Rightarrow> dj_failure_count j)"

definition forward_dead_letter :: "string \<Rightarrow> int \<Rightarrow> string \<Rightarrow> nat \<Rightarrow> string \<Rightarrow> exec_state \<Rightarrow> exec_state" where
  "forward_dead_letter hitlId now oid newCount err st =
     (case getOpportunityById (xs_store st) oid of
        None \<Rightarrow> st
      | Some opp \<Rightarrow>
          let s1 = updateOpportunityStatus oid Blocked (xs_store st);
              s2 = s1\<lparr>opportunities := row_update o_id oid (\<lambda>o'. o'\<lparr>o_attempt_count := int newCount\<rparr>)
                        (opportunities s1)\<rparr>
          in st\<lparr>xs_store := s2,
                xs_hitl := snd (createRequest hitlId now
                  \<lparr>hp_opportunity = opp, hp_runId = None, hp_proposedAction = ACT,
                   hp_reason = EXECUTION_DLQ_EXHAUSTED,
                   hp_explanation = ''Execution exhausted '' @ show_nat newCount @
                     '' retries. Final error: '' @ take 200 err,
                   hp_slaMinutes = None\<rparr> (xs_hitl st))\<rparr>)"

definition recordExecutionFailure ::
  "string \<Rightarrow> int \<Rightarrow> string \<Rightarrow> string \<Rightarrow> exec_state \<Rightarrow> dlq_job \<times> exec_state" where
  "recordExecutionFailure hitlId now oid err st =
     (let newCount = latest_failures oid (dlq_jobs (xs_store st)) + 1;
          retry = newCount \<le> length retryIntervalsMin;
          nextRetryAt = (if retry then Some (now + retryIntervalsMin ! (newCount - 1) * 60 * 1000) else None);
          status = (if retry then ''PENDING_RETRY'' else ''DEAD_LETTER'');
          st1 = (if retry then st else forward_dead_letter hitlId now oid newCount err st);
          jobs = (case dlq_set_status now oid ''SUPERSEDED'' (dlq_jobs (xs_store st1)) of
                    Inl _ \<Rightarrow> dlq_jobs (xs_store st1) | Inr js \<Rightarrow> js);
          job = \<lparr>dj_opportunity_id = oid, dj_failure_count = newCount, dj_last_error = err,
                 dj_next_retry_at = nextRetryAt, dj_status = status, dj_created_at = now, dj_updated_at = now\<rparr>;
          legacy = \<lparr>ef_opportunity_id = oid, ef_failure_count = newCount, ef_last_error = err,
                    ef_next_retry_at = nextRetryAt,
                    ef_status = (if retry then ''PENDING_RETRY'' else ''PERMANENTLY_FAILED''), ef_created_at = now\<rparr>
      in (job, st1\<lparr>xs_store := (xs_store st1)\<lparr>dlq_jobs := jobs @ [job],
                     execution_failures := execution_failures (xs_store st1) @ [legacy]\<rparr>\<rparr>))"

definition markRetrySuccess :: "int \<Rightarrow> string \<Rightarrow> exec_state \<Rightarrow> exec_state" where
  "markRetrySuccess now oid st =
     (case dlq_set_status now oid ''RESOLVED'' (dlq_jobs (xs_store st)) of
        Inl _ \<Rightarrow> st
      | Inr js \<Rightarrow> st\<lparr>xs_store := (xs_store st)\<lparr>dlq_jobs := js\<rparr>\<rparr>)"

definition due :: "int \<Rightarrow> dlq_job \<Rightarrow> bool" where
  "due now j \<longleftrightarrow> dj_status j = ''PENDING_RETRY'' \<and>
     (case dj_next_retry_at j of None \<Rightarrow> False | Some t \<Rightarrow> t \<le> now)"

definition getPendingRetries :: "int \<Rightarrow> exec_state \<Rightarrow> dlq_job list" where
  "getPendingRetries now st =
     sort_key (\<lambda>j. case dj_next_retry_at j of None \<Rightarrow> 0 | Some t \<Rightarrow> t) (filter (due now) (dlq_jobs (xs_store st)))"

section \<open>The executor\<close>

record link_response =
  lp_id :: string
  lp_short_url :: "string option"
  lp_status :: "string option"

record exec_env =
  xe_gate :: gate_env
  xe_client :: "string \<Rightarrow> environment \<Rightarrow> string option"
  xe_config :: breaker_config
  xe_random :: "nat \<Rightarrow> rat"
  xe_create :: "opportunity \<Rightarrow> nat \<Rightarrow> link_response attempt"
  xe_existing :: "opportunity \<Rightarrow> link_response option"
  xe_started :: int
  xe_ended :: int
  xe_now :: string
  xe_led_id :: string
  xe_notif_id :: string
  xe_hitl_id :: string
  xe_crash :: string

datatype exec_error =
    OpportunityNotFound string
  | ScoringFailed
  | ComplianceViolation string authority_verdict string
  | ProductionBlocked string
  | SafetyCeilingExceeded string int

fun show_verdict :: "authority_verdict \<Rightarrow> string" where
  "show_verdict V_AUTHORIZED = ''AUTHORIZED''"
| "show_verdict V_BLOCKED = ''BLOCKED''"
| "show_verdict V_ABSTAIN = ''ABSTAIN''"
| "show_verdict V_WAIT = ''WAIT''"

text \<open>The message of a raised error; \<open>crash\<close> is the runtime's own text when scoring raises.\<close>

fun error_message :: "string \<Rightarrow> exec_error \<Rightarrow> string" where
  "error_message crash (OpportunityNotFound oid) = ''Opportunity not found: '' @ oid"
| "error_message crash ScoringFailed = crash"
| "error_message crash (ComplianceViolation oid v why) =
     ''Compliance Violation: Opportunity '' @ oid @ '' is not AUTHORIZED (verdict: '' @ show_verdict v @
     '', reason: '' @ [CHR 0x22] @ why @ [CHR 0x22] @ ''). Real payment link creation strictly rejected.''"
| "error_message crash (ProductionBlocked msg) = ''Production Execution Blocked: '' @ msg"
| "error_message crash (SafetyCeilingExceeded oid amount) =
     ''Financial Safety Ceiling Exceeded: Opportunity '' @ oid @ '' amount (Rs.'' @ show_rupees amount @
     '') exceeds maximum live safety limit of Rs.50,000.00. Automatic recovery blocked.''"

record exec_result =
  xr_opportunity_id :: string
  xr_success :: bool
  xr_created_new :: bool
  xr_test_mode_fallback :: bool
  xr_record :: "execution_record option"
  xr_error :: "string option"

definition MAX_LIVE_SINGLE_OPPORTUNITY_PAISE :: int where
  "MAX_LIVE_SINGLE_OPPORTUNITY_PAISE = 5000000"

definition execution_env :: "store \<Rightarrow> opportunity \<Rightarrow> environment" where
  "execution_env s opp =
     (let row = getTenant s (o_tenant_id opp)
      in if (case row of None \<Rightarrow> False | Some r \<Rightarrow> tn_environment r = Some Env_live) \<or> o_environment opp = Env_live
         then Env_live else o_environment opp)"

definition link_record :: "string \<Rightarrow> opportunity \<Rightarrow> link_response \<Rightarrow> execution_record" where
  "link_record now opp lp =
     \<lparr>er_opportunity_id = o_id opp, er_payment_link_id = lp_id lp,
      er_link_url = or_opt (lp_short_url lp) (''https://rzp.io/i/'' @ lp_id lp),
      er_status = or_opt (lp_status lp) ''created'', er_idempotency_key = ''ref_'' @ o_id opp,
      er_created_at = now\<rparr>"

definition is_alnum :: "char \<Rightarrow> bool" where
  "is_alnum c = (let n = of_char c :: nat in 48 \<le> n \<and> n \<le> 57 \<or> 65 \<le> n \<and> n \<le> 90 \<or> 97 \<le> n \<and> n \<le> 122)"

definition simulated_link :: "opportunity \<Rightarrow> link_response" where
  "simulated_link opp = \<lparr>lp_id = ''plink_test_'' @ slice_last 12 (filter is_alnum (o_id opp)),
     lp_short_url = None, lp_status = Some ''simulated''\<rparr>"

definition link_ledger :: "exec_env \<Rightarrow> opportunity \<Rightarrow> execution_record \<Rightarrow> (string \<times> json) list \<Rightarrow> ledger_entry" where
  "link_ledger xe opp r extra =
     \<lparr>le_id = xe_led_id xe, le_opportunity_id = o_id opp, le_event_type = Ev_reconciled,
      le_amount_paise = o_amount_paise opp, le_timestamp = xe_now xe,
      le_raw_payload_ref = Some (stringify (JObj
        ([(''razorpay_payment_link_id'', JStr (er_payment_link_id r)), (''short_url'', JStr (er_link_url r)),
          (''amount_paise'', JNum (of_int (o_amount_paise opp)))] @ extra)))\<rparr>"

definition link_notification :: "exec_env \<Rightarrow> opportunity \<Rightarrow> string \<Rightarrow> string \<Rightarrow> notification" where
  "link_notification xe opp title msg =
     \<lparr>nt_id = xe_notif_id xe, nt_tenant_id = o_tenant_id opp, nt_type = ''LINK_CREATED'', nt_title = title,
      nt_message = msg, nt_link_url = ''/dashboard'', nt_read = False, nt_created_at = xe_now xe\<rparr>"

definition insertNotification :: "notification \<Rightarrow> store \<Rightarrow> store" where
  "insertNotification n s = s\<lparr>notifications := notifications s @ [n]\<rparr>"

text \<open>Storing a link: the record, then the status; the audit entry and the notification
  follow unless the link was found at the provider.\<close>

definition store_link :: "opportunity \<Rightarrow> execution_record \<Rightarrow> store \<Rightarrow> store" where
  "store_link opp r s = updateOpportunityStatus (o_id opp) Executing (upsertExecutionRecord r s)"

definition announce_link ::
  "exec_env \<Rightarrow> opportunity \<Rightarrow> execution_record \<Rightarrow> (string \<times> json) list \<Rightarrow> string \<Rightarrow> string \<Rightarrow> store \<Rightarrow> store" where
  "announce_link xe opp r extra title msg s =
     insertNotification (link_notification xe opp title msg) (insertLedgerEntry (link_ledger xe opp r extra) s)"

definition created_message :: "opportunity \<Rightarrow> string" where
  "created_message opp = ''Recovery link created for opportunity '' @ o_id opp @ '' (Rs.'' @
     show_rupees (o_amount_paise opp) @ '')''"

definition simulated_message :: "opportunity \<Rightarrow> string" where
  "simulated_message opp = ''Simulated recovery link for opportunity '' @ o_id opp @ '' (Rs.'' @
     show_rupees (o_amount_paise opp) @ '') - Razorpay API was unavailable in test mode''"

fun thrown_description :: "opportunity \<Rightarrow> link_response resilience_result \<Rightarrow> string" where
  "thrown_description opp SuspendedError = ''CircuitBreaker is OPEN for RazorpayPaymentLinkCreate('' @ o_id opp @
     ''). Operations are currently suspended.''"
| "thrown_description opp (LastError (Some e)) = or_opt (ax_description e) (ax_message e)"
| "thrown_description opp _ = []"

fun thrown_status :: "link_response resilience_result \<Rightarrow> int option" where
  "thrown_status (LastError (Some e)) = ax_statusCode e"
| "thrown_status _ = None"

definition user_facing_error :: "opportunity \<Rightarrow> link_response resilience_result \<Rightarrow> string" where
  "user_facing_error opp res =
     (let e = or_str (thrown_description opp res) ''Razorpay API execution failed''
      in if includes_str e ''auth'' \<or> includes_str e ''key_id'' \<or> includes_str e ''Unauthorized'' \<or>
            thrown_status res = Some 401
         then ''Razorpay credentials unauthorized or missing. Please configure valid Test Mode Key ID & Secret in Settings > Integrations.''
         else e)"

definition exec_ok :: "opportunity \<Rightarrow> bool \<Rightarrow> bool \<Rightarrow> execution_record \<Rightarrow> exec_result" where
  "exec_ok opp new fallback r = \<lparr>xr_opportunity_id = o_id opp, xr_success = True, xr_created_new = new,
     xr_test_mode_fallback = fallback, xr_record = Some r, xr_error = None\<rparr>"

text \<open>The \<^verbatim>\<open>catch\<close> block.\<close>

definition link_failed ::
  "exec_env \<Rightarrow> environment \<Rightarrow> opportunity \<Rightarrow> link_response resilience_result \<Rightarrow> exec_state \<Rightarrow> exec_result \<times> exec_state" where
  "link_failed xe env opp res st =
     (let desc = thrown_description opp res;
          conflict = includes_str desc ''already exists'' \<or> includes_str desc ''reference_id'';
          err = user_facing_error opp res
      in case (if conflict then xe_existing xe opp else None) of
           Some lp \<Rightarrow>
             let r = link_record (xe_now xe) opp lp
             in (exec_ok opp False False r, st\<lparr>xs_store := store_link opp r (xs_store st)\<rparr>)
         | None \<Rightarrow>
             if env = Env_test
             then let r = link_record (xe_now xe) opp (simulated_link opp);
                      s1 = announce_link xe opp r
                             [(''test_mode_fallback'', JBool True), (''simulated'', JBool True),
                              (''original_error'', JStr err)]
                             ''Simulated Payment Link (Razorpay API Unavailable)'' (simulated_message opp)
                             (store_link opp r (xs_store st))
                  in (exec_ok opp True True r, st\<lparr>xs_store := s1\<rparr>)
             else (\<lparr>xr_opportunity_id = o_id opp, xr_success = False, xr_created_new = False,
                    xr_test_mode_fallback = False, xr_record = None, xr_error = Some err\<rparr>,
                   snd (recordExecutionFailure (xe_hitl_id xe) (xe_ended xe) (o_id opp) err st)))"

definition create_link ::
  "exec_env \<Rightarrow> environment \<Rightarrow> opportunity \<Rightarrow> exec_state \<Rightarrow> exec_result \<times> exec_state" where
  "create_link xe env opp st =
     (case executeWithResilience (xe_config xe) (xe_started xe) (xe_ended xe) (xe_random xe)
             (xe_create xe opp) (xs_breaker st) of
        (Value lp, n, b) \<Rightarrow>
          let r = link_record (xe_now xe) opp lp;
              s1 = announce_link xe opp r [] ''Payment Link Created'' (created_message opp)
                     (store_link opp r (xs_store st))
          in (exec_ok opp True False r, st\<lparr>xs_breaker := b, xs_store := s1\<rparr>)
      | (res, n, b) \<Rightarrow> link_failed xe env opp res (st\<lparr>xs_breaker := b\<rparr>))"

definition executeOpportunity ::
  "exec_env \<Rightarrow> string \<Rightarrow> exec_state \<Rightarrow> (exec_error + exec_result) \<times> exec_state" where
  "executeOpportunity xe opportunityId st =
     (case getOpportunityById (xs_store st) opportunityId of
        None \<Rightarrow> (Inl (OpportunityNotFound opportunityId), st)
      | Some opp \<Rightarrow>
          (case effective_score (xe_gate xe) opp None (xs_store st) of
             None \<Rightarrow> (Inl ScoringFailed, st)
           | Some (sc, s1) \<Rightarrow>
               let decision = (case getAllocationDecisionByOpportunityId s1 (o_id opp) of
                                 Some d \<Rightarrow> d | None \<Rightarrow> unallocated (o_id opp) ''Unallocated execution attempt'')
               in (case evaluateOpportunity (xe_gate xe) opp (Some decision) (Some sc) s1 of
                     None \<Rightarrow> (Inl ScoringFailed, st\<lparr>xs_store := s1\<rparr>)
                   | Some (ev, s2) \<Rightarrow>
                       if ae_verdict ev \<noteq> V_AUTHORIZED
                       then (Inl (ComplianceViolation (o_id opp) (ae_verdict ev) (ae_summary_reason ev)), st\<lparr>xs_store := s2\<rparr>)
                       else (case getExecutionRecordByOpportunityId s2 (o_id opp) of
                         Some r \<Rightarrow>
                           (Inr (exec_ok opp False False r),
                            st\<lparr>xs_store := (if o_status opp \<noteq> Recovered
                                             then updateOpportunityStatus (o_id opp) Executing s2 else s2)\<rparr>)
                       | None \<Rightarrow>
                           let env = execution_env s2 opp; client = xe_client xe (o_tenant_id opp) env
                           in if client \<noteq> None \<and> env = Env_live
                              then (Inl (ProductionBlocked (the client)), st\<lparr>xs_store := s2\<rparr>)
                              else if env = Env_live \<and> MAX_LIVE_SINGLE_OPPORTUNITY_PAISE < o_amount_paise opp
                              then (Inl (SafetyCeilingExceeded (o_id opp) (o_amount_paise opp)), st\<lparr>xs_store := s2\<rparr>)
                              else map_prod Inr id (create_link xe env opp (st\<lparr>xs_store := s2\<rparr>))))))"

section \<open>The batch and the replay sweep\<close>

record batch_result =
  br_max_links_cap :: nat
  br_total_authorized :: nat
  br_executed_count :: nat
  br_skipped_count :: nat
  br_failed_count :: nat
  br_results :: "(string \<times> (exec_error + exec_result)) list"

definition succeeded :: "exec_error + exec_result \<Rightarrow> bool" where
  "succeeded r = (case r of Inl _ \<Rightarrow> False | Inr x \<Rightarrow> xr_success x)"

fun batch_loop ::
  "(nat \<Rightarrow> exec_env) \<Rightarrow> nat \<Rightarrow> string list \<Rightarrow> exec_state \<Rightarrow>
   (string \<times> (exec_error + exec_result)) list \<times> exec_state" where
  "batch_loop envs i [] st = ([], st)"
| "batch_loop envs i (oid # rest) st =
     (let (r, st1) = executeOpportunity (envs i) oid st; (rs, st2) = batch_loop envs (i + 1) rest st1
      in ((oid, r) # rs, st2))"

definition batch_options :: "nat \<Rightarrow> market_options \<Rightarrow> store \<Rightarrow> market_options" where
  "batch_options maxLinks opt s =
     \<lparr>op_capacity = Some (case op_capacity opt of
        Some c \<Rightarrow> if c = 0 then int maxLinks else c | None \<Rightarrow> int maxLinks),
      op_opportunities = None, op_tenantId = op_tenantId opt, op_environment = resolve_environment opt s\<rparr>"

definition batch_report :: "nat \<Rightarrow> nat \<Rightarrow> nat \<Rightarrow> (string \<times> (exec_error + exec_result)) list \<Rightarrow> batch_result" where
  "batch_report maxLinks authorized targeted rs =
     \<lparr>br_max_links_cap = maxLinks, br_total_authorized = authorized,
      br_executed_count = length (filter (\<lambda>x. succeeded (snd x)) rs),
      br_skipped_count = authorized - targeted,
      br_failed_count = length (filter (\<lambda>x. \<not> succeeded (snd x)) rs),
      br_results = rs\<rparr>"

definition authorized_ids :: "pipeline_result \<Rightarrow> string list" where
  "authorized_ids run = map ae_opportunity_id (filter (\<lambda>e. ae_verdict e = V_AUTHORIZED) (pl_results run))"

definition executeAuthorizedBatch ::
  "(nat \<Rightarrow> exec_env) \<Rightarrow> nat \<Rightarrow> market_options \<Rightarrow> exec_state \<times> pacer \<Rightarrow>
   (batch_result \<times> exec_state \<times> pacer) option" where
  "executeAuthorizedBatch envs maxLinks opt sp =
     (case runAuthorityPipeline (xe_gate (envs 0)) (batch_options maxLinks opt (xs_store (fst sp)))
             (xs_store (fst sp), snd sp) of
        None \<Rightarrow> None
      | Some (run, s1, p1) \<Rightarrow>
          let authorizedOpps = authorized_ids run;
              targetBatch = take maxLinks authorizedOpps;
              res = batch_loop envs 1 targetBatch ((fst sp)\<lparr>xs_store := s1\<rparr>)
          in Some (batch_report maxLinks (length authorizedOpps) (length targetBatch) (fst res), snd res, p1))"

fun replay_loop :: "(nat \<Rightarrow> exec_env) \<Rightarrow> nat \<Rightarrow> dlq_job list \<Rightarrow> nat \<times> nat \<Rightarrow> exec_state \<Rightarrow> (nat \<times> nat) \<times> exec_state" where
  "replay_loop envs i [] acc st = (acc, st)"
| "replay_loop envs i (job # rest) (replayed, errors) st =
     (let xe = envs i; oid = dj_opportunity_id job; (r, st1) = executeOpportunity xe oid st
      in if succeeded r
         then replay_loop envs (i + 1) rest (replayed + 1, errors) (markRetrySuccess (xe_ended xe) oid st1)
         else let err = (case r of
                    Inr x \<Rightarrow> or_opt (xr_error x) ''Retry execution failed''
                  | Inl e \<Rightarrow> or_str (error_message (xe_crash xe) e) ''Unexpected retry crash'')
              in replay_loop envs (i + 1) rest (replayed, errors + 1)
                   (snd (recordExecutionFailure (xe_hitl_id xe) (xe_ended xe) oid err st1)))"

definition replayPendingRetries ::
  "(nat \<Rightarrow> exec_env) \<Rightarrow> nat \<Rightarrow> int \<Rightarrow> exec_state \<Rightarrow> (nat \<times> nat) \<times> exec_state" where
  "replayPendingRetries envs limit now st =
     replay_loop envs 0 (take limit (getPendingRetries now st)) (0, 0) st"

section \<open>What one execution does\<close>

lemma effective_score_frame:
  assumes "effective_score ge opp None s = Some (sc, s1)"
  shows "allocation_decisions s1 = allocation_decisions s" "execution_records s1 = execution_records s"
    "tenants s1 = tenants s" "getOpportunityById s1 k = None \<longleftrightarrow> getOpportunityById s k = None"
  using assms
  by (auto simp: effective_score_def scoreOpportunity_def Let_def getOpportunityById_updateStatus
        split: option.splits if_splits) (simp_all add: getOpportunityById_def)

definition exec_authorized :: "exec_env \<Rightarrow> store \<Rightarrow> opportunity \<Rightarrow> bool" where
  "exec_authorized xe s opp \<longleftrightarrow>
     (\<exists>d sc s1. getAllocationDecisionByOpportunityId s (o_id opp) = Some d \<and> admissible (xe_gate xe) d opp \<and>
        effective_score (xe_gate xe) opp None s = Some (sc, s1) \<and> s_confidence sc \<noteq> Low)"

lemma gate_frame:
  assumes "evaluateOpportunity ge opp (Some d) (Some sc) s = Some (ev, s')" and "getOpportunityById s (o_id opp) \<noteq> None"
  shows "execution_records s' = execution_records s" "tenants s' = tenants s"
proof -
  show "execution_records s' = execution_records s" by (rule gate_effect(7) [OF assms])
  show "tenants s' = tenants s"
    using assms(1) evaluate_given [OF assms(2), of ge d sc] by auto
qed

lemma execute_stages:
  assumes "getOpportunityById (xs_store st) oid = Some opp" and "ge_registry (xe_gate xe) = default_registry"
    and "executeOpportunity xe oid st = (r, st')"
  shows "(\<exists>e. r = Inl e) \<and> execution_records (xs_store st') = execution_records (xs_store st) \<and>
       xs_breaker st' = xs_breaker st \<or>
     exec_authorized xe (xs_store st) opp \<and>
     (\<exists>s2. execution_records s2 = execution_records (xs_store st) \<and>
        (case getExecutionRecordByOpportunityId (xs_store st) oid of
           Some rec \<Rightarrow> r = Inr (exec_ok opp False False rec) \<and> xs_breaker st' = xs_breaker st \<and>
             execution_records (xs_store st') = execution_records (xs_store st)
         | None \<Rightarrow> (r, st') = map_prod Inr id (create_link xe (execution_env (xs_store st) opp) opp (st\<lparr>xs_store := s2\<rparr>)) \<and>
             (execution_env (xs_store st) opp = Env_live \<longrightarrow>
                o_amount_paise opp \<le> MAX_LIVE_SINGLE_OPPORTUNITY_PAISE \<and>
                xe_client xe (o_tenant_id opp) Env_live = None)))"
proof (cases "effective_score (xe_gate xe) opp None (xs_store st)")
  case None
  with assms show ?thesis by (auto simp: executeOpportunity_def)
next
  case (Some scs)
  then obtain sc s1 where sc: "effective_score (xe_gate xe) opp None (xs_store st) = Some (sc, s1)"
    by (cases scs) auto
  have oid: "o_id opp = oid" using assms(1) by (auto simp: getOpportunityById_def dest: row_get_Some)
  note f1 = effective_score_frame [OF sc]
  let ?d = "case getAllocationDecisionByOpportunityId s1 (o_id opp) of
      Some d \<Rightarrow> d | None \<Rightarrow> unallocated (o_id opp) ''Unallocated execution attempt''"
  have ne: "getOpportunityById s1 (o_id opp) \<noteq> None" using f1(4) assms(1) oid by auto
  then obtain ev s2 where ev: "evaluateOpportunity (xe_gate xe) opp (Some ?d) (Some sc) s1 = Some (ev, s2)"
    using evaluate_given [of s1 opp "xe_gate xe" ?d sc] by blast
  note f2 = gate_frame [OF ev ne]
  have env: "execution_env s2 opp = execution_env (xs_store st) opp"
    by (simp add: execution_env_def getTenant_def f1 f2)
  have recs: "getExecutionRecordByOpportunityId s2 (o_id opp) = getExecutionRecordByOpportunityId (xs_store st) oid"
    by (simp add: getExecutionRecordByOpportunityId_def f1 f2 oid)
  show ?thesis
  proof (cases "ae_verdict ev = V_AUTHORIZED")
    case False
    with assms sc ev show ?thesis by (auto simp: executeOpportunity_def f1 f2)
  next
    case True
    have auth: "exec_authorized xe (xs_store st) opp"
      using gate_effect(1) [OF ev ne, unfolded assms(2) default_engine] True sc
      by (auto simp: exec_authorized_def admissible_def blocked_by_rules_def gate_context_def opp_killed_def
            or_str_def unallocated_def getAllocationDecisionByOpportunityId_def f1 split: if_splits option.splits)
    show ?thesis
      using assms(1,3) sc ev True auth recs env
      by (auto simp: executeOpportunity_def Let_def f1 f2 split: option.splits if_splits intro!: exI [of _ s2])
  qed
qed

lemma store_link_records:
  "getExecutionRecordByOpportunityId (store_link opp r s) k =
     (if k = er_opportunity_id r then Some r else getExecutionRecordByOpportunityId s k)"
  by (simp add: store_link_def getExecutionRecordByOpportunityId_def upsertExecutionRecord_def
        row_get_put replace_merge_def)

lemma announce_link_records [simp]: "execution_records (announce_link xe opp r extra title msg s) = execution_records s"
  by (simp add: announce_link_def insertNotification_def)

lemma recordExecutionFailure_records [simp]:
  "execution_records (xs_store (snd (recordExecutionFailure h now oid err st))) = execution_records (xs_store st)"
  by (simp add: recordExecutionFailure_def forward_dead_letter_def Let_def split: option.split)

lemma link_record_id [simp]: "er_opportunity_id (link_record now opp lp) = o_id opp"
  by (simp add: link_record_def)

lemma link_failed_records:
  assumes "link_failed xe env opp res st = (x, st')"
  shows "(if xr_success x
      then \<exists>r. xr_record x = Some r \<and> (\<forall>k. getExecutionRecordByOpportunityId (xs_store st') k =
             (if k = o_id opp then Some r else getExecutionRecordByOpportunityId (xs_store st) k))
      else execution_records (xs_store st') = execution_records (xs_store st))"
proof -
  have ann: "getExecutionRecordByOpportunityId (announce_link xe opp r extra title msg s) k =
      getExecutionRecordByOpportunityId s k" for r extra title msg s k
    by (simp add: getExecutionRecordByOpportunityId_def)
  show ?thesis
    using assms
    by (auto simp: link_failed_def exec_ok_def Let_def ann store_link_records split: option.splits if_splits)
qed

lemma create_link_records:
  assumes "create_link xe env opp st = (x, st')"
  shows "(if xr_success x
      then \<exists>r. xr_record x = Some r \<and> (\<forall>k. getExecutionRecordByOpportunityId (xs_store st') k =
             (if k = o_id opp then Some r else getExecutionRecordByOpportunityId (xs_store st) k))
      else execution_records (xs_store st') = execution_records (xs_store st))"
proof -
  obtain res n b where ex: "executeWithResilience (xe_config xe) (xe_started xe) (xe_ended xe) (xe_random xe)
      (xe_create xe opp) (xs_breaker st) = (res, n, b)" by (cases rule: prod_cases3)
  have ann: "getExecutionRecordByOpportunityId (announce_link xe opp r extra title msg s) k =
      getExecutionRecordByOpportunityId s k" for r extra title msg s k
    by (simp add: getExecutionRecordByOpportunityId_def)
  show ?thesis
  proof (cases res)
    case (Value lp)
    with assms ex show ?thesis
      by (auto simp: create_link_def exec_ok_def Let_def ann store_link_records)
  qed (use assms ex link_failed_records [of xe env opp res "st\<lparr>xs_breaker := b\<rparr>" x st'] in
      \<open>auto simp: create_link_def\<close>)
qed

text \<open>A stored record is never replaced.\<close>

lemma execute_keeps_records:
  assumes "ge_registry (xe_gate xe) = default_registry" and "executeOpportunity xe j st = (r, st')"
    and "getExecutionRecordByOpportunityId (xs_store st) k = Some rec"
  shows "getExecutionRecordByOpportunityId (xs_store st') k = Some rec"
proof (cases "getOpportunityById (xs_store st) j")
  case None
  with assms show ?thesis by (simp add: executeOpportunity_def)
next
  case (Some opp)
  have oid: "o_id opp = j" using Some by (auto simp: getOpportunityById_def dest: row_get_Some)
  have same: "getExecutionRecordByOpportunityId s k = Some rec"
    if "execution_records s = execution_records (xs_store st)" for s
    using assms(3) that by (simp add: getExecutionRecordByOpportunityId_def)
  from execute_stages [OF Some assms(1,2)] show ?thesis
  proof (elim disjE conjE exE)
    fix s2 assume s2: "execution_records s2 = execution_records (xs_store st)"
      and c: "case getExecutionRecordByOpportunityId (xs_store st) j of
           Some rec \<Rightarrow> r = Inr (exec_ok opp False False rec) \<and> xs_breaker st' = xs_breaker st \<and>
             execution_records (xs_store st') = execution_records (xs_store st)
         | None \<Rightarrow> (r, st') = map_prod Inr id (create_link xe (execution_env (xs_store st) opp) opp (st\<lparr>xs_store := s2\<rparr>)) \<and>
             (execution_env (xs_store st) opp = Env_live \<longrightarrow>
                o_amount_paise opp \<le> MAX_LIVE_SINGLE_OPPORTUNITY_PAISE \<and>
                xe_client xe (o_tenant_id opp) Env_live = None)"
    show ?thesis
    proof (cases "getExecutionRecordByOpportunityId (xs_store st) j")
      case None
      obtain x where x: "create_link xe (execution_env (xs_store st) opp) opp (st\<lparr>xs_store := s2\<rparr>) = (x, st')"
        using c None by (cases "create_link xe (execution_env (xs_store st) opp) opp (st\<lparr>xs_store := s2\<rparr>)") auto
      have "k \<noteq> j" using None assms(3) by auto
      then show ?thesis
        using create_link_records [OF x] same [OF s2] same oid s2 by (auto split: if_splits)
    qed (use c same in simp)
  qed (use same in auto)
qed

fun exec_step :: "exec_env \<times> string \<Rightarrow> exec_state \<Rightarrow> exec_state" where
  "exec_step (xe, j) st = snd (executeOpportunity xe j st)"

lemma exec_run_keeps_records:
  "\<forall>(xe, j) \<in> set calls. ge_registry (xe_gate xe) = default_registry \<Longrightarrow>
   getExecutionRecordByOpportunityId (xs_store st) k = Some rec \<Longrightarrow>
   getExecutionRecordByOpportunityId (xs_store (fold exec_step calls st)) k = Some rec"
proof (induction calls arbitrary: st)
  case (Cons c calls)
  obtain xe j where c: "c = (xe, j)" by (cases c)
  have "getExecutionRecordByOpportunityId (xs_store (exec_step c st)) k = Some rec"
    using execute_keeps_records [of xe j st _ _ k rec] Cons.prems
    by (simp add: c) (metis prod.collapse)
  with Cons.IH Cons.prems(1) show ?case by simp
qed simp

section \<open>The schedule of the dead-letter queue\<close>

lemma latest_snoc: "dj_opportunity_id j = oid \<Longrightarrow> latest_failures oid (jobs @ [j]) = dj_failure_count j"
  by (simp add: latest_failures_def)

lemma forward_dead_letter_effect:
  fixes h oid err :: string and now :: int and n :: nat and st :: exec_state and opp :: opportunity
  assumes "getOpportunityById (xs_store st) oid = Some opp" and "o_status opp \<noteq> Recovered"
  defines "st' \<equiv> forward_dead_letter h now oid n err st"
  shows "dlq_jobs (xs_store st') = dlq_jobs (xs_store st)"
    and "getOpportunityById (xs_store st') oid = Some (opp\<lparr>o_status := Blocked, o_attempt_count := int n\<rparr>)"
    and "\<exists>req. row_get hr_id h (xs_hitl st') = Some req \<and> hr_opportunity_id req = oid \<and>
       hr_reason req = EXECUTION_DLQ_EXHAUSTED \<and> hr_status req = HS_PENDING"
proof -
  have oid: "o_id opp = oid" using assms(1) by (auto simp: getOpportunityById_def dest: row_get_Some)
  have "next_status (o_status opp) Blocked = Blocked"
    using assms(2) by (cases "o_status opp") (auto simp: next_status_def)
  then show "getOpportunityById (xs_store st') oid = Some (opp\<lparr>o_status := Blocked, o_attempt_count := int n\<rparr>)"
    using assms(1)
    by (simp add: st'_def forward_dead_letter_def Let_def getOpportunityById_def updateOpportunityStatus_def
          row_get_update)
  show "dlq_jobs (xs_store st') = dlq_jobs (xs_store st)"
    by (simp add: st'_def forward_dead_letter_def Let_def split: option.split)
  show "\<exists>req. row_get hr_id h (xs_hitl st') = Some req \<and> hr_opportunity_id req = oid \<and>
       hr_reason req = EXECUTION_DLQ_EXHAUSTED \<and> hr_status req = HS_PENDING"
    using assms(1) oid by (simp add: st'_def forward_dead_letter_def Let_def createRequest_get)
      (simp add: createRequest_def Let_def)
qed

lemma failure_job:
  assumes "recordExecutionFailure h now oid err st = (job, st')"
  shows "job = \<lparr>dj_opportunity_id = oid, dj_failure_count = latest_failures oid (dlq_jobs (xs_store st)) + 1,
        dj_last_error = err,
        dj_next_retry_at = (if latest_failures oid (dlq_jobs (xs_store st)) < 4
          then Some (now + retryIntervalsMin ! latest_failures oid (dlq_jobs (xs_store st)) * 60 * 1000) else None),
        dj_status = (if latest_failures oid (dlq_jobs (xs_store st)) < 4 then ''PENDING_RETRY'' else ''DEAD_LETTER''),
        dj_created_at = now, dj_updated_at = now\<rparr>"
    and "\<exists>js. dlq_jobs (xs_store st') = js @ [job]"
    and "getOpportunityById (xs_store st') k =
      getOpportunityById (xs_store (if latest_failures oid (dlq_jobs (xs_store st)) < 4 then st
        else forward_dead_letter h now oid (latest_failures oid (dlq_jobs (xs_store st)) + 1) err st)) k"
    and "xs_hitl st' = xs_hitl (if latest_failures oid (dlq_jobs (xs_store st)) < 4 then st
        else forward_dead_letter h now oid (latest_failures oid (dlq_jobs (xs_store st)) + 1) err st)"
  using assms
  by (auto simp: recordExecutionFailure_def Let_def retryIntervalsMin_def getOpportunityById_def)

section \<open>Properties\<close>

text \<open>
  C1. No link without authority: with the default rules, when an execution returns a
  result, stores an execution record or touches the circuit breaker, then at that moment
  no kill switch is on for the tenant, the decline is not hard, fewer than three attempts
  were made, the market's stored decision is ACT and the confidence is not low; and a new
  link in the live environment is at most 5,000,000 paise and has a tenant client.
\<close>

theorem link_only_if_authorized:
  assumes "getOpportunityById (xs_store st) oid = Some opp" and "ge_registry (xe_gate xe) = default_registry"
    and "executeOpportunity xe oid st = (r, st')"
    and "(\<exists>x. r = Inr x) \<or> execution_records (xs_store st') \<noteq> execution_records (xs_store st) \<or>
         xs_breaker st' \<noteq> xs_breaker st"
  shows "\<not> opp_killed (xe_gate xe) opp \<and> o_decline_type opp \<noteq> Hard \<and> o_attempt_count opp < 3 \<and>
     (\<exists>d. getAllocationDecisionByOpportunityId (xs_store st) oid = Some d \<and> ad_decision d = ACT) \<and>
     (\<exists>sc s1. effective_score (xe_gate xe) opp None (xs_store st) = Some (sc, s1) \<and> s_confidence sc \<noteq> Low) \<and>
     (getExecutionRecordByOpportunityId (xs_store st) oid = None \<longrightarrow> execution_env (xs_store st) opp = Env_live \<longrightarrow>
        o_amount_paise opp \<le> 5000000 \<and> xe_client xe (o_tenant_id opp) Env_live = None)"
proof -
  have "o_id opp = oid" using assms(1) by (auto simp: getOpportunityById_def dest: row_get_Some)
  with execute_stages [OF assms(1-3)] assms(4) show ?thesis
    by (auto simp: exec_authorized_def admissible_def MAX_LIVE_SINGLE_OPPORTUNITY_PAISE_def split: option.splits)
qed

text \<open>
  C7. One link per opportunity: once an opportunity has an execution record, no sequence of
  executions of any opportunities replaces it, and a further execution of the opportunity
  either raises or returns that record as not newly created, without a call to the
  provider and without changing any record.
\<close>

theorem execution_idempotent:
  assumes "getExecutionRecordByOpportunityId (xs_store st) oid = Some rec"
    and "\<forall>(xe, j) \<in> set calls. ge_registry (xe_gate xe) = default_registry"
    and "ge_registry (xe_gate xe) = default_registry"
    and "executeOpportunity xe oid (fold exec_step calls st) = (r, st')"
  shows "getExecutionRecordByOpportunityId (xs_store (fold exec_step calls st)) oid = Some rec \<and>
     execution_records (xs_store st') = execution_records (xs_store (fold exec_step calls st)) \<and>
     xs_breaker st' = xs_breaker (fold exec_step calls st) \<and>
     (\<forall>x. r = Inr x \<longrightarrow> xr_success x \<and> \<not> xr_created_new x \<and> xr_record x = Some rec)"
proof -
  have rec: "getExecutionRecordByOpportunityId (xs_store (fold exec_step calls st)) oid = Some rec"
    using assms(1,2) by (intro exec_run_keeps_records)
  show ?thesis
  proof (cases "getOpportunityById (xs_store (fold exec_step calls st)) oid")
    case None
    with rec assms(4) show ?thesis by (auto simp: executeOpportunity_def)
  next
    case (Some opp)
    from execute_stages [OF Some assms(3,4)] rec show ?thesis by (auto simp: exec_ok_def)
  qed
qed

text \<open>
  C34. Failures back off and end with a human: each recorded failure of an opportunity is
  counted, and while the table of retry intervals lasts, the failure after \<open>n\<close> earlier
  ones is retried after the \<open>n\<close>-th interval, with the opportunity and the reviews
  untouched; the intervals grow exponentially, each at least twice the one before.  Once
  they are used up the failure is a dead letter, blocks the opportunity (unless it is
  recovered) with its attempt count, and opens a pending review request for it.  The
  numbers of the table, on which the code and the runbook differ, are in \<open>dlq_delays\<close>.
\<close>

theorem dlq_backs_off_to_review:
  assumes "recordExecutionFailure h now oid err st = (job, st')"
    and "latest_failures oid (dlq_jobs (xs_store st)) = n"
    and "getOpportunityById (xs_store st) oid = Some opp" and "o_status opp \<noteq> Recovered"
  shows "dj_failure_count job = n + 1 \<and> latest_failures oid (dlq_jobs (xs_store st')) = n + 1 \<and>
     (n < length retryIntervalsMin \<longrightarrow> dj_status job = ''PENDING_RETRY'' \<and>
        dj_next_retry_at job = Some (now + retryIntervalsMin ! n * 60000) \<and>
        getOpportunityById (xs_store st') oid = Some opp \<and> xs_hitl st' = xs_hitl st) \<and>
     0 < hd retryIntervalsMin \<and>
     (\<forall>i. Suc i < length retryIntervalsMin \<longrightarrow> 2 * retryIntervalsMin ! i \<le> retryIntervalsMin ! Suc i) \<and>
     (length retryIntervalsMin \<le> n \<longrightarrow> dj_status job = ''DEAD_LETTER'' \<and> dj_next_retry_at job = None \<and>
        getOpportunityById (xs_store st') oid =
          Some (opp\<lparr>o_status := Blocked, o_attempt_count := int (n + 1)\<rparr>) \<and>
        (\<exists>req. row_get hr_id h (xs_hitl st') = Some req \<and> hr_opportunity_id req = oid \<and>
           hr_reason req = EXECUTION_DLQ_EXHAUSTED \<and> hr_status req = HS_PENDING))"
proof -
  note j = failure_job [OF assms(1), unfolded assms(2)]
  have job: "dj_opportunity_id job = oid" "dj_failure_count job = n + 1" by (simp_all add: j(1))
  obtain js where "dlq_jobs (xs_store st') = js @ [job]" using j(2) by blast
  then have latest: "latest_failures oid (dlq_jobs (xs_store st')) = n + 1"
    using latest_snoc [OF job(1)] job(2) by simp
  have grow: "\<forall>i. Suc i < length retryIntervalsMin \<longrightarrow> 2 * retryIntervalsMin ! i \<le> retryIntervalsMin ! Suc i"
    by (auto simp: retryIntervalsMin_def less_Suc_eq numeral_eq_Suc)
  show ?thesis
    using latest j(1) j(3) [of oid] j(4) assms(3) forward_dead_letter_effect(2,3) [OF assms(3,4), of h now "n + 1" err]
    by (intro conjI grow) (simp_all add: retryIntervalsMin_def)
qed

text \<open>
  The retry table of the code: 5, 15, 60 and 240 minutes, and the fifth failure is the dead
  letter.  \<^verbatim>\<open>ARCHITECTURE_AND_WORKING.md\<close> says the same (5m, 15m, 1h, 4h); section 2.3 of
  \<^verbatim>\<open>RUNBOOK.md\<close> has five intervals of 0.5, 2, 5, 15 and 60 minutes instead.
\<close>

theorem dlq_delays:
  assumes "recordExecutionFailure h now oid err st = (job, st')"
    and "latest_failures oid (dlq_jobs (xs_store st)) = n"
  shows "dj_next_retry_at job = (if n < 4 then Some (now + [5, 15, 60, 240] ! n * 60000) else None) \<and>
     dj_status job = (if n < 4 then ''PENDING_RETRY'' else ''DEAD_LETTER'')"
  using failure_job(1) [OF assms(1), unfolded assms(2)] by (simp add: retryIntervalsMin_def)

text \<open>
  A superseded retry stays due: the status \<^verbatim>\<open>SUPERSEDED\<close> is not one the table's check
  admits, so the update that should retire the earlier retry of an opportunity fails, and
  that retry is still pending, and still due once its time has come, after the next
  failure is recorded.
\<close>

theorem superseded_retry_stays_due:
  assumes "recordExecutionFailure h now oid err st = (job, st')" and "latest_failures oid (dlq_jobs (xs_store st)) < 4"
    and "j \<in> set (dlq_jobs (xs_store st))" and "dj_opportunity_id j = oid" and "due t j"
  shows "j \<in> set (dlq_jobs (xs_store st')) \<and> j \<in> set (getPendingRetries t st')"
proof -
  have "list_ex (\<lambda>j. dj_opportunity_id j = oid \<and> dj_status j = ''PENDING_RETRY'') (dlq_jobs (xs_store st))"
    using assms(3-5) by (auto simp: list_ex_iff due_def)
  then have upd: "dlq_set_status now oid ''SUPERSEDED'' (dlq_jobs (xs_store st)) = Inl (CheckViolation ''SUPERSEDED'')"
    by (simp add: dlq_set_status_def Let_def)
  have eq: "job = fst (recordExecutionFailure h now oid err st)" "st' = snd (recordExecutionFailure h now oid err st)"
    using assms(1) by simp_all
  have "dlq_jobs (xs_store st') = dlq_jobs (xs_store st) @ [job]"
    unfolding eq using assms(2) upd by (simp add: recordExecutionFailure_def retryIntervalsMin_def Let_def)
  with assms(3,5) show ?thesis by (simp add: getPendingRetries_def)
qed

lemma batch_loop_ids: "map fst (fst (batch_loop envs i oids st)) = oids"
  by (induction envs i oids st rule: batch_loop.induct) (auto simp: Let_def split: prod.splits)

text \<open>
  The batch keeps its cap: it processes the first \<^verbatim>\<open>maxLinks\<close> of the opportunities that the
  pipeline run of the same call authorised, in its order and no others; every authorised
  one is executed, failed or skipped, and is counted exactly once.
\<close>

theorem batch_within_cap:
  assumes "executeAuthorizedBatch envs maxLinks opt (st, p) = Some (b, st', p')"
  shows "br_executed_count b + br_failed_count b = length (br_results b) \<and> length (br_results b) \<le> maxLinks \<and>
     br_total_authorized b = br_executed_count b + br_failed_count b + br_skipped_count b \<and>
     (\<exists>run s1 opt'. runAuthorityPipeline (xe_gate (envs 0)) opt' (xs_store st, p) = Some (run, s1, p') \<and>
        br_total_authorized b = length (authorized_ids run) \<and>
        map fst (br_results b) = take maxLinks (authorized_ids run))"
proof -
  from assms obtain run s1 where
    run: "runAuthorityPipeline (xe_gate (envs 0)) (batch_options maxLinks opt (xs_store st)) (xs_store st, p) = Some (run, s1, p')"
    and b: "b = batch_report maxLinks (length (authorized_ids run)) (length (take maxLinks (authorized_ids run)))
      (fst (batch_loop envs 1 (take maxLinks (authorized_ids run)) (st\<lparr>xs_store := s1\<rparr>)))"
    unfolding executeAuthorizedBatch_def Let_def by (simp split: option.splits prod.splits)
  define rs where "rs = fst (batch_loop envs 1 (take maxLinks (authorized_ids run)) (st\<lparr>xs_store := s1\<rparr>))"
  have ids: "map fst rs = take maxLinks (authorized_ids run)" unfolding rs_def by (rule batch_loop_ids)
  then have len: "length rs = min (length (authorized_ids run)) maxLinks" by (metis length_map length_take)
  have "br_executed_count b + br_failed_count b = length rs"
    using sum_length_filter_compl [of "\<lambda>x. succeeded (snd x)" rs] by (simp add: b batch_report_def rs_def)
  moreover have "br_results b = rs" "br_total_authorized b = length (authorized_ids run)"
      "br_skipped_count b = length (authorized_ids run) - min (length (authorized_ids run)) maxLinks"
    by (simp_all add: b batch_report_def rs_def)
  ultimately show ?thesis using run ids len by auto
qed

section \<open>Witnesses\<close>

definition sample_response :: link_response where
  "sample_response = \<lparr>lp_id = ''plink_9'', lp_short_url = None, lp_status = Some ''created''\<rparr>"

definition sample_exec_env :: exec_env where
  "sample_exec_env = \<lparr>xe_gate = sample_gate_env, xe_client = (\<lambda>t e. None), xe_config = default_breaker_config,
     xe_random = (\<lambda>n. 0), xe_create = (\<lambda>o' n. Success sample_response), xe_existing = (\<lambda>o'. None),
     xe_started = 1, xe_ended = 2, xe_now = ''2026'', xe_led_id = ''led_1'', xe_notif_id = ''notif_1'',
     xe_hitl_id = ''hitl_1'', xe_crash = ''TypeError''\<rparr>"

definition act_decision :: allocation_decision where
  "act_decision = (unallocated ''b'' ''x'')\<lparr>ad_decision := ACT\<rparr>"

definition sample_exec_state :: exec_state where
  "sample_exec_state = \<lparr>xs_store = sample_market_store\<lparr>allocation_decisions := [act_decision]\<rparr>,
     xs_breaker = new_breaker 0 None, xs_hitl = []\<rparr>"

lemma sample_exec_get:
  "getOpportunityById (xs_store sample_exec_state) ''b'' = Some (sample_opportunity ''b'' ''expired_card'' Soft 9000)"
  "getScoreByOpportunityId (xs_store sample_exec_state) ''b'' = Some (sample_score_row ''b'' 900)"
  "getAllocationDecisionByOpportunityId (xs_store sample_exec_state) ''b'' = Some act_decision"
  "getExecutionRecordByOpportunityId (xs_store sample_exec_state) ''b'' = None"
  "ge_registry (xe_gate sample_exec_env) = default_registry"
  using sample_market_get sample_market_scores(2)
  by (simp_all add: sample_exec_state_def getOpportunityById_def getScoreByOpportunityId_def
        getAllocationDecisionByOpportunityId_def getExecutionRecordByOpportunityId_def row_get_def
        act_decision_def unallocated_def sample_market_store_def empty_store_def sample_exec_env_def sample_gate_env_def)

lemma sample_exec_gate:
  "\<exists>ev s2. evaluateOpportunity sample_gate_env (sample_opportunity ''b'' ''expired_card'' Soft 9000)
      (Some act_decision) (Some (sample_score_row ''b'' 900)) (xs_store sample_exec_state) = Some (ev, s2) \<and>
    ae_verdict ev = V_AUTHORIZED \<and> getExecutionRecordByOpportunityId s2 ''b'' = None"
proof -
  let ?o = "sample_opportunity ''b'' ''expired_card'' Soft 9000"
  have ne: "getOpportunityById (xs_store sample_exec_state) (o_id ?o) \<noteq> None"
    using sample_exec_get(1) by simp
  obtain ev s2 where ev: "evaluateOpportunity sample_gate_env ?o (Some act_decision) (Some (sample_score_row ''b'' 900))
      (xs_store sample_exec_state) = Some (ev, s2)"
    using evaluate_given [OF ne, of sample_gate_env act_decision "sample_score_row ''b'' 900"] by blast
  have reg: "ge_registry sample_gate_env = default_registry" by (simp add: sample_gate_env_def)
  have "ae_verdict ev = V_AUTHORIZED"
    using gate_effect(1) [OF ev ne, unfolded reg default_engine]
    by (simp add: blocked_by_rules_def gate_context_def act_decision_def sample_opportunity_def sample_score_row_def
          sample_gate_env_def resetAllKillSwitches_def isKillSwitchActive_def or_str_def)
  moreover have "getExecutionRecordByOpportunityId s2 ''b'' = None"
    using gate_frame(1) [OF ev ne] sample_exec_get(4) by (simp add: getExecutionRecordByOpportunityId_def)
  ultimately show ?thesis using ev by blast
qed

lemma sample_exec:
  "\<exists>st'. executeOpportunity sample_exec_env ''b'' sample_exec_state =
     (Inr (exec_ok (sample_opportunity ''b'' ''expired_card'' Soft 9000) True False
        (link_record ''2026'' (sample_opportunity ''b'' ''expired_card'' Soft 9000) sample_response)), st')"
proof -
  obtain ev s2 where ev: "evaluateOpportunity sample_gate_env (sample_opportunity ''b'' ''expired_card'' Soft 9000)
      (Some act_decision) (Some (sample_score_row ''b'' 900)) (xs_store sample_exec_state) = Some (ev, s2)"
    "ae_verdict ev = V_AUTHORIZED" "getExecutionRecordByOpportunityId s2 ''b'' = None"
    using sample_exec_gate by blast
  have cl: "xe_client sample_exec_env t e = None" for t e by (simp add: sample_exec_env_def)
  let ?o = "sample_opportunity ''b'' ''expired_card'' Soft 9000"
  obtain st' where "create_link sample_exec_env (execution_env s2 ?o) ?o (sample_exec_state\<lparr>xs_store := s2\<rparr>) =
      (exec_ok ?o True False (link_record ''2026'' ?o sample_response), st')"
    by (simp add: create_link_def sample_exec_env_def sample_exec_state_def executeWithResilience_def
          checkCooldown_def new_breaker_def attempt_loop.simps default_breaker_config_def Let_def)
  moreover have "o_amount_paise ?o = 9000" by (simp add: sample_opportunity_def)
  moreover have "xe_gate sample_exec_env = sample_gate_env" by (simp add: sample_exec_env_def)
  ultimately show ?thesis
    using ev sample_exec_get(1-4)
    by (simp add: executeOpportunity_def effective_score_def cl Let_def MAX_LIVE_SINGLE_OPPORTUNITY_PAISE_def)
qed

theorem link_only_if_authorized_witness:
  "\<not> opp_killed (xe_gate sample_exec_env) (sample_opportunity ''b'' ''expired_card'' Soft 9000) \<and>
   (\<exists>d. getAllocationDecisionByOpportunityId (xs_store sample_exec_state) ''b'' = Some d \<and> ad_decision d = ACT)"
proof -
  obtain x st' where "executeOpportunity sample_exec_env ''b'' sample_exec_state = (Inr x, st')"
    using sample_exec by blast
  from link_only_if_authorized [OF sample_exec_get(1,5) this] show ?thesis by blast
qed

definition sample_linked_state :: exec_state where
  "sample_linked_state = sample_exec_state\<lparr>xs_store := upsertExecutionRecord
     (link_record ''2026'' (sample_opportunity ''b'' ''expired_card'' Soft 9000) sample_response)
     (xs_store sample_exec_state)\<rparr>"

theorem execution_idempotent_witness:
  "xs_breaker (snd (executeOpportunity sample_exec_env ''b'' (fold exec_step [(sample_exec_env, ''a'')] sample_linked_state)))
     = xs_breaker (fold exec_step [(sample_exec_env, ''a'')] sample_linked_state)"
proof -
  have rec: "getExecutionRecordByOpportunityId (xs_store sample_linked_state) ''b'' =
      Some (link_record ''2026'' (sample_opportunity ''b'' ''expired_card'' Soft 9000) sample_response)"
    by (simp add: sample_linked_state_def getExecutionRecordByOpportunityId_def upsertExecutionRecord_def
          row_get_put replace_merge_def)
  obtain r st' where "executeOpportunity sample_exec_env ''b''
      (fold exec_step [(sample_exec_env, ''a'')] sample_linked_state) = (r, st')" by fastforce
  from execution_idempotent [OF rec _ sample_exec_get(5) this] this sample_exec_get(5) show ?thesis by simp
qed

theorem dlq_backs_off_to_review_witness:
  "dj_next_retry_at (fst (recordExecutionFailure ''h1'' 0 ''b'' ''ETIMEDOUT'' sample_exec_state)) = Some 300000"
proof -
  obtain job st' where r: "recordExecutionFailure ''h1'' 0 ''b'' ''ETIMEDOUT'' sample_exec_state = (job, st')" by fastforce
  have z: "latest_failures ''b'' (dlq_jobs (xs_store sample_exec_state)) = 0"
    by (simp add: latest_failures_def sample_exec_state_def sample_market_store_def empty_store_def)
  have "o_status (sample_opportunity ''b'' ''expired_card'' Soft 9000) \<noteq> Recovered"
    by (simp add: sample_opportunity_def)
  from dlq_backs_off_to_review [OF r z sample_exec_get(1) this] r show ?thesis
    by (simp add: retryIntervalsMin_def)
qed

definition pending_job :: dlq_job where
  "pending_job = \<lparr>dj_opportunity_id = ''b'', dj_failure_count = 1, dj_last_error = ''ETIMEDOUT'',
     dj_next_retry_at = Some 300000, dj_status = ''PENDING_RETRY'', dj_created_at = 0, dj_updated_at = 0\<rparr>"

definition sample_dlq_state :: exec_state where
  "sample_dlq_state = sample_exec_state\<lparr>xs_store := (xs_store sample_exec_state)\<lparr>dlq_jobs := [pending_job]\<rparr>\<rparr>"

theorem superseded_retry_stays_due_witness:
  "pending_job \<in> set (getPendingRetries 400000 (snd (recordExecutionFailure ''h1'' 310000 ''b'' ''again'' sample_dlq_state)))"
proof -
  obtain job st' where r: "recordExecutionFailure ''h1'' 310000 ''b'' ''again'' sample_dlq_state = (job, st')" by fastforce
  from superseded_retry_stays_due [OF r, of pending_job 400000] r show ?thesis
    by (simp add: sample_dlq_state_def pending_job_def latest_failures_def due_def)
qed

theorem batch_within_cap_witness:
  "\<exists>b st' p'. executeAuthorizedBatch (\<lambda>n. sample_exec_env) 1 sample_market_options
      (sample_exec_state\<lparr>xs_store := sample_market_store\<rparr>, new_pacer) = Some (b, st', p') \<and>
     length (br_results b) \<le> 1"
proof -
  have opt: "batch_options (Suc 0) sample_market_options sample_market_store = sample_market_options"
    by (simp add: batch_options_def sample_market_options_def resolve_environment_def truthy_str_def)
  obtain run s1 p1 where "runAuthorityPipeline sample_gate_env sample_market_options
      (sample_market_store, new_pacer) = Some (run, s1, p1)"
    using sample_pipeline_run [of sample_gate_env] by (auto simp: sample_gate_env_def)
  then obtain b st' p' where ex: "executeAuthorizedBatch (\<lambda>n. sample_exec_env) 1 sample_market_options
      (sample_exec_state\<lparr>xs_store := sample_market_store\<rparr>, new_pacer) = Some (b, st', p')"
    using that by (simp add: executeAuthorizedBatch_def opt sample_exec_env_def Let_def)
  from batch_within_cap [OF ex] ex show ?thesis by blast
qed

end
