(* ===== verification/Mission_Guards.thy ===== *)
theory Mission_Guards
  imports JSON
begin

text \<open>
  The two guards a mission carries: the budget tracker of \<^verbatim>\<open>src/agents/budget.ts\<close>
  and the loop guard of \<^verbatim>\<open>src/agents/loop_guard.ts\<close>.  The digest is the parameter
  \<open>sha\<close> (hexadecimal SHA-256); the clock is an argument of the operations that read it.
\<close>

section \<open>The mission budget\<close>

record budget_config =
  max_llm_calls :: int
  max_tool_calls :: int
  max_replans :: int
  max_steps :: int
  max_wall_clock_ms :: int

definition DEFAULT_AGENT_BUDGET :: budget_config where
  "DEFAULT_AGENT_BUDGET = \<lparr>max_llm_calls = 8, max_tool_calls = 20, max_replans = 3, max_steps = 40,
     max_wall_clock_ms = 30000\<rparr>"

record budget_usage =
  us_llm_calls :: int
  us_tool_calls :: int
  us_replans :: int
  us_steps :: int
  us_total_tokens :: int
  us_start_time_ms :: int

record budget_tracker =
  bt_config :: budget_config
  bt_usage :: budget_usage

definition new_tracker :: "budget_config \<Rightarrow> int \<Rightarrow> budget_tracker" where
  "new_tracker cfg now = \<lparr>bt_config = cfg,
     bt_usage = \<lparr>us_llm_calls = 0, us_tool_calls = 0, us_replans = 0, us_steps = 0,
                 us_total_tokens = 0, us_start_time_ms = now\<rparr>\<rparr>"

datatype budget_name = B_llm_calls | B_tool_calls | B_replans | B_steps | B_wall_clock_ms

record budget_excess =
  bx_name :: budget_name
  bx_limit :: int
  bx_current :: int
  bx_message :: string

definition over_message :: "string \<Rightarrow> int \<Rightarrow> int \<Rightarrow> string" where
  "over_message what cur bound =
     ''Exceeded maximum '' @ what @ '' budget ('' @ show_int cur @ ''/'' @ show_int bound @ '')''"

text \<open>\<open>None\<close> is the answer \<^verbatim>\<open>{ exceeded: false }\<close>.\<close>

definition checkBudgets :: "int \<Rightarrow> budget_tracker \<Rightarrow> budget_excess option" where
  "checkBudgets now t =
     (let c = bt_config t; u = bt_usage t; elapsed = now - us_start_time_ms u;
          over = (\<lambda>n what cur bound. Some \<lparr>bx_name = n, bx_limit = bound, bx_current = cur,
                    bx_message = over_message what cur bound\<rparr>)
      in if max_llm_calls c < us_llm_calls u
         then over B_llm_calls ''LLM calls'' (us_llm_calls u) (max_llm_calls c)
         else if max_tool_calls c < us_tool_calls u
         then over B_tool_calls ''tool calls'' (us_tool_calls u) (max_tool_calls c)
         else if max_replans c < us_replans u
         then over B_replans ''replans'' (us_replans u) (max_replans c)
         else if max_steps c < us_steps u
         then over B_steps ''steps'' (us_steps u) (max_steps c)
         else if max_wall_clock_ms c < elapsed
         then Some \<lparr>bx_name = B_wall_clock_ms, bx_limit = max_wall_clock_ms c, bx_current = elapsed,
                    bx_message = ''Exceeded maximum wall-clock timeout ('' @ show_int elapsed @ ''ms / '' @
                      show_int (max_wall_clock_ms c) @ ''ms)''\<rparr>
         else None)"

definition recordStep :: "int \<Rightarrow> budget_tracker \<Rightarrow> budget_excess option \<times> budget_tracker" where
  "recordStep now t =
     (let t' = t\<lparr>bt_usage := (bt_usage t)\<lparr>us_steps := us_steps (bt_usage t) + 1\<rparr>\<rparr>
      in (checkBudgets now t', t'))"

definition recordLLMCall :: "int \<Rightarrow> int \<Rightarrow> budget_tracker \<Rightarrow> budget_excess option \<times> budget_tracker" where
  "recordLLMCall now tokensUsed t =
     (let t' = t\<lparr>bt_usage := (bt_usage t)\<lparr>us_llm_calls := us_llm_calls (bt_usage t) + 1,
                    us_total_tokens := us_total_tokens (bt_usage t) + tokensUsed\<rparr>\<rparr>
      in (checkBudgets now t', t'))"

definition recordToolCall :: "int \<Rightarrow> budget_tracker \<Rightarrow> budget_excess option \<times> budget_tracker" where
  "recordToolCall now t =
     (let t' = t\<lparr>bt_usage := (bt_usage t)\<lparr>us_tool_calls := us_tool_calls (bt_usage t) + 1\<rparr>\<rparr>
      in (checkBudgets now t', t'))"

definition recordReplan :: "int \<Rightarrow> budget_tracker \<Rightarrow> budget_excess option \<times> budget_tracker" where
  "recordReplan now t =
     (let t' = t\<lparr>bt_usage := (bt_usage t)\<lparr>us_replans := us_replans (bt_usage t) + 1\<rparr>\<rparr>
      in (checkBudgets now t', t'))"

definition within_budgets :: "int \<Rightarrow> budget_tracker \<Rightarrow> bool" where
  "within_budgets now t \<longleftrightarrow>
     us_llm_calls (bt_usage t) \<le> max_llm_calls (bt_config t) \<and>
     us_tool_calls (bt_usage t) \<le> max_tool_calls (bt_config t) \<and>
     us_replans (bt_usage t) \<le> max_replans (bt_config t) \<and>
     us_steps (bt_usage t) \<le> max_steps (bt_config t) \<and>
     now - us_start_time_ms (bt_usage t) \<le> max_wall_clock_ms (bt_config t)"

lemma checkBudgets_None: "checkBudgets now t = None \<longleftrightarrow> within_budgets now t"
  by (auto simp: checkBudgets_def within_budgets_def Let_def split: if_splits)

lemma bx_message_nonempty: "checkBudgets now t = Some x \<Longrightarrow> bx_message x \<noteq> []"
  by (auto simp: checkBudgets_def over_message_def Let_def split: if_splits)

section \<open>The loop guard\<close>

record guard_entry =
  ge_fingerprint :: string
  ge_toolName :: string
  ge_timestamp :: int
  ge_success :: bool

record loop_guard =
  lg_history :: "guard_entry list"
  lg_plans :: "string list"
  lg_max_identical :: nat
  lg_max_failures :: nat

definition new_guard :: loop_guard where
  "new_guard = \<lparr>lg_history = [], lg_plans = [], lg_max_identical = 3, lg_max_failures = 2\<rparr>"

text \<open>\<^verbatim>\<open>JSON.stringify(payload, keys)\<close>: the key list is applied, in its order, to the
  objects at every depth.\<close>

primrec stringify_keys :: "string list \<Rightarrow> json \<Rightarrow> string" where
  "stringify_keys ks JNull = stringify JNull"
| "stringify_keys ks (JBool b) = stringify (JBool b)"
| "stringify_keys ks (JNum n) = stringify (JNum n)"
| "stringify_keys ks (JStr s) = stringify (JStr s)"
| "stringify_keys ks (JArr xs) = ''['' @ join_with '','' (map (stringify_keys ks) xs) @ '']''"
| "stringify_keys ks (JObj ms) =
     (let done = map (map_prod id (stringify_keys ks)) ms
      in ''{'' @ join_with '','' (List.map_filter
            (\<lambda>k. map_option (\<lambda>v. quote_str k @ '':'' @ v) (map_of done k)) ks) @ ''}'')"

type_synonym payload = "(string \<times> json) list"

definition generateToolFingerprint :: "(string \<Rightarrow> string) \<Rightarrow> string \<Rightarrow> payload \<Rightarrow> string" where
  "generateToolFingerprint sha toolName inputPayload =
     sha (toolName @ '':'' @ stringify_keys (sort (map fst inputPayload)) (JObj inputPayload))"

definition generatePlanFingerprint :: "(string \<Rightarrow> string) \<Rightarrow> string list \<Rightarrow> string \<Rightarrow> string" where
  "generatePlanFingerprint sha steps preferredAction =
     sha (stringify (JObj [(''steps'', JArr (map JStr steps)), (''preferredAction'', JStr preferredAction)]))"

text \<open>\<^verbatim>\<open>xs.slice(-n)\<close>: for \<open>n = 0\<close> it is the whole list.\<close>

definition slice_last :: "nat \<Rightarrow> 'a list \<Rightarrow> 'a list" where
  "slice_last n xs = (if n = 0 then xs else drop (length xs - n) xs)"

record guard_result =
  gr_allowed :: bool
  gr_reason :: "string option"
  gr_fingerprint :: string

definition checkToolCall :: "(string \<Rightarrow> string) \<Rightarrow> string \<Rightarrow> payload \<Rightarrow> loop_guard \<Rightarrow> guard_result" where
  "checkToolCall sha toolName inputPayload g =
     (let fp = generateToolFingerprint sha toolName inputPayload;
          recent = slice_last (lg_max_identical g) (lg_history g);
          failures = slice_last (lg_max_failures g)
                       (filter (\<lambda>e. ge_toolName e = toolName) (lg_history g))
      in if lg_max_identical g \<le> length recent \<and> list_all (\<lambda>e. ge_fingerprint e = fp) recent
         then \<lparr>gr_allowed = False,
               gr_reason = Some (''Loop Guard: Blocked '' @ show_nat (lg_max_identical g) @
                 '' consecutive identical tool calls to '' @ [CHR 0x27] @ toolName @ [CHR 0x27]),
               gr_fingerprint = fp\<rparr>
         else if lg_max_failures g \<le> length failures \<and> list_all (\<lambda>e. \<not> ge_success e) failures
         then \<lparr>gr_allowed = False,
               gr_reason = Some (''Loop Guard: Blocked after '' @ show_nat (lg_max_failures g) @
                 '' consecutive failures for tool '' @ [CHR 0x27] @ toolName @ [CHR 0x27]),
               gr_fingerprint = fp\<rparr>
         else \<lparr>gr_allowed = True, gr_reason = None, gr_fingerprint = fp\<rparr>)"

definition recordToolExecution ::
  "(string \<Rightarrow> string) \<Rightarrow> int \<Rightarrow> string \<Rightarrow> payload \<Rightarrow> bool \<Rightarrow> loop_guard \<Rightarrow> loop_guard" where
  "recordToolExecution sha now toolName inputPayload success g =
     g\<lparr>lg_history := lg_history g @
        [\<lparr>ge_fingerprint = generateToolFingerprint sha toolName inputPayload, ge_toolName = toolName,
          ge_timestamp = now, ge_success = success\<rparr>]\<rparr>"

definition checkPlanLoop ::
  "(string \<Rightarrow> string) \<Rightarrow> string list \<Rightarrow> string \<Rightarrow> loop_guard \<Rightarrow> guard_result \<times> loop_guard" where
  "checkPlanLoop sha steps preferredAction g =
     (let fp = generatePlanFingerprint sha steps preferredAction
      in if fp \<in> set (lg_plans g)
         then (\<lparr>gr_allowed = False,
                gr_reason = Some ''Loop Guard: Cyclic plan detected. Identical plan already executed in this mission.'',
                gr_fingerprint = fp\<rparr>, g)
         else (\<lparr>gr_allowed = True, gr_reason = None, gr_fingerprint = fp\<rparr>,
               g\<lparr>lg_plans := lg_plans g @ [fp]\<rparr>))"

section \<open>Lemmas\<close>

lemma length_slice_last: "0 < n \<Longrightarrow> length (slice_last n xs) = min n (length xs)"
  by (simp add: slice_last_def)

lemma slice_last_snoc:
  "0 < n \<Longrightarrow> slice_last n (xs @ [x]) = drop (Suc (length xs) - n) xs @ [x]"
  by (simp add: slice_last_def)

text \<open>The last entries of a tool, all failures: the tool is locked.\<close>

definition tool_locked :: "string \<Rightarrow> loop_guard \<Rightarrow> bool" where
  "tool_locked tool g =
     (let failures = slice_last (lg_max_failures g) (filter (\<lambda>e. ge_toolName e = tool) (lg_history g))
      in 0 < lg_max_failures g \<and> lg_max_failures g \<le> length failures \<and>
         list_all (\<lambda>e. \<not> ge_success e) failures)"

lemma locked_denies: "tool_locked tool g \<Longrightarrow> \<not> gr_allowed (checkToolCall sha tool p g)"
  by (simp add: tool_locked_def checkToolCall_def Let_def)

lemma list_all_slice_snoc:
  assumes "0 < n" and "list_all P (slice_last n xs)" and "P x" and "n \<le> length (slice_last n xs)"
  shows "list_all P (slice_last n (xs @ [x])) \<and> n \<le> length (slice_last n (xs @ [x]))"
proof -
  have len: "n \<le> length xs" using assms(1,4) by (simp add: length_slice_last)
  have "drop (Suc (length xs) - n) xs = drop 1 (slice_last n xs)"
    using assms(1) len by (simp add: slice_last_def Suc_diff_le)
  then show ?thesis
    using assms len by (auto simp: slice_last_snoc length_slice_last list_all_iff dest: in_set_dropD)
qed

lemma locked_stays:
  assumes "tool_locked tool g" and "tool' = tool \<Longrightarrow> \<not> ok"
  shows "tool_locked tool (recordToolExecution sha now tool' p ok g)"
proof (cases "tool' = tool")
  case True
  let ?n = "lg_max_failures g" and ?xs = "filter (\<lambda>e. ge_toolName e = tool) (lg_history g)"
  from list_all_slice_snoc [of ?n "\<lambda>e. \<not> ge_success e" ?xs] assms True show ?thesis
    by (auto simp: tool_locked_def recordToolExecution_def Let_def)
next
  case False
  with assms(1) show ?thesis by (simp add: tool_locked_def recordToolExecution_def Let_def)
qed

lemma two_failures_lock:
  assumes "lg_max_failures g = 2"
  shows "tool_locked tool (recordToolExecution sha n2 tool p2 False (recordToolExecution sha n1 tool p1 False g))"
  using assms by (auto simp: tool_locked_def recordToolExecution_def slice_last_def Let_def)

end
