(* ===== verification/Redact.thy ===== *)
theory Redact
  imports JSON
begin

text \<open>
  What leaves the system in clear text: the log sanitiser of
  \<^verbatim>\<open>src/agents/telemetry.ts\<close>, the masking of personal data in
  \<^verbatim>\<open>src/security/pii.ts\<close>, and the cleaning of request bodies in
  \<^verbatim>\<open>src/security/input_sanitizer.ts\<close>.

  A global regular-expression replacement is the loop \<open>replace_all\<close> over a matcher: the
  length of the match at a position, given the character before it (for the word
  boundary), and 0 when there is none.  None of the expressions of these files matches
  the empty string.
\<close>

section \<open>Global replacement\<close>

definition alpha :: "char \<Rightarrow> bool" where
  "alpha c = (let n = of_char c :: nat in 65 \<le> n \<and> n \<le> 90 \<or> 97 \<le> n \<and> n \<le> 122)"

definition alnum :: "char \<Rightarrow> bool" where
  "alnum c = (alpha c \<or> is_digit c)"

definition word_char :: "char \<Rightarrow> bool" where
  "word_char c = (alnum c \<or> c = CHR ''_'')"

type_synonym matcher = "char option \<Rightarrow> string \<Rightarrow> nat"

fun replace_all :: "matcher \<Rightarrow> string \<Rightarrow> char option \<Rightarrow> string \<Rightarrow> string" where
  "replace_all m r p [] = []"
| "replace_all m r p (c # s) =
     (let n = m p (c # s)
      in if n = 0 then c # replace_all m r (Some c) s
         else r @ replace_all m r (Some (last (take n (c # s)))) (drop (n - 1) s))"

definition prefix_run :: "string \<Rightarrow> (char \<Rightarrow> bool) \<Rightarrow> matcher" where
  "prefix_run pre P _ s =
     (let run = takeWhile P (drop (length pre) s)
      in if prefix pre s \<and> run \<noteq> [] then length pre + length run else 0)"

definition at_word :: "char option \<Rightarrow> bool" where
  "at_word p = (case p of None \<Rightarrow> False | Some c \<Rightarrow> word_char c)"

definition starts_word :: "string \<Rightarrow> bool" where
  "starts_word s = (case s of [] \<Rightarrow> False | c # _ \<Rightarrow> word_char c)"

text \<open>\<^verbatim>\<open>\b\d{k}\b\<close>\<close>

definition digits_token :: "nat \<Rightarrow> matcher" where
  "digits_token k p s =
     (if \<not> at_word p \<and> k \<le> length s \<and> list_all is_digit (take k s) \<and> \<not> starts_word (drop k s)
      then k else 0)"

text \<open>\<^verbatim>\<open>Bearer\s+[a-zA-Z0-9_.-]+\<close>, ignoring case.\<close>

definition bearer_token :: matcher where
  "bearer_token _ s =
     (let ws = takeWhile is_ws (drop 6 s);
          tok = takeWhile (\<lambda>c. word_char c \<or> c = CHR ''.'' \<or> c = CHR ''-'') (drop (6 + length ws) s)
      in if toLowerCase (take 6 s) = ''bearer'' \<and> ws \<noteq> [] \<and> tok \<noteq> []
         then 6 + length ws + length tok else 0)"

definition rzp_key :: matcher where
  "rzp_key p s =
     (let n = prefix_run ''rzp_test_'' alnum p s
      in if n \<noteq> 0 then n else prefix_run ''rzp_live_'' alnum p s)"

definition nvapi_key :: matcher where
  "nvapi_key = prefix_run ''nvapi-'' (\<lambda>c. word_char c \<or> c = CHR ''-'')"

definition sanitizeTextForLog :: "string \<Rightarrow> string" where
  "sanitizeTextForLog text =
     (if text = [] then []
      else replace_all (digits_token 3) ''***'' None
            (replace_all (digits_token 16) ''****-****-****-****'' None
              (replace_all bearer_token ''Bearer ***_REDACTED'' None
                (replace_all nvapi_key ''nvapi-***_REDACTED'' None
                  (replace_all rzp_key ''rzp_***_REDACTED'' None text)))))"

section \<open>Personal data\<close>

definition slice :: "nat \<Rightarrow> nat \<Rightarrow> string \<Rightarrow> string" where
  "slice a b s = drop a (take b s)"

definition slice_end :: "nat \<Rightarrow> string \<Rightarrow> string" where
  "slice_end n s = drop (length s - n) s"

definition maskPhone :: "string option \<Rightarrow> string" where
  "maskPhone phone =
     (if \<not> truthy_str phone then ''-''
      else
        let clean = filter (\<lambda>c. is_digit c \<or> c = CHR ''+'') (the phone)
        in if length clean \<le> 4 then ''****''
           else if startsWith clean ''+91'' \<and> length clean = 13
           then ''+91 '' @ slice 3 5 clean @ ''****'' @ drop 9 clean
           else if length clean = 10 then slice 0 2 clean @ ''****'' @ drop 6 clean
           else slice 0 3 clean @ ''****'' @ slice_end 2 clean)"

fun split_on :: "char \<Rightarrow> string \<Rightarrow> string list" where
  "split_on d [] = [[]]"
| "split_on d (c # s) =
     (if c = d then [] # split_on d s
      else case split_on d s of [] \<Rightarrow> [[c]] | p # ps \<Rightarrow> (c # p) # ps)"

definition maskEmail :: "string option \<Rightarrow> string" where
  "maskEmail email =
     (if \<not> truthy_str email then ''-''
      else
        (case split_on (CHR ''@'') (the email) of
           [user, domain] \<Rightarrow>
             if user = [] \<or> domain = [] then ''****@domain.com''
             else if length user \<le> 2 then [hd user] @ ''*@'' @ domain
             else [hd user] @ ''****'' @ [last user] @ ''@'' @ domain
         | _ \<Rightarrow> ''****@domain.com''))"

text \<open>\<^verbatim>\<open>split(/\s+/)\<close> of a trimmed string.\<close>

function split_ws :: "string \<Rightarrow> string list" where
  "split_ws [] = [[]]"
| "split_ws (c # s) =
     (if is_ws c then [] # split_ws (dropWhile is_ws s)
      else case split_ws s of [] \<Rightarrow> [[c]] | p # ps \<Rightarrow> (c # p) # ps)"
  by pat_completeness auto
termination
  by (relation "measure length") (auto intro: le_imp_less_Suc [OF length_dropWhile_le])

definition maskName :: "string option \<Rightarrow> string" where
  "maskName name =
     (if \<not> truthy_str name then ''Customer''
      else
        (case split_ws (trim (the name)) of
           first # second # _ \<Rightarrow>
             if second = [] then or_str first ''Customer''
             else first @ '' '' @ [hd second] @ ''.''
         | [first] \<Rightarrow> or_str first ''Customer''
         | [] \<Rightarrow> ''Customer''))"

text \<open>Assignment \<^verbatim>\<open>o[k] = v\<close>, seen on the own members of \<^verbatim>\<open>o\<close>: the key
  \<^verbatim>\<open>__proto__\<close> reaches the prototype and adds no member.\<close>

fun assoc_set :: "string \<Rightarrow> json \<Rightarrow> (string \<times> json) list \<Rightarrow> (string \<times> json) list" where
  "assoc_set k v [] = [(k, v)]"
| "assoc_set k v ((k', w) # ms) = (if k = k' then (k, v) # ms else (k', w) # assoc_set k v ms)"

definition member_set :: "string \<Rightarrow> json \<Rightarrow> (string \<times> json) list \<Rightarrow> (string \<times> json) list" where
  "member_set k v ms = (if k = ''__proto__'' then ms else assoc_set k v ms)"

definition mask_field :: "string \<Rightarrow> string \<Rightarrow> string" where
  "mask_field key value =
     (let lowerKey = toLowerCase key
      in if includes_str lowerKey ''phone'' \<or> includes_str lowerKey ''contact'' then maskPhone (Some value)
         else if includes_str lowerKey ''email'' then maskEmail (Some value)
         else if lowerKey = ''customer_name'' \<or> lowerKey = ''name'' then maskName (Some value)
         else value)"

definition mask_member :: "string \<Rightarrow> json \<Rightarrow> json" where
  "mask_member key v = (case v of JStr s \<Rightarrow> JStr (mask_field key s) | _ \<Rightarrow> v)"

primrec mask_obj :: "json \<Rightarrow> json" where
  "mask_obj JNull = JNull"
| "mask_obj (JBool b) = JBool b"
| "mask_obj (JNum n) = JNum n"
| "mask_obj (JStr s) = JStr s"
| "mask_obj (JArr xs) =
     JArr (map (\<lambda>(i, v). mask_member (show_nat i) v) (enumerate 0 (map mask_obj xs)))"
| "mask_obj (JObj ms) =
     JObj (fold (\<lambda>(k, v). member_set k (mask_member k v)) (map (map_prod id mask_obj) ms) [])"

definition sanitizeObject :: "json \<Rightarrow> bool \<Rightarrow> json" where
  "sanitizeObject obj allowPII = (if allowPII then obj else mask_obj obj)"

section \<open>Request bodies\<close>

definition MAX_FIELD_CHARS :: nat where
  "MAX_FIELD_CHARS = 250000"

definition control_char :: "char \<Rightarrow> bool" where
  "control_char c =
     (let n = of_char c :: nat
      in 1 \<le> n \<and> n \<le> 8 \<or> n = 11 \<or> n = 12 \<or> 14 \<le> n \<and> n \<le> 31 \<or> n = 127)"

definition nul_char :: "char \<Rightarrow> bool" where
  "nul_char c = ((of_char c :: nat) = 0)"

definition clean_text :: "string \<Rightarrow> string" where
  "clean_text value =
     (let cleaned = filter (\<lambda>c. \<not> control_char c) (filter (\<lambda>c. \<not> nul_char c) value)
      in if MAX_FIELD_CHARS < length cleaned then take MAX_FIELD_CHARS cleaned else cleaned)"

primrec sanitizeValue :: "json \<Rightarrow> json" where
  "sanitizeValue JNull = JNull"
| "sanitizeValue (JBool b) = JBool b"
| "sanitizeValue (JNum n) = JNum n"
| "sanitizeValue (JStr s) = JStr (clean_text s)"
| "sanitizeValue (JArr xs) = JArr (map sanitizeValue xs)"
| "sanitizeValue (JObj ms) =
     JObj (fold (\<lambda>(k, v). member_set (filter (\<lambda>c. \<not> nul_char c) k) v) (map (map_prod id sanitizeValue) ms) [])"

record http_request =
  hr_body :: json
  hr_query :: json
  hr_params :: json

text \<open>Only objects and arrays are cleaned; a body that is a bare string is left alone.\<close>

definition clean_part :: "json \<Rightarrow> json" where
  "clean_part j = (case j of JObj _ \<Rightarrow> sanitizeValue j | JArr _ \<Rightarrow> sanitizeValue j | _ \<Rightarrow> j)"

definition inputSanitizerMiddleware :: "http_request \<Rightarrow> http_request" where
  "inputSanitizerMiddleware req =
     \<lparr>hr_body = clean_part (hr_body req), hr_query = clean_part (hr_query req),
      hr_params = clean_part (hr_params req)\<rparr>"

section \<open>No isolated number survives the log sanitiser\<close>

fun token_free :: "nat \<Rightarrow> char option \<Rightarrow> string \<Rightarrow> bool" where
  "token_free k p [] = True"
| "token_free k p (c # s) = (digits_token k p (c # s) = 0 \<and> token_free k (Some c) s)"

lemma digit_word: "is_digit c \<Longrightarrow> word_char c"
  by (simp add: word_char_def alnum_def)

lemma at_word_simps [simp]: "at_word None = False" "at_word (Some c) = word_char c"
  by (simp_all add: at_word_def)

lemma starts_word_simps [simp]: "starts_word [] = False" "starts_word (c # s) = word_char c"
  by (simp_all add: starts_word_def)

lemma takeWhile_token:
  assumes "list_all P (take k s)" and "k \<le> length s" and "\<And>c t. drop k s = c # t \<Longrightarrow> \<not> P c"
  shows "takeWhile P s = take k s"
proof -
  have "takeWhile P (take k s @ drop k s) = take k s"
    using assms(1,3) by (cases "drop k s") (auto simp: takeWhile_append2 list_all_iff)
  then show ?thesis by simp
qed

text \<open>The expression matches exactly a maximal word of \<open>k\<close> digits.\<close>

lemma digits_token_word:
  assumes "0 < k"
  shows "digits_token k p s =
     (let w = takeWhile word_char s
      in if \<not> at_word p \<and> length w = k \<and> list_all is_digit w then k else 0)"
proof (cases "k \<le> length s \<and> list_all is_digit (take k s) \<and> \<not> starts_word (drop k s)")
  case True
  then have "list_all word_char (take k s)" by (auto simp: list_all_iff digit_word)
  then have "takeWhile word_char s = take k s"
    by (rule takeWhile_token) (use True in \<open>auto simp: starts_word_def\<close>)
  with True show ?thesis by (simp add: digits_token_def min_def)
next
  case False
  have "\<not> (length (takeWhile word_char s) = k \<and> list_all is_digit (takeWhile word_char s))"
  proof
    assume h: "length (takeWhile word_char s) = k \<and> list_all is_digit (takeWhile word_char s)"
    then have t: "takeWhile word_char s = take k s" by (metis takeWhile_eq_take)
    have d: "dropWhile word_char s = drop k s" using h by (metis dropWhile_eq_drop)
    have "\<not> starts_word (drop k s)"
      using hd_dropWhile [of word_char s] d by (cases "drop k s") auto
    with False h t show False by (metis length_takeWhile_le)
  qed
  with False show ?thesis by (auto simp: digits_token_def Let_def)
qed

lemma replace_keeps_word:
  "at_word p \<Longrightarrow> takeWhile word_char (replace_all (digits_token k) r p s) = takeWhile word_char s"
proof (induction s arbitrary: p)
  case (Cons c s)
  then show ?case by (cases "word_char c") (auto simp: digits_token_def)
qed simp

lemma token_free_nonword:
  assumes "0 < k" and "\<not> starts_word s"
  shows "token_free k p s = token_free k q s"
  using assms by (cases s) (simp_all add: digits_token_word)

lemma token_free_prefix:
  assumes "0 < k" and "list_all (\<lambda>c. \<not> word_char c) r" and "\<not> starts_word s" and "token_free k q s"
  shows "token_free k p (r @ s)"
  using assms(2)
proof (induction r arbitrary: p)
  case Nil
  then show ?case using token_free_nonword [OF assms(1,3), of p q] assms(4) by simp
next
  case (Cons c r)
  then show ?case using assms(1) by (simp add: digits_token_word)
qed

lemma token_free_drop:
  "token_free k p (c # s) \<Longrightarrow> token_free k (Some (last (take (Suc n) (c # s)))) (drop n s)"
proof (induction n arbitrary: p c s)
  case (Suc n)
  show ?case
  proof (cases s)
    case (Cons a l)
    with Suc.prems have "token_free k (Some c) (a # l)" by simp
    from Suc.IH [OF this] Cons show ?thesis by simp
  qed simp
qed simp

lemma replace_starts_nonword:
  "0 < k \<Longrightarrow> \<not> starts_word s \<Longrightarrow> \<not> starts_word (replace_all (digits_token k) r p s)"
  by (cases s) (simp_all add: digits_token_word)

lemma replace_token_free:
  assumes "0 < k" and "0 < j" and "list_all (\<lambda>c. \<not> word_char c) r"
  shows "j = k \<or> token_free j p s \<Longrightarrow> token_free j p (replace_all (digits_token k) r p s)"
proof (induction "length s" arbitrary: p s rule: less_induct)
  case less
  show ?case
  proof (cases s)
    case (Cons c s')
    show ?thesis
    proof (cases "digits_token k p (c # s') = 0")
      case True
      let ?out = "replace_all (digits_token k) r (Some c) s'"
      have "token_free j (Some c) ?out" using less Cons by auto
      moreover have "digits_token j p (c # ?out) = 0"
      proof (cases "word_char c")
        case True
        then have "takeWhile word_char (c # ?out) = takeWhile word_char (c # s')"
          by (simp add: replace_keeps_word)
        moreover have "digits_token j p (c # s') = 0"
          using less.prems \<open>digits_token k p (c # s') = 0\<close> Cons by auto
        ultimately show ?thesis by (simp add: digits_token_word [OF assms(2)])
      next
        case False
        then show ?thesis using assms(2) by (simp add: digits_token_word)
      qed
      ultimately show ?thesis using Cons True by simp
    next
      case False
      then have k: "digits_token k p (c # s') = k" "\<not> starts_word (drop k (c # s'))" "k \<le> length (c # s')"
        using assms(1) by (auto simp: digits_token_def split: if_splits)
      obtain n where n: "k = Suc n" using assms(1) by (cases k) auto
      let ?q = "Some (last (take (Suc n) (c # s')))"
      have "j = k \<or> token_free j ?q (drop n s')"
        using less.prems Cons token_free_drop by metis
      then have "token_free j ?q (replace_all (digits_token k) r ?q (drop n s'))"
        using less.hyps Cons by simp
      moreover have "\<not> starts_word (replace_all (digits_token k) r ?q (drop n s'))"
        using k(2) n assms(1) by (intro replace_starts_nonword) auto
      ultimately have "token_free j p (r @ replace_all (digits_token k) r ?q (drop n s'))"
        using assms by (intro token_free_prefix) auto
      then show ?thesis using Cons k(1) n by simp
    qed
  qed simp
qed

lemma token_free_no_isolated:
  assumes "token_free (length d) p (a @ d @ b)" and "d \<noteq> []" and "list_all is_digit d" and "\<not> starts_word b"
  shows "if a = [] then at_word p else word_char (last a)"
  using assms
proof (induction a arbitrary: p)
  case Nil
  then have "digits_token (length d) p (d @ b) = 0" by (cases d) auto
  then show ?case using Nil by (auto simp: digits_token_def split: if_splits)
next
  case (Cons c a)
  from Cons.IH [of "Some c"] Cons.prems show ?case by (auto split: if_splits)
qed

lemma sanitizeTextForLog_token_free:
  "token_free 16 None (sanitizeTextForLog t)" "token_free 3 None (sanitizeTextForLog t)"
  by (auto simp: sanitizeTextForLog_def word_char_def alnum_def alpha_def is_digit_def Let_def
      intro!: replace_token_free)

text \<open>
  C39. No text that passes through the log sanitiser holds a stand-alone card number
  (16 digits) or security code (3 digits): wherever such a run of digits occurs in the
  result, it is part of a longer word.  The five passes do not interfere: the later
  replacement of three digits never re-creates what the earlier one removed.
\<close>

theorem log_has_no_card_number:
  assumes "sanitizeTextForLog t = a @ d @ b" and "list_all is_digit d" and "length d \<in> {3, 16}"
  shows "(a \<noteq> [] \<and> word_char (last a)) \<or> starts_word b"
proof (rule ccontr)
  assume neg: "\<not> ?thesis"
  have "token_free (length d) None (a @ d @ b)"
    using sanitizeTextForLog_token_free [of t] assms(1,3) by auto
  moreover have "d \<noteq> []" using assms(3) by auto
  moreover have "\<not> starts_word b" using neg by blast
  ultimately have "if a = [] then at_word None else word_char (last a)"
    using token_free_no_isolated assms(2) by blast
  with neg show False by (cases "a = []") auto
qed

theorem log_has_no_card_number_witness:
  "sanitizeTextForLog ''card 4111111111111111 cvv 123 id 1234'' = ''card ****-****-****-**** cvv *** id '' @ ''123'' @ ''4'' \<and>
   ((''card ****-****-****-**** cvv *** id '' \<noteq> [] \<and> word_char (last ''card ****-****-****-**** cvv *** id '')) \<or>
    starts_word ''4'')"
proof -
  have e: "sanitizeTextForLog ''card 4111111111111111 cvv 123 id 1234'' =
      ''card ****-****-****-**** cvv *** id '' @ ''123'' @ ''4''" by code_simp
  have d: "list_all is_digit ''123''" by code_simp
  from e log_has_no_card_number [OF e d] show ?thesis by simp
qed


section \<open>Cleaning a request\<close>

definition clean_string :: "string \<Rightarrow> bool" where
  "clean_string s = (list_all (\<lambda>c. \<not> control_char c \<and> \<not> nul_char c) s \<and> length s \<le> MAX_FIELD_CHARS)"

definition clean_key :: "string \<Rightarrow> bool" where
  "clean_key k = (list_all (\<lambda>c. \<not> nul_char c) k \<and> k \<noteq> ''__proto__'')"

primrec clean_json :: "json \<Rightarrow> bool" where
  "clean_json JNull = True"
| "clean_json (JBool b) = True"
| "clean_json (JNum n) = True"
| "clean_json (JStr s) = clean_string s"
| "clean_json (JArr xs) = list_all id (map clean_json xs)"
| "clean_json (JObj ms) =
     (distinct (map fst ms) \<and> list_all (\<lambda>(k, ok). clean_key k \<and> ok) (map (map_prod id clean_json) ms))"

lemma clean_text_clean: "clean_string (clean_text s)"
  by (auto simp: clean_string_def clean_text_def Let_def list_all_iff dest: in_set_takeD)

lemma clean_text_id: "clean_string s \<Longrightarrow> clean_text s = s"
  by (auto simp: clean_string_def clean_text_def list_all_iff filter_id_conv)

lemma assoc_set_keys: "set (map fst (assoc_set k v ms)) = insert k (set (map fst ms))"
  by (induction k v ms rule: assoc_set.induct) (simp_all add: insert_commute)

lemma assoc_set_distinct: "distinct (map fst ms) \<Longrightarrow> distinct (map fst (assoc_set k v ms))"
proof (induction ms)
  case (Cons m ms)
  then show ?case using assoc_set_keys [of k v ms] by (cases m) auto
qed simp

lemma assoc_set_members: "set (assoc_set k v ms) \<subseteq> insert (k, v) (set ms)"
  by (induction k v ms rule: assoc_set.induct) (auto split: if_splits)

lemma assoc_set_fresh: "k \<notin> fst ` set ms \<Longrightarrow> assoc_set k v ms = ms @ [(k, v)]"
  by (induction ms) force+

definition members_ok :: "(string \<times> json) list \<Rightarrow> bool" where
  "members_ok ms = (distinct (map fst ms) \<and> (\<forall>m\<in>set ms. clean_key (fst m) \<and> clean_json (snd m)))"

lemma clean_JObj: "clean_json (JObj ms) \<longleftrightarrow> members_ok ms"
  by (auto simp: members_ok_def list_all_iff)

lemma member_set_ok:
  assumes "members_ok ms" and "list_all (\<lambda>c. \<not> nul_char c) k" and "clean_json v"
  shows "members_ok (member_set k v ms)"
proof (cases "k = ''__proto__''")
  case False
  have "clean_key (fst m) \<and> clean_json (snd m)" if "m \<in> set (assoc_set k v ms)" for m
    using that assms False assoc_set_members [of k v ms] by (auto simp: members_ok_def clean_key_def)
  then show ?thesis
    using assms(1) False assoc_set_distinct by (simp add: members_ok_def member_set_def)
qed (use assms in \<open>simp add: member_set_def\<close>)

lemma fold_members_ok:
  "members_ok acc \<Longrightarrow> (\<And>k v. (k, v) \<in> set ms \<Longrightarrow> clean_json v) \<Longrightarrow>
   members_ok (fold (\<lambda>(k, v). member_set (filter (\<lambda>c. \<not> nul_char c) k) v) ms acc)"
proof (induction ms arbitrary: acc)
  case (Cons m ms)
  obtain k v where m: "m = (k, v)" by (cases m)
  have "members_ok (member_set (filter (\<lambda>c. \<not> nul_char c) k) v acc)"
    using Cons.prems m by (intro member_set_ok) (auto simp: list_all_iff)
  from Cons.IH [OF this] Cons.prems(2) m show ?case by auto
qed simp

lemma sanitizeValue_clean: "clean_json (sanitizeValue v)"
proof (induction v)
  case (JArr xs)
  then show ?case by (simp add: list_all_iff)
next
  case (JObj ms)
  have "members_ok (fold (\<lambda>(k, v). member_set (filter (\<lambda>c. \<not> nul_char c) k) v)
      (map (map_prod id sanitizeValue) ms) [])"
    using JObj by (intro fold_members_ok) (auto simp: members_ok_def)
  then show ?case by (simp only: sanitizeValue.simps clean_JObj)
qed (simp_all add: clean_text_clean)

lemma fold_members_id:
  "members_ok (acc @ ms) \<Longrightarrow>
   fold (\<lambda>(k, v). member_set (filter (\<lambda>c. \<not> nul_char c) k) v) ms acc = acc @ ms"
proof (induction ms arbitrary: acc)
  case (Cons m ms)
  obtain k v where m: "m = (k, v)" by (cases m)
  from Cons.prems m have k: "filter (\<lambda>c. \<not> nul_char c) k = k" "k \<noteq> ''__proto__''" "k \<notin> fst ` set acc"
    by (auto simp: members_ok_def clean_key_def list_all_iff filter_id_conv)
  with Cons.IH [of "acc @ [m]"] Cons.prems m show ?case
    by (simp add: member_set_def assoc_set_fresh)
qed simp

lemma sanitizeValue_id: "clean_json v \<Longrightarrow> sanitizeValue v = v"
proof (induction v)
  case (JArr xs)
  then show ?case by (simp add: list_all_iff map_idI)
next
  case (JObj ms)
  then have ok: "members_ok ms" by (simp only: clean_JObj)
  have "map (map_prod id sanitizeValue) ms = ms"
    using JObj.IH ok by (intro map_idI) (force simp: members_ok_def)
  with fold_members_id [of "[]" ms] ok show ?case by simp
qed (simp_all add: clean_text_id)

text \<open>
  C40. The request sanitiser lets through exactly the clean documents unchanged, whatever it
  returns is clean (no control character and no field above the size limit anywhere, no NUL
  in a key, no \<^verbatim>\<open>__proto__\<close> member, no duplicate key), and so cleaning twice changes
  nothing.
\<close>

theorem sanitizer_exact:
  "clean_json (sanitizeValue v) \<and> (sanitizeValue v = v \<longleftrightarrow> clean_json v) \<and>
   sanitizeValue (sanitizeValue v) = sanitizeValue v"
  using sanitizeValue_clean sanitizeValue_id by metis

text \<open>The masker reaches strings through objects only: the strings of an array under a
  masked key are returned in clear.\<close>

theorem pii_in_array_unmasked:
  "sanitizeObject (JObj [(''phone'', JArr [JStr ''+919876543210''])]) False =
     JObj [(''phone'', JArr [JStr ''+919876543210''])] \<and>
   sanitizeObject (JObj [(''phone'', JStr ''+919876543210'')]) False =
     JObj [(''phone'', JStr ''+91 98****3210'')]"
  by code_simp


end
