(* ===== verification/Agent_Gate.thy ===== *)
theory Agent_Gate
  imports Mission_Guards Redact Authority Resilience
begin

text \<open>
  The gate every tool call of an agent passes (\<^verbatim>\<open>src/agents/gate.ts\<close>), its audit rows,
  and the dispatch of a tool with telemetry (\<^verbatim>\<open>executeTool\<close> of
  \<^verbatim>\<open>src/agents/tool_registry.ts\<close>).  A handler is a parameter: the JSON value it
  returned, or the message of the error it raised (a timeout is one).  The hostile pattern
  that holds the rupee sign cannot occur in a string of 8-bit code units and is left out;
  the pattern \<^verbatim>\<open>transfer\<close> catches what it would.
\<close>

section \<open>Types\<close>

datatype agent_name =
    PerceptionAgent | StrategyAgent | OutreachAgent | ComplianceCopilot | MerchantCopilot
  | PortfolioAgent | AgentOrchestrator

fun show_agent :: "agent_name \<Rightarrow> string" where
  "show_agent PerceptionAgent = ''PerceptionAgent''"
| "show_agent StrategyAgent = ''StrategyAgent''"
| "show_agent OutreachAgent = ''OutreachAgent''"
| "show_agent ComplianceCopilot = ''ComplianceCopilot''"
| "show_agent MerchantCopilot = ''MerchantCopilot''"
| "show_agent PortfolioAgent = ''PortfolioAgent''"
| "show_agent AgentOrchestrator = ''AgentOrchestrator''"

datatype tool_permission = P_READ | P_ANALYZE | P_PROPOSE | P_APPROVE | P_EXECUTE | P_FINANCIAL_WRITE

fun show_permission :: "tool_permission \<Rightarrow> string" where
  "show_permission P_READ = ''READ''"
| "show_permission P_ANALYZE = ''ANALYZE''"
| "show_permission P_PROPOSE = ''PROPOSE''"
| "show_permission P_APPROVE = ''APPROVE''"
| "show_permission P_EXECUTE = ''EXECUTE''"
| "show_permission P_FINANCIAL_WRITE = ''FINANCIAL_WRITE''"

datatype agent_env = AE_SYNTHETIC | AE_FIXTURE | AE_RAZORPAY_TEST | AE_PROVIDER_VERIFIED

fun show_env :: "agent_env \<Rightarrow> string" where
  "show_env AE_SYNTHETIC = ''SYNTHETIC''"
| "show_env AE_FIXTURE = ''FIXTURE''"
| "show_env AE_RAZORPAY_TEST = ''RAZORPAY_TEST''"
| "show_env AE_PROVIDER_VERIFIED = ''PROVIDER_VERIFIED''"

record gate_ctx =
  gx_runId :: string
  gx_agentName :: agent_name
  gx_toolName :: string
  gx_inputPayload :: payload
  gx_permissionLevel :: tool_permission
  gx_budgetTracker :: "budget_tracker option"
  gx_loopGuard :: "loop_guard option"
  gx_environment :: "agent_env option"

record gate_check =
  gk_name :: string
  gk_passed :: bool
  gk_reason :: string

record gate_verdict =
  gv_allowed :: bool
  gv_failed_check :: "string option"
  gv_reason :: string
  gv_checks :: "gate_check list"
  gv_timestamp :: string

record agent_check_row =
  ac_run_id :: string
  ac_tool_name :: string
  ac_agent_name :: agent_name
  ac_check_name :: string
  ac_passed :: bool
  ac_reason :: string
  ac_timestamp :: string

datatype call_status = TC_SUCCESS | TC_DENIED | TC_FAILED | TC_TIMEOUT

record tool_call_row =
  tc_id :: string
  tc_run_id :: string
  tc_tool_name :: string
  tc_agent_name :: agent_name
  tc_input_payload :: string
  tc_input_hash :: string
  tc_output_payload :: string
  tc_output_hash :: string
  tc_status :: call_status
  tc_latency_ms :: int
  tc_error_message :: "string option"
  tc_permission_level :: tool_permission
  tc_created_at :: string

text \<open>The tables the agents write, and the rate map of the gate's module.\<close>

record agent_db =
  gd_runs :: "agent_run list"
  gd_checks :: "agent_check_row list"
  gd_tool_calls :: "tool_call_row list"
  gd_rate :: buckets

definition empty_agent_db :: agent_db where
  "empty_agent_db = \<lparr>gd_runs = [], gd_checks = [], gd_tool_calls = [], gd_rate = (\<lambda>_. [])\<rparr>"

section \<open>Audit rows\<close>

definition getAgentRunById :: "string \<Rightarrow> agent_db \<Rightarrow> agent_run option" where
  "getAgentRunById runId db = row_get ar_id runId (gd_runs db)"

definition implicit_run :: "string \<Rightarrow> string \<Rightarrow> agent_run" where
  "implicit_run now runId =
     \<lparr>ar_id = runId, ar_mission_id = ''miss_'' @ runId, ar_opportunity_id = [],
      ar_goal_type = ''RECOVER_PAYMENT'', ar_status = ''running'', ar_start_time = now,
      ar_end_time = [], ar_total_steps = 0, ar_llm_calls = 0, ar_tool_calls = 0,
      ar_replan_count = 0, ar_total_tokens = 0, ar_latency_ms = 0, ar_termination_reason = [],
      ar_created_at = now\<rparr>"

definition ensureAgentRun :: "string \<Rightarrow> string \<Rightarrow> agent_db \<Rightarrow> agent_db" where
  "ensureAgentRun now runId db =
     (if runId = [] then db
      else case getAgentRunById runId db of
             Some _ \<Rightarrow> db
           | None \<Rightarrow> db\<lparr>gd_runs := gd_runs db @ [implicit_run now runId]\<rparr>)"

text \<open>The foreign key on the run is enforced: a row of an unknown run raises.\<close>

definition foreign_key_error :: db_error where
  "foreign_key_error = CheckViolation ''FOREIGN KEY constraint failed''"

definition insertAgentAuthorityCheck :: "agent_check_row \<Rightarrow> agent_db \<Rightarrow> db_error + agent_db" where
  "insertAgentAuthorityCheck r db =
     (let db1 = ensureAgentRun (ac_timestamp r) (ac_run_id r) db
      in case getAgentRunById (ac_run_id r) db1 of
           None \<Rightarrow> Inl foreign_key_error
         | Some _ \<Rightarrow> Inr (db1\<lparr>gd_checks := gd_checks db1 @ [r]\<rparr>))"

definition insertAgentToolCall :: "tool_call_row \<Rightarrow> agent_db \<Rightarrow> db_error + agent_db" where
  "insertAgentToolCall r db =
     (let db1 = ensureAgentRun (tc_created_at r) (tc_run_id r) db
      in if tc_id r \<in> tc_id ` set (gd_tool_calls db1) then Inl (UniqueViolation ''agent_tool_calls.id'')
         else case getAgentRunById (tc_run_id r) db1 of
           None \<Rightarrow> Inl foreign_key_error
         | Some _ \<Rightarrow> Inr (db1\<lparr>gd_tool_calls := gd_tool_calls db1 @ [r]\<rparr>))"

fun persist_checks :: "gate_ctx \<Rightarrow> string \<Rightarrow> gate_check list \<Rightarrow> agent_db \<Rightarrow> db_error + agent_db" where
  "persist_checks ctx now [] db = Inr db"
| "persist_checks ctx now (c # cs) db =
     (case insertAgentAuthorityCheck
             \<lparr>ac_run_id = gx_runId ctx, ac_tool_name = gx_toolName ctx, ac_agent_name = gx_agentName ctx,
              ac_check_name = gk_name c, ac_passed = gk_passed c, ac_reason = gk_reason c,
              ac_timestamp = now\<rparr> db of
        Inl e \<Rightarrow> Inl e
      | Inr db1 \<Rightarrow> persist_checks ctx now cs db1)"

section \<open>The nine checks\<close>

definition quoted :: "string \<Rightarrow> string" where
  "quoted s = [CHR 0x27] @ s @ [CHR 0x27]"

definition gate_check_of :: "string \<Rightarrow> bool \<Rightarrow> string \<Rightarrow> string \<Rightarrow> gate_check" where
  "gate_check_of name ok good bad =
     \<lparr>gk_name = name, gk_passed = ok, gk_reason = (if ok then good else bad)\<rparr>"

definition kill_switch_check :: "kill_switches \<Rightarrow> gate_check" where
  "kill_switch_check ks =
     gate_check_of ''kill_switch_check'' (\<not> isKillSwitchActive ks None None)
       ''Kill switch is disengaged (normal operation).''
       ''Manual kill switch is actively ENGAGED. All agent operations blocked.''"

definition recognizedAgents :: "agent_name list" where
  "recognizedAgents = [PerceptionAgent, StrategyAgent, OutreachAgent, ComplianceCopilot,
     MerchantCopilot, AgentOrchestrator]"

definition agent_identity_check :: "gate_ctx \<Rightarrow> gate_check" where
  "agent_identity_check ctx =
     gate_check_of ''agent_identity_check'' (gx_agentName ctx \<in> set recognizedAgents)
       (''Agent identity '' @ quoted (show_agent (gx_agentName ctx)) @ '' is verified and registered.'')
       (''Unrecognized agent identity '' @ quoted (show_agent (gx_agentName ctx)) @ ''.'')"

definition tool_scope_check :: "gate_ctx \<Rightarrow> gate_check" where
  "tool_scope_check ctx =
     gate_check_of ''tool_scope_check''
       (gx_agentName ctx = AgentOrchestrator \<or>
        gx_permissionLevel ctx \<in> {P_READ, P_ANALYZE, P_PROPOSE})
       (''Permission level '' @ quoted (show_permission (gx_permissionLevel ctx)) @ '' is within authorized scope.'')
       (''Agent '' @ quoted (show_agent (gx_agentName ctx)) @ '' requested permission level '' @
        quoted (show_permission (gx_permissionLevel ctx)) @
        '', which exceeds allowed scope (READ/ANALYZE/PROPOSE).'')"

definition mission_budget_check :: "int \<Rightarrow> gate_ctx \<Rightarrow> gate_check" where
  "mission_budget_check nowMs ctx =
     (case gx_budgetTracker ctx of
        None \<Rightarrow> gate_check_of ''mission_budget_check'' True
                  ''Budget tracker not attached (standard pass).'' []
      | Some t \<Rightarrow>
          (case checkBudgets nowMs t of
             Some x \<Rightarrow> gate_check_of ''mission_budget_check'' False []
                         (or_str (bx_message x) ''Mission budget exceeded.'')
           | None \<Rightarrow> gate_check_of ''mission_budget_check'' True
                       ''Mission is within all allocated computational and step budgets.'' []))"

definition RATE_LIMIT_WINDOW_MS :: int where "RATE_LIMIT_WINDOW_MS = 60000"
definition MAX_CALLS_PER_WINDOW :: nat where "MAX_CALLS_PER_WINDOW = 60"

definition rate_key :: "gate_ctx \<Rightarrow> string" where
  "rate_key ctx = gx_runId ctx @ '':'' @ show_agent (gx_agentName ctx)"

definition rate_limit_check :: "int \<Rightarrow> gate_ctx \<Rightarrow> buckets \<Rightarrow> gate_check \<times> buckets" where
  "rate_limit_check nowMs ctx rate =
     (let callTimestamps = filter (\<lambda>t. nowMs - t < RATE_LIMIT_WINDOW_MS) (rate (rate_key ctx))
      in if MAX_CALLS_PER_WINDOW \<le> length callTimestamps
         then (gate_check_of ''rate_limit_check'' False []
                 (''Rate limit of '' @ show_nat MAX_CALLS_PER_WINDOW @ '' calls/min exceeded for agent '' @
                  quoted (show_agent (gx_agentName ctx)) @ ''.''), rate)
         else (gate_check_of ''rate_limit_check'' True
                 (''Rate limit verified ('' @ show_nat (length callTimestamps + 1) @ ''/'' @
                  show_nat MAX_CALLS_PER_WINDOW @ '' calls in current window).'') [],
               rate(rate_key ctx := callTimestamps @ [nowMs])))"

definition forbiddenWriteToolNames :: "string list" where
  "forbiddenWriteToolNames = [''execute_payment'', ''create_payment_link_direct'',
     ''authorize_opportunity'', ''modify_ledger'', ''write_scores_direct'']"

definition write_boundary_check :: "gate_ctx \<Rightarrow> gate_check" where
  "write_boundary_check ctx =
     gate_check_of ''write_boundary_check''
       (\<not> (gx_toolName ctx \<in> set forbiddenWriteToolNames \<or>
           gx_permissionLevel ctx = P_FINANCIAL_WRITE \<or> gx_permissionLevel ctx = P_EXECUTE))
       ''Tool call strictly adheres to read-only or proposal-only boundary.''
       (''Tool '' @ quoted (gx_toolName ctx) @ '' attempts direct write to financial/execution boundary. '' @
        ''Only deterministic pipelines may execute financial actions.'')"

definition environment_check :: "gate_ctx \<Rightarrow> gate_check" where
  "environment_check ctx =
     (let env = (case gx_environment ctx of None \<Rightarrow> AE_RAZORPAY_TEST | Some e \<Rightarrow> e)
      in gate_check_of ''environment_check''
           (\<not> (env = AE_SYNTHETIC \<and> startsWith (gx_toolName ctx) ''razorpay_live_''))
           (''Environment '' @ quoted (show_env env) @ '' verified.'')
           ''Synthetic environment cannot call live provider endpoints.'')"

definition hostileInjectionPatterns :: "string list" where
  "hostileInjectionPatterns = [''ignore previous instructions'', ''ignore your instructions'',
     ''ignore all instructions'', ''system prompt override'', ''system prompt'',
     ''grant financial_write'', ''execute arbitrary sql'', ''transfer 10,00,000'', ''transfer'',
     ''delete from'', ''drop table'', ''<script>'', ''bypass authority'']"

definition injection_taint_check :: "gate_ctx \<Rightarrow> gate_check" where
  "injection_taint_check ctx =
     (let payloadStr = toLowerCase (stringify (JObj (gx_inputPayload ctx)))
      in case List.find (includes_str payloadStr) hostileInjectionPatterns of
           Some p \<Rightarrow> gate_check_of ''injection_taint_check'' False []
                       (''Hostile prompt/SQL injection pattern detected in payload: '' @
                        [char_of (34 :: nat)] @ p @ [char_of (34 :: nat)] @ ''.'')
         | None \<Rightarrow> gate_check_of ''injection_taint_check'' True
                     ''No hostile injection patterns detected in payload.'' [])"

definition loop_guard_check :: "(string \<Rightarrow> string) \<Rightarrow> gate_ctx \<Rightarrow> gate_check" where
  "loop_guard_check sha ctx =
     (case gx_loopGuard ctx of
        None \<Rightarrow> gate_check_of ''loop_guard_check'' True ''Loop guard not attached (standard pass).'' []
      | Some g \<Rightarrow>
          let r = checkToolCall sha (gx_toolName ctx) (gx_inputPayload ctx) g
          in gate_check_of ''loop_guard_check'' (gr_allowed r)
               ''Tool execution is not in a repetitive or failing loop.''
               (or_opt (gr_reason r) ''Loop guard triggered.''))"

record gate_clock =
  gc_iso :: string
  gc_budget_ms :: int
  gc_rate_ms :: int

definition gate_checks ::
  "(string \<Rightarrow> string) \<Rightarrow> kill_switches \<Rightarrow> gate_clock \<Rightarrow> gate_ctx \<Rightarrow> buckets \<Rightarrow> gate_check list \<times> buckets" where
  "gate_checks sha ks clk ctx rate =
     (let (rl, rate') = rate_limit_check (gc_rate_ms clk) ctx rate
      in ([kill_switch_check ks, agent_identity_check ctx, tool_scope_check ctx,
           mission_budget_check (gc_budget_ms clk) ctx, rl, write_boundary_check ctx,
           environment_check ctx, injection_taint_check ctx, loop_guard_check sha ctx], rate'))"

definition gate_evaluate ::
  "(string \<Rightarrow> string) \<Rightarrow> kill_switches \<Rightarrow> gate_clock \<Rightarrow> gate_ctx \<Rightarrow> agent_db \<Rightarrow>
   (db_error + gate_verdict) \<times> agent_db" where
  "gate_evaluate sha ks clk ctx db =
     (let (checks, rate') = gate_checks sha ks clk ctx (gd_rate db);
          db1 = db\<lparr>gd_rate := rate'\<rparr>
      in case persist_checks ctx (gc_iso clk) checks db1 of
           Inl e \<Rightarrow> (Inl e, db1)
         | Inr db2 \<Rightarrow>
             (case List.find (\<lambda>c. \<not> gk_passed c) checks of
                Some failed \<Rightarrow>
                  (Inr \<lparr>gv_allowed = False, gv_failed_check = Some (gk_name failed),
                        gv_reason = gk_reason failed, gv_checks = checks, gv_timestamp = gc_iso clk\<rparr>, db2)
              | None \<Rightarrow>
                  (Inr \<lparr>gv_allowed = True, gv_failed_check = None,
                        gv_reason = ''All 9 security & authority compliance checks passed successfully.'',
                        gv_checks = checks, gv_timestamp = gc_iso clk\<rparr>, db2)))"

section \<open>Dispatching a tool\<close>

record tool_def =
  td_tool_id :: string
  td_agent :: "agent_name option"
  td_permission :: tool_permission
  td_read_only :: bool
  td_rate_limit_per_min :: nat
  td_timeout_ms :: int

definition getTool :: "tool_def list \<Rightarrow> string \<Rightarrow> tool_def option" where
  "getTool tools toolId = row_get td_tool_id toolId tools"

definition registerTool :: "tool_def \<Rightarrow> tool_def list \<Rightarrow> tool_def list" where
  "registerTool t tools = row_put td_tool_id replace_merge t tools"

definition getToolsForAgent :: "agent_name \<Rightarrow> tool_def list \<Rightarrow> tool_def list" where
  "getToolsForAgent a tools = filter (\<lambda>t. td_agent t = None \<or> td_agent t = Some a) tools"

datatype handler_outcome = Returned json | Raised string

definition hashContent :: "(string \<Rightarrow> string) \<Rightarrow> json \<Rightarrow> string" where
  "hashContent sha content =
     (case content of
        JStr s \<Rightarrow> sha s
      | _ \<Rightarrow> sha (stringify (if content \<in> {JNull, JBool False, JNum 0} then JObj [] else content)))"

definition json_member :: "string \<Rightarrow> json \<Rightarrow> json option" where
  "json_member k j = (case j of JObj ms \<Rightarrow> map_of ms k | _ \<Rightarrow> None)"

definition not_failed :: "json \<Rightarrow> bool" where
  "not_failed result = (json_member ''success'' result \<noteq> Some (JBool False))"

text \<open>The handlers report an error as a string.\<close>

definition error_of :: "json \<Rightarrow> string option" where
  "error_of result = (case json_member ''error'' result of Some (JStr s) \<Rightarrow> Some s | _ \<Rightarrow> None)"

definition truthy_json :: "json \<Rightarrow> bool" where
  "truthy_json j = (j \<notin> {JNull, JBool False, JNum 0, JStr []})"

definition data_of :: "json \<Rightarrow> json" where
  "data_of result =
     (case json_member ''data'' result of
        Some d \<Rightarrow> if truthy_json d then d else result
      | None \<Rightarrow> result)"

record tool_call =
  cl_toolId :: string
  cl_runId :: string
  cl_agentName :: agent_name
  cl_inputPayload :: payload
  cl_environment :: "agent_env option"
  cl_callId :: string
  cl_start_ms :: int
  cl_clock :: gate_clock
  cl_end_ms :: int
  cl_kill :: kill_switches
  cl_handler :: handler_outcome

record tool_result =
  tr_success :: bool
  tr_data :: "json option"
  tr_error :: "string option"
  tr_denied :: bool
  tr_latency_ms :: int

record tool_state =
  ts_db :: agent_db
  ts_budget :: "budget_tracker option"
  ts_guard :: "loop_guard option"

definition logToolCall ::
  "(string \<Rightarrow> string) \<Rightarrow> tool_call \<Rightarrow> string \<Rightarrow> json \<Rightarrow> call_status \<Rightarrow> string option \<Rightarrow>
   tool_permission \<Rightarrow> agent_db \<Rightarrow> db_error + agent_db" where
  "logToolCall sha c toolName output status err perm db =
     insertAgentToolCall
       \<lparr>tc_id = cl_callId c, tc_run_id = cl_runId c, tc_tool_name = toolName,
        tc_agent_name = cl_agentName c,
        tc_input_payload = sanitizeTextForLog (stringify (JObj (cl_inputPayload c))),
        tc_input_hash = hashContent sha (JObj (cl_inputPayload c)),
        tc_output_payload = sanitizeTextForLog (stringify output),
        tc_output_hash = hashContent sha output, tc_status = status,
        tc_latency_ms = cl_end_ms c - cl_start_ms c,
        tc_error_message = (case err of Some e \<Rightarrow> if e = [] then None else Some e | None \<Rightarrow> None),
        tc_permission_level = perm, tc_created_at = gc_iso (cl_clock c)\<rparr> db"

definition guard_record ::
  "(string \<Rightarrow> string) \<Rightarrow> tool_call \<Rightarrow> string \<Rightarrow> bool \<Rightarrow> tool_state \<Rightarrow> tool_state" where
  "guard_record sha c tool ok st =
     st\<lparr>ts_guard := map_option (recordToolExecution sha (cl_end_ms c) tool (cl_inputPayload c) ok) (ts_guard st)\<rparr>"

definition gate_ctx_of :: "tool_call \<Rightarrow> tool_def \<Rightarrow> tool_state \<Rightarrow> gate_ctx" where
  "gate_ctx_of c tool st =
     \<lparr>gx_runId = cl_runId c, gx_agentName = cl_agentName c, gx_toolName = td_tool_id tool,
      gx_inputPayload = cl_inputPayload c, gx_permissionLevel = td_permission tool,
      gx_budgetTracker = ts_budget st, gx_loopGuard = ts_guard st,
      gx_environment = cl_environment c\<rparr>"

definition deny_message :: "gate_verdict \<Rightarrow> string" where
  "deny_message v = ''Agent Authority Gate DENIED execution: '' @ gv_reason v @ '' (failed check: '' @
     or_opt (gv_failed_check v) ''undefined'' @ '')''"

text \<open>The \<^verbatim>\<open>catch\<close> branch.\<close>

definition handler_failed ::
  "(string \<Rightarrow> string) \<Rightarrow> tool_call \<Rightarrow> tool_def \<Rightarrow> string \<Rightarrow> tool_state \<Rightarrow>
   (db_error + tool_result) \<times> tool_state" where
  "handler_failed sha c tool msg st =
     (let errorMsg = or_str msg ''Tool execution encountered an unexpected error''
      in case logToolCall sha c (td_tool_id tool) (JObj [(''error'', JStr errorMsg)]) TC_FAILED
                (Some errorMsg) (td_permission tool) (ts_db st) of
           Inl e \<Rightarrow> (Inl e, st)
         | Inr db \<Rightarrow>
             (Inr \<lparr>tr_success = False, tr_data = None, tr_error = Some errorMsg, tr_denied = False,
                   tr_latency_ms = cl_end_ms c - cl_start_ms c\<rparr>,
              guard_record sha c (td_tool_id tool) False (st\<lparr>ts_db := db\<rparr>)))"

text \<open>\<open>show_error\<close> is the message of the database driver for the errors of the tables.\<close>

definition run_handler ::
  "(string \<Rightarrow> string) \<Rightarrow> (db_error \<Rightarrow> string) \<Rightarrow> tool_call \<Rightarrow> tool_def \<Rightarrow> tool_state \<Rightarrow>
   (db_error + tool_result) \<times> tool_state" where
  "run_handler sha show_error c tool st =
     (case cl_handler c of
        Raised msg \<Rightarrow> handler_failed sha c tool msg st
      | Returned result \<Rightarrow>
          (case logToolCall sha c (td_tool_id tool) result
                  (if not_failed result then TC_SUCCESS else TC_FAILED) (error_of result)
                  (td_permission tool) (ts_db st) of
             Inl e \<Rightarrow> handler_failed sha c tool (show_error e) st
           | Inr db \<Rightarrow>
               (Inr \<lparr>tr_success = not_failed result, tr_data = Some (data_of result),
                     tr_error = error_of result, tr_denied = False,
                     tr_latency_ms = cl_end_ms c - cl_start_ms c\<rparr>,
                guard_record sha c (td_tool_id tool) (not_failed result) (st\<lparr>ts_db := db\<rparr>))))"

definition executeTool ::
  "(string \<Rightarrow> string) \<Rightarrow> (db_error \<Rightarrow> string) \<Rightarrow> tool_def list \<Rightarrow> tool_call \<Rightarrow> tool_state \<Rightarrow>
   (db_error + tool_result) \<times> tool_state" where
  "executeTool sha show_error tools c st =
     (case getTool tools (cl_toolId c) of
        None \<Rightarrow>
          let err = ''Tool '' @ quoted (cl_toolId c) @ '' is not registered in the AgentToolRegistry.''
          in (case logToolCall sha c (cl_toolId c) (JObj [(''error'', JStr err)]) TC_FAILED (Some err)
                     P_READ (ts_db st) of
                Inl e \<Rightarrow> (Inl e, st)
              | Inr db \<Rightarrow>
                  (Inr \<lparr>tr_success = False, tr_data = None, tr_error = Some err, tr_denied = False,
                        tr_latency_ms = cl_end_ms c - cl_start_ms c\<rparr>, st\<lparr>ts_db := db\<rparr>))
      | Some tool \<Rightarrow>
          (case gate_evaluate sha (cl_kill c) (cl_clock c) (gate_ctx_of c tool st) (ts_db st) of
             (Inl e, db1) \<Rightarrow> (Inl e, st\<lparr>ts_db := db1\<rparr>)
           | (Inr v, db1) \<Rightarrow>
               let st1 = st\<lparr>ts_db := db1\<rparr>
               in if \<not> gv_allowed v
                  then (case logToolCall sha c (td_tool_id tool)
                               (JObj [(''verdict'', JStr ''DENIED''), (''reason'', JStr (gv_reason v))])
                               TC_DENIED (Some (deny_message v)) (td_permission tool) db1 of
                          Inl e \<Rightarrow> (Inl e, st1)
                        | Inr db2 \<Rightarrow>
                            (Inr \<lparr>tr_success = False, tr_data = None, tr_error = Some (deny_message v),
                                  tr_denied = True, tr_latency_ms = cl_end_ms c - cl_start_ms c\<rparr>,
                             guard_record sha c (td_tool_id tool) False (st1\<lparr>ts_db := db2\<rparr>)))
                  else run_handler sha show_error c tool
                         (st1\<lparr>ts_budget := map_option (\<lambda>b. snd (recordToolCall (gc_budget_ms (cl_clock c)) b))
                                (ts_budget st1)\<rparr>)))"

section \<open>What the gate permits\<close>

lemma gk_passed_gate_check_of [simp]: "gk_passed (gate_check_of n ok g b) = ok"
  and gk_name_gate_check_of [simp]: "gk_name (gate_check_of n ok g b) = n"
  by (simp_all add: gate_check_of_def)

definition check_row :: "gate_ctx \<Rightarrow> string \<Rightarrow> gate_check \<Rightarrow> agent_check_row" where
  "check_row ctx now c =
     \<lparr>ac_run_id = gx_runId ctx, ac_tool_name = gx_toolName ctx, ac_agent_name = gx_agentName ctx,
      ac_check_name = gk_name c, ac_passed = gk_passed c, ac_reason = gk_reason c, ac_timestamp = now\<rparr>"

lemma ensureAgentRun_exists:
  "runId \<noteq> [] \<Longrightarrow> getAgentRunById runId (ensureAgentRun now runId db) \<noteq> None"
  by (auto simp: ensureAgentRun_def getAgentRunById_def row_get_None implicit_run_def split: option.split
      dest!: row_get_Some)

lemma ensureAgentRun_frame [simp]:
  "gd_checks (ensureAgentRun now r db) = gd_checks db"
  "gd_tool_calls (ensureAgentRun now r db) = gd_tool_calls db"
  "gd_rate (ensureAgentRun now r db) = gd_rate db"
  by (simp_all add: ensureAgentRun_def split: option.split)

lemma persist_checks_ok:
  assumes "gx_runId ctx \<noteq> []"
  shows "\<exists>db'. persist_checks ctx now cs db = Inr db' \<and>
           gd_checks db' = gd_checks db @ map (check_row ctx now) cs \<and>
           gd_tool_calls db' = gd_tool_calls db \<and> gd_rate db' = gd_rate db"
proof (induction cs arbitrary: db)
  case (Cons c cs)
  obtain db1 where db1: "insertAgentAuthorityCheck (check_row ctx now c) db = Inr db1"
      "gd_checks db1 = gd_checks db @ [check_row ctx now c]"
      "gd_tool_calls db1 = gd_tool_calls db" "gd_rate db1 = gd_rate db"
    using ensureAgentRun_exists [OF assms, of now db]
    by (auto simp: insertAgentAuthorityCheck_def check_row_def Let_def split: option.split)
  from Cons.IH [of db1] obtain db2 where "persist_checks ctx now cs db1 = Inr db2"
      "gd_checks db2 = gd_checks db1 @ map (check_row ctx now) cs"
      "gd_tool_calls db2 = gd_tool_calls db1" "gd_rate db2 = gd_rate db1" by blast
  with db1 show ?case by (simp add: check_row_def)
qed simp

lemma persist_checks_tool_calls:
  "persist_checks ctx now cs db = Inr db' \<Longrightarrow> gd_tool_calls db' = gd_tool_calls db"
proof (induction cs arbitrary: db)
  case (Cons c cs)
  then show ?case
    by (auto simp: insertAgentAuthorityCheck_def Let_def split: sum.splits option.splits)
qed simp

definition gate_permits ::
  "(string \<Rightarrow> string) \<Rightarrow> kill_switches \<Rightarrow> gate_clock \<Rightarrow> gate_ctx \<Rightarrow> buckets \<Rightarrow> bool" where
  "gate_permits sha ks clk ctx rate \<longleftrightarrow>
     \<not> ks_global ks \<and> gx_agentName ctx \<noteq> PortfolioAgent \<and>
     (gx_permissionLevel ctx \<in> {P_READ, P_ANALYZE, P_PROPOSE} \<or>
      gx_agentName ctx = AgentOrchestrator \<and> gx_permissionLevel ctx = P_APPROVE) \<and>
     pred_option (within_budgets (gc_budget_ms clk)) (gx_budgetTracker ctx) \<and>
     length (filter (\<lambda>t. gc_rate_ms clk - t < 60000) (rate (rate_key ctx))) < 60 \<and>
     gx_toolName ctx \<notin> set forbiddenWriteToolNames \<and>
     \<not> (gx_environment ctx = Some AE_SYNTHETIC \<and> prefix ''razorpay_live_'' (gx_toolName ctx)) \<and>
     (\<forall>p \<in> set hostileInjectionPatterns.
        \<not> sublist p (toLowerCase (stringify (JObj (gx_inputPayload ctx))))) \<and>
     pred_option (\<lambda>g. gr_allowed (checkToolCall sha (gx_toolName ctx) (gx_inputPayload ctx) g)) (gx_loopGuard ctx)"

lemma find_pattern_None:
  "List.find (includes_str s) ps = None \<longleftrightarrow> (\<forall>p \<in> set ps. \<not> sublist p s)"
  by (auto simp: find_None_iff includes_str_iff)

lemma budget_check_passed:
  "gk_passed (mission_budget_check now ctx) = pred_option (within_budgets now) (gx_budgetTracker ctx)"
  by (auto simp: mission_budget_check_def checkBudgets_None [symmetric] split: option.split)

lemma guard_check_passed:
  "gk_passed (loop_guard_check sha ctx) =
     pred_option (\<lambda>g. gr_allowed (checkToolCall sha (gx_toolName ctx) (gx_inputPayload ctx) g)) (gx_loopGuard ctx)"
  by (simp add: loop_guard_check_def Let_def split: option.split)

lemma taint_check_passed:
  "gk_passed (injection_taint_check ctx) =
     (\<forall>p \<in> set hostileInjectionPatterns. \<not> sublist p (toLowerCase (stringify (JObj (gx_inputPayload ctx)))))"
  using find_pattern_None [of "toLowerCase (stringify (JObj (gx_inputPayload ctx)))" hostileInjectionPatterns]
  by (auto simp: injection_taint_check_def Let_def split: option.split)

lemma environment_check_passed:
  "gk_passed (environment_check ctx) =
     (\<not> (gx_environment ctx = Some AE_SYNTHETIC \<and> prefix ''razorpay_live_'' (gx_toolName ctx)))"
  by (auto simp: environment_check_def startsWith_def Let_def split: option.split)

lemma rate_check_passed:
  "gk_passed (fst (rate_limit_check now ctx rate)) =
     (length (filter (\<lambda>t. now - t < 60000) (rate (rate_key ctx))) < 60)"
  by (auto simp: rate_limit_check_def RATE_LIMIT_WINDOW_MS_def MAX_CALLS_PER_WINDOW_def Let_def)

lemma identity_check_passed:
  "gk_passed (agent_identity_check ctx) = (gx_agentName ctx \<noteq> PortfolioAgent)"
  by (cases "gx_agentName ctx") (simp_all add: agent_identity_check_def recognizedAgents_def)

lemma scope_boundary_passed:
  "gk_passed (tool_scope_check ctx) \<and> gk_passed (write_boundary_check ctx) \<longleftrightarrow>
     (gx_permissionLevel ctx \<in> {P_READ, P_ANALYZE, P_PROPOSE} \<or>
      gx_agentName ctx = AgentOrchestrator \<and> gx_permissionLevel ctx = P_APPROVE) \<and>
     gx_toolName ctx \<notin> set forbiddenWriteToolNames"
  by (cases "gx_permissionLevel ctx") (auto simp: tool_scope_check_def write_boundary_check_def)

lemma gate_checks_passed:
  "list_all gk_passed (fst (gate_checks sha ks clk ctx rate)) = gate_permits sha ks clk ctx rate"
proof -
  have "list_all gk_passed (fst (gate_checks sha ks clk ctx rate)) \<longleftrightarrow>
      gk_passed (kill_switch_check ks) \<and> gk_passed (agent_identity_check ctx) \<and>
      (gk_passed (tool_scope_check ctx) \<and> gk_passed (write_boundary_check ctx)) \<and>
      gk_passed (mission_budget_check (gc_budget_ms clk) ctx) \<and>
      gk_passed (fst (rate_limit_check (gc_rate_ms clk) ctx rate)) \<and>
      gk_passed (environment_check ctx) \<and> gk_passed (injection_taint_check ctx) \<and>
      gk_passed (loop_guard_check sha ctx)"
    by (auto simp: gate_checks_def split: prod.split)
  moreover have "gk_passed (kill_switch_check ks) = (\<not> ks_global ks)"
    by (simp add: kill_switch_check_def isKillSwitchActive_def truthy_str_def)
  ultimately show ?thesis
    by (simp only: scope_boundary_passed budget_check_passed guard_check_passed taint_check_passed
        environment_check_passed rate_check_passed identity_check_passed gate_permits_def)
       blast
qed

lemma find_failed:
  "List.find (\<lambda>c. \<not> gk_passed c) cs = None \<longleftrightarrow> list_all gk_passed cs"
  by (auto simp: find_None_iff list_all_iff)

lemma gate_evaluate_allowed:
  "gate_evaluate sha ks clk ctx db = (Inr v, db') \<Longrightarrow>
   gv_allowed v = gate_permits sha ks clk ctx (gd_rate db)"
  using find_failed [of "fst (gate_checks sha ks clk ctx (gd_rate db))"]
  by (auto simp: gate_evaluate_def gate_checks_passed Let_def split: prod.splits sum.splits option.splits)

text \<open>
  The eight conditions besides the rate limit, and the number of calls of this run and
  agent within the last minute.
\<close>

definition gate_conditions ::
  "(string \<Rightarrow> string) \<Rightarrow> kill_switches \<Rightarrow> gate_clock \<Rightarrow> gate_ctx \<Rightarrow> bool" where
  "gate_conditions sha ks clk ctx \<longleftrightarrow>
     \<not> ks_global ks \<and> gx_agentName ctx \<noteq> PortfolioAgent \<and>
     (gx_permissionLevel ctx \<in> {P_READ, P_ANALYZE, P_PROPOSE} \<or>
      gx_agentName ctx = AgentOrchestrator \<and> gx_permissionLevel ctx = P_APPROVE) \<and>
     pred_option (within_budgets (gc_budget_ms clk)) (gx_budgetTracker ctx) \<and>
     gx_toolName ctx \<notin> set forbiddenWriteToolNames \<and>
     \<not> (gx_environment ctx = Some AE_SYNTHETIC \<and> prefix ''razorpay_live_'' (gx_toolName ctx)) \<and>
     (\<forall>p \<in> set hostileInjectionPatterns.
        \<not> sublist p (toLowerCase (stringify (JObj (gx_inputPayload ctx))))) \<and>
     pred_option (\<lambda>g. gr_allowed (checkToolCall sha (gx_toolName ctx) (gx_inputPayload ctx) g)) (gx_loopGuard ctx)"

definition calls_in_window :: "gate_clock \<Rightarrow> gate_ctx \<Rightarrow> buckets \<Rightarrow> nat" where
  "calls_in_window clk ctx rate = length (filter (\<lambda>t. gc_rate_ms clk - t < 60000) (rate (rate_key ctx)))"

lemma gate_permits_split:
  "gate_permits sha ks clk ctx rate \<longleftrightarrow> gate_conditions sha ks clk ctx \<and> calls_in_window clk ctx rate < 60"
  by (auto simp: gate_permits_def gate_conditions_def calls_in_window_def)

lemma gate_answers:
  assumes "gx_runId ctx \<noteq> []"
  obtains v db' where "gate_evaluate sha ks clk ctx db = (Inr v, db')"
    "gv_allowed v = gate_permits sha ks clk ctx (gd_rate db)"
    "gv_failed_check v = map_option gk_name (List.find (\<lambda>c. \<not> gk_passed c) (gv_checks v))"
    "gv_allowed v = (\<forall>c \<in> set (gv_checks v). gk_passed c)" "length (gv_checks v) = 9"
    "gd_checks db' = gd_checks db @ map (check_row ctx (gc_iso clk)) (gv_checks v)"
proof -
  obtain checks rate' where gc: "gate_checks sha ks clk ctx (gd_rate db) = (checks, rate')"
    by (cases "gate_checks sha ks clk ctx (gd_rate db)")
  from persist_checks_ok [OF assms, of "gc_iso clk" checks "db\<lparr>gd_rate := rate'\<rparr>"]
  obtain db2 where p: "persist_checks ctx (gc_iso clk) checks (db\<lparr>gd_rate := rate'\<rparr>) = Inr db2"
      "gd_checks db2 = gd_checks db @ map (check_row ctx (gc_iso clk)) checks" by auto
  have len: "length checks = 9" using gc by (auto simp: gate_checks_def split: prod.splits)
  have pass: "gate_permits sha ks clk ctx (gd_rate db) = (\<forall>c \<in> set checks. gk_passed c)"
    using gate_checks_passed [of sha ks clk ctx "gd_rate db"] gc by (simp add: list_all_iff)
  show ?thesis
  proof (cases "List.find (\<lambda>c. \<not> gk_passed c) checks")
    case None
    with find_failed [of checks] have "\<forall>c \<in> set checks. gk_passed c" by (simp add: list_all_iff)
    with None gc p len pass that show ?thesis by (simp add: gate_evaluate_def)
  next
    case (Some f)
    with find_failed [of checks] have "\<not> (\<forall>c \<in> set checks. gk_passed c)" by (simp add: list_all_iff)
    with Some gc p len pass that show ?thesis by (simp add: gate_evaluate_def)
  qed
qed

text \<open>
  C38. The agent gate is exact below the tool's limit: for a call of a named run to a tool
  that declares a limit of at most 60 calls a minute (as every tool of the registry does),
  the gate answers; what it permits satisfies the eight conditions spelled out in
  \<open>gate_conditions\<close> and the run and agent made fewer than 60 calls in the last minute; a
  call that satisfies the eight, with fewer calls in the last minute than the tool
  declares, is permitted; the call is permitted exactly when all nine checks passed, and
  the first one that failed is named otherwise; and nine audit rows are appended, one for
  each check with its outcome, whatever the verdict.  Between the declared limit and 60
  the code and \<^verbatim>\<open>docs/04_GUARDRAILS_SECURITY.md\<close> part: see \<open>tool_limits_not_enforced\<close>.
\<close>

theorem agent_gate_exact:
  assumes "gx_runId ctx \<noteq> []" and "gx_toolName ctx = td_tool_id tool" and "td_rate_limit_per_min tool \<le> 60"
  shows "\<exists>v db'. gate_evaluate sha ks clk ctx db = (Inr v, db') \<and>
     (gv_allowed v \<longrightarrow> gate_conditions sha ks clk ctx \<and> calls_in_window clk ctx (gd_rate db) < 60) \<and>
     (gate_conditions sha ks clk ctx \<and> calls_in_window clk ctx (gd_rate db) < td_rate_limit_per_min tool \<longrightarrow>
        gv_allowed v) \<and>
     (gv_allowed v \<longleftrightarrow> (\<forall>c \<in> set (gv_checks v). gk_passed c)) \<and>
     gv_failed_check v = map_option gk_name (List.find (\<lambda>c. \<not> gk_passed c) (gv_checks v)) \<and>
     length (gv_checks v) = 9 \<and>
     gd_checks db' = gd_checks db @ map (check_row ctx (gc_iso clk)) (gv_checks v)"
proof -
  obtain v db' where "gate_evaluate sha ks clk ctx db = (Inr v, db')"
    "gv_allowed v = gate_permits sha ks clk ctx (gd_rate db)"
    "gv_failed_check v = map_option gk_name (List.find (\<lambda>c. \<not> gk_passed c) (gv_checks v))"
    "gv_allowed v = (\<forall>c \<in> set (gv_checks v). gk_passed c)" "length (gv_checks v) = 9"
    "gd_checks db' = gd_checks db @ map (check_row ctx (gc_iso clk)) (gv_checks v)"
    by (rule gate_answers [OF assms(1)])
  then show ?thesis using assms(3) by (intro exI conjI) (auto simp: gate_permits_split)
qed

text \<open>
  The limit a tool declares is not read: a call that satisfies the other eight conditions is
  permitted although the run and agent already made as many calls in the last minute as
  the tool allows, as long as they made fewer than 60 over all tools.
\<close>

theorem tool_limits_not_enforced:
  assumes "gx_runId ctx \<noteq> []" and "gx_toolName ctx = td_tool_id tool" and "gate_conditions sha ks clk ctx"
    and "td_rate_limit_per_min tool \<le> calls_in_window clk ctx (gd_rate db)"
    and "calls_in_window clk ctx (gd_rate db) < 60"
  shows "\<exists>v db'. gate_evaluate sha ks clk ctx db = (Inr v, db') \<and> gv_allowed v"
  by (rule gate_answers [OF assms(1), of sha ks clk db]) (use assms(3,5) in \<open>auto simp: gate_permits_split\<close>)

definition demo_ctx :: gate_ctx where
  "demo_ctx = \<lparr>gx_runId = ''r1'', gx_agentName = StrategyAgent, gx_toolName = ''get_opportunity'',
     gx_inputPayload = [(''opportunity_id'', JStr ''opp_1'')], gx_permissionLevel = P_READ,
     gx_budgetTracker = Some (new_tracker DEFAULT_AGENT_BUDGET 0), gx_loopGuard = Some new_guard,
     gx_environment = None\<rparr>"

definition demo_lookup :: tool_def where
  "demo_lookup = \<lparr>td_tool_id = ''get_opportunity'', td_agent = None, td_permission = P_READ,
     td_read_only = True, td_rate_limit_per_min = 15, td_timeout_ms = 3000\<rparr>"

theorem agent_gate_exact_witness:
  "\<exists>v db'. gate_evaluate id resetAllKillSwitches \<lparr>gc_iso = ''t'', gc_budget_ms = 5, gc_rate_ms = 5\<rparr> demo_ctx
       empty_agent_db = (Inr v, db') \<and> gv_allowed v \<and> length (gd_checks db') = 9"
proof -
  let ?clk = "\<lparr>gc_iso = ''t'', gc_budget_ms = 5, gc_rate_ms = 5\<rparr>"
  have t: "gx_runId demo_ctx \<noteq> []" "gx_toolName demo_ctx = td_tool_id demo_lookup"
    "td_rate_limit_per_min demo_lookup \<le> 60"
    by (simp_all add: demo_ctx_def demo_lookup_def)
  have "list_all gk_passed (fst (gate_checks id resetAllKillSwitches ?clk demo_ctx (gd_rate empty_agent_db)))"
    by code_simp
  then have "gate_conditions id resetAllKillSwitches ?clk demo_ctx"
    by (simp add: gate_checks_passed gate_permits_split)
  moreover have "calls_in_window ?clk demo_ctx (gd_rate empty_agent_db) < td_rate_limit_per_min demo_lookup"
    by (simp add: calls_in_window_def empty_agent_db_def demo_lookup_def)
  ultimately show ?thesis
    using agent_gate_exact [OF t, of id resetAllKillSwitches ?clk empty_agent_db]
    by (auto simp: empty_agent_db_def)
qed


section \<open>Runs of tool calls\<close>

definition run_tools ::
  "(string \<Rightarrow> string) \<Rightarrow> (db_error \<Rightarrow> string) \<Rightarrow> (tool_def list \<times> tool_call) list \<Rightarrow> tool_state \<Rightarrow> tool_state" where
  "run_tools sha se calls st = fold (\<lambda>(tools, c) s. snd (executeTool sha se tools c s)) calls st"

definition call_row_ok :: "tool_call_row \<Rightarrow> bool" where
  "call_row_ok r \<longleftrightarrow>
     tc_status r \<in> {TC_SUCCESS, TC_DENIED, TC_FAILED} \<and>
     (tc_status r = TC_SUCCESS \<longrightarrow> tc_agent_name r \<noteq> PortfolioAgent \<and>
        tc_tool_name r \<notin> set forbiddenWriteToolNames) \<and>
     (tc_status r \<noteq> TC_DENIED \<longrightarrow>
        tc_permission_level r \<in> {P_READ, P_ANALYZE, P_PROPOSE} \<or>
        tc_agent_name r = AgentOrchestrator \<and> tc_permission_level r = P_APPROVE)"

definition call_rows_ok :: "agent_db \<Rightarrow> bool" where
  "call_rows_ok db \<longleftrightarrow> (\<forall>r \<in> set (gd_tool_calls db). call_row_ok r)"

lemma gate_evaluate_tool_calls:
  "gate_evaluate sha ks clk ctx db = (x, db') \<Longrightarrow> gd_tool_calls db' = gd_tool_calls db"
  by (auto simp: gate_evaluate_def Let_def dest!: persist_checks_tool_calls
      split: prod.splits sum.splits option.splits)

lemma logToolCall_rows:
  assumes "logToolCall sha c tool out stat err perm db = Inr db'"
  shows "\<exists>r. gd_tool_calls db' = gd_tool_calls db @ [r] \<and> tc_tool_name r = tool \<and> tc_status r = stat \<and>
           tc_permission_level r = perm \<and> tc_agent_name r = cl_agentName c"
  using assms
  by (auto simp: logToolCall_def insertAgentToolCall_def Let_def split: if_splits option.splits)

lemma logToolCall_ok:
  assumes "logToolCall sha c tool out stat err perm db = Inr db'" and "call_rows_ok db"
    and "\<And>r. tc_tool_name r = tool \<Longrightarrow> tc_status r = stat \<Longrightarrow> tc_permission_level r = perm \<Longrightarrow>
           tc_agent_name r = cl_agentName c \<Longrightarrow> call_row_ok r"
  shows "call_rows_ok db'"
  using logToolCall_rows [OF assms(1)] assms(2,3) by (auto simp: call_rows_ok_def)

lemma guard_record_db [simp]: "ts_db (guard_record sha c t ok st) = ts_db st"
  by (simp add: guard_record_def)

lemma permitted_row_ok:
  assumes "gate_permits sha ks clk (gate_ctx_of c tool st) rate"
    and "tc_tool_name r = td_tool_id tool" and "tc_status r \<in> {TC_SUCCESS, TC_FAILED}"
    and "tc_permission_level r = td_permission tool" and "tc_agent_name r = cl_agentName c"
  shows "call_row_ok r"
  using assms by (auto simp: gate_permits_def gate_ctx_of_def call_row_ok_def)

lemma handler_failed_ok:
  assumes "gate_permits sha ks clk (gate_ctx_of c tool st0) rate" and "call_rows_ok (ts_db st)"
  shows "call_rows_ok (ts_db (snd (handler_failed sha c tool msg st)))"
proof (cases "logToolCall sha c (td_tool_id tool)
    (JObj [(''error'', JStr (or_str msg ''Tool execution encountered an unexpected error''))]) TC_FAILED
    (Some (or_str msg ''Tool execution encountered an unexpected error'')) (td_permission tool) (ts_db st)")
  case (Inl e)
  then show ?thesis using assms(2) by (simp add: handler_failed_def Let_def)
next
  case (Inr db)
  have "call_rows_ok db"
    by (rule logToolCall_ok [OF Inr assms(2)]) (use permitted_row_ok [OF assms(1)] in simp)
  with Inr show ?thesis by (simp add: handler_failed_def Let_def)
qed

lemma run_handler_ok:
  assumes "gate_permits sha ks clk (gate_ctx_of c tool st0) rate" and "call_rows_ok (ts_db st)"
  shows "call_rows_ok (ts_db (snd (run_handler sha se c tool st)))"
proof (cases "cl_handler c")
  case (Raised msg)
  then show ?thesis using handler_failed_ok [OF assms] by (simp add: run_handler_def)
next
  case (Returned res)
  show ?thesis
  proof (cases "logToolCall sha c (td_tool_id tool) res (if not_failed res then TC_SUCCESS else TC_FAILED)
      (error_of res) (td_permission tool) (ts_db st)")
    case (Inl e)
    then show ?thesis using Returned handler_failed_ok [OF assms] by (simp add: run_handler_def)
  next
    case (Inr db)
    have "call_rows_ok db"
      by (rule logToolCall_ok [OF Inr assms(2)]) (use permitted_row_ok [OF assms(1)] in simp)
    with Inr Returned show ?thesis by (simp add: run_handler_def)
  qed
qed

lemma executeTool_ok:
  assumes "call_rows_ok (ts_db st)"
  shows "call_rows_ok (ts_db (snd (executeTool sha se tools c st)))"
proof (cases "getTool tools (cl_toolId c)")
  case None
  have "call_rows_ok db" if "logToolCall sha c (cl_toolId c) out TC_FAILED err P_READ (ts_db st) = Inr db" for out err db
    by (rule logToolCall_ok [OF that assms]) (simp add: call_row_ok_def)
  with None assms show ?thesis by (auto simp: executeTool_def Let_def split: sum.split)
next
  case (Some tool)
  obtain x db1 where g: "gate_evaluate sha (cl_kill c) (cl_clock c) (gate_ctx_of c tool st) (ts_db st) = (x, db1)"
    by (cases "gate_evaluate sha (cl_kill c) (cl_clock c) (gate_ctx_of c tool st) (ts_db st)")
  have ok1: "call_rows_ok db1" using gate_evaluate_tool_calls [OF g] assms by (simp add: call_rows_ok_def)
  show ?thesis
  proof (cases x)
    case (Inl e)
    with Some g ok1 show ?thesis by (simp add: executeTool_def)
  next
    case (Inr v)
    show ?thesis
    proof (cases "gv_allowed v")
      case True
      have "gate_permits sha (cl_kill c) (cl_clock c) (gate_ctx_of c tool st) (gd_rate (ts_db st))"
        using gate_evaluate_allowed g Inr True by blast
      from run_handler_ok [OF this, of "st\<lparr>ts_db := db1, ts_budget := map_option
          (\<lambda>b. snd (recordToolCall (gc_budget_ms (cl_clock c)) b)) (ts_budget st)\<rparr>"] ok1 Some g Inr True
      show ?thesis by (simp add: executeTool_def Let_def)
    next
      case False
      have "call_rows_ok db"
        if "logToolCall sha c (td_tool_id tool) out TC_DENIED err (td_permission tool) db1 = Inr db" for out err db
        by (rule logToolCall_ok [OF that ok1]) (simp add: call_row_ok_def)
      with Some g Inr False ok1 show ?thesis by (auto simp: executeTool_def Let_def split: sum.split)
    qed
  qed
qed

lemma run_tools_ok: "call_rows_ok (ts_db st) \<Longrightarrow> call_rows_ok (ts_db (run_tools sha se calls st))"
  unfolding run_tools_def
  by (induction calls arbitrary: st) (auto intro: executeTool_ok)

text \<open>A call the gate does not permit never reaches its handler: the outcome and the state do
  not depend on what the handler would do.\<close>

lemma logToolCall_handler [simp]:
  "logToolCall sha (c\<lparr>cl_handler := h\<rparr>) tool out stat err perm db = logToolCall sha c tool out stat err perm db"
  by (simp add: logToolCall_def)

lemma guard_record_handler [simp]: "guard_record sha (c\<lparr>cl_handler := h\<rparr>) t ok st = guard_record sha c t ok st"
  by (simp add: guard_record_def)

lemma gate_ctx_of_handler [simp]: "gate_ctx_of (c\<lparr>cl_handler := h\<rparr>) tool st = gate_ctx_of c tool st"
  by (simp add: gate_ctx_of_def)

lemma denied_ignores_handler:
  assumes "getTool tools (cl_toolId c) = Some tool"
    and "\<not> gate_permits sha (cl_kill c) (cl_clock c) (gate_ctx_of c tool st) (gd_rate (ts_db st))"
  shows "executeTool sha se tools (c\<lparr>cl_handler := h\<rparr>) st = executeTool sha se tools c st"
  using assms(1) gate_evaluate_allowed assms(2)
  by (fastforce simp: executeTool_def Let_def split: prod.split sum.split)

text \<open>
  C10. No agent ever executes or writes money: along any sequence of tool calls, with any
  tools registered in between and any handlers, every call that was not denied asked for
  READ, ANALYZE or PROPOSE (APPROVE, for the orchestrator only), a successful one neither
  used a forbidden tool name nor came from an unrecognised agent, and the handler of a tool
  registered with EXECUTE or FINANCIAL_WRITE is never run (the outcome does not depend on
  it).
\<close>

theorem agents_never_execute:
  fixes calls :: "(tool_def list \<times> tool_call) list"
  defines "st' st sha se \<equiv> run_tools sha se calls st"
  assumes "gd_tool_calls (ts_db st) = []"
  shows "(\<forall>r \<in> set (gd_tool_calls (ts_db (st' st sha se))). call_row_ok r) \<and>
     (\<forall>tools c h tool. getTool tools (cl_toolId c) = Some tool \<longrightarrow>
        td_permission tool \<in> {P_EXECUTE, P_FINANCIAL_WRITE} \<longrightarrow>
        executeTool sha se tools (c\<lparr>cl_handler := h\<rparr>) (st' st sha se) =
        executeTool sha se tools c (st' st sha se))"
proof
  have "call_rows_ok (ts_db st)" using assms(2) by (simp add: call_rows_ok_def)
  from run_tools_ok [OF this] show "\<forall>r \<in> set (gd_tool_calls (ts_db (st' st sha se))). call_row_ok r"
    by (simp add: assms(1) call_rows_ok_def)
  show "\<forall>tools c h tool. getTool tools (cl_toolId c) = Some tool \<longrightarrow>
        td_permission tool \<in> {P_EXECUTE, P_FINANCIAL_WRITE} \<longrightarrow>
        executeTool sha se tools (c\<lparr>cl_handler := h\<rparr>) (st' st sha se) =
        executeTool sha se tools c (st' st sha se)"
  proof (intro allI impI)
    fix tools h tool and c :: tool_call
    assume t: "getTool tools (cl_toolId c) = Some tool" "td_permission tool \<in> {P_EXECUTE, P_FINANCIAL_WRITE}"
    show "executeTool sha se tools (c\<lparr>cl_handler := h\<rparr>) (st' st sha se) =
        executeTool sha se tools c (st' st sha se)"
      by (rule denied_ignores_handler [OF t(1)]) (use t(2) in \<open>auto simp: gate_permits_def gate_ctx_of_def\<close>)
  qed
qed

definition demo_state :: tool_state where
  "demo_state = \<lparr>ts_db = empty_agent_db, ts_budget = None, ts_guard = Some new_guard\<rparr>"

definition demo_tool :: "tool_permission \<Rightarrow> tool_def" where
  "demo_tool p = \<lparr>td_tool_id = ''pay'', td_agent = None, td_permission = p, td_read_only = False,
     td_rate_limit_per_min = 60, td_timeout_ms = 3000\<rparr>"

definition demo_call :: "string \<Rightarrow> tool_call" where
  "demo_call i = \<lparr>cl_toolId = ''pay'', cl_runId = ''r1'', cl_agentName = StrategyAgent,
     cl_inputPayload = [(''n'', JStr i)], cl_environment = None, cl_callId = i, cl_start_ms = 0,
     cl_clock = \<lparr>gc_iso = ''t'', gc_budget_ms = 0, gc_rate_ms = 0\<rparr>, cl_end_ms = 1,
     cl_kill = resetAllKillSwitches, cl_handler = Returned (JObj [])\<rparr>"

theorem agents_never_execute_witness:
  "list_all call_row_ok (gd_tool_calls (ts_db (run_tools id (\<lambda>_. [])
      [([demo_tool P_READ], demo_call ''a''), ([demo_tool P_FINANCIAL_WRITE], demo_call ''b'')] demo_state)))"
  unfolding list_all_iff
  by (rule agents_never_execute [THEN conjunct1]) (simp add: demo_state_def empty_agent_db_def)

section \<open>Lock-out\<close>

lemma locked_not_permitted:
  assumes "ts_guard st = Some g" and "tool_locked (td_tool_id tool) g"
  shows "\<not> gate_permits sha ks clk (gate_ctx_of c tool st) rate"
  using assms locked_denies by (auto simp: gate_permits_def gate_ctx_of_def)

lemma getTool_id: "getTool tools t = Some tool \<Longrightarrow> td_tool_id tool = t"
  by (auto simp: getTool_def dest: row_get_Some)

definition locked_state :: "string \<Rightarrow> tool_state \<Rightarrow> bool" where
  "locked_state tool st \<longleftrightarrow> (\<exists>g. ts_guard st = Some g \<and> tool_locked tool g)"

lemma locked_guard_record:
  assumes "locked_state tool st" and "t = tool \<Longrightarrow> \<not> ok"
  shows "locked_state tool (guard_record sha c t ok st)"
  using assms locked_stays by (auto simp: locked_state_def guard_record_def)

lemma locked_frame [simp]:
  "locked_state tool (st\<lparr>ts_db := db\<rparr>) = locked_state tool st"
  "locked_state tool (st\<lparr>ts_db := db, ts_budget := b\<rparr>) = locked_state tool st"
  by (simp_all add: locked_state_def)

lemma handler_failed_locked:
  "locked_state tool st \<Longrightarrow> locked_state tool (snd (handler_failed sha c t msg st))"
  by (auto simp: handler_failed_def Let_def intro: locked_guard_record split: sum.split)

lemma run_handler_locked:
  "locked_state tool st \<Longrightarrow> td_tool_id t \<noteq> tool \<Longrightarrow> locked_state tool (snd (run_handler sha se c t st))"
  by (auto simp: run_handler_def handler_failed_locked intro: locked_guard_record
      split: handler_outcome.split sum.split)

lemma executeTool_locked:
  assumes "locked_state tool st"
  shows "locked_state tool (snd (executeTool sha se tools c st)) \<and>
    (cl_toolId c = tool \<longrightarrow> (\<forall>r. fst (executeTool sha se tools c st) = Inr r \<longrightarrow> \<not> tr_success r))"
proof (cases "getTool tools (cl_toolId c)")
  case None
  with assms show ?thesis by (auto simp: executeTool_def Let_def split: sum.split)
next
  case (Some t)
  obtain x db1 where g: "gate_evaluate sha (cl_kill c) (cl_clock c) (gate_ctx_of c t st) (ts_db st) = (x, db1)"
    by (cases "gate_evaluate sha (cl_kill c) (cl_clock c) (gate_ctx_of c t st) (ts_db st)")
  show ?thesis
  proof (cases "\<exists>v. x = Inr v \<and> gv_allowed v")
    case True
    then obtain v where v: "x = Inr v" "gv_allowed v" by blast
    have "td_tool_id t \<noteq> tool"
      using gate_evaluate_allowed [of sha "cl_kill c" "cl_clock c" "gate_ctx_of c t st" "ts_db st" v db1]
        g v assms locked_not_permitted
      by (auto simp: locked_state_def)
    with Some g v assms getTool_id [OF Some] show ?thesis
      by (auto simp: executeTool_def Let_def intro!: run_handler_locked)
  next
    case False
    with Some g assms show ?thesis
      by (cases x) (auto simp: executeTool_def Let_def intro: locked_guard_record split: sum.split)
  qed
qed

lemma run_tools_locked: "locked_state tool st \<Longrightarrow> locked_state tool (run_tools sha se calls st)"
  unfolding run_tools_def
  by (induction calls arbitrary: st) (use executeTool_locked in auto)

text \<open>
  A locked tool stays locked: once the last calls of a tool that a mission's loop guard
  saw were two failures (a denial counts as one), no later call of that tool in the mission
  succeeds, whatever happens in between: the refusals are themselves recorded as failures.
\<close>

theorem tool_lockout_permanent:
  assumes "ts_guard st = Some g" and "lg_max_failures g = 2"
    and "filter (\<lambda>e. ge_toolName e = tool) (lg_history g) = older @ [e1, e2]"
    and "\<not> ge_success e1" and "\<not> ge_success e2" and "cl_toolId c = tool"
  shows "\<forall>r. fst (executeTool sha se tools c (run_tools sha se calls st)) = Inr r \<longrightarrow> \<not> tr_success r"
proof -
  have "locked_state tool st"
    using assms(1-5) by (simp add: locked_state_def tool_locked_def slice_last_def)
  from executeTool_locked [OF run_tools_locked [OF this]] assms(6) show ?thesis by blast
qed

definition locked_guard :: loop_guard where
  "locked_guard = recordToolExecution id 2 ''pay'' [] False (recordToolExecution id 1 ''pay'' [] False new_guard)"

definition succeeds :: "db_error + tool_result \<Rightarrow> bool" where
  "succeeds x = (case x of Inl _ \<Rightarrow> False | Inr r \<Rightarrow> tr_success r)"

theorem tool_lockout_permanent_witness:
  "\<not> succeeds (fst (executeTool id (\<lambda>_. []) [demo_tool P_READ] (demo_call ''z'')
      (run_tools id (\<lambda>_. []) [([demo_tool P_READ], demo_call ''a'')]
        (demo_state\<lparr>ts_guard := Some locked_guard\<rparr>))))"
proof -
  let ?e = "\<lambda>t. \<lparr>ge_fingerprint = generateToolFingerprint id ''pay'' [], ge_toolName = ''pay'',
      ge_timestamp = t, ge_success = False\<rparr>"
  have "filter (\<lambda>e. ge_toolName e = ''pay'') (lg_history locked_guard) = [] @ [?e 1, ?e 2]"
    by (simp add: locked_guard_def new_guard_def recordToolExecution_def)
  moreover have "lg_max_failures locked_guard = 2"
    by (simp add: locked_guard_def new_guard_def recordToolExecution_def)
  moreover have "ts_guard (demo_state\<lparr>ts_guard := Some locked_guard\<rparr>) = Some locked_guard"
    by simp
  moreover have "cl_toolId (demo_call ''z'') = ''pay''" by (simp add: demo_call_def)
  ultimately have "\<forall>r. fst (executeTool id (\<lambda>_. []) [demo_tool P_READ] (demo_call ''z'')
      (run_tools id (\<lambda>_. []) [([demo_tool P_READ], demo_call ''a'')]
        (demo_state\<lparr>ts_guard := Some locked_guard\<rparr>))) = Inr r \<longrightarrow> \<not> tr_success r"
    using tool_lockout_permanent guard_entry.select_convs(4) by metis
  then show ?thesis by (simp add: succeeds_def split: sum.split)
qed

end
