(* ===== verification/Bridge.thy ===== *)
theory Bridge
  imports Economics
begin

text \<open>
  The bridge from language-model signals to the economics
  (\<^verbatim>\<open>src/agents/bridge.ts\<close>): signals become bounded modifiers of the incremental
  probability and of the fatigue cost, in double arithmetic, and the score is computed
  from the deterministic baseline and the modifiers.  \<^verbatim>\<open>disabled\<close> is the environment
  switch \<^verbatim>\<open>DISABLE_LLM_SCORING_INFLUENCE\<close>.
\<close>

record semantic_signal =
  sg_name :: string
  sg_value :: number
  sg_confidence :: number

record modifiers =
  mo_incremental_prob :: rat
  mo_fatigue_cost_paise :: int
  mo_operational_cost_paise :: int
  mo_calibrated_signals :: "string \<Rightarrow> rat option"

text \<open>\<^verbatim>\<open>Math.max(0, Math.min(1, Number(x) || d))\<close>: zero and NaN take the default.\<close>

fun clamp_or :: "rat \<Rightarrow> number \<Rightarrow> rat" where
  "clamp_or d (Fin x) = clamp 0 1 (if x = 0 then d else x)"
| "clamp_or d PosInf = 1"
| "clamp_or d NegInf = 0"
| "clamp_or d NaN = clamp 0 1 d"

type_synonym mod_state = "rat \<times> int \<times> (string \<Rightarrow> rat option)"

definition apply_signal :: "semantic_signal \<Rightarrow> mod_state \<Rightarrow> mod_state" where
  "apply_signal sig acc =
     (case acc of (p, f, m) \<Rightarrow>
        let v = clamp_or 0 (sg_value sig); c = clamp_or (lit 5 1) (sg_confidence sig);
            m' = m(sg_name sig \<mapsto> v)
        in if sg_name sig = ''transient_failure''
           then (fadd p (fmul (fmul (fsub v (lit 5 1)) (lit 10 2)) c), f, m')
           else if sg_name sig = ''gateway_instability''
           then (fsub p (fmul (fmul v (lit 6 2)) c), f, m')
           else if sg_name sig = ''customer_liquidity''
           then (fadd p (fmul (fmul (fsub v (lit 5 1)) (lit 8 2)) c), f, m')
           else if sg_name sig = ''fatigue''
           then (p, f + math_round (fmul (fmul v 500) c), m')
           else (p, f, m'))"

definition calculateModifiers :: "semantic_signal list \<Rightarrow> modifiers" where
  "calculateModifiers signals =
     (case fold apply_signal signals (0, 0, Map.empty) of (p, f, m) \<Rightarrow>
        \<lparr>mo_incremental_prob = max (- lit 10 2) (min (lit 10 2) (toFixed 4 p)),
         mo_fatigue_cost_paise = clamp 0 500 f, mo_operational_cost_paise = 0,
         mo_calibrated_signals = m\<rparr>)"

definition no_modifiers :: modifiers where
  "no_modifiers = \<lparr>mo_incremental_prob = 0, mo_fatigue_cost_paise = 0, mo_operational_cost_paise = 0,
     mo_calibrated_signals = Map.empty\<rparr>"

record bridge_result =
  bg_score :: score
  bg_baseline_iven_paise :: int
  bg_calibrated_iven_paise :: int
  bg_modifiers_applied :: modifiers
  bg_verified :: bool

definition scoreWithSemanticBridge ::
  "js_math \<Rightarrow> calibrator \<Rightarrow> bool \<Rightarrow> opportunity \<Rightarrow> semantic_signal list \<Rightarrow> bridge_result option" where
  "scoreWithSemanticBridge jm cb disabled opp signals =
     (case estimateProbabilities jm cb opp of
        None \<Rightarrow> None
      | Some base \<Rightarrow>
          let costs = calculateCosts (if o_attempt_count opp = 0 then 1 else o_attempt_count opp);
              mods = (if disabled then no_modifiers else calculateModifiers signals);
              inc = (if o_decline_type opp = Hard then 0
                     else max 0 (min (lit 95 2)
                            (toFixed 4 (fadd (pe_incremental base) (mo_incremental_prob mods)))));
              fatigue = cb_fatigue costs + mo_fatigue_cost_paise mods;
              iven = iven_of inc (o_amount_paise opp) fatigue
          in Some \<lparr>bg_score =
                     \<lparr>s_opportunity_id = o_id opp, s_tenant_id = None,
                      s_natural_recovery_prob = pe_natural base,
                      s_intervention_recovery_prob = toFixed 4 (fadd (pe_natural base) inc),
                      s_incremental_prob = inc, s_operational_cost_paise = cb_operational costs,
                      s_fatigue_cost_paise = fatigue, s_expected_incremental_value_paise = iven,
                      s_confidence = determineConfidence opp, s_iven_band = None,
                      s_probability_source = Some (pe_source base)\<rparr>,
                   bg_baseline_iven_paise =
                     iven_of (pe_incremental base) (o_amount_paise opp) (cb_fatigue costs),
                   bg_calibrated_iven_paise = iven, bg_modifiers_applied = mods,
                   bg_verified = True\<rparr>)"

section \<open>How far the signals reach\<close>

lemma modifiers_bounded:
  "- lit 10 2 \<le> mo_incremental_prob (calculateModifiers s) \<and>
   mo_incremental_prob (calculateModifiers s) \<le> lit 10 2 \<and>
   0 \<le> mo_fatigue_cost_paise (calculateModifiers s) \<and>
   mo_fatigue_cost_paise (calculateModifiers s) \<le> 500"
proof -
  have "- lit 10 2 \<le> lit 10 2" using lit_nonneg [of 10 2] by linarith
  then show ?thesis by (auto simp: calculateModifiers_def clamp_def split: prod.split)
qed

lemma applied_bounded:
  assumes "scoreWithSemanticBridge jm cb disabled opp signals = Some r"
  shows "- lit 10 2 \<le> mo_incremental_prob (bg_modifiers_applied r) \<and>
    mo_incremental_prob (bg_modifiers_applied r) \<le> lit 10 2 \<and>
    0 \<le> mo_fatigue_cost_paise (bg_modifiers_applied r) \<and>
    mo_fatigue_cost_paise (bg_modifiers_applied r) \<le> 500"
  using assms modifiers_bounded [of signals] lit_nonneg [of 10 2]
  by (auto simp: scoreWithSemanticBridge_def no_modifiers_def Let_def split: option.splits)

text \<open>The value with the probability shifted by \<open>d\<close> and the fatigue raised by \<open>f\<close>.\<close>

definition shifted_iven :: "probability_estimate \<Rightarrow> opportunity \<Rightarrow> rat \<Rightarrow> int \<Rightarrow> int" where
  "shifted_iven base opp d f =
     iven_of (max 0 (min (lit 95 2) (toFixed 4 (fadd (pe_incremental base) d)))) (o_amount_paise opp)
       (cb_fatigue (calculateCosts (if o_attempt_count opp = 0 then 1 else o_attempt_count opp)) + f)"

lemma iven_of_shift_mono:
  assumes "0 \<le> a" and "p \<le> p'" and "f' \<le> f"
  shows "iven_of p a f \<le> iven_of p' a f'"
proof -
  have "fmul p (of_int a) \<le> fmul p' (of_int a)"
    using assms(1,2) by (simp add: fmul_def ieee.rnd_mono mult_right_mono)
  then show ?thesis unfolding iven_of_def using assms(3) by (intro math_round_mono fsub_mono) auto
qed

lemma shifted_mono:
  assumes "0 \<le> o_amount_paise opp" and "d \<le> d'" and "f' \<le> f"
  shows "shifted_iven base opp d f \<le> shifted_iven base opp d' f'"
proof -
  have "fadd (pe_incremental base) d \<le> fadd (pe_incremental base) d'"
    using assms(2) by (simp add: fadd_def ieee.rnd_mono)
  then have "toFixed 4 (fadd (pe_incremental base) d) \<le> toFixed 4 (fadd (pe_incremental base) d')"
    by (rule toFixed_mono)
  then show ?thesis unfolding shifted_iven_def
    using assms(1,3) by (intro iven_of_shift_mono) (auto simp: min_def max_def)
qed

lemma fatigue_nonneg: "0 \<le> cb_fatigue (calculateCosts k)"
  by (simp add: calculateCosts_def Let_def)

lemma hard_iven:
  assumes "0 \<le> f"
  shows "iven_of 0 a f \<le> - 400"
proof -
  have a: "fmul 0 (of_int a) = 0" by (simp add: fmul_def ieee.rnd_zero)
  have b: "fsub 0 400 = - 400" using ieee.rnd_int [of "- 400"] by (simp add: fsub_def)
  have "fsub (- 400) (of_int f) \<le> of_int (- 400)"
    unfolding fsub_def using assms by (intro ieee.rnd_le_int) auto
  then show ?thesis unfolding iven_of_def a b by (rule math_round_le)
qed

section \<open>Four-digit decimals\<close>

text \<open>
  The baseline and the modifier are decimals of four digits, so rounding does not add to
  the distance: their double sum, read back with \<^verbatim>\<open>toFixed(4)\<close>, is the decimal sum.
\<close>

lemma rnd64_near:
  assumes "\<bar>x\<bar> \<le> 2"
  shows "\<bar>rnd64 x - x\<bar> \<le> 1 / 2 ^ 50"
proof -
  define y where "y = \<lfloor>x * 2 ^ 50\<rfloor>"
  have g: "pow2 (- 50) = 1 / 2 ^ 50" by (simp add: pow2_def)
  have y: "of_int y \<le> x * 2 ^ 50" "x * 2 ^ 50 < of_int y + 1"
    using floor_correct [of "x * 2 ^ 50"] by (simp_all only: y_def of_int_add of_int_1)
  have b: "x * 2 ^ 50 \<le> 2 ^ 51" "- (2 ^ 51) \<le> x * 2 ^ 50" using assms by (simp_all add: abs_le_iff)
  have "of_int y \<le> (2 ^ 51 :: rat)" "- (2 ^ 51) < of_int y + (1 :: rat)" using y b by linarith+
  then have "y \<le> 2 ^ 51" "- (2 ^ 51) < y + 1" by simp_all
  then have e: "rnd64 (of_int y * pow2 (- 50)) = of_int y * pow2 (- 50)"
    "rnd64 (of_int (y + 1) * pow2 (- 50)) = of_int (y + 1) * pow2 (- 50)"
    by (intro rnd64_exact; simp)+
  have "of_int y * pow2 (- 50) \<le> x" "x \<le> of_int (y + 1) * pow2 (- 50)" using y by (simp_all add: g field_simps)
  with ieee.fix_le_rnd [OF _ e(1)] ieee.rnd_le_fix [OF _ e(2)]
  have "of_int y * pow2 (- 50) \<le> rnd64 x" "rnd64 x \<le> of_int (y + 1) * pow2 (- 50)" by blast+
  then have "rnd64 x - x \<le> 1 / 2 ^ 50 \<and> x - rnd64 x \<le> 1 / 2 ^ 50"
    using y unfolding g by (simp add: field_simps)
  then show ?thesis by linarith
qed

lemma toFixed_lit:
  assumes "\<bar>x - of_int n / 10 ^ 4\<bar> \<le> 1 / 10 ^ 5"
  shows "toFixed 4 x = lit n 4"
proof -
  have x: "of_int n - 1 / 10 \<le> x * 10 ^ 4" "x * 10 ^ 4 \<le> of_int n + 1 / 10"
    using assms unfolding abs_le_iff by (simp_all add: field_simps)
  have "\<lfloor>x * 10 ^ 4 + 1 / 2\<rfloor> = n" "\<lfloor>- x * 10 ^ 4 + 1 / 2\<rfloor> = - n"
    using x by (intro floor_unique; simp)+
  then show ?thesis by (simp add: toFixed_def)
qed

lemma lit_sum:
  assumes "\<bar>n\<bar> \<le> 10000" and "\<bar>m\<bar> \<le> 1000"
  shows "toFixed 4 (fadd (lit n 4) (lit m 4)) = lit (n + m) 4"
proof (rule toFixed_lit)
  have n: "\<bar>of_int n / 10 ^ 4 :: rat\<bar> \<le> 1" and m: "\<bar>of_int m / 10 ^ 4 :: rat\<bar> \<le> 1 / 10"
    using assms by (simp_all add: abs_le_iff field_simps)
  have ln: "\<bar>lit n 4 - of_int n / 10 ^ 4\<bar> \<le> 1 / 2 ^ 50" "\<bar>lit m 4 - of_int m / 10 ^ 4\<bar> \<le> 1 / 2 ^ 50"
    unfolding lit_def using n m by (intro rnd64_near; linarith)+
  have t: "\<bar>a + b\<bar> \<le> 2" if "\<bar>a - c\<bar> \<le> 1 / 2 ^ 50" "\<bar>b - d\<bar> \<le> 1 / 2 ^ 50" "\<bar>c\<bar> \<le> 1" "\<bar>d\<bar> \<le> 1 / 10"
    for a b c d :: rat
    using that abs_triangle_ineq [of "a - c" c] abs_triangle_ineq [of "b - d" d] abs_triangle_ineq [of a b] by simp
  have u: "\<bar>f - (c + d)\<bar> \<le> 1 / 10 ^ 5"
    if "\<bar>f - (a + b)\<bar> \<le> 1 / 2 ^ 50" "\<bar>a - c\<bar> \<le> 1 / 2 ^ 50" "\<bar>b - d\<bar> \<le> 1 / 2 ^ 50" for a b c d f :: rat
  proof -
    have "f - (c + d) = (f - (a + b)) + ((a - c) + (b - d))" by simp
    then have "\<bar>f - (c + d)\<bar> \<le> \<bar>f - (a + b)\<bar> + (\<bar>a - c\<bar> + \<bar>b - d\<bar>)"
      using abs_triangle_ineq [of "f - (a + b)" "(a - c) + (b - d)"] abs_triangle_ineq [of "a - c" "b - d"] by linarith
    also have "\<dots> \<le> 1 / 2 ^ 50 + (1 / 2 ^ 50 + 1 / 2 ^ 50)" using that by (intro add_mono)
    finally show ?thesis by simp
  qed
  from u [OF rnd64_near [OF t [OF ln n m]] ln]
  show "\<bar>fadd (lit n 4) (lit m 4) - of_int (n + m) / 10 ^ 4\<bar> \<le> 1 / 10 ^ 5"
    by (simp only: fadd_def of_int_add add_divide_distrib)
qed

lemma toFixed_form: "\<exists>n. toFixed 4 x = lit n 4 \<and> (x \<le> 1 \<longrightarrow> n \<le> 10000)"
proof -
  have "\<lfloor>x * 10 ^ 4 + 1 / 2\<rfloor> \<le> 10000" if "x \<le> 1"
    using that by (simp add: floor_le_iff)
  moreover have "- \<lfloor>- (x * 10 ^ 4) + 1 / 2\<rfloor> \<le> 10000" if "x < 0"
    using that by (simp add: minus_le_iff le_floor_iff)
  ultimately show ?thesis unfolding toFixed_def by fastforce
qed

lemma lit_max: "max (lit a d) (lit b d) = lit (max a b) d"
  by (rule max_of_mono [of "\<lambda>n. lit n d"]) (simp add: monoI lit_mono)

lemma lit_min: "min (lit a d) (lit b d) = lit (min a b) d"
  by (rule min_of_mono [of "\<lambda>n. lit n d"]) (simp add: monoI lit_mono)

lemma lit_scale: "lit 10 2 = lit 1000 4" "lit 95 2 = lit 9500 4"
  by (simp_all add: lit_def)

lemma modifier_form: "\<exists>m. mo_incremental_prob (calculateModifiers s) = lit m 4 \<and> \<bar>m\<bar> \<le> 1000"
proof -
  obtain p f k where fold: "fold apply_signal s (0, 0, Map.empty) = (p, f, k)" by (metis prod_cases3)
  obtain n where n: "toFixed 4 p = lit n 4" using toFixed_form by blast
  have "mo_incremental_prob (calculateModifiers s) = lit (max (- 1000) (min 1000 n)) 4"
    by (simp add: calculateModifiers_def fold n lit_scale lit_minus [symmetric] lit_max lit_min)
  then show ?thesis by (intro exI [of _ "max (- 1000) (min 1000 n)"]) auto
qed

lemma base_form:
  assumes "calib_ok cb" and "estimateProbabilities jm cb opp = Some base"
  shows "\<exists>n. pe_incremental base = lit n 4 \<and> 0 \<le> n \<and> n \<le> 10000 \<and> (o_decline_type opp = Hard \<longrightarrow> n = 0)"
proof -
  obtain e where e: "getEffectiveProbabilitiesSync jm cb (toLowerCase (o_reason_code opp)) (o_decline_type opp) = Some e"
    using assms(2) by (auto simp: estimateProbabilities_def split: option.splits)
  show ?thesis
  proof (cases "o_decline_type opp = Hard")
    case True
    then have "pe_incremental base = lit 0 4"
      using assms(2) e by (auto simp: estimateProbabilities_def fsub_def ieee.rnd_zero Let_def)
    with True show ?thesis by (intro exI [of _ 0]) simp
  next
    case False
    let ?x = "fsub (ef_p_intervention e) (ef_p_natural e)"
    have "?x \<le> 1" using effective_unit [OF assms(1) e] by (simp add: unit_prob_def fsub_def ieee.rnd_le_one)
    then obtain n where n: "toFixed 4 ?x = lit n 4" "n \<le> 10000" using toFixed_form by blast
    have "pe_incremental base = lit (max 0 n) 4"
      using assms(2) e False n lit_max [of 0 4 n] by (auto simp: estimateProbabilities_def)
    with n False show ?thesis by (intro exI [of _ "max 0 n"]) auto
  qed
qed

text \<open>The incremental probability when the signals move it by \<open>d\<close>.\<close>

definition shifted_prob :: "probability_estimate \<Rightarrow> rat \<Rightarrow> rat" where
  "shifted_prob base d = max 0 (min (lit 95 2) (toFixed 4 (fadd (pe_incremental base) d)))"

lemma shifted_prob_mono: "d \<le> d' \<Longrightarrow> shifted_prob base d \<le> shifted_prob base d'"
  using toFixed_mono [of "fadd (pe_incremental base) d" "fadd (pe_incremental base) d'" 4]
  by (auto simp: shifted_prob_def fadd_def ieee.rnd_mono min_def max_def)

definition base_fatigue :: "opportunity \<Rightarrow> int" where
  "base_fatigue opp = cb_fatigue (calculateCosts (if o_attempt_count opp = 0 then 1 else o_attempt_count opp))"

lemma bridge_score:
  assumes "scoreWithSemanticBridge jm cb disabled opp signals = Some r"
    and "estimateProbabilities jm cb opp = Some base"
  shows "s_incremental_prob (bg_score r) = (if o_decline_type opp = Hard then 0
           else shifted_prob base (mo_incremental_prob (bg_modifiers_applied r)))"
    and "s_fatigue_cost_paise (bg_score r) = base_fatigue opp + mo_fatigue_cost_paise (bg_modifiers_applied r)"
    and "bg_calibrated_iven_paise r = (if o_decline_type opp = Hard
           then iven_of 0 (o_amount_paise opp) (s_fatigue_cost_paise (bg_score r))
           else shifted_iven base opp (mo_incremental_prob (bg_modifiers_applied r))
                  (mo_fatigue_cost_paise (bg_modifiers_applied r)))"
    and "bg_modifiers_applied r = (if disabled then no_modifiers else calculateModifiers signals)"
  using assms
  by (auto simp: scoreWithSemanticBridge_def shifted_prob_def shifted_iven_def base_fatigue_def Let_def)

lemma probability_move:
  assumes "scoreWithSemanticBridge jm cb disabled opp signals = Some r"
    and "estimateProbabilities jm cb opp = Some base" and "calib_ok cb"
  shows "\<exists>n n'. pe_incremental base = lit n 4 \<and> s_incremental_prob (bg_score r) = lit n' 4 \<and> \<bar>n' - n\<bar> \<le> 1000"
proof -
  obtain n where n: "pe_incremental base = lit n 4" "0 \<le> n" "n \<le> 10000" "o_decline_type opp = Hard \<longrightarrow> n = 0"
    using base_form [OF assms(3,2)] by blast
  have "mo_incremental_prob no_modifiers = lit 0 4" by (simp add: no_modifiers_def)
  then obtain m where m: "mo_incremental_prob (bg_modifiers_applied r) = lit m 4" "\<bar>m\<bar> \<le> 1000"
    using modifier_form [of signals] bridge_score(4) [OF assms(1,2)] by (metis abs_zero zero_le_numeral)
  have "shifted_prob base (lit m 4) = lit (max 0 (min 9500 (n + m))) 4"
    using n m lit_sum [of n m] lit_max [of 0 4 "min 9500 (n + m)"]
    by (simp add: shifted_prob_def lit_scale(2) lit_min)
  with bridge_score(1) [OF assms(1,2)] m n
  have "s_incremental_prob (bg_score r) = lit (if o_decline_type opp = Hard then 0 else max 0 (min 9500 (n + m))) 4"
    by simp
  with n m show ?thesis by (intro exI conjI) (auto simp: max_def min_def)
qed

section \<open>Property\<close>

text \<open>
  C21. The influence of the language model is bounded: whatever signals it sends, the
  modifier of the incremental probability is within 0.10 of zero and the one of the fatigue
  cost between 0 and 500 paise; the fatigue cost of the score is the deterministic one plus
  0 to 500 paise; its incremental probability stays in [0, 0.95] and, for a calibrator
  whose models hold probabilities, is within 1000 ten-thousandths (0.10) of the baseline's;
  probability and value lie between those that the deterministic baseline gives at the
  extremes of the modifiers; a hard decline has incremental probability 0 and a value of
  at most -400 paise.
\<close>

theorem llm_influence_bounded:
  assumes "scoreWithSemanticBridge jm cb disabled opp signals = Some r"
    and "estimateProbabilities jm cb opp = Some base" and "0 \<le> o_amount_paise opp"
  shows "0 \<le> s_incremental_prob (bg_score r) \<and> s_incremental_prob (bg_score r) \<le> lit 95 2 \<and>
    \<bar>mo_incremental_prob (bg_modifiers_applied r)\<bar> \<le> lit 10 2 \<and>
    mo_fatigue_cost_paise (bg_modifiers_applied r) \<in> {0..500} \<and>
    s_fatigue_cost_paise (bg_score r) = base_fatigue opp + mo_fatigue_cost_paise (bg_modifiers_applied r) \<and>
    (calib_ok cb \<longrightarrow> (\<exists>n n'. pe_incremental base = lit n 4 \<and> s_incremental_prob (bg_score r) = lit n' 4 \<and>
       \<bar>n' - n\<bar> \<le> 1000)) \<and>
    (o_decline_type opp = Hard \<longrightarrow>
       s_incremental_prob (bg_score r) = 0 \<and> bg_calibrated_iven_paise r \<le> - 400) \<and>
    (o_decline_type opp \<noteq> Hard \<longrightarrow>
       shifted_prob base (- lit 10 2) \<le> s_incremental_prob (bg_score r) \<and>
       s_incremental_prob (bg_score r) \<le> shifted_prob base (lit 10 2) \<and>
       shifted_iven base opp (- lit 10 2) 500 \<le> bg_calibrated_iven_paise r \<and>
       bg_calibrated_iven_paise r \<le> shifted_iven base opp (lit 10 2) 0)"
proof -
  note b = applied_bounded [OF assms(1)]
  note e = bridge_score [OF assms(1,2)]
  have l: "0 \<le> lit 95 2" "0 \<le> shifted_prob base d" "shifted_prob base d \<le> lit 95 2" for d
    by (auto simp: shifted_prob_def lit_nonneg)
  have h: "iven_of 0 (o_amount_paise opp) (s_fatigue_cost_paise (bg_score r)) \<le> - 400"
    using b by (intro hard_iven) (simp add: e(2) base_fatigue_def fatigue_nonneg add_nonneg_nonneg)
  have p: "calib_ok cb \<longrightarrow> (\<exists>n n'. pe_incremental base = lit n 4 \<and>
      s_incremental_prob (bg_score r) = lit n' 4 \<and> \<bar>n' - n\<bar> \<le> 1000)"
    using probability_move [OF assms(1,2)] by blast
  show ?thesis
    using b l h p assms(3) by (cases "o_decline_type opp = Hard")
      (simp_all add: e abs_le_iff shifted_prob_mono shifted_mono minus_le_iff)
qed

definition demo_signals :: "semantic_signal list" where
  "demo_signals = [\<lparr>sg_name = ''transient_failure'', sg_value = PosInf, sg_confidence = Fin 1\<rparr>,
     \<lparr>sg_name = ''fatigue'', sg_value = Fin 0, sg_confidence = NaN\<rparr>]"

theorem llm_influence_bounded_witness:
  "\<exists>r. scoreWithSemanticBridge sample_math new_calibrator False
     (sample_opportunity ''o1'' ''insufficient_funds'' Hard 185000) demo_signals = Some r \<and>
     bg_calibrated_iven_paise r \<le> - 400"
proof -
  let ?o = "sample_opportunity ''o1'' ''insufficient_funds'' Hard 185000"
  obtain base where base: "estimateProbabilities sample_math new_calibrator ?o = Some base"
    by (simp add: estimateProbabilities_def getEffectiveProbabilitiesSync_def sample_opportunity_def Let_def)
  then obtain r where r: "scoreWithSemanticBridge sample_math new_calibrator False ?o demo_signals = Some r"
    by (simp add: scoreWithSemanticBridge_def Let_def)
  from llm_influence_bounded [OF r base] r show ?thesis by (auto simp: sample_opportunity_def)
qed

end
