(* ===== verification/Missions.thy ===== *)
theory Missions
  imports JS_Number Ctrl_Prelude Ctrl_Types
begin

text \<open>
  The mission coordinator of \<^verbatim>\<open>src/agents/concurrency.ts\<close>: a pool of workers that
  take opportunities from one queue.  JavaScript runs a worker without interruption from
  one \<^verbatim>\<open>await\<close> to the next, so the atomic steps are: the launch of all workers, and the
  completion of the mission a worker waits for, up to the start of its next mission.
  Between them the lock set, which all batches share, may change under other batches, and
  a mission that lost the race against its timer may still be running.  The mission itself
  (\<^verbatim>\<open>AgentOrchestrator\<close>) is a parameter: what it returned, the error it raised, or the
  timeout.
\<close>

section \<open>The pool\<close>

datatype run_status = RS_completed | RS_aborted | RS_human_review | RS_failed

record mission_row =
  mi_opportunity :: string
  mi_run_id :: string
  mi_status :: run_status
  mi_final_decision :: decision_type
  mi_authority_verdict :: string
  mi_latency_ms :: int

record mission_result =
  me_run_id :: string
  me_status :: run_status
  me_final_decision :: decision_type
  me_authority_verdict :: string
  me_total_tokens :: int
  me_steps_executed :: int

datatype mission_outcome = Finished mission_result | Crashed | Timed_out

datatype worker = Idle | Running string int

record pool =
  pl_queue :: "string list"
  pl_results :: "mission_row list"
  pl_locks :: "string set"
  pl_workers :: "worker list"
  pl_active :: nat
  pl_max_active :: nat
  pl_tokens :: int
  pl_steps :: int
  pl_zombies :: "string list"

definition skipped_row :: "string \<Rightarrow> string \<Rightarrow> mission_row" where
  "skipped_row opp run = \<lparr>mi_opportunity = opp, mi_run_id = run, mi_status = RS_aborted,
     mi_final_decision = ABSTAIN, mi_authority_verdict = ''BLOCKED'', mi_latency_ms = 0\<rparr>"

text \<open>The \<^verbatim>\<open>while\<close> loop of a worker up to the mission it starts, if any.\<close>

fun drain :: "bool \<Rightarrow> string set \<Rightarrow> string list \<Rightarrow> mission_row list \<Rightarrow>
    string list \<times> mission_row list \<times> string option" where
  "drain kill locks [] res = ([], res, None)"
| "drain kill locks (x # q) res =
     (if kill
      then drain kill locks q (if x = [] then res else res @ [skipped_row x ''aborted_kill_switch''])
      else if x = [] then (q, res, None)
      else if x \<in> locks then drain kill locks q (res @ [skipped_row x ''skipped_duplicate_lock''])
      else (q, res, Some x))"

definition wake :: "bool \<Rightarrow> int \<Rightarrow> nat \<Rightarrow> pool \<Rightarrow> pool" where
  "wake kill now i s =
     (case drain kill (pl_locks s) (pl_queue s) (pl_results s) of
        (q, res, None) \<Rightarrow> s\<lparr>pl_queue := q, pl_results := res, pl_workers := (pl_workers s)[i := Idle]\<rparr>
      | (q, res, Some x) \<Rightarrow>
          s\<lparr>pl_queue := q, pl_results := res, pl_locks := insert x (pl_locks s),
            pl_workers := (pl_workers s)[i := Running x now], pl_active := pl_active s + 1,
            pl_max_active := max (pl_max_active s) (pl_active s + 1)\<rparr>)"

definition result_row :: "string \<Rightarrow> int \<Rightarrow> mission_outcome \<Rightarrow> mission_row" where
  "result_row x latency oc =
     (case oc of
        Finished r \<Rightarrow> \<lparr>mi_opportunity = x, mi_run_id = me_run_id r, mi_status = me_status r,
           mi_final_decision = me_final_decision r, mi_authority_verdict = me_authority_verdict r,
           mi_latency_ms = latency\<rparr>
      | _ \<Rightarrow> \<lparr>mi_opportunity = x, mi_run_id = ''failed_execution'', mi_status = RS_failed,
           mi_final_decision = ABSTAIN, mi_authority_verdict = ''BLOCKED'', mi_latency_ms = latency\<rparr>)"

text \<open>The rest of the loop body after the race, with its \<^verbatim>\<open>finally\<close> block.\<close>

definition settle :: "nat \<Rightarrow> string \<Rightarrow> int \<Rightarrow> mission_outcome \<Rightarrow> pool \<Rightarrow> pool" where
  "settle i x latency oc s =
     s\<lparr>pl_results := pl_results s @ [result_row x latency oc],
       pl_tokens := pl_tokens s + (case oc of Finished r \<Rightarrow> me_total_tokens r | _ \<Rightarrow> 0),
       pl_steps := pl_steps s + (case oc of Finished r \<Rightarrow> me_steps_executed r | _ \<Rightarrow> 0),
       pl_zombies := (case oc of Timed_out \<Rightarrow> x # pl_zombies s | _ \<Rightarrow> pl_zombies s),
       pl_locks := pl_locks s - {x}, pl_active := pl_active s - 1,
       pl_workers := (pl_workers s)[i := Idle]\<rparr>"

definition finish_worker :: "bool \<Rightarrow> int \<Rightarrow> nat \<Rightarrow> mission_outcome \<Rightarrow> pool \<Rightarrow> pool" where
  "finish_worker kill now i oc s =
     (case pl_workers s ! i of
        Idle \<Rightarrow> s
      | Running x t \<Rightarrow> wake kill now i (settle i x (now - t) oc s))"

definition DEFAULT_MAX_CONCURRENT :: int where "DEFAULT_MAX_CONCURRENT = 3"

definition pool_size :: "int option \<Rightarrow> string list \<Rightarrow> nat" where
  "pool_size config ids =
     min (nat (max 1 (case config of Some n \<Rightarrow> n | None \<Rightarrow> DEFAULT_MAX_CONCURRENT))) (length ids)"

definition new_pool :: "string set \<Rightarrow> nat \<Rightarrow> string list \<Rightarrow> pool" where
  "new_pool locks k ids = \<lparr>pl_queue = ids, pl_results = [], pl_locks = locks,
     pl_workers = replicate k Idle, pl_active = 0, pl_max_active = 0, pl_tokens = 0, pl_steps = 0,
     pl_zombies = []\<rparr>"

definition launch :: "int option \<Rightarrow> int \<Rightarrow> string set \<Rightarrow> string list \<Rightarrow> pool" where
  "launch config now locks ids =
     (let k = pool_size config ids in fold (wake False now) [0..<k] (new_pool locks k ids))"

record batch_summary =
  bs_total_submitted :: nat
  bs_completed_count :: nat
  bs_aborted_count :: nat
  bs_failed_count :: nat
  bs_total_tokens :: int
  bs_total_steps :: int
  bs_average_latency_ms :: int
  bs_max_concurrency :: nat
  bs_results :: "mission_row list"

definition count_status :: "run_status \<Rightarrow> mission_row list \<Rightarrow> nat" where
  "count_status st rows = length (filter (\<lambda>r. mi_status r = st) rows)"

definition summarize :: "string list \<Rightarrow> int \<Rightarrow> pool \<Rightarrow> batch_summary" where
  "summarize ids totalLatency s =
     \<lparr>bs_total_submitted = length ids,
      bs_completed_count = count_status RS_completed (pl_results s),
      bs_aborted_count = count_status RS_aborted (pl_results s),
      bs_failed_count = count_status RS_failed (pl_results s),
      bs_total_tokens = pl_tokens s, bs_total_steps = pl_steps s,
      bs_average_latency_ms =
        (if pl_results s = [] then 0
         else math_round (fdiv (of_int totalLatency) (of_nat (length (pl_results s))))),
      bs_max_concurrency = pl_max_active s, bs_results = pl_results s\<rparr>"

definition aborted_batch :: "string list \<Rightarrow> batch_summary" where
  "aborted_batch ids =
     \<lparr>bs_total_submitted = length ids, bs_completed_count = 0, bs_aborted_count = length ids,
      bs_failed_count = 0, bs_total_tokens = 0, bs_total_steps = 0, bs_average_latency_ms = 0,
      bs_max_concurrency = 0, bs_results = map (\<lambda>x. skipped_row x ''aborted_pre_execution'') ids\<rparr>"

section \<open>Interleaving\<close>

text \<open>The opportunities of the missions that workers wait for.\<close>

primrec running :: "worker list \<Rightarrow> string list" where
  "running [] = []"
| "running (w # ws) = (case w of Idle \<Rightarrow> running ws | Running x _ \<Rightarrow> x # running ws)"

definition worker_ids :: "worker \<Rightarrow> string multiset" where
  "worker_ids w = (case w of Idle \<Rightarrow> {#} | Running x _ \<Rightarrow> {#x#})"

text \<open>One atomic step; the label tells whether this batch finished a mission.\<close>

inductive pool_step :: "bool \<Rightarrow> pool \<Rightarrow> pool \<Rightarrow> bool" where
  finish: "i < length (pl_workers s) \<Longrightarrow> pl_workers s ! i \<noteq> Idle \<Longrightarrow>
             pool_step True s (finish_worker kill now i oc s)"
| other_lock: "x \<notin> pl_locks s \<Longrightarrow> pool_step False s (s\<lparr>pl_locks := insert x (pl_locks s)\<rparr>)"
| other_unlock: "x \<notin> set (running (pl_workers s)) \<Longrightarrow>
             pool_step False s (s\<lparr>pl_locks := pl_locks s - {x}\<rparr>)"
| zombie_ends: "pool_step False s (s\<lparr>pl_zombies := remove1 x (pl_zombies s)\<rparr>)"

text \<open>\<open>pool_run n s t\<close>: an interleaving from \<open>s\<close> to \<open>t\<close> with \<open>n\<close> completed missions.\<close>

inductive pool_run :: "nat \<Rightarrow> pool \<Rightarrow> pool \<Rightarrow> bool" where
  start: "pool_run 0 s s"
| step: "pool_run n s t \<Longrightarrow> pool_step b t u \<Longrightarrow> pool_run (if b then Suc n else n) s u"

inductive_cases pool_stepE: "pool_step b s t"

section \<open>Invariants\<close>

lemma mset_running: "mset (running ws) = (\<Sum>w \<in># mset ws. worker_ids w)"
  by (induction ws) (auto simp: worker_ids_def split: worker.split)

lemma running_Cons: "mset (running (w # ws)) = worker_ids w + mset (running ws)"
  by (cases w) (simp_all add: worker_ids_def)

lemma running_update:
  assumes "i < length ws"
  shows "mset (running (ws[i := w])) + worker_ids (ws ! i) = mset (running ws) + worker_ids w"
  using assms
proof (induction ws arbitrary: i)
  case (Cons v ws)
  show ?case
  proof (cases i)
    case 0
    then show ?thesis by (simp add: running_Cons ac_simps del: running.simps)
  next
    case (Suc j)
    with Cons have "mset (running (ws[j := w])) + worker_ids (ws ! j) = mset (running ws) + worker_ids w"
      by simp
    with Suc show ?thesis by (simp add: running_Cons ac_simps del: running.simps)
  qed
qed simp

lemma running_release:
  assumes "i < length ws" and "ws ! i = Running x t"
  shows "mset (running ws) = add_mset x (mset (running (ws[i := Idle])))"
  using running_update [OF assms(1), of Idle] assms(2) by (simp add: worker_ids_def)

lemma running_acquire:
  assumes "i < length ws" and "ws ! i = Idle"
  shows "mset (running (ws[i := Running x t])) = add_mset x (mset (running ws))"
  using running_update [OF assms(1), of "Running x t"] assms(2) by (simp add: worker_ids_def)

lemma running_length: "length (running ws) \<le> length ws"
  by (induction ws) (auto split: worker.split)

lemma running_replicate [simp]: "running (replicate k Idle) = []"
  by (induction k) auto

lemma running_nil: "running ws = [] \<longleftrightarrow> (\<forall>w \<in> set ws. w = Idle)"
  by (induction ws) (auto split: worker.splits)

definition pool_ok :: "nat \<Rightarrow> pool \<Rightarrow> bool" where
  "pool_ok k s \<longleftrightarrow>
     distinct (running (pl_workers s)) \<and> set (running (pl_workers s)) \<subseteq> pl_locks s \<and>
     pl_active s = length (running (pl_workers s)) \<and> length (pl_workers s) = k \<and>
     pl_active s \<le> pl_max_active s \<and> pl_max_active s \<le> k"

definition accounted :: "string list \<Rightarrow> pool \<Rightarrow> bool" where
  "accounted ids s \<longleftrightarrow>
     mset (map mi_opportunity (pl_results s)) + mset (running (pl_workers s)) + mset (pl_queue s) = mset ids"

lemma drain_result:
  assumes "drain kill locks q res = (q', res', ox)" and "[] \<notin> set q"
  shows "mset (map mi_opportunity res') + (case ox of None \<Rightarrow> {#} | Some x \<Rightarrow> {#x#}) + mset q' =
         mset (map mi_opportunity res) + mset q"
  using assms
proof (induction kill locks q res rule: drain.induct)
  case (2 kill locks x q res)
  then show ?case by (auto simp: skipped_row_def split: if_splits)
qed auto

lemma drain_locks:
  "drain kill locks q res = (q', res', Some x) \<Longrightarrow> x \<notin> locks"
  by (induction kill locks q res rule: drain.induct) (auto split: if_splits)

lemma drain_set: "drain kill locks q res = (q', res', ox) \<Longrightarrow> set q' \<subseteq> set q"
  by (induction kill locks q res rule: drain.induct) (auto split: if_splits)

lemma drain_none: "drain kill locks q res = (q', res', None) \<Longrightarrow> [] \<notin> set q \<Longrightarrow> q' = []"
  by (induction kill locks q res rule: drain.induct) (auto split: if_splits)

lemma drain_results: "drain kill locks q res = (q', res', ox) \<Longrightarrow> length res \<le> length res'"
  by (induction kill locks q res rule: drain.induct) (force split: if_splits)+

lemma wake_ok:
  assumes "pool_ok k s" and "i < k" and "pl_workers s ! i = Idle"
  shows "pool_ok k (wake kill now i s)"
proof -
  obtain q res ox where d: "drain kill (pl_locks s) (pl_queue s) (pl_results s) = (q, res, ox)"
    by (cases "drain kill (pl_locks s) (pl_queue s) (pl_results s)")
  have len: "i < length (pl_workers s)" using assms(1,2) by (simp add: pool_ok_def)
  show ?thesis
  proof (cases ox)
    case None
    have "(pl_workers s)[i := Idle] = pl_workers s" using assms(3) by (metis list_update_id)
    with None d assms(1) show ?thesis by (simp add: wake_def pool_ok_def)
  next
    case (Some x)
    have m: "mset (running ((pl_workers s)[i := Running x now])) = mset (x # running (pl_workers s))"
      using running_acquire [OF len assms(3)] by simp
    have x: "x \<notin> pl_locks s" using d Some drain_locks by blast
    then have "x \<notin> set (running (pl_workers s))" using assms(1) by (auto simp: pool_ok_def)
    then have "distinct (running ((pl_workers s)[i := Running x now]))"
      using m assms(1) mset_eq_imp_distinct_iff [OF m] by (simp add: pool_ok_def)
    moreover have "set (running ((pl_workers s)[i := Running x now])) = insert x (set (running (pl_workers s)))"
      using mset_eq_setD [OF m] by simp
    moreover have "length (running ((pl_workers s)[i := Running x now])) = Suc (length (running (pl_workers s)))"
      using mset_eq_length [OF m] by simp
    moreover have "length (running ((pl_workers s)[i := Running x now])) \<le> k"
      using running_length [of "(pl_workers s)[i := Running x now]"] assms(1) by (simp add: pool_ok_def)
    ultimately show ?thesis using d Some assms(1) by (auto simp: wake_def pool_ok_def)
  qed
qed

lemma settle_ok:
  assumes "pool_ok k s" and "i < k" and "pl_workers s ! i = Running x t"
  shows "pool_ok k (settle i x l oc s)"
proof -
  have len: "i < length (pl_workers s)" using assms(1,2) by (simp add: pool_ok_def)
  have m: "mset (running (pl_workers s)) = mset (x # running ((pl_workers s)[i := Idle]))"
    using running_release [OF len assms(3)] by simp
  have d: "distinct (x # running ((pl_workers s)[i := Idle]))"
    using mset_eq_imp_distinct_iff [OF m] assms(1) by (simp add: pool_ok_def)
  have st: "set (running (pl_workers s)) = insert x (set (running ((pl_workers s)[i := Idle])))"
    using mset_eq_setD [OF m] by simp
  have ln: "length (running (pl_workers s)) = Suc (length (running ((pl_workers s)[i := Idle])))"
    using mset_eq_length [OF m] by simp
  show ?thesis using assms(1) d st ln by (auto simp: settle_def pool_ok_def)
qed

lemma settle_workers [simp]: "pl_workers (settle i x l oc s) = (pl_workers s)[i := Idle]"
  by (simp add: settle_def)

lemma finish_ok:
  assumes "pool_ok k s" and "i < length (pl_workers s)" and "pl_workers s ! i \<noteq> Idle"
  shows "pool_ok k (finish_worker kill now i oc s)"
proof -
  obtain x t where w: "pl_workers s ! i = Running x t" using assms(3) by (cases "pl_workers s ! i") auto
  have k: "i < k" using assms(1,2) by (simp add: pool_ok_def)
  have "pl_workers (settle i x (now - t) oc s) ! i = Idle" using assms(2) by simp
  from wake_ok [OF settle_ok [OF assms(1) k w] k this] w
  show ?thesis by (simp add: finish_worker_def)
qed

lemma pool_step_ok:
  assumes "pool_step b s t" and "pool_ok k s"
  shows "pool_ok k t"
  using assms
proof (induction rule: pool_step.induct)
  case (finish i s kill now oc)
  then show ?case by (blast intro: finish_ok)
qed (auto simp: pool_ok_def)

lemma pool_run_ok: "pool_run n s t \<Longrightarrow> pool_ok k s \<Longrightarrow> pool_ok k t"
  by (induction rule: pool_run.induct) (auto dest: pool_step_ok)

section \<open>Nothing is lost\<close>

lemma wake_accounted:
  assumes "accounted ids s" and "[] \<notin> set ids" and "i < length (pl_workers s)" and "pl_workers s ! i = Idle"
  shows "accounted ids (wake kill now i s)"
proof -
  obtain q res ox where d: "drain kill (pl_locks s) (pl_queue s) (pl_results s) = (q, res, ox)"
    by (cases "drain kill (pl_locks s) (pl_queue s) (pl_results s)")
  have "set (pl_queue s) \<subseteq> set ids"
    using assms(1) unfolding accounted_def by (metis mset_subset_eq_add_right set_mset_mono set_mset_mset)
  then have "[] \<notin> set (pl_queue s)" using assms(2) by blast
  note r = drain_result [OF d this]
  have "accounted ids (wake kill now i s) \<longleftrightarrow>
      (mset (map mi_opportunity res) + (case ox of None \<Rightarrow> {#} | Some x \<Rightarrow> {#x#}) + mset q) +
      mset (running (pl_workers s)) = mset ids"
  proof (cases ox)
    case None
    have "(pl_workers s)[i := Idle] = pl_workers s" using assms(4) by (metis list_update_id)
    with None d show ?thesis by (simp add: wake_def accounted_def ac_simps)
  next
    case (Some x)
    with d running_acquire [OF assms(3,4), of x now] show ?thesis
      by (simp add: wake_def accounted_def ac_simps)
  qed
  then show ?thesis
    using assms(1) unfolding r accounted_def by (simp add: ac_simps)
qed

lemma settle_accounted:
  assumes "accounted ids s" and "i < length (pl_workers s)" and "pl_workers s ! i = Running x t"
  shows "accounted ids (settle i x l oc s)"
  using assms(1) running_release [OF assms(2,3)]
  by (cases oc) (simp_all add: accounted_def settle_def result_row_def)

lemma finish_accounted:
  assumes "accounted ids s" and "[] \<notin> set ids" and "i < length (pl_workers s)" and "pl_workers s ! i \<noteq> Idle"
  shows "accounted ids (finish_worker kill now i oc s)"
proof -
  obtain x t where w: "pl_workers s ! i = Running x t" using assms(4) by (cases "pl_workers s ! i") auto
  have "accounted ids (settle i x (now - t) oc s)" by (rule settle_accounted [OF assms(1,3) w])
  then have "accounted ids (wake kill now i (settle i x (now - t) oc s))"
    by (rule wake_accounted) (use assms in auto)
  with w show ?thesis by (simp add: finish_worker_def)
qed

text \<open>Outside \<open>J\<close>, a worker is idle only when the queue is empty.\<close>

definition drained :: "nat set \<Rightarrow> pool \<Rightarrow> bool" where
  "drained J s \<longleftrightarrow> (\<forall>j < length (pl_workers s). j \<notin> J \<longrightarrow> pl_workers s ! j = Idle \<longrightarrow> pl_queue s = [])"

lemma wake_workers: "length (pl_workers (wake kill now i s)) = length (pl_workers s)"
  "j \<noteq> i \<Longrightarrow> pl_workers (wake kill now i s) ! j = pl_workers s ! j"
  by (simp_all add: wake_def split: prod.split option.split)

lemma wake_drained:
  assumes "drained J s" and "[] \<notin> set (pl_queue s)"
  shows "drained (J - {i}) (wake kill now i s)"
proof -
  obtain q res ox where d: "drain kill (pl_locks s) (pl_queue s) (pl_results s) = (q, res, ox)"
    by (cases "drain kill (pl_locks s) (pl_queue s) (pl_results s)")
  show ?thesis
  proof (cases ox)
    case None
    then have "q = []" using d drain_none assms(2) by blast
    with None d show ?thesis by (simp add: wake_def drained_def)
  next
    case (Some x)
    then have "pl_queue s \<noteq> []" using d by auto
    with assms(1) have "\<forall>j < length (pl_workers s). j \<notin> J \<longrightarrow> pl_workers s ! j \<noteq> Idle"
      by (auto simp: drained_def)
    then have "(pl_workers s)[i := Running x now] ! j \<noteq> Idle"
      if "j < length (pl_workers s)" "j \<notin> J - {i}" for j
      using that by (cases "j = i") auto
    with Some d show ?thesis by (auto simp: wake_def drained_def)
  qed
qed

lemma accounted_queue: "accounted ids s \<Longrightarrow> [] \<notin> set ids \<Longrightarrow> [] \<notin> set (pl_queue s)"
  unfolding accounted_def by (metis mset_subset_eq_add_right mset_subset_eqD set_mset_mset)

lemma finish_drained:
  assumes "drained {} s" and "accounted ids s" and "[] \<notin> set ids"
    and "i < length (pl_workers s)" and "pl_workers s ! i \<noteq> Idle"
  shows "drained {} (finish_worker kill now i oc s)"
proof -
  obtain x t where w: "pl_workers s ! i = Running x t" using assms(5) by (cases "pl_workers s ! i") auto
  have "drained {i} (settle i x (now - t) oc s)"
    using assms(1) by (auto simp: drained_def settle_def)
  moreover have "[] \<notin> set (pl_queue (settle i x (now - t) oc s))"
    using accounted_queue [OF assms(2,3)] by (simp add: settle_def)
  ultimately have "drained ({i} - {i}) (wake kill now i (settle i x (now - t) oc s))"
    by (rule wake_drained)
  with w show ?thesis by (simp add: finish_worker_def)
qed

definition pool_inv :: "string list \<Rightarrow> nat \<Rightarrow> pool \<Rightarrow> bool" where
  "pool_inv ids k s \<longleftrightarrow> pool_ok k s \<and> accounted ids s \<and> drained {} s"

lemma pool_step_inv:
  assumes "pool_step b s t" and "pool_inv ids k s" and "[] \<notin> set ids"
  shows "pool_inv ids k t"
  using assms
proof (induction rule: pool_step.induct)
  case (finish i s kill now oc)
  then show ?case by (auto simp: pool_inv_def intro: finish_ok finish_accounted finish_drained)
qed (auto simp: pool_inv_def pool_ok_def accounted_def drained_def)

lemma pool_run_inv: "pool_run n s t \<Longrightarrow> pool_inv ids k s \<Longrightarrow> [] \<notin> set ids \<Longrightarrow> pool_inv ids k t"
  by (induction rule: pool_run.induct) (auto dest: pool_step_inv)

lemma launch_prefix:
  assumes "n \<le> k"
  shows "let s = fold (wake False now) [0..<n] (new_pool locks k ids)
    in pool_ok k s \<and> (\<forall>j. n \<le> j \<longrightarrow> j < k \<longrightarrow> pl_workers s ! j = Idle) \<and>
       ([] \<notin> set ids \<longrightarrow> accounted ids s \<and> drained {n..<k} s)"
  using assms
proof (induction n)
  case 0
  then show ?case by (simp add: new_pool_def pool_ok_def accounted_def drained_def)
next
  case (Suc n)
  define s where "s = fold (wake False now) [0..<n] (new_pool locks k ids)"
  have IH: "pool_ok k s" "\<forall>j. n \<le> j \<longrightarrow> j < k \<longrightarrow> pl_workers s ! j = Idle"
      "[] \<notin> set ids \<longrightarrow> accounted ids s \<and> drained {n..<k} s"
    using Suc by (simp_all add: s_def Let_def)
  have n: "n < k" "pl_workers s ! n = Idle" "n < length (pl_workers s)"
    using IH(1,2) Suc.prems by (simp_all add: pool_ok_def)
  have "{n..<k} - {n} = {Suc n..<k}" by auto
  then have "[] \<notin> set ids \<Longrightarrow> accounted ids (wake False now n s) \<and> drained {Suc n..<k} (wake False now n s)"
    using IH(3) n wake_accounted wake_drained [of "{n..<k}" s n] accounted_queue by metis
  then show ?case
    using wake_ok [OF IH(1) n(1,2)] IH(2) by (auto simp: s_def [symmetric] wake_workers Let_def)
qed

lemma launch_ok: "pool_ok (pool_size config ids) (launch config now locks ids)"
  using launch_prefix [of "pool_size config ids" "pool_size config ids"] by (simp add: launch_def Let_def)

lemma launch_inv:
  "[] \<notin> set ids \<Longrightarrow> pool_inv ids (pool_size config ids) (launch config now locks ids)"
  using launch_prefix [of "pool_size config ids" "pool_size config ids" now locks ids]
  by (simp add: launch_def pool_inv_def Let_def)

lemma wake_results: "length (pl_results s) \<le> length (pl_results (wake kill now i s))"
  using drain_results by (force simp: wake_def split: prod.split option.split)

lemma finish_results:
  assumes "pl_workers s ! i \<noteq> Idle"
  shows "Suc (length (pl_results s)) \<le> length (pl_results (finish_worker kill now i oc s))"
proof -
  obtain x t where w: "pl_workers s ! i = Running x t" using assms by (cases "pl_workers s ! i") auto
  have "Suc (length (pl_results s)) = length (pl_results (settle i x (now - t) oc s))"
    by (simp add: settle_def)
  also have "\<dots> \<le> length (pl_results (wake kill now i (settle i x (now - t) oc s)))" by (rule wake_results)
  finally show ?thesis using w by (simp add: finish_worker_def)
qed

lemma pool_step_results:
  "pool_step b s t \<Longrightarrow> (if b then Suc (length (pl_results s)) else length (pl_results s)) \<le> length (pl_results t)"
  by (induction rule: pool_step.induct) (auto dest: finish_results)

lemma pool_run_results: "pool_run n s t \<Longrightarrow> n + length (pl_results s) \<le> length (pl_results t)"
proof (induction rule: pool_run.induct)
  case (step n s t b u)
  then show ?case using pool_step_results [of b t u] by (auto split: if_splits)
qed simp

section \<open>Properties\<close>

text \<open>
  C18. Mutual exclusion and bounded concurrency: in every state that any interleaving of a
  batch reaches, with other batches taking and releasing locks and missions timing out, no
  two workers wait for the same opportunity, each waits under its lock, the counter of
  active missions is exact, and it never exceeds the configured bound (at least 1, 3 by
  default).
\<close>

theorem missions_exclusive:
  assumes "pool_run n (launch config now locks ids) t"
  shows "distinct (running (pl_workers t)) \<and> set (running (pl_workers t)) \<subseteq> pl_locks t \<and>
    pl_active t = length (running (pl_workers t)) \<and> pl_active t \<le> pl_max_active t \<and>
    int (pl_max_active t) \<le> max 1 (case config of Some m \<Rightarrow> m | None \<Rightarrow> 3)"
  using pool_run_ok [OF assms launch_ok]
  by (auto simp: pool_ok_def pool_size_def DEFAULT_MAX_CONCURRENT_def split: option.splits)

lemma demo_batch_run:
  "pool_run 1 (launch (Some 1) 0 {} [''a'', ''b'']) (finish_worker False 5 0 Crashed (launch (Some 1) 0 {} [''a'', ''b'']))"
proof -
  let ?s = "launch (Some 1) 0 {} [''a'', ''b'']"
  have "pool_step True ?s (finish_worker False 5 0 Crashed ?s)"
    by (rule pool_step.finish)
       (simp_all add: launch_def pool_size_def new_pool_def wake_def numeral_2_eq_2 upt_rec)
  from pool_run.step [OF pool_run.start this] show ?thesis by simp
qed

theorem missions_exclusive_witness:
  "pl_active (finish_worker False 5 0 Crashed (launch (Some 1) 0 {} [''a'', ''b''])) =
     length (running (pl_workers (finish_worker False 5 0 Crashed (launch (Some 1) 0 {} [''a'', ''b'']))))"
  using missions_exclusive [OF demo_batch_run] by blast

text \<open>
  A batch ends, and accounts for every opportunity: along any interleaving at most as
  many missions finish as were submitted, no worker goes idle while the queue holds work,
  and when all workers are idle the results name every submitted opportunity exactly as
  often as it was submitted, whatever was skipped, crashed or timed out.
\<close>

theorem batch_accounts_for_all:
  assumes "pool_run n (launch config now locks ids) t" and "[] \<notin> set ids"
  shows "n \<le> length ids \<and> (Idle \<in> set (pl_workers t) \<longrightarrow> pl_queue t = []) \<and>
    (running (pl_workers t) = [] \<longrightarrow> mset (map mi_opportunity (pl_results t)) = mset ids)"
proof -
  have inv: "pool_inv ids (pool_size config ids) t"
    by (rule pool_run_inv [OF assms(1) launch_inv [OF assms(2)] assms(2)])
  then have acc: "mset (map mi_opportunity (pl_results t)) + mset (running (pl_workers t)) + mset (pl_queue t) = mset ids"
    by (simp add: pool_inv_def accounted_def)
  have idle: "Idle \<in> set (pl_workers t) \<longrightarrow> pl_queue t = []"
    using inv by (auto simp: pool_inv_def drained_def in_set_conv_nth)
  have "n \<le> length (pl_results t)" using pool_run_results [OF assms(1)] by simp
  moreover have "length (pl_results t) \<le> length ids"
    using arg_cong [OF acc, of size] by simp
  moreover have "pl_queue t = []" if r: "running (pl_workers t) = []"
  proof (cases "pl_workers t")
    case Nil
    then have "pool_size config ids = 0" using inv by (simp add: pool_inv_def pool_ok_def)
    then have "ids = []" by (auto simp: pool_size_def min_def split: if_splits)
    with acc show ?thesis by simp
  next
    case (Cons w ws)
    then have "w = Idle" using r by (cases w) auto
    with Cons idle show ?thesis by auto
  qed
  ultimately have q: "running (pl_workers t) = [] \<Longrightarrow> pl_queue t = []" and n: "n \<le> length ids" by auto
  have "mset (map mi_opportunity (pl_results t)) = mset ids" if "running (pl_workers t) = []"
    using acc q [OF that] that by simp
  with n idle show ?thesis by blast
qed

theorem batch_accounts_for_all_witness:
  "(1 :: nat) \<le> length [''a'', ''b'']"
  using batch_accounts_for_all [OF demo_batch_run] by simp

text \<open>
  A mission that loses the race against its timer is not stopped, but its lock is released:
  the next entry for the same opportunity starts a second mission beside it.
\<close>

theorem timeout_overlaps:
  "\<exists>t. pool_run 1 (launch (Some 1) 0 {} [''a'', ''a'']) t \<and> ''a'' \<in> set (pl_zombies t) \<and>
       ''a'' \<in> set (running (pl_workers t))"
proof -
  let ?s = "launch (Some 1) 0 {} [''a'', ''a'']" and ?t = "finish_worker False 45000 0 Timed_out (launch (Some 1) 0 {} [''a'', ''a''])"
  have "pool_step True ?s ?t"
    by (rule pool_step.finish)
       (simp_all add: launch_def pool_size_def new_pool_def wake_def numeral_2_eq_2 upt_rec)
  from pool_run.step [OF pool_run.start this] have "pool_run 1 ?s ?t" by simp
  moreover have "''a'' \<in> set (pl_zombies ?t)" "''a'' \<in> set (running (pl_workers ?t))"
    by (simp_all add: finish_worker_def settle_def launch_def pool_size_def new_pool_def wake_def
        numeral_2_eq_2 upt_rec)
  ultimately show ?thesis by blast
qed


end
