(* ===== verification/Webhook.thy ===== *)
theory Webhook
  imports Reconcile Perception Redact
begin

text \<open>
  Inbound webhooks: the validator of \<^verbatim>\<open>src/security/webhook_validator.ts\<close> and the two
  handlers of \<^verbatim>\<open>src/webhooks/razorpay.ts\<close>, which feed perception and the reconciler.
  HMAC-SHA256, the credential store and the rendering of a number are parameters; the
  request carries the parsed body beside the raw one, as the framework delivers it.  The
  recovery sweep that a new opportunity starts in the background is not part of the
  handler's effect.
\<close>

section \<open>Validation\<close>

record ip_config =
  ip_node_env_test :: bool
  ip_check_disabled :: bool
  ip_check_enabled :: bool
  ip_custom :: "string option"

definition defaultAllowedIps :: "string list" where
  "defaultAllowedIps = [''52.66.75.174'', ''52.66.75.175'', ''13.235.25.1'', ''13.235.25.2'',
     ''127.0.0.1'', ''::1'', ''::ffff:127.0.0.1'']"

definition isIpAllowed :: "ip_config \<Rightarrow> string \<Rightarrow> bool" where
  "isIpAllowed cfg clientIp =
     (if ip_node_env_test cfg \<or> ip_check_disabled cfg \<or> \<not> ip_check_enabled cfg then True
      else
        let customIps = (if truthy_str (ip_custom cfg)
                         then map trim (split_on (CHR '','') (the (ip_custom cfg))) else []);
            allowed = defaultAllowedIps @ customIps;
            cleanIp = (if startsWith clientIp ''::ffff:'' then drop 7 clientIp else clientIp)
        in cleanIp \<in> set allowed \<or> clientIp \<in> set allowed \<or> startsWith cleanIp ''13.235.25.'' \<or>
           startsWith cleanIp ''52.66.'')"

text \<open>The age is a number; the header is \<open>None\<close> when it is missing or empty.\<close>

fun number_minus :: "int \<Rightarrow> number \<Rightarrow> number" where
  "number_minus n (Fin x) = Fin (of_int n - x)"
| "number_minus n PosInf = NegInf"
| "number_minus n NegInf = PosInf"
| "number_minus n NaN = NaN"

fun number_gt :: "number \<Rightarrow> int \<Rightarrow> bool" where
  "number_gt (Fin x) n = (of_int n < x)"
| "number_gt PosInf n = True"
| "number_gt _ n = False"

fun number_lt :: "number \<Rightarrow> int \<Rightarrow> bool" where
  "number_lt (Fin x) n = (x < of_int n)"
| "number_lt NegInf n = True"
| "number_lt _ n = False"

definition isTimestampValid :: "int \<Rightarrow> number option \<Rightarrow> bool \<times> number" where
  "isTimestampValid nowSec header =
     (case header of
        None \<Rightarrow> (True, Fin 0)
      | Some eventTimeSec \<Rightarrow>
          if eventTimeSec = NaN then (False, PosInf)
          else let ageSec = number_minus nowSec eventTimeSec
               in (\<not> (number_gt ageSec 300 \<or> number_lt ageSec (- 60)), ageSec))"

definition fallback_secret :: string where
  "fallback_secret = ''rzp_whsec_ctrl_test''"

definition candidate_secrets :: "string option \<Rightarrow> string option \<Rightarrow> string list \<Rightarrow> string list" where
  "candidate_secrets envSecret envOld secrets =
     (if secrets \<noteq> [] then secrets
      else filter (\<lambda>s. s \<noteq> []) (map (\<lambda>x. or_opt x []) [envSecret, envOld] @ [fallback_secret]))"

fun match_secret :: "(string \<Rightarrow> string \<Rightarrow> string) \<Rightarrow> string \<Rightarrow> string \<Rightarrow> nat \<Rightarrow> string list \<Rightarrow> nat option" where
  "match_secret hmac body sig i [] = None"
| "match_secret hmac body sig i (s # ss) =
     (if s \<noteq> [] \<and> hmac s body = sig then Some i else match_secret hmac body sig (Suc i) ss)"

definition verifySignature ::
  "(string \<Rightarrow> string \<Rightarrow> string) \<Rightarrow> string option \<Rightarrow> string option \<Rightarrow> string \<Rightarrow> string \<Rightarrow> string list \<Rightarrow> nat option" where
  "verifySignature hmac envSecret envOld rawBody signature secrets =
     (if rawBody = [] \<or> signature = [] then None
      else match_secret hmac rawBody signature 0 (candidate_secrets envSecret envOld secrets))"

record validation =
  wv_valid :: bool
  wv_error_reason :: "string option"
  wv_secret_index :: "nat option"
  wv_status_code :: int

record audit_row =
  wa_event_id :: "string option"
  wa_ip :: string
  wa_timestamp :: "number option"
  wa_received_at :: string
  wa_accepted :: bool
  wa_reason :: string
  wa_size :: nat

record webhook_env =
  we_hmac :: "string \<Rightarrow> string \<Rightarrow> string"
  we_secrets :: "string \<Rightarrow> environment \<Rightarrow> string list"
  we_env_secret :: "string option"
  we_env_secret_old :: "string option"
  we_ip :: ip_config
  we_recon :: recon_env
  we_show_number :: "number \<Rightarrow> string"

record webhook_clock =
  wc_now :: string
  wc_now_ms :: int
  wc_now_sec :: int
  wc_led_id :: string
  wc_recon :: recon_call

definition byte_length :: "string \<Rightarrow> nat" where
  "byte_length s = sum_list (map (\<lambda>c. if (of_char c :: nat) < 128 then 1 else 2) s)"

record validate_params =
  vp_secrets :: "string list"
  vp_clientIp :: string
  vp_rawBody :: string
  vp_signature :: "string option"
  vp_timestamp :: "number option"
  vp_eventId :: "string option"

definition audit_of :: "webhook_clock \<Rightarrow> validate_params \<Rightarrow> bool \<Rightarrow> string \<Rightarrow> audit_row" where
  "audit_of clk p ok reason =
     \<lparr>wa_event_id = (if truthy_str (vp_eventId p) then vp_eventId p else None), wa_ip = vp_clientIp p,
      wa_timestamp = (if vp_timestamp p \<in> {Some NaN, Some (Fin 0)} then None else vp_timestamp p),
      wa_received_at = wc_now clk, wa_accepted = ok, wa_reason = reason,
      wa_size = byte_length (vp_rawBody p)\<rparr>"

definition reject :: "webhook_clock \<Rightarrow> validate_params \<Rightarrow> string \<Rightarrow> string \<Rightarrow> int \<Rightarrow> validation \<times> audit_row" where
  "reject clk p reason msg code =
     (\<lparr>wv_valid = False, wv_error_reason = Some msg, wv_secret_index = None, wv_status_code = code\<rparr>,
      audit_of clk p False reason)"

definition validateWebhook :: "webhook_env \<Rightarrow> webhook_clock \<Rightarrow> validate_params \<Rightarrow> validation \<times> audit_row" where
  "validateWebhook we clk p =
     (let payloadBytes = byte_length (vp_rawBody p);
          (fresh, age) = isTimestampValid (wc_now_sec clk) (vp_timestamp p);
          signature = or_opt (vp_signature p) []
      in if 1048576 < payloadBytes
         then reject clk p (''Payload exceeds 1MB limit ('' @ show_nat payloadBytes @ '' bytes)'')
                ''Payload size exceeds 1MB limit'' 413
         else if \<not> isIpAllowed (we_ip we) (vp_clientIp p)
         then reject clk p (''IP '' @ vp_clientIp p @ '' not in Razorpay egress allowlist'')
                ''IP not authorized'' 403
         else if \<not> fresh
         then reject clk p (''Timestamp expired or outside 300s window (age: '' @ we_show_number we age @ ''s)'')
                (''Timestamp expired (age: '' @ we_show_number we age @ ''s)'') 400
         else if signature = []
         then reject clk p ''Missing x-razorpay-signature header'' ''Missing signature header'' 400
         else (case verifySignature (we_hmac we) (we_env_secret we) (we_env_secret_old we)
                      (vp_rawBody p) signature (vp_secrets p) of
                 None \<Rightarrow> reject clk p ''Invalid HMAC signature'' ''Invalid webhook signature'' 401
               | Some i \<Rightarrow>
                   (\<lparr>wv_valid = True, wv_error_reason = None, wv_secret_index = Some i,
                     wv_status_code = 200\<rparr>,
                    audit_of clk p True (''Signature verified with secret index #'' @ show_nat i))))"

text \<open>\<^verbatim>\<open>getWebhookSecrets\<close>: \<open>None\<close> stands for a credential that is missing or not JSON.\<close>

definition getWebhookSecrets ::
  "string option \<Rightarrow> (string option \<times> string option) option \<Rightarrow> string list" where
  "getWebhookSecrets envSecret cred =
     (let env = (if truthy_str envSecret then [the envSecret] else [])
      in case cred of
           None \<Rightarrow> env
         | Some (main, backup) \<Rightarrow>
             let secrets = map the (filter truthy_str [main, backup])
             in if secrets = [] then env else secrets)"

section \<open>The handlers\<close>

record link_entity =
  ln_reference_id :: "string option"
  ln_payload :: provider_payload

record payment_entity =
  pn_payload :: raw_payload
  pn_environment_live :: bool

record webhook_request =
  wq_tenant_param :: "string option"
  wq_tenant_query :: "string option"
  wq_signature :: "string option"
  wq_timestamp :: "number option"
  wq_clientIp :: string
  wq_rawBody :: string
  wq_body_event_id :: "string option"
  wq_body_id :: "string option"
  wq_header_event_id :: "string option"
  wq_event :: "string option"
  wq_link :: "link_entity option"
  wq_payment :: "payment_entity option"

datatype webhook_reply =
    Refused int string
  | Reconciled recon_result
  | Unmatched
  | MissingEntity
  | Deduplicated string
  | Ingested opportunity
  | IgnoredEvent
  | InternalError

fun reply_status :: "webhook_reply \<Rightarrow> int" where
  "reply_status (Refused code _) = code"
| "reply_status MissingEntity = 400"
| "reply_status InternalError = 500"
| "reply_status _ = 200"

record webhook_state =
  wh_recon :: recon_state
  wh_audit :: "audit_row list"

fun first_truthy :: "string option list \<Rightarrow> string option" where
  "first_truthy [] = None"
| "first_truthy (x # xs) = (if truthy_str x then x else first_truthy xs)"

definition unique :: "'a list \<Rightarrow> 'a list" where
  "unique xs = rev (remdups (rev xs))"

definition request_tenant :: "webhook_request \<Rightarrow> string" where
  "request_tenant rq = or_opt (wq_tenant_param rq) (or_opt (wq_tenant_query rq) ''tenant_system_default'')"

definition request_event_id :: "webhook_request \<Rightarrow> string option" where
  "request_event_id rq =
     first_truthy [wq_body_event_id rq, wq_body_id rq, wq_header_event_id rq,
       (case wq_payment rq of None \<Rightarrow> None | Some pe \<Rightarrow> rp_id (pn_payload pe))]"

definition request_environment :: "webhook_request \<Rightarrow> store \<Rightarrow> environment" where
  "request_environment rq s =
     (let entity_live = (case wq_payment rq of None \<Rightarrow> False | Some pe \<Rightarrow> pn_environment_live pe);
          row_live = (case getTenant s (request_tenant rq) of
                        None \<Rightarrow> False | Some t \<Rightarrow> tn_environment t = Some Env_live)
      in if entity_live \<or> row_live then Env_live else Env_test)"

definition request_secrets :: "webhook_env \<Rightarrow> webhook_request \<Rightarrow> store \<Rightarrow> string list" where
  "request_secrets we rq s =
     (let env = request_environment rq s; alt = (if env = Env_live then Env_test else Env_live);
          t = request_tenant rq
      in unique (we_secrets we t env @ we_secrets we t alt))"

definition find_opportunity :: "link_entity option \<Rightarrow> store \<Rightarrow> opportunity option" where
  "find_opportunity link s =
     (case link of
        None \<Rightarrow> None
      | Some l \<Rightarrow>
          let oppId = (if truthy_str (ln_reference_id l) then ln_reference_id l
                       else if pp_id (ln_payload l) \<noteq> []
                       then map_option er_opportunity_id
                              (find (\<lambda>r. er_payment_link_id r = pp_id (ln_payload l))
                                 (getAllExecutionRecords s None))
                       else None)
          in if truthy_str oppId then getOpportunityById s (the oppId) else None)"

definition handle_link :: "webhook_env \<Rightarrow> webhook_clock \<Rightarrow> webhook_request \<Rightarrow> recon_state \<Rightarrow> webhook_reply \<times> recon_state" where
  "handle_link we clk rq rs =
     (case find_opportunity (wq_link rq) (rs_store rs) of
        None \<Rightarrow> (Unmatched, rs)
      | Some opp \<Rightarrow>
          (case reconcileOpportunity (we_recon we) (wc_recon clk) (o_id opp)
                  (map_option ln_payload (wq_link rq)) rs of
             (r, rs') \<Rightarrow> (Reconciled r, rs')))"

definition ingest_ledger ::
  "webhook_env \<Rightarrow> webhook_clock \<Rightarrow> (string \<times> json) list \<Rightarrow> string option \<Rightarrow> opportunity \<Rightarrow> ledger_entry" where
  "ingest_ledger we clk lead eventId opp =
     \<lparr>le_id = wc_led_id clk, le_opportunity_id = o_id opp, le_event_type = Ev_webhook_received,
      le_amount_paise = o_amount_paise opp, le_timestamp = o_created_at opp,
      le_raw_payload_ref = Some (butlast (stringify (JObj
        (lead @ [(''payment_id'', JStr (o_id opp)), (''reason_code'', JStr (o_reason_code opp)),
          (''decline_type'', JStr (case o_decline_type opp of
             Hard \<Rightarrow> ''hard'' | Soft \<Rightarrow> ''soft'' | Unknown \<Rightarrow> ''unknown''))]))) @
        '','' @ quote_str ''customer_trust_score'' @ '':'' @
        we_show_number we (Fin (o_customer_trust_score opp)) @ ''}'')\<rparr>"

text \<open>\<^verbatim>\<open>payment.failed\<close>: deduplicate, normalise, store, audit.\<close>

definition handle_failed ::
  "webhook_env \<Rightarrow> webhook_clock \<Rightarrow> normalize_options \<Rightarrow> string \<Rightarrow> (string \<times> json) list \<Rightarrow> string option \<Rightarrow>
   raw_payload \<Rightarrow> recon_state \<Rightarrow> webhook_reply \<times> recon_state" where
  "handle_failed we clk opts idPrefix lead eventId p rs =
     (let s = rs_store rs;
          paymentId = or_opt (rp_id p) (idPrefix @ show_int (wc_now_ms clk));
          byEvent = (if truthy_str eventId then getOpportunityByRazorpayEventId s (the eventId) else None)
      in case byEvent of
           Some o' \<Rightarrow> (Deduplicated (o_id o'), rs)
         | None \<Rightarrow>
             (case getOpportunityById s paymentId of
                Some o' \<Rightarrow> (Deduplicated (o_id o'), rs)
              | None \<Rightarrow>
                  let (opp, s1) = normalizeOpportunity (wc_now clk) (wc_now_ms clk) p eventId opts s
                  in (case insertOpportunity opp s1 of
                        Inl _ \<Rightarrow> (InternalError, rs\<lparr>rs_store := s1\<rparr>)
                      | Inr s2 \<Rightarrow>
                          (Ingested opp,
                           rs\<lparr>rs_store := insertLedgerEntry (ingest_ledger we clk lead eventId opp) s2\<rparr>))))"

definition real_options :: "webhook_request \<Rightarrow> store \<Rightarrow> normalize_options" where
  "real_options rq s = \<lparr>no_source = Some Src_real, no_tenantId = Some (request_tenant rq),
     no_environment = Some (request_environment rq s)\<rparr>"

definition real_lead :: "webhook_request \<Rightarrow> (string \<times> json) list" where
  "real_lead rq = [(''event'', JStr ''payment.failed'')] @ opt_member ''event_id'' (request_event_id rq)"

definition handleRazorpayWebhook ::
  "webhook_env \<Rightarrow> webhook_clock \<Rightarrow> webhook_request \<Rightarrow> webhook_state \<Rightarrow> webhook_reply \<times> webhook_state" where
  "handleRazorpayWebhook we clk rq st =
     (let rs = wh_recon st; s = rs_store rs; eventId = request_event_id rq;
          (v, row) = validateWebhook we clk
                       \<lparr>vp_secrets = request_secrets we rq s, vp_clientIp = wq_clientIp rq,
                        vp_rawBody = wq_rawBody rq, vp_signature = wq_signature rq,
                        vp_timestamp = wq_timestamp rq, vp_eventId = eventId\<rparr>;
          st1 = st\<lparr>wh_audit := wh_audit st @ [row]\<rparr>
      in if \<not> wv_valid v
         then (Refused (wv_status_code v) (or_opt (wv_error_reason v) []), st1)
         else
           let (reply, rs') =
             (if wq_event rq \<in> {Some ''payment_link.paid'', Some ''payment_link.expired'',
                   Some ''payment_link.cancelled''}
              then handle_link we clk rq rs
              else if wq_event rq = Some ''payment.failed''
              then (case wq_payment rq of
                      None \<Rightarrow> (MissingEntity, rs)
                    | Some pe \<Rightarrow>
                        handle_failed we clk (real_options rq s) ''pay_'' (real_lead rq) eventId
                          (pn_payload pe) rs)
              else (IgnoredEvent, rs))
           in (reply, st1\<lparr>wh_recon := rs'\<rparr>))"

text \<open>The simulation route: a signature by one of the test secrets, no audit row, and
  every opportunity is synthetic test traffic.\<close>

definition sim_secrets :: "webhook_env \<Rightarrow> string \<Rightarrow> string list" where
  "sim_secrets we tenantId =
     (let ws = we_secrets we tenantId Env_test
      in if ws = [] \<and> we_env_secret we = Some fallback_secret then [fallback_secret] else ws)"

definition verifyWebhookSignature :: "(string \<Rightarrow> string \<Rightarrow> string) \<Rightarrow> string \<Rightarrow> string option \<Rightarrow> string \<Rightarrow> bool" where
  "verifyWebhookSignature hmac rawBody signature secret =
     (truthy_str signature \<and> secret \<noteq> [] \<and> hmac secret rawBody = the signature)"

definition handleSimulatedWebhook ::
  "webhook_env \<Rightarrow> webhook_clock \<Rightarrow> webhook_request \<Rightarrow> recon_state \<Rightarrow> webhook_reply \<times> recon_state" where
  "handleSimulatedWebhook we clk rq rs =
     (let tenantId = or_opt (wq_tenant_param rq) ''tenant_system_default'';
          secrets = sim_secrets we tenantId;
          eventId = (if truthy_str (wq_body_event_id rq) then wq_body_event_id rq else wq_body_id rq)
      in if \<not> truthy_str (wq_signature rq) \<or> secrets = []
         then (Refused 400 ''Missing signature or no webhook secrets configured'', rs)
         else if \<not> (\<exists>s \<in> set secrets. verifyWebhookSignature (we_hmac we) (wq_rawBody rq) (wq_signature rq) s)
         then (Refused 400 ''Invalid simulated webhook signature'', rs)
         else if wq_event rq = Some ''payment_link.paid'' then handle_link we clk rq rs
         else if wq_event rq = Some ''payment.failed''
         then (case wq_payment rq of
                 None \<Rightarrow> (MissingEntity, rs)
               | Some pe \<Rightarrow>
                   handle_failed we clk
                     \<lparr>no_source = Some Src_synthetic, no_tenantId = Some tenantId, no_environment = Some Env_test\<rparr>
                     ''pay_sim_'' ([(''event'', JStr ''payment.failed'')] @ opt_member ''event_id'' eventId @
                       [(''simulated'', JBool True)])
                     eventId (pn_payload pe) rs)
         else (IgnoredEvent, rs))"

section \<open>Lemmas\<close>

lemma match_secret_sound:
  "match_secret hmac body sig i ss = Some j \<Longrightarrow> \<exists>s \<in> set ss. s \<noteq> [] \<and> hmac s body = sig"
  by (induction ss arbitrary: i) (auto split: if_splits)

definition well_signed :: "webhook_env \<Rightarrow> webhook_clock \<Rightarrow> validate_params \<Rightarrow> bool" where
  "well_signed we clk p \<longleftrightarrow>
     byte_length (vp_rawBody p) \<le> 1048576 \<and> isIpAllowed (we_ip we) (vp_clientIp p) \<and>
     fst (isTimestampValid (wc_now_sec clk) (vp_timestamp p)) \<and>
     (\<exists>s \<in> set (candidate_secrets (we_env_secret we) (we_env_secret_old we) (vp_secrets p)).
        s \<noteq> [] \<and> vp_signature p = Some (we_hmac we s (vp_rawBody p)))"

lemma validate_sound:
  assumes "wv_valid (fst (validateWebhook we clk p))"
  shows "well_signed we clk p"
proof -
  obtain fresh age where t: "isTimestampValid (wc_now_sec clk) (vp_timestamp p) = (fresh, age)"
    by (cases "isTimestampValid (wc_now_sec clk) (vp_timestamp p)")
  let ?sig = "or_opt (vp_signature p) []"
  have basic: "byte_length (vp_rawBody p) \<le> 1048576" "isIpAllowed (we_ip we) (vp_clientIp p)" "fresh" "?sig \<noteq> []"
      "verifySignature (we_hmac we) (we_env_secret we) (we_env_secret_old we) (vp_rawBody p) ?sig (vp_secrets p) \<noteq> None"
    using assms t by (auto simp: validateWebhook_def reject_def Let_def split: if_splits option.splits)
  from basic(4) have sig: "vp_signature p = Some ?sig"
    by (auto simp: or_opt_def or_str_def split: option.splits if_splits)
  from basic(5) obtain i where "match_secret (we_hmac we) (vp_rawBody p) ?sig 0
      (candidate_secrets (we_env_secret we) (we_env_secret_old we) (vp_secrets p)) = Some i"
    by (auto simp: verifySignature_def split: if_splits)
  from match_secret_sound [OF this] basic(1,2,3) sig t show ?thesis
    by (auto simp: well_signed_def)
qed

lemma validate_audit: "wa_accepted (snd (validateWebhook we clk p)) = wv_valid (fst (validateWebhook we clk p))"
  by (simp add: validateWebhook_def reject_def audit_of_def Let_def split: prod.split option.split)

definition request_params :: "webhook_env \<Rightarrow> webhook_request \<Rightarrow> webhook_state \<Rightarrow> validate_params" where
  "request_params we rq st =
     \<lparr>vp_secrets = request_secrets we rq (rs_store (wh_recon st)), vp_clientIp = wq_clientIp rq,
      vp_rawBody = wq_rawBody rq, vp_signature = wq_signature rq, vp_timestamp = wq_timestamp rq,
      vp_eventId = request_event_id rq\<rparr>"

lemma handler_validates:
  assumes "handleRazorpayWebhook we clk rq st = (reply, st')"
  shows "wh_audit st' = wh_audit st @ [snd (validateWebhook we clk (request_params we rq st))]"
    and "\<not> wv_valid (fst (validateWebhook we clk (request_params we rq st))) \<Longrightarrow>
         wh_recon st' = wh_recon st \<and> (\<exists>c m. reply = Refused c m)"
  using assms
  by (auto simp: handleRazorpayWebhook_def request_params_def Let_def split: prod.splits if_splits)

text \<open>A failed payment that was ingested is found again by its event id.\<close>

lemma find_append:
  "List.find P (xs @ ys) = (case List.find P xs of None \<Rightarrow> List.find P ys | Some x \<Rightarrow> Some x)"
  by (induction xs) auto

lemma ingested_found:
  assumes "handle_failed we clk opts ''pay_'' lead ev p rs = (Ingested opp, rs')" and "truthy_str ev"
  shows "map_option o_id (getOpportunityByRazorpayEventId (rs_store rs') (the ev)) = Some (o_id opp)"
proof -
  let ?s = "rs_store rs"
  obtain opp' s1 where n: "normalizeOpportunity (wc_now clk) (wc_now_ms clk) p ev opts ?s = (opp', s1)"
    by (cases "normalizeOpportunity (wc_now clk) (wc_now_ms clk) p ev opts ?s")
  note nf = normalize_fields [OF n]
  have ev: "o_razorpay_event_id opp' = ev"
    using n assms(2) by (auto simp: normalizeOpportunity_def Let_def split: prod.splits)
  from assms n have none: "getOpportunityByRazorpayEventId ?s (the ev) = None"
      and new: "getOpportunityById ?s (payment_id_of (wc_now_ms clk) p) = None"
      and res: "opp = opp'" "opportunities (rs_store rs') = opportunities (putOpportunity opp' s1)"
    by (auto simp: handle_failed_def Let_def payment_id_of_def insertOpportunity_def
        split: option.splits sum.splits if_splits)
  have "row_put o_id opp_merge opp' (opportunities ?s) = opportunities ?s @ [opp_merge None opp']"
    using new nf(1) by (intro row_put_new) (auto simp: getOpportunityById_def row_get_None)
  moreover have "o_razorpay_event_id (opp_merge None opp') = o_razorpay_event_id opp'"
    by (simp add: opp_merge_def Let_def)
  ultimately show ?thesis
    using none ev assms(2) res nf(6)
    by (auto simp: getOpportunityByRazorpayEventId_def putOpportunity_def find_append truthy_str_def
        split: option.splits)
qed

lemma handler_failed_event:
  assumes "handleRazorpayWebhook we clk rq st = (Ingested opp, st')"
  shows "\<exists>pe. wq_event rq = Some ''payment.failed'' \<and> wq_payment rq = Some pe \<and>
    handle_failed we clk (real_options rq (rs_store (wh_recon st))) ''pay_'' (real_lead rq)
      (request_event_id rq) (pn_payload pe) (wh_recon st) = (Ingested opp, wh_recon st')"
  using assms
  by (auto simp: handleRazorpayWebhook_def handle_link_def Let_def split: prod.splits if_splits option.splits)

section \<open>Properties\<close>

text \<open>
  C14. Nothing enters unsigned: a Razorpay webhook changes the store, the calibration or the
  bandit only if it is at most 1 MB, from an allowed address, fresh (when it carries a
  timestamp), and signed over its raw body by one of the candidate secrets of its tenant;
  and every request leaves exactly one audit row, marked accepted only in that case.
\<close>

theorem webhook_needs_signature:
  assumes "handleRazorpayWebhook we clk rq st = (reply, st')"
  shows "(wh_recon st' \<noteq> wh_recon st \<longrightarrow> well_signed we clk (request_params we rq st)) \<and>
    (\<exists>row. wh_audit st' = wh_audit st @ [row] \<and>
       (wa_accepted row \<longrightarrow> well_signed we clk (request_params we rq st)))"
  using handler_validates [OF assms] validate_sound validate_audit by metis

text \<open>
  Redelivery is harmless: once a failed payment was ingested, delivering the same request
  again at any later time changes nothing, and is answered as a duplicate of the same
  opportunity unless its validation fails by then.
\<close>

theorem webhook_redelivery_no_effect:
  assumes "handleRazorpayWebhook we clk rq st = (Ingested opp, st1)"
    and "handleRazorpayWebhook we clk' rq st1 = (reply, st2)"
    and "truthy_str (request_event_id rq)"
  shows "wh_recon st2 = wh_recon st1 \<and> (reply = Deduplicated (o_id opp) \<or> (\<exists>c m. reply = Refused c m))"
proof -
  obtain pe where f: "wq_event rq = Some ''payment.failed''" "wq_payment rq = Some pe"
      "handle_failed we clk (real_options rq (rs_store (wh_recon st))) ''pay_'' (real_lead rq)
         (request_event_id rq) (pn_payload pe) (wh_recon st) = (Ingested opp, wh_recon st1)"
    using handler_failed_event [OF assms(1)] by blast
  from ingested_found [OF f(3) assms(3)] obtain o' where
      "getOpportunityByRazorpayEventId (rs_store (wh_recon st1)) (the (request_event_id rq)) = Some o'"
      "o_id o' = o_id opp" by auto
  then have "handle_failed we clk' opts' ''pay_'' lead' (request_event_id rq) (pn_payload pe) (wh_recon st1) =
      (Deduplicated (o_id opp), wh_recon st1)" for opts' lead'
    using assms(3) by (simp add: handle_failed_def Let_def)
  then show ?thesis
    using assms(2) f(1,2)
    by (auto simp: handleRazorpayWebhook_def Let_def split: prod.splits if_splits)
qed

text \<open>The opportunity of a payment-link event is looked up without the tenant: a request
  signed for one tenant settles the opportunity of another.\<close>

theorem webhook_crosses_tenants:
  assumes "wv_valid (fst (validateWebhook we clk (request_params we rq st)))"
    and "wq_event rq = Some ''payment_link.paid''" and "wq_link rq = Some l"
    and "ln_reference_id l = Some oid" and "oid \<noteq> []"
    and "getOpportunityById (rs_store (wh_recon st)) oid = Some opp"
  shows "\<exists>r rs'. reconcileOpportunity (we_recon we) (wc_recon clk) oid (Some (ln_payload l)) (wh_recon st) = (r, rs') \<and>
    fst (handleRazorpayWebhook we clk rq st) = Reconciled r \<and>
    wh_recon (snd (handleRazorpayWebhook we clk rq st)) = rs'"
proof -
  have "o_id opp = oid" using assms(6) by (auto simp: getOpportunityById_def dest: row_get_Some)
  with assms show ?thesis
    by (auto simp: handleRazorpayWebhook_def request_params_def handle_link_def find_opportunity_def
        truthy_str_def Let_def split: prod.split)
qed

text \<open>A tenant without secrets is open to anyone who signs with the constant of the source.\<close>

theorem fallback_secret_accepted:
  "verifySignature hmac None None body (hmac fallback_secret body) [] =
     (if body = [] \<or> hmac fallback_secret body = [] then None else Some 0)"
  by (simp add: verifySignature_def candidate_secrets_def fallback_secret_def or_opt_def)


section \<open>A concrete delivery\<close>

definition demo_we :: webhook_env where
  "demo_we = \<lparr>we_hmac = (\<lambda>s b. s @ '':'' @ b), we_secrets = (\<lambda>t e. [''sec'']), we_env_secret = None,
     we_env_secret_old = None,
     we_ip = \<lparr>ip_node_env_test = False, ip_check_disabled = False, ip_check_enabled = False, ip_custom = None\<rparr>,
     we_recon = sample_recon_env, we_show_number = (\<lambda>_. ''0'')\<rparr>"

definition demo_clock :: "int \<Rightarrow> webhook_clock" where
  "demo_clock n = \<lparr>wc_now = ''t'', wc_now_ms = n * 1000, wc_now_sec = n, wc_led_id = ''led_1'', wc_recon = sample_call\<rparr>"

definition demo_request :: webhook_request where
  "demo_request = \<lparr>wq_tenant_param = Some ''t1'', wq_tenant_query = None, wq_signature = Some ''sec:body'',
     wq_timestamp = Some (Fin 100), wq_clientIp = ''1.2.3.4'', wq_rawBody = ''body'', wq_body_event_id = None,
     wq_body_id = Some ''evt_1'', wq_header_event_id = None, wq_event = Some ''payment.failed'',
     wq_link = None, wq_payment = Some \<lparr>pn_payload = sample_payload ''pay_1'', pn_environment_live = False\<rparr>\<rparr>"

definition demo_wh_state :: webhook_state where
  "demo_wh_state = \<lparr>wh_recon = \<lparr>rs_store = empty_store, rs_calibrator = new_calibrator, rs_arms = []\<rparr>, wh_audit = []\<rparr>"

definition ingested_id :: "webhook_reply \<Rightarrow> string option" where
  "ingested_id r = (case r of Ingested o' \<Rightarrow> Some (o_id o') | _ \<Rightarrow> None)"

lemma demo_ok_state: "rs_store (wh_recon demo_wh_state) = empty_store"
  by (simp add: demo_wh_state_def)

lemma demo_secrets: "request_secrets demo_we demo_request empty_store = [''sec'']"
  by (simp add: request_secrets_def demo_we_def unique_def Let_def)

lemma demo_validates:
  assumes "n - 100 \<le> 300" "100 - n \<le> 60"
  shows "wv_valid (fst (validateWebhook demo_we (demo_clock n) (request_params demo_we demo_request demo_wh_state)))"
proof -
  let ?p = "request_params demo_we demo_request demo_wh_state"
  have p: "vp_rawBody ?p = ''body''" "vp_signature ?p = Some ''sec:body''" "vp_secrets ?p = [''sec'']"
      "vp_timestamp ?p = Some (Fin 100)"
    by (simp_all add: request_params_def demo_ok_state demo_secrets) (simp_all add: demo_request_def)
  have "\<not> (300 < (of_int n - 100 :: rat))" "\<not> ((of_int n - 100 :: rat) < -60)"
    using assms by linarith+
  then have t: "isTimestampValid (wc_now_sec (demo_clock n)) (vp_timestamp ?p) = (True, Fin (of_int n - 100))"
    by (simp add: p isTimestampValid_def demo_clock_def)
  have h: "we_hmac demo_we = (\<lambda>s b. s @ '':'' @ b)" by (simp add: demo_we_def)
  have i: "isIpAllowed (we_ip demo_we) ip" for ip by (simp add: demo_we_def isIpAllowed_def)
  have "verifySignature (we_hmac demo_we) (we_env_secret demo_we) (we_env_secret_old demo_we) ''body''
      ''sec:body'' [''sec''] = Some 0"
    by (simp add: verifySignature_def candidate_secrets_def h)
  then show ?thesis
    using t by (simp add: validateWebhook_def p i Let_def byte_length_def or_opt_def or_str_def)
qed

lemma demo_ingested:
  "ingested_id (fst (handleRazorpayWebhook demo_we (demo_clock 120) demo_request demo_wh_state)) = Some ''pay_1''"
proof -
  have v: "wv_valid (fst (validateWebhook demo_we (demo_clock 120)
      (request_params demo_we demo_request demo_wh_state)))"
    by (simp add: demo_validates)
  obtain opp s1 where n: "normalizeOpportunity (wc_now (demo_clock 120)) (wc_now_ms (demo_clock 120))
      (sample_payload ''pay_1'') (Some ''evt_1'') (real_options demo_request empty_store) empty_store = (opp, s1)"
    by fastforce
  note nf = normalize_fields [OF n]
  have e: "request_event_id demo_request = Some ''evt_1''"
    by (simp add: request_event_id_def demo_request_def truthy_str_def)
  have pid: "o_id opp = ''pay_1''"
    using nf(1) by (simp add: payment_id_of_def sample_payload_def or_opt_def or_str_def)
  have i: "insertOpportunity opp s1 = Inr (putOpportunity opp s1)"
    using nf(6) by (simp add: insertOpportunity_def empty_store_def)
  have f: "ingested_id (fst (handle_failed demo_we (demo_clock 120) (real_options demo_request empty_store)
      ''pay_'' (real_lead demo_request) (Some ''evt_1'') (sample_payload ''pay_1'') (wh_recon demo_wh_state)))
      = Some ''pay_1''"
    using n i pid
    by (simp add: handle_failed_def demo_ok_state ingested_id_def getOpportunityByRazorpayEventId_def
        getOpportunityById_def row_get_def empty_store_def Let_def)
  have d: "wq_event demo_request = Some ''payment.failed''"
      "wq_payment demo_request = Some \<lparr>pn_payload = sample_payload ''pay_1'', pn_environment_live = False\<rparr>"
    by (simp_all add: demo_request_def)
  show ?thesis
    using v f by (simp add: handleRazorpayWebhook_def request_params_def e d demo_ok_state Let_def case_prod_unfold)
qed

theorem webhook_needs_signature_witness:
  "well_signed demo_we (demo_clock 120) (request_params demo_we demo_request demo_wh_state)"
proof -
  obtain reply st' where h: "handleRazorpayWebhook demo_we (demo_clock 120) demo_request demo_wh_state = (reply, st')"
    by (cases "handleRazorpayWebhook demo_we (demo_clock 120) demo_request demo_wh_state")
  have "wh_recon st' \<noteq> wh_recon demo_wh_state"
  proof
    assume eq: "wh_recon st' = wh_recon demo_wh_state"
    from demo_ingested h obtain o' where r: "reply = Ingested o'"
      by (auto simp: ingested_id_def split: webhook_reply.splits)
    from handler_failed_event [OF h [unfolded r]] obtain pe :: payment_entity where
      "handle_failed demo_we (demo_clock 120) (real_options demo_request (rs_store (wh_recon demo_wh_state))) ''pay_''
        (real_lead demo_request) (request_event_id demo_request) (pn_payload pe) (wh_recon demo_wh_state) =
        (Ingested o', wh_recon st')" by blast
    from ingested_found [OF this] eq show False
      by (simp add: demo_wh_state_def empty_store_def getOpportunityByRazorpayEventId_def demo_request_def
          request_event_id_def truthy_str_def)
  qed
  with webhook_needs_signature [OF h] show ?thesis by blast
qed

theorem webhook_redelivery_no_effect_witness:
  "wh_recon (snd (handleRazorpayWebhook demo_we (demo_clock 130) demo_request
      (snd (handleRazorpayWebhook demo_we (demo_clock 120) demo_request demo_wh_state)))) =
   wh_recon (snd (handleRazorpayWebhook demo_we (demo_clock 120) demo_request demo_wh_state))"
proof -
  obtain reply st1 where h: "handleRazorpayWebhook demo_we (demo_clock 120) demo_request demo_wh_state = (reply, st1)"
    by (cases "handleRazorpayWebhook demo_we (demo_clock 120) demo_request demo_wh_state")
  from demo_ingested h obtain o' where r: "reply = Ingested o'"
    by (auto simp: ingested_id_def split: webhook_reply.splits)
  obtain reply2 st2 where h2: "handleRazorpayWebhook demo_we (demo_clock 130) demo_request st1 = (reply2, st2)"
    by (cases "handleRazorpayWebhook demo_we (demo_clock 130) demo_request st1")
  have "truthy_str (request_event_id demo_request)"
    by (simp add: request_event_id_def demo_request_def truthy_str_def)
  from webhook_redelivery_no_effect [OF h [unfolded r] h2 this] h h2 show ?thesis by simp
qed


end
