(* ===== verification/Api_Keys.thy ===== *)
theory Api_Keys
  imports Ctrl_Types
begin

text \<open>
  API keys, \<^verbatim>\<open>src/security/api_keys.ts\<close>: creation, authentication and revocation over the
  table \<^verbatim>\<open>api_keys\<close>.  SHA-256, the Supabase store and the random parts of a key are
  parameters; expiry and revocation stamps are milliseconds, and the stored scopes are
  \<open>None\<close> when their text is not JSON.  A query with \<^verbatim>\<open>LIKE\<close> scans the table in row order.
\<close>

section \<open>The table\<close>

definition VALID_API_KEY_SCOPES :: "string list" where
  "VALID_API_KEY_SCOPES = [''events:write'', ''events:read'', ''payments:read'', ''recoveries:read'',
     ''analytics:read'', ''agent:read'', ''integrations:read'', ''integrations:write'']"

definition ALLOWED_DEMO_KEY_IDS :: "string list" where
  "ALLOWED_DEMO_KEY_IDS = [''live_key_demo'', ''test_live_key_demo'', ''demo_merchant'']"

record api_key =
  ak_id :: string
  ak_tenant_id :: string
  ak_name :: string
  ak_key_prefix :: string
  ak_key_id :: string
  ak_secret_hash :: string
  ak_environment :: environment
  ak_scopes :: "string list option"
  ak_created_at :: int
  ak_last_used_at :: "int option"
  ak_expires_at :: "int option"
  ak_revoked_at :: "int option"

record supabase_key =
  sk_id :: string
  sk_tenant_id :: string
  sk_name :: string
  sk_key_prefix :: string
  sk_key_hash :: string
  sk_scopes :: "string list"
  sk_revoked :: bool
  sk_created_at :: "int option"
  sk_expires_at :: "int option"

record key_env =
  ke_production :: bool
  ke_sha256 :: "string \<Rightarrow> string"
  ke_supabase :: "string \<Rightarrow> supabase_key option"
  ke_tenant_exists :: "string \<Rightarrow> bool"

datatype key_error =
    InvalidScope string
  | ConstraintFailed
  | ScopesNotJson

section \<open>Creation\<close>

definition env_text :: "environment \<Rightarrow> string" where
  "env_text e = (case e of Env_live \<Rightarrow> ''live'' | Env_test \<Rightarrow> ''test'')"

record create_params =
  cp_tenantId :: string
  cp_name :: string
  cp_environment :: environment
  cp_scopes :: "string list"
  cp_expiresInDays :: "int option"

record fresh_key =
  fk_id :: string
  fk_keyId :: string
  fk_rawSecret :: string

definition forbidden_scope :: "string \<Rightarrow> bool" where
  "forbidden_scope s \<longleftrightarrow> includes_str s ''financial:execute'' \<or> s \<notin> set VALID_API_KEY_SCOPES"

definition key_prefix :: "environment \<Rightarrow> string" where
  "key_prefix e = ''ctrl_'' @ env_text e @ ''_''"

definition new_key :: "key_env \<Rightarrow> int \<Rightarrow> fresh_key \<Rightarrow> create_params \<Rightarrow> api_key" where
  "new_key env now f p =
     \<lparr>ak_id = fk_id f, ak_tenant_id = cp_tenantId p, ak_name = cp_name p,
      ak_key_prefix = key_prefix (cp_environment p), ak_key_id = fk_keyId f,
      ak_secret_hash = ke_sha256 env (fk_rawSecret f), ak_environment = cp_environment p,
      ak_scopes = Some (cp_scopes p), ak_created_at = now, ak_last_used_at = None,
      ak_expires_at = (case cp_expiresInDays p of
                         None \<Rightarrow> None
                       | Some d \<Rightarrow> if d = 0 then None else Some (now + d * 86400000)),
      ak_revoked_at = None\<rparr>"

definition createApiKey ::
  "key_env \<Rightarrow> int \<Rightarrow> fresh_key \<Rightarrow> create_params \<Rightarrow> api_key list \<Rightarrow> key_error + (string \<times> api_key list)" where
  "createApiKey env now f p keys =
     (case List.find forbidden_scope (cp_scopes p) of
        Some s \<Rightarrow> Inl (InvalidScope s)
      | None \<Rightarrow>
          if (\<exists>k \<in> set keys. ak_id k = fk_id f \<or> ak_key_id k = fk_keyId f) \<or>
             \<not> ke_tenant_exists env (cp_tenantId p)
          then Inl ConstraintFailed
          else Inr (key_prefix (cp_environment p) @ fk_keyId f @ ''.'' @ fk_rawSecret f,
                    keys @ [new_key env now f p]))"

section \<open>Authentication\<close>

definition is_ctrl_key :: "string \<Rightarrow> bool" where
  "is_ctrl_key k \<longleftrightarrow> startsWith k ''ctrl_live_'' \<or> startsWith k ''ctrl_test_''"

definition is_legacy_key :: "string \<Rightarrow> bool" where
  "is_legacy_key k \<longleftrightarrow> startsWith k ''ul_live_'' \<or> startsWith k ''ul_test_''"

definition strip_prefix :: "string \<Rightarrow> string" where
  "strip_prefix k = (if is_ctrl_key k then drop 10 k else if is_legacy_key k then drop 8 k else k)"

definition env_of_raw :: "string \<Rightarrow> environment" where
  "env_of_raw k = (if includes_str k ''_live_'' then Env_live else Env_test)"

text \<open>SQLite's \<^verbatim>\<open>LIKE\<close>: \<^verbatim>\<open>%\<close> and \<^verbatim>\<open>_\<close> are wildcards, ASCII letters match without case.\<close>

definition ascii_lower :: "char \<Rightarrow> char" where
  "ascii_lower c = (let n = of_char c :: nat in if 65 \<le> n \<and> n \<le> 90 then char_of (n + 32) else c)"

fun sql_like :: "string \<Rightarrow> string \<Rightarrow> bool" where
  "sql_like [] t = (t = [])"
| "sql_like (c # p) [] = (c = CHR ''%'' \<and> sql_like p [])"
| "sql_like (c # p) (d # t) =
     (if c = CHR ''%'' then sql_like p (d # t) \<or> sql_like (c # p) t
      else (c = CHR ''_'' \<or> ascii_lower c = ascii_lower d) \<and> sql_like p t)"

datatype key_reply =
    Key_invalid string
  | Key_forbidden string string environment "string list"
  | Key_valid string environment "string list"

definition scope_reply :: "string option \<Rightarrow> string \<Rightarrow> environment \<Rightarrow> string list \<Rightarrow> key_reply" where
  "scope_reply required tenant e scopes =
     (if truthy_str required \<and> the required \<notin> set scopes \<and> ''*'' \<notin> set scopes
      then Key_forbidden (the required) tenant e scopes else Key_valid tenant e scopes)"

definition key_expired :: "int \<Rightarrow> api_key \<Rightarrow> bool" where
  "key_expired now r \<longleftrightarrow> (case ak_expires_at r of None \<Rightarrow> False | Some t \<Rightarrow> t < now)"

definition publishable_rows :: "string \<Rightarrow> api_key list \<Rightarrow> api_key list" where
  "publishable_rows cleanKeyId keys =
     filter (\<lambda>k. ak_key_id k = cleanKeyId \<or> ak_id k = cleanKeyId \<or>
               sql_like (cleanKeyId @ ''%'') (ak_id k) \<or> sql_like (cleanKeyId @ ''%'') (ak_key_id k)) keys"

definition authenticate_publishable ::
  "key_env \<Rightarrow> int \<Rightarrow> string option \<Rightarrow> string \<Rightarrow> api_key list \<Rightarrow> key_reply" where
  "authenticate_publishable env now required rawKey keys =
     (let cleanKeyId = strip_prefix rawKey; demo = cleanKeyId \<in> set ALLOWED_DEMO_KEY_IDS
      in if \<not> ke_production env \<and> demo
         then scope_reply required ''tenant_system_default'' (env_of_raw rawKey) VALID_API_KEY_SCOPES
         else if demo then Key_invalid ''Demo keys are disabled in production environment''
         else (case publishable_rows cleanKeyId keys of
                 [] \<Rightarrow> Key_invalid ''Missing API key secret component''
               | r # _ \<Rightarrow>
                   if ak_revoked_at r \<noteq> None then Key_invalid ''API key has been revoked''
                   else if key_expired now r then Key_invalid ''API key has expired''
                   else scope_reply required (ak_tenant_id r) (ak_environment r)
                          (case ak_scopes r of None \<Rightarrow> [''events:write'', ''events:read''] | Some ss \<Rightarrow> ss)))"

text \<open>A key that only Supabase knows is copied into the table, replacing the row with its id.\<close>

definition supabase_row :: "int \<Rightarrow> string \<Rightarrow> supabase_key \<Rightarrow> api_key" where
  "supabase_row now keyId sb =
     \<lparr>ak_id = sk_id sb, ak_tenant_id = sk_tenant_id sb, ak_name = sk_name sb,
      ak_key_prefix = sk_key_prefix sb, ak_key_id = keyId, ak_secret_hash = sk_key_hash sb,
      ak_environment = Env_test, ak_scopes = Some (sk_scopes sb),
      ak_created_at = (case sk_created_at sb of None \<Rightarrow> now | Some t \<Rightarrow> t), ak_last_used_at = None,
      ak_expires_at = sk_expires_at sb, ak_revoked_at = None\<rparr>"

definition replace_row :: "key_env \<Rightarrow> api_key \<Rightarrow> api_key list \<Rightarrow> api_key list" where
  "replace_row env r keys =
     (if ke_tenant_exists env (ak_tenant_id r)
      then filter (\<lambda>k. ak_id k \<noteq> ak_id r \<and> ak_key_id k \<noteq> ak_key_id r) keys @ [r] else keys)"

definition key_row ::
  "key_env \<Rightarrow> int \<Rightarrow> string \<Rightarrow> string \<Rightarrow> api_key list \<Rightarrow> api_key option \<times> api_key list" where
  "key_row env now keyId computedHash keys =
     (case List.find (\<lambda>k. ak_key_id k = keyId) keys of
        Some r \<Rightarrow> (Some r, keys)
      | None \<Rightarrow>
          (case ke_supabase env computedHash of
             None \<Rightarrow> (None, keys)
           | Some sb \<Rightarrow>
               let r = supabase_row now keyId sb
               in (Some (r\<lparr>ak_revoked_at := (if sk_revoked sb then Some now else None)\<rparr>),
                   replace_row env r keys)))"

definition touch :: "int \<Rightarrow> string \<Rightarrow> api_key list \<Rightarrow> api_key list" where
  "touch now kid keys = map (\<lambda>k. if ak_id k = kid then k\<lparr>ak_last_used_at := Some now\<rparr> else k) keys"

definition authenticateKey ::
  "key_env \<Rightarrow> int \<Rightarrow> string option \<Rightarrow> string \<Rightarrow> api_key list \<Rightarrow> (key_error + key_reply) \<times> api_key list" where
  "authenticateKey env now required rawKey keys =
     (if \<not> is_ctrl_key rawKey \<and> \<not> is_legacy_key rawKey
      then (Inr (Key_invalid ''Malformed API key format''), keys)
      else if CHR ''.'' \<notin> set rawKey
      then (Inr (authenticate_publishable env now required rawKey keys), keys)
      else
        let prefixAndId = takeWhile (\<lambda>c. c \<noteq> CHR ''.'') rawKey;
            rawSecret = drop (length prefixAndId + 1) rawKey;
            keyId = strip_prefix prefixAndId;
            computedHash = ke_sha256 env rawSecret
        in (case key_row env now keyId computedHash keys of
              (None, keys1) \<Rightarrow>
                (Inr (if keyId \<in> set ALLOWED_DEMO_KEY_IDS
                      then if ke_production env
                           then Key_invalid ''Demo keys are disabled in production environment''
                           else Key_valid ''tenant_system_default'' (env_of_raw rawKey) VALID_API_KEY_SCOPES
                      else Key_invalid ''API key not found''), keys1)
            | (Some r, keys1) \<Rightarrow>
                if ak_revoked_at r \<noteq> None then (Inr (Key_invalid ''API key has been revoked''), keys1)
                else if key_expired now r then (Inr (Key_invalid ''API key has expired''), keys1)
                else if ak_secret_hash r \<noteq> computedHash
                then (Inr (Key_invalid ''Invalid API key secret''), keys1)
                else (case ak_scopes r of
                        None \<Rightarrow> (Inl ScopesNotJson, touch now (ak_id r) keys1)
                      | Some ss \<Rightarrow>
                          (Inr (scope_reply required (ak_tenant_id r) (ak_environment r) ss),
                           touch now (ak_id r) keys1))))"

definition revokeApiKey :: "int \<Rightarrow> string \<Rightarrow> string \<Rightarrow> api_key list \<Rightarrow> bool \<times> api_key list" where
  "revokeApiKey now tenantId ident keys =
     (let hit = (\<lambda>k. ak_tenant_id k = tenantId \<and> (ak_key_id k = ident \<or> ak_id k = ident) \<and> ak_revoked_at k = None)
      in (\<exists>k \<in> set keys. hit k, map (\<lambda>k. if hit k then k\<lparr>ak_revoked_at := Some now\<rparr> else k) keys))"


section \<open>Lemmas\<close>

lemma sql_like_percent [simp]: "sql_like [CHR ''%''] t"
  by (induction t) auto

lemma scope_reply_valid:
  "scope_reply req t e ss = Key_valid t' e' ss' \<longleftrightarrow>
     t' = t \<and> e' = e \<and> ss' = ss \<and> (truthy_str req \<longrightarrow> the req \<in> set ss \<or> ''*'' \<in> set ss)"
  by (auto simp: scope_reply_def)

text \<open>The raw key splits at its first dot.\<close>

definition key_id_of :: "string \<Rightarrow> string" where
  "key_id_of rawKey = strip_prefix (takeWhile (\<lambda>c. c \<noteq> CHR ''.'') rawKey)"

definition secret_of :: "string \<Rightarrow> string" where
  "secret_of rawKey = drop (length (takeWhile (\<lambda>c. c \<noteq> CHR ''.'') rawKey) + 1) rawKey"

lemma raw_key_parts:
  assumes "CHR ''.'' \<notin> set kid"
  shows "key_id_of (key_prefix e @ kid @ ''.'' @ secret) = kid"
    and "secret_of (key_prefix e @ kid @ ''.'' @ secret) = secret"
    and "is_ctrl_key (key_prefix e @ kid @ ''.'' @ secret)"
proof -
  have p: "\<forall>c \<in> set (key_prefix e). c \<noteq> CHR ''.''" by (cases e) (auto simp: key_prefix_def env_text_def)
  have t: "takeWhile (\<lambda>c. c \<noteq> CHR ''.'') (key_prefix e @ kid @ ''.'' @ secret) = key_prefix e @ kid"
    using p assms by (subst append_assoc [symmetric], subst takeWhile_append2) auto
  have c: "is_ctrl_key (key_prefix e @ x)" for x
    by (cases e) (simp_all add: is_ctrl_key_def startsWith_def key_prefix_def env_text_def)
  have l: "length (key_prefix e) = 10" by (cases e) (simp_all add: key_prefix_def env_text_def)
  show "key_id_of (key_prefix e @ kid @ ''.'' @ secret) = kid"
    using c [of kid] l unfolding key_id_of_def t by (simp add: strip_prefix_def)
  show "secret_of (key_prefix e @ kid @ ''.'' @ secret) = secret"
    using l unfolding secret_of_def t by simp
  show "is_ctrl_key (key_prefix e @ kid @ ''.'' @ secret)" by (rule c)
qed

text \<open>Authentication by secret, with the row that decides it.\<close>

lemma authenticate_secret:
  assumes "is_ctrl_key k \<or> is_legacy_key k" and "CHR ''.'' \<in> set k"
    and "List.find (\<lambda>r. ak_key_id r = key_id_of k) keys = Some r"
  shows "fst (authenticateKey env now req k keys) =
     (if ak_revoked_at r \<noteq> None then Inr (Key_invalid ''API key has been revoked'')
      else if key_expired now r then Inr (Key_invalid ''API key has expired'')
      else if ak_secret_hash r \<noteq> ke_sha256 env (secret_of k) then Inr (Key_invalid ''Invalid API key secret'')
      else case ak_scopes r of None \<Rightarrow> Inl ScopesNotJson
           | Some ss \<Rightarrow> Inr (scope_reply req (ak_tenant_id r) (ak_environment r) ss))"
  using assms
  by (auto simp: authenticateKey_def key_row_def key_id_of_def secret_of_def Let_def split: option.split)

lemma find_distinct:
  "distinct (map f xs) \<Longrightarrow> x \<in> set xs \<Longrightarrow> List.find (\<lambda>y. f y = f x) xs = Some x"
  by (induction xs) (auto simp: image_iff)

lemma find_none: "List.find P xs = None \<longleftrightarrow> (\<forall>x \<in> set xs. \<not> P x)"
  by (induction xs) auto

section \<open>Every operation of the table\<close>

inductive key_step :: "key_env \<Rightarrow> api_key list \<Rightarrow> api_key list \<Rightarrow> bool" for env where
  created: "createApiKey env now f p keys = Inr (raw, keys') \<Longrightarrow> key_step env keys keys'"
| authenticated: "key_step env keys (snd (authenticateKey env now req k keys))"
| revoked: "key_step env keys (snd (revokeApiKey now t i keys))"

definition table_ok :: "api_key list \<Rightarrow> bool" where
  "table_ok keys \<longleftrightarrow> distinct (map ak_id keys) \<and> distinct (map ak_key_id keys) \<and>
     (\<forall>k \<in> set keys. \<forall>ss. ak_scopes k = Some ss \<longrightarrow> (\<forall>s \<in> set ss. \<not> forbidden_scope s))"

definition supabase_scopes_ok :: "key_env \<Rightarrow> bool" where
  "supabase_scopes_ok env \<longleftrightarrow>
     (\<forall>h sb. ke_supabase env h = Some sb \<longrightarrow> (\<forall>s \<in> set (sk_scopes sb). \<not> forbidden_scope s))"

lemma table_ok_map:
  assumes "table_ok keys"
    and "\<And>k. ak_id (g k) = ak_id k \<and> ak_key_id (g k) = ak_key_id k \<and> ak_scopes (g k) = ak_scopes k"
  shows "table_ok (map g keys)"
  using assms by (simp add: table_ok_def comp_def)

lemma key_row_table_ok:
  assumes "table_ok keys" and "supabase_scopes_ok env"
  shows "table_ok (snd (key_row env now kid h keys))"
  using assms
  by (auto simp: key_row_def replace_row_def supabase_row_def table_ok_def supabase_scopes_ok_def
      Let_def distinct_map_filter split: option.split)

lemma touch_ids:
  "touch now kid keys = map (\<lambda>k. if ak_id k = kid then k\<lparr>ak_last_used_at := Some now\<rparr> else k) keys"
  by (simp add: touch_def)

lemma authenticate_state:
  "snd (authenticateKey env now req k keys) = keys \<or>
   (\<exists>kid h. snd (authenticateKey env now req k keys) = snd (key_row env now kid h keys)) \<or>
   (\<exists>kid h i. snd (authenticateKey env now req k keys) = touch now i (snd (key_row env now kid h keys)))"
  by (auto simp: authenticateKey_def Let_def split: option.split prod.split if_splits; metis snd_conv)

lemma new_key_fields [simp]:
  "ak_id (new_key env now f p) = fk_id f" "ak_key_id (new_key env now f p) = fk_keyId f"
  "ak_scopes (new_key env now f p) = Some (cp_scopes p)" "ak_tenant_id (new_key env now f p) = cp_tenantId p"
  "ak_environment (new_key env now f p) = cp_environment p" "ak_revoked_at (new_key env now f p) = None"
  "ak_secret_hash (new_key env now f p) = ke_sha256 env (fk_rawSecret f)"
  by (simp_all add: new_key_def)

lemma createApiKey_Inr:
  assumes "createApiKey env now f p keys = Inr (raw, keys')"
  shows "raw = key_prefix (cp_environment p) @ fk_keyId f @ ''.'' @ fk_rawSecret f"
    and "keys' = keys @ [new_key env now f p]"
    and "fk_id f \<notin> ak_id ` set keys" and "fk_keyId f \<notin> ak_key_id ` set keys"
    and "\<forall>s \<in> set (cp_scopes p). \<not> forbidden_scope s"
  using assms by (auto simp: createApiKey_def find_none split: option.splits if_splits)

lemma table_ok_step:
  assumes "key_step env keys keys'" and "table_ok keys" and "supabase_scopes_ok env"
  shows "table_ok keys'"
  using assms
proof (induction rule: key_step.induct)
  case (created now f p keys raw keys')
  from createApiKey_Inr(2-5) [OF created(1)] created(2) show ?case
    by (auto simp: table_ok_def)
next
  case (authenticated keys now req k)
  have "table_ok (touch now i ks)" if "table_ok ks" for i ks
    unfolding touch_def using that by (rule table_ok_map) simp
  with authenticate_state [of env now req k keys] key_row_table_ok [OF authenticated] authenticated
  show ?case by auto
next
  case (revoked keys now t i)
  from revoked(1) show ?case unfolding revokeApiKey_def Let_def snd_conv by (rule table_ok_map) simp
qed


text \<open>Without the Supabase store a revoked row stays revoked whatever happens to the table.\<close>

definition key_revoked :: "string \<Rightarrow> api_key list \<Rightarrow> bool" where
  "key_revoked kid keys \<longleftrightarrow> (\<exists>r \<in> set keys. ak_key_id r = kid \<and> ak_revoked_at r \<noteq> None)"

lemma key_revoked_map:
  assumes "key_revoked kid keys"
    and "\<And>k. ak_key_id (g k) = ak_key_id k \<and> (ak_revoked_at k \<noteq> None \<longrightarrow> ak_revoked_at (g k) \<noteq> None)"
  shows "key_revoked kid (map g keys)"
proof -
  obtain r where "r \<in> set keys" "ak_key_id r = kid" "ak_revoked_at r \<noteq> None"
    using assms(1) by (auto simp: key_revoked_def)
  with assms(2) [of r] show ?thesis unfolding key_revoked_def by (intro bexI [of _ "g r"]) auto
qed

lemma revoked_step:
  assumes "key_step env keys keys'" and "key_revoked kid keys" and "ke_supabase env = (\<lambda>_. None)"
  shows "key_revoked kid keys'"
  using assms
proof (induction rule: key_step.induct)
  case (created now f p keys raw keys')
  then show ?case using createApiKey_Inr(2) [OF created(1)] by (auto simp: key_revoked_def)
next
  case (authenticated keys now req k)
  have row: "snd (key_row env now i h keys) = keys" for i h
    using authenticated(2) by (auto simp: key_row_def split: option.split)
  have touch: "key_revoked kid (touch now i keys)" for i
    unfolding touch_def using authenticated(1) by (rule key_revoked_map) auto
  from authenticate_state [of env now req k keys] show ?case
    unfolding row using authenticated(1) touch by auto
next
  case (revoked keys now t i)
  from revoked(1) show ?case
    unfolding revokeApiKey_def Let_def snd_conv by (rule key_revoked_map) auto
qed

lemma key_steps_table_ok:
  assumes "(key_step env)\<^sup>*\<^sup>* keys keys'" and "table_ok keys" and "supabase_scopes_ok env"
  shows "table_ok keys'"
  using assms by (induction rule: rtranclp_induct) (auto intro: table_ok_step)

lemma key_steps_revoked:
  assumes "(key_step env)\<^sup>*\<^sup>* keys keys'" and "key_revoked kid keys" and "ke_supabase env = (\<lambda>_. None)"
  shows "key_revoked kid keys'"
  using assms by (induction rule: rtranclp_induct) (auto intro: revoked_step)

lemma revoked_refused:
  assumes "table_ok keys" and "key_revoked (key_id_of k) keys" and "is_ctrl_key k \<or> is_legacy_key k"
    and "CHR ''.'' \<in> set k"
  shows "fst (authenticateKey env now req k keys) = Inr (Key_invalid ''API key has been revoked'')"
proof -
  obtain r where r: "r \<in> set keys" "ak_key_id r = key_id_of k" "ak_revoked_at r \<noteq> None"
    using assms(2) by (auto simp: key_revoked_def)
  have "List.find (\<lambda>x. ak_key_id x = key_id_of k) keys = Some r"
    using find_distinct [of ak_key_id keys r] assms(1) r by (simp add: table_ok_def)
  from authenticate_secret [OF assms(3,4) this] r(3) show ?thesis by simp
qed

section \<open>Properties\<close>

text \<open>
  C20. A key works from its creation to its expiry or revocation: in a well-formed table the raw
  key that creation returns authenticates, for any scope it was given, to its tenant, its
  environment and its scopes until it expires; and from its revocation on, whatever is done
  with the table, it is refused when no copy of the keys is kept in Supabase.
\<close>

theorem api_key_lifecycle:
  assumes "table_ok keys" and "createApiKey env now f p keys = Inr (raw, keys')"
    and "CHR ''.'' \<notin> set (fk_keyId f)"
  shows "((truthy_str req \<longrightarrow> the req \<in> set (cp_scopes p)) \<and> \<not> key_expired t (new_key env now f p) \<longrightarrow>
      fst (authenticateKey env t req raw keys') =
        Inr (Key_valid (cp_tenantId p) (cp_environment p) (cp_scopes p))) \<and>
    (ke_supabase env = (\<lambda>_. None) \<and>
      (key_step env)\<^sup>*\<^sup>* (snd (revokeApiKey t' (cp_tenantId p) (fk_keyId f) keys')) keys'' \<longrightarrow>
      fst (authenticateKey env t req raw keys'') = Inr (Key_invalid ''API key has been revoked''))"
proof -
  note c = createApiKey_Inr [OF assms(2)]
  let ?r = "new_key env now f p"
  note parts = raw_key_parts [OF assms(3), of "cp_environment p" "fk_rawSecret f", folded c(1)]
  have dot: "CHR ''.'' \<in> set raw" by (simp add: c(1))
  have ok: "table_ok keys'" using assms(1) c by (auto simp: table_ok_def)
  have find: "List.find (\<lambda>x. ak_key_id x = key_id_of raw) keys' = Some ?r"
    using find_distinct [of ak_key_id keys' ?r] ok c(2) parts(1) by (simp add: table_ok_def)
  have "fst (authenticateKey env t req raw keys') = Inr (Key_valid (cp_tenantId p) (cp_environment p) (cp_scopes p))"
    if "truthy_str req \<longrightarrow> the req \<in> set (cp_scopes p)" "\<not> key_expired t ?r"
    using authenticate_secret [OF disjI1 [OF parts(3)] dot find, of env t req] that parts(2)
    by (simp add: scope_reply_def)
  moreover have "fst (authenticateKey env t req raw keys'') = Inr (Key_invalid ''API key has been revoked'')"
    if s: "ke_supabase env = (\<lambda>_. None)"
      and steps: "(key_step env)\<^sup>*\<^sup>* (snd (revokeApiKey t' (cp_tenantId p) (fk_keyId f) keys')) keys''"
  proof -
    have "key_revoked (fk_keyId f) (snd (revokeApiKey t' (cp_tenantId p) (fk_keyId f) keys'))"
      by (auto simp: key_revoked_def revokeApiKey_def c(2) Let_def)
    from key_steps_revoked [OF steps this s]
    have r: "key_revoked (key_id_of raw) keys''" using parts(1) by simp
    have so: "supabase_scopes_ok env" using s by (simp add: supabase_scopes_ok_def)
    have "table_ok (snd (revokeApiKey t' (cp_tenantId p) (fk_keyId f) keys'))"
      by (rule table_ok_step [OF key_step.revoked ok so])
    from revoked_refused [OF key_steps_table_ok [OF steps this so] r disjI1 [OF parts(3)] dot]
    show ?thesis .
  qed
  ultimately show ?thesis by blast
qed


definition sample_key_env :: key_env where
  "sample_key_env = \<lparr>ke_production = True, ke_sha256 = (\<lambda>s. ''#'' @ s), ke_supabase = (\<lambda>_. None),
     ke_tenant_exists = (\<lambda>t. t = ''t1'')\<rparr>"

definition sample_create :: create_params where
  "sample_create = \<lparr>cp_tenantId = ''t1'', cp_name = ''k'', cp_environment = Env_live,
     cp_scopes = [''events:read''], cp_expiresInDays = Some 1\<rparr>"

definition sample_fresh :: fresh_key where
  "sample_fresh = \<lparr>fk_id = ''apk_1'', fk_keyId = ''0a1b'', fk_rawSecret = ''5e''\<rparr>"

theorem api_key_lifecycle_witness:
  "fst (authenticateKey sample_key_env 1000 (Some ''events:read'') ''ctrl_live_0a1b.5e''
     [new_key sample_key_env 0 sample_fresh sample_create]) =
     Inr (Key_valid ''t1'' Env_live [''events:read'']) \<and>
   fst (authenticateKey sample_key_env 1000 (Some ''events:read'') ''ctrl_live_0a1b.5e''
     (snd (revokeApiKey 500 ''t1'' ''0a1b'' [new_key sample_key_env 0 sample_fresh sample_create]))) =
     Inr (Key_invalid ''API key has been revoked'')"
proof -
  have ok: "table_ok []" by (simp add: table_ok_def)
  have c: "createApiKey sample_key_env 0 sample_fresh sample_create [] =
      Inr (''ctrl_live_0a1b.5e'', [new_key sample_key_env 0 sample_fresh sample_create])"
    by (simp add: createApiKey_def sample_create_def sample_fresh_def sample_key_env_def forbidden_scope_def
        VALID_API_KEY_SCOPES_def key_prefix_def env_text_def prefix_def)
  have n: "\<not> key_expired 1000 (new_key sample_key_env 0 sample_fresh sample_create)"
    by (simp add: key_expired_def new_key_def sample_create_def)
  show ?thesis
    using api_key_lifecycle [OF ok c, of "Some ''events:read''" 1000 500] n
    by (simp add: sample_fresh_def sample_create_def sample_key_env_def truthy_str_def)
qed


definition row_grants :: "int \<Rightarrow> string \<Rightarrow> environment \<Rightarrow> string list \<Rightarrow> api_key \<Rightarrow> bool" where
  "row_grants now t e ss r \<longleftrightarrow> ak_revoked_at r = None \<and> \<not> key_expired now r \<and>
     ak_tenant_id r = t \<and> ak_environment r = e \<and>
     ss = (case ak_scopes r of None \<Rightarrow> [''events:write'', ''events:read''] | Some x \<Rightarrow> x)"

text \<open>
  What a valid answer rests on: the demo list, never in production; a stored key that is
  neither revoked nor expired and whose hash the presented secret has; a key of the Supabase
  store with that hash; or, for a raw key without a secret, a stored key whose identifier
  the raw key is a \<^verbatim>\<open>LIKE\<close> prefix of.  Except for a demo key with a secret, the required
  scope is among the scopes of the answer.
\<close>

theorem key_answer_justified:
  assumes "fst (authenticateKey env now req k keys) = Inr (Key_valid t e ss)"
  shows "(\<not> ke_production env \<and> t = ''tenant_system_default'' \<and> ss = VALID_API_KEY_SCOPES \<and>
       key_id_of k \<in> set ALLOWED_DEMO_KEY_IDS) \<or>
     (truthy_str req \<longrightarrow> the req \<in> set ss \<or> ''*'' \<in> set ss) \<and>
     ((CHR ''.'' \<in> set k \<and> (\<exists>r \<in> set keys. row_grants now t e ss r \<and> ak_key_id r = key_id_of k \<and>
         ak_secret_hash r = ke_sha256 env (secret_of k))) \<or>
      (CHR ''.'' \<in> set k \<and> (\<exists>sb. ke_supabase env (ke_sha256 env (secret_of k)) = Some sb \<and> t = sk_tenant_id sb \<and>
         sk_key_hash sb = ke_sha256 env (secret_of k) \<and> \<not> sk_revoked sb \<and> e = Env_test \<and> ss = sk_scopes sb)) \<or>
      (CHR ''.'' \<notin> set k \<and> (\<exists>r \<in> set (publishable_rows (key_id_of k) keys). row_grants now t e ss r)))"
proof (cases "CHR ''.'' \<in> set k")
  case False
  then have tw: "takeWhile (\<lambda>c. c \<noteq> CHR ''.'') k = k" by (subst takeWhile_eq_all_conv) auto
  have id: "key_id_of k = strip_prefix k" unfolding key_id_of_def tw ..
  show ?thesis
    using assms False
    by (auto simp: id authenticateKey_def authenticate_publishable_def scope_reply_valid row_grants_def Let_def
        split: if_splits list.splits)
next
  case True
  obtain ro keys1 where row: "key_row env now (key_id_of k) (ke_sha256 env (secret_of k)) keys = (ro, keys1)"
    by fastforce
  from assms True row show ?thesis
    by (auto simp: authenticateKey_def key_id_of_def secret_of_def scope_reply_valid row_grants_def key_row_def
        supabase_row_def Let_def find_Some_iff split: if_splits option.splits)
qed

theorem key_answer_justified_witness:
  "(\<exists>r \<in> set [new_key sample_key_env 0 sample_fresh sample_create].
     row_grants 1000 ''t1'' Env_live [''events:read''] r)"
proof -
  have "fst (authenticateKey sample_key_env 1000 (Some ''events:read'') ''ctrl_live_0a1b.5e''
     [new_key sample_key_env 0 sample_fresh sample_create]) = Inr (Key_valid ''t1'' Env_live [''events:read''])"
    by (simp add: authenticateKey_def is_ctrl_key_def startsWith_def key_row_def strip_prefix_def key_expired_def
        sample_key_env_def sample_fresh_def sample_create_def new_key_def scope_reply_def truthy_str_def prefix_def Let_def)
  from key_answer_justified [OF this] show ?thesis by (auto simp: sample_key_env_def)
qed

text \<open>The bare prefix of a key authenticates as the first key of the table, in production too.\<close>

theorem bare_prefix_authenticates:
  assumes "ak_revoked_at r = None" and "\<not> key_expired now r"
  shows "fst (authenticateKey env now None ''ul_live_'' (r # keys)) =
     Inr (Key_valid (ak_tenant_id r) (ak_environment r)
       (case ak_scopes r of None \<Rightarrow> [''events:write'', ''events:read''] | Some ss \<Rightarrow> ss))"
  using assms
  by (simp add: authenticateKey_def is_ctrl_key_def is_legacy_key_def startsWith_def authenticate_publishable_def
      strip_prefix_def publishable_rows_def ALLOWED_DEMO_KEY_IDS_def scope_reply_def truthy_str_def prefix_def Let_def)

text \<open>
  A revoked key comes back: Supabase marks a key revoked by its \<^verbatim>\<open>id\<close> only, so a key revoked
  by its \<^verbatim>\<open>key_id\<close> stays active there; presenting its secret under an unknown identifier
  authenticates, and replaces the revoked row by an unrevoked one.
\<close>

theorem revoked_key_revived:
  assumes "CHR ''.'' \<notin> set kid" and "kid \<notin> ak_key_id ` set keys" and "ke_tenant_exists env (sk_tenant_id sb)"
    and "ke_supabase env (ke_sha256 env secret) = Some sb" and "sk_key_hash sb = ke_sha256 env secret"
    and "\<not> sk_revoked sb" and "sk_expires_at sb = None"
  shows "fst (authenticateKey env now None (key_prefix e @ kid @ ''.'' @ secret) keys) =
     Inr (Key_valid (sk_tenant_id sb) Env_test (sk_scopes sb))"
    and "\<exists>r \<in> set (snd (authenticateKey env now None (key_prefix e @ kid @ ''.'' @ secret) keys)).
      ak_id r = sk_id sb \<and> ak_revoked_at r = None"
proof -
  define k where "k = key_prefix e @ kid @ ''.'' @ secret"
  note parts = raw_key_parts [OF assms(1), of e secret, folded k_def]
  have dot: "CHR ''.'' \<in> set k" by (simp add: k_def)
  have none: "List.find (\<lambda>r. ak_key_id r = kid) keys = None" using assms(2) by (auto simp: find_none)
  have row: "key_row env now (key_id_of k) (ke_sha256 env (secret_of k)) keys =
      (Some (supabase_row now kid sb), replace_row env (supabase_row now kid sb) keys)"
    using none assms(4,6) parts by (simp add: key_row_def supabase_row_def Let_def)
  have "authenticateKey env now None k keys =
      (Inr (Key_valid (sk_tenant_id sb) Env_test (sk_scopes sb)),
       touch now (sk_id sb) (replace_row env (supabase_row now kid sb) keys))"
    using parts(3) dot row [unfolded key_id_of_def secret_of_def] parts(2) [unfolded secret_of_def] assms(5,7)
    by (simp add: authenticateKey_def Let_def) (simp add: supabase_row_def key_expired_def scope_reply_def truthy_str_def)
  then show "fst (authenticateKey env now None (key_prefix e @ kid @ ''.'' @ secret) keys) =
       Inr (Key_valid (sk_tenant_id sb) Env_test (sk_scopes sb))"
    and "\<exists>r \<in> set (snd (authenticateKey env now None (key_prefix e @ kid @ ''.'' @ secret) keys)).
       ak_id r = sk_id sb \<and> ak_revoked_at r = None"
    unfolding k_def [symmetric] using assms(3) by (auto simp: touch_def replace_row_def supabase_row_def)
qed

end
