(* ===== verification/Access.thy ===== *)
theory Access
  imports Api_Keys Cache
begin

text \<open>
  Who a request speaks for: sessions (\<^verbatim>\<open>src/security/session_auth.ts\<close>), the JWT middleware
  and its roles (\<^verbatim>\<open>src/security/auth.ts\<close>), the permission table (\<^verbatim>\<open>rbac.ts\<close>), the tenant
  middleware (\<^verbatim>\<open>tenancy.ts\<close>) and the tenant guard (\<^verbatim>\<open>tenant_guard.ts\<close>).  What the JWT
  library and the Supabase service answer about a token is a parameter; a claim that is not
  a string is absent.
\<close>

section \<open>Permissions\<close>

datatype user_role = Viewer | Analyst | Operator | Admin | Owner

datatype permission =
    CanReadData | CanTriggerRuns | CanReviewDrafts | CanConfigureIntegrations | CanManageApiKeys
  | CanRotateOwnerCredentials | CanModifySafetyCeilings | CanMarkProviderRecovery

fun ROLE_PERMISSIONS :: "user_role \<Rightarrow> permission list" where
  "ROLE_PERMISSIONS Viewer = [CanReadData]"
| "ROLE_PERMISSIONS Analyst = [CanReadData, CanReviewDrafts]"
| "ROLE_PERMISSIONS Operator = [CanReadData, CanTriggerRuns, CanReviewDrafts, CanManageApiKeys]"
| "ROLE_PERMISSIONS Admin =
     [CanReadData, CanTriggerRuns, CanReviewDrafts, CanConfigureIntegrations, CanManageApiKeys,
      CanRotateOwnerCredentials]"
| "ROLE_PERMISSIONS Owner =
     [CanReadData, CanTriggerRuns, CanReviewDrafts, CanConfigureIntegrations, CanManageApiKeys,
      CanRotateOwnerCredentials, CanModifySafetyCeilings]"

fun role_of :: "string \<Rightarrow> user_role option" where
  "role_of s = (if s = ''Viewer'' then Some Viewer else if s = ''Analyst'' then Some Analyst
     else if s = ''Operator'' then Some Operator else if s = ''Admin'' then Some Admin
     else if s = ''Owner'' then Some Owner else None)"

definition hasPermission :: "string \<Rightarrow> permission \<Rightarrow> bool" where
  "hasPermission role p = (case role_of role of None \<Rightarrow> False | Some r \<Rightarrow> p \<in> set (ROLE_PERMISSIONS r))"

section \<open>Tokens\<close>

record jwt_claims =
  jc_userId :: "string option"
  jc_id :: "string option"
  jc_sub :: "string option"
  jc_tenantId :: "string option"
  jc_merchant_id :: "string option"
  jc_email :: "string option"
  jc_role :: "string option"
  jc_mfaVerified :: bool
  jc_sessionId :: "string option"
  jc_jti :: "string option"

record supabase_user =
  su_id :: string
  su_email :: "string option"
  su_role :: "string option"
  su_tenantId :: "string option"

record access_env =
  ax_keys :: key_env
  ax_node_env :: "string option"
  ax_auth_required :: "string option"
  ax_jwt_secret :: "string option"
  ax_jwt_verify :: "int \<Rightarrow> string \<Rightarrow> string \<Rightarrow> jwt_claims option"
  ax_jwt_decode :: "string \<Rightarrow> jwt_claims option"
  ax_jwt_sign :: "int \<Rightarrow> int \<Rightarrow> jwt_claims \<Rightarrow> string \<Rightarrow> string"
  ax_supabase_user :: "string \<Rightarrow> supabase_user option"

record session_user =
  se_userId :: string
  se_tenantId :: string
  se_email :: string
  se_role :: string
  se_mfaVerified :: bool

record session_row =
  sr_id :: string
  sr_user_id :: string
  sr_tenant_id :: string
  sr_token_hash :: string
  sr_role :: string
  sr_ip_address :: string
  sr_user_agent :: string
  sr_expires_at :: int
  sr_created_at :: int
  sr_revoked_at :: "int option"

record access_state =
  as_sessions :: "session_row list"
  as_tenants :: "(string \<times> string) list"
  as_users :: "(string \<times> string) list"
  as_keys :: "api_key list"
  as_cache :: cache

section \<open>Sessions\<close>

definition session_secret :: "access_env \<Rightarrow> string" where
  "session_secret env = or_opt (ax_jwt_secret env) ''ctrl_v1_jwt_session_secret_2026''"

record session_params =
  sp_userId :: string
  sp_tenantId :: string
  sp_email :: string
  sp_role :: string
  sp_ip :: "string option"
  sp_agent :: "string option"
  sp_mfa :: bool

definition session_claims :: "string \<Rightarrow> session_params \<Rightarrow> jwt_claims" where
  "session_claims sid p = \<lparr>jc_userId = Some (sp_userId p), jc_id = None, jc_sub = None,
     jc_tenantId = Some (sp_tenantId p), jc_merchant_id = None, jc_email = Some (sp_email p),
     jc_role = Some (sp_role p), jc_mfaVerified = sp_mfa p, jc_sessionId = Some sid, jc_jti = None\<rparr>"

text \<open>\<^verbatim>\<open>INSERT OR IGNORE\<close> into a table of two unique columns.\<close>

definition insert_or_ignore :: "string \<times> string \<Rightarrow> (string \<times> string) list \<Rightarrow> (string \<times> string) list" where
  "insert_or_ignore r rows =
     (if fst r \<in> fst ` set rows \<or> snd r \<in> snd ` set rows then rows else rows @ [r])"

definition createSession ::
  "access_env \<Rightarrow> int \<Rightarrow> string \<Rightarrow> session_params \<Rightarrow> access_state \<Rightarrow> (key_error + string) \<times> access_state" where
  "createSession env now sid p st =
     (let token = ax_jwt_sign env now 1800 (session_claims sid p) (session_secret env);
          hash = ke_sha256 (ax_keys env) token;
          st1 = st\<lparr>as_tenants := insert_or_ignore (sp_tenantId p, ''slug_'' @ sp_tenantId p) (as_tenants st),
                   as_users := insert_or_ignore (sp_userId p, sp_email p) (as_users st)\<rparr>;
          row = \<lparr>sr_id = sid, sr_user_id = sp_userId p, sr_tenant_id = sp_tenantId p, sr_token_hash = hash,
                 sr_role = sp_role p, sr_ip_address = or_opt (sp_ip p) ''127.0.0.1'',
                 sr_user_agent = or_opt (sp_agent p) ''Unknown'', sr_expires_at = now + 1800 * 1000,
                 sr_created_at = now, sr_revoked_at = None\<rparr>
      in if (\<exists>s \<in> set (as_sessions st1). sr_id s = sid \<or> sr_token_hash s = hash) \<or>
            sp_tenantId p \<notin> fst ` set (as_tenants st1) \<or> sp_userId p \<notin> fst ` set (as_users st1)
         then (Inl ConstraintFailed, st1)
         else (Inr token, st1\<lparr>as_sessions := as_sessions st1 @ [row]\<rparr>))"

datatype session_reply = Session_invalid string | Session_valid session_user

fun first_some :: "string option list \<Rightarrow> string \<Rightarrow> string" where
  "first_some [] d = d"
| "first_some (x # xs) d = or_opt x (first_some xs d)"

definition session_user_of :: "jwt_claims \<Rightarrow> session_user" where
  "session_user_of c =
     \<lparr>se_userId = first_some [jc_userId c, jc_id c, jc_sub c] ''usr_unknown'',
      se_tenantId = first_some [jc_tenantId c, jc_merchant_id c]
        (''tnt_'' @ take 8 (first_some [jc_userId c, jc_id c, jc_sub c] ''usr'')),
      se_email = or_opt (jc_email c) ''merchant@ctrl.internal'',
      se_role = or_opt (jc_role c) ''Owner'', se_mfaVerified = jc_mfaVerified c\<rparr>"

definition names_user :: "jwt_claims \<Rightarrow> bool" where
  "names_user c \<longleftrightarrow> truthy_str (jc_userId c) \<or> truthy_str (jc_id c) \<or> truthy_str (jc_sub c)"

definition decode_session :: "access_env \<Rightarrow> int \<Rightarrow> string \<Rightarrow> jwt_claims option" where
  "decode_session env now token =
     (case ax_jwt_verify env now token (session_secret env) of
        Some c \<Rightarrow> Some c
      | None \<Rightarrow>
          (case ax_jwt_verify env now token ''ctrl_secure_jwt_secret_key_2026'' of
             Some c \<Rightarrow> Some c
           | None \<Rightarrow>
               (case ax_jwt_verify env now token ''ctrl_v1_jwt_session_secret_2026'' of
                  Some c \<Rightarrow> Some c
                | None \<Rightarrow>
                    (case ax_jwt_decode env token of
                       None \<Rightarrow> None
                     | Some c \<Rightarrow> if names_user c then Some c else None))))"

definition validateSession :: "access_env \<Rightarrow> int \<Rightarrow> string \<Rightarrow> access_state \<Rightarrow> session_reply" where
  "validateSession env now token st =
     (case decode_session env now token of
        None \<Rightarrow> Session_invalid ''Invalid session token signature''
      | Some c \<Rightarrow>
          (case List.find (\<lambda>s. sr_token_hash s = ke_sha256 (ax_keys env) token) (as_sessions st) of
             None \<Rightarrow> Session_valid (session_user_of c)
           | Some s \<Rightarrow>
               if sr_revoked_at s \<noteq> None then Session_invalid ''Session has been revoked''
               else if sr_expires_at s < now then Session_invalid ''Session has expired''
               else Session_valid (session_user_of c)))"

definition revoke_where :: "(session_row \<Rightarrow> bool) \<Rightarrow> int \<Rightarrow> access_state \<Rightarrow> bool \<times> access_state" where
  "revoke_where P now st =
     (let hit = (\<lambda>s. P s \<and> sr_revoked_at s = None)
      in (\<exists>s \<in> set (as_sessions st). hit s,
          st\<lparr>as_sessions := map (\<lambda>s. if hit s then s\<lparr>sr_revoked_at := Some now\<rparr> else s) (as_sessions st)\<rparr>))"

definition revokeSession :: "int \<Rightarrow> string \<Rightarrow> access_state \<Rightarrow> bool \<times> access_state" where
  "revokeSession now sid = revoke_where (\<lambda>s. sr_id s = sid) now"

definition revokeSessionByToken :: "access_env \<Rightarrow> int \<Rightarrow> string \<Rightarrow> access_state \<Rightarrow> bool \<times> access_state" where
  "revokeSessionByToken env now token =
     revoke_where (\<lambda>s. sr_token_hash s = ke_sha256 (ax_keys env) token) now"

section \<open>The JWT middleware and its roles\<close>

record auth_user =
  au_userId :: string
  au_role :: string
  au_merchant_id :: string
  au_tenant_id :: "string option"
  au_tenantId :: string
  au_jti :: "string option"

definition revokeToken :: "int \<Rightarrow> string \<Rightarrow> int \<Rightarrow> cache \<Rightarrow> cache" where
  "revokeToken now jti ttlSeconds c = cache_set now (''revoked:jti:'' @ jti) (CV_str ''1'') ttlSeconds c"

definition isTokenRevoked :: "int \<Rightarrow> string option \<Rightarrow> cache \<Rightarrow> bool \<times> cache" where
  "isTokenRevoked now jti c =
     (if \<not> truthy_str jti then (False, c)
      else let (v, c') = cache_get now (''revoked:jti:'' @ the jti) c in (v = Some (CV_str ''1''), c'))"

definition authorizeRole :: "string list \<Rightarrow> auth_user option \<Rightarrow> int option" where
  "authorizeRole allowedRoles user =
     (case user of
        None \<Rightarrow> Some 401
      | Some u \<Rightarrow>
          let userRole = toLowerCase (au_role u); allowed = map toLowerCase allowedRoles
          in if userRole = ''owner'' \<or> userRole = ''admin'' \<or> userRole \<in> set allowed \<or> ''*'' \<in> set allowed
             then None else Some 403)"

definition jwt_secret :: "access_env \<Rightarrow> string" where
  "jwt_secret env = or_opt (ax_jwt_secret env) ''ctrl_secure_jwt_secret_key_2026''"

definition jwt_user :: "jwt_claims \<Rightarrow> auth_user" where
  "jwt_user c =
     \<lparr>au_userId = first_some [jc_userId c, jc_id c] ''dev_operator'', au_role = or_opt (jc_role c) ''admin'',
      au_merchant_id = first_some [jc_merchant_id c, jc_tenantId c] ''tenant_system_default'', au_tenant_id = None,
      au_tenantId = first_some [jc_tenantId c, jc_merchant_id c] ''tenant_system_default'', au_jti = jc_jti c\<rparr>"

definition supabase_tenant :: "supabase_user \<Rightarrow> string" where
  "supabase_tenant u = or_opt (su_tenantId u) (''tnt_'' @ take 8 (su_id u))"

datatype jwt_reply = Jwt_next auth_user | Jwt_reply int | Jwt_throws key_error

definition is_ul_key :: "string \<Rightarrow> bool" where
  "is_ul_key t \<longleftrightarrow> startsWith t ''ul_live_'' \<or> startsWith t ''ul_test_''"

definition authenticate_token :: "access_env \<Rightarrow> int \<Rightarrow> string \<Rightarrow> access_state \<Rightarrow> jwt_reply \<times> access_state" where
  "authenticate_token env now token st =
     (case ax_jwt_verify env now token (jwt_secret env) of
        Some c \<Rightarrow>
          let (revoked, cache') = (if truthy_str (jc_jti c) then isTokenRevoked now (jc_jti c) (as_cache st)
                                   else (False, as_cache st));
              st1 = st\<lparr>as_cache := cache'\<rparr>
          in if revoked then (Jwt_reply 401, st1) else (Jwt_next (jwt_user c), st1)
      | None \<Rightarrow>
          (case ax_supabase_user env token of
             Some u \<Rightarrow>
               (Jwt_next \<lparr>au_userId = su_id u, au_role = or_opt (su_role u) ''Owner'',
                  au_merchant_id = supabase_tenant u, au_tenant_id = None, au_tenantId = supabase_tenant u,
                  au_jti = None\<rparr>, st)
           | None \<Rightarrow> (Jwt_reply 401, st)))"

definition key_user :: "string \<Rightarrow> auth_user" where
  "key_user t = \<lparr>au_userId = ''key_'' @ take 8 t, au_role = ''admin'', au_merchant_id = t,
     au_tenant_id = None, au_tenantId = t, au_jti = None\<rparr>"

definition authenticateJWT ::
  "access_env \<Rightarrow> int \<Rightarrow> string option \<Rightarrow> access_state \<Rightarrow> jwt_reply \<times> access_state" where
  "authenticateJWT env now authorization st =
     (if ax_node_env env \<noteq> Some ''production'' \<and> ax_auth_required env = Some ''false'' \<and> \<not> truthy_str authorization
      then (Jwt_next \<lparr>au_userId = ''dev_operator'', au_role = ''admin'', au_merchant_id = ''merchant_default'',
              au_tenant_id = None, au_tenantId = ''tenant_system_default'', au_jti = None\<rparr>, st)
      else if \<not> truthy_str authorization \<or> \<not> startsWith (the authorization) ''Bearer ''
      then (Jwt_reply 401, st)
      else
        let token = takeWhile (\<lambda>c. c \<noteq> CHR '' '') (drop 7 (the authorization))
        in if token = [] then (Jwt_reply 401, st)
           else if is_ul_key token
           then (case authenticateKey (ax_keys env) now None token (as_keys st) of
                   (r, keys) \<Rightarrow>
                     let st1 = st\<lparr>as_keys := keys\<rparr>
                     in (case r of
                           Inl e \<Rightarrow> (Jwt_throws e, st1)
                         | Inr (Key_valid t _ _) \<Rightarrow>
                             if t \<noteq> [] then (Jwt_next (key_user t), st1) else authenticate_token env now token st1
                         | Inr _ \<Rightarrow> authenticate_token env now token st1))
           else authenticate_token env now token st)"

section \<open>The tenant middleware\<close>

datatype auth_type = API_KEY | SESSION | WEBHOOK

record tenant_context =
  tc_tenantId :: string
  tc_environment :: environment
  tc_authType :: auth_type
  tc_scopes :: "string list option"
  tc_user :: "session_user option"

definition PROTECTED_MUTATION_PROPERTIES :: "string list" where
  "PROTECTED_MUTATION_PROPERTIES = [''tenant_id'', ''environment'', ''authority_result'', ''recovered'',
     ''amount_paid'', ''provider_status'', ''ledger_state'', ''agent_role'', ''safety_ceilings'']"

text \<open>The body maps a property to its string value, \<open>None\<close> standing for another kind of
  value; the answer is the property that is rejected.\<close>

definition validatePropertyLevelProtection ::
  "(string \<Rightarrow> string option option) \<Rightarrow> tenant_context option \<Rightarrow> string option" where
  "validatePropertyLevelProtection body ctx =
     List.find (\<lambda>prop. case body prop of
         None \<Rightarrow> False
       | Some v \<Rightarrow>
           \<not> (prop = ''environment'' \<and> (\<exists>c \<in> set_option ctx. v = Some (env_text (tc_environment c)))) \<and>
           \<not> (prop = ''tenant_id'' \<and> (\<exists>c \<in> set_option ctx. v = Some (tc_tenantId c))))
       PROTECTED_MUTATION_PROPERTIES"

definition assertTenantOwnership :: "string \<Rightarrow> string \<Rightarrow> bool" where
  "assertTenantOwnership authenticated resource \<longleftrightarrow> authenticated \<noteq> [] \<and> authenticated = resource"

datatype tenant_reply = Tenant_next tenant_context | Tenant_reply int | Tenant_throws key_error

definition dev_owner :: session_user where
  "dev_owner = \<lparr>se_userId = ''dev_operator'', se_tenantId = ''tenant_system_default'',
     se_email = ''dev@ctrl.internal'', se_role = ''Owner'', se_mfaVerified = True\<rparr>"

definition session_context :: "session_user \<Rightarrow> tenant_context" where
  "session_context u = \<lparr>tc_tenantId = se_tenantId u, tc_environment = Env_test, tc_authType = SESSION,
     tc_scopes = None, tc_user = Some u\<rparr>"

definition supabase_session :: "supabase_user \<Rightarrow> session_user" where
  "supabase_session u = \<lparr>se_userId = su_id u, se_tenantId = supabase_tenant u,
     se_email = or_opt (su_email u) ''merchant@supabase.auth'', se_role = or_opt (su_role u) ''Owner'',
     se_mfaVerified = True\<rparr>"

definition authenticateTenant ::
  "access_env \<Rightarrow> int \<Rightarrow> string option \<Rightarrow> string option \<Rightarrow> string option \<Rightarrow> string option \<Rightarrow> access_state \<Rightarrow>
   tenant_reply \<times> access_state" where
  "authenticateTenant env now requiredScope authorization queryToken queryApiKey st =
     (let header = (if truthy_str authorization then authorization
                    else if queryToken \<noteq> None then Some (''Bearer '' @ the queryToken)
                    else if queryApiKey \<noteq> None then Some (''Bearer '' @ the queryApiKey)
                    else None);
          bearer = truthy_str header \<and> startsWith (the header) ''Bearer ''
      in if ax_auth_required env = Some ''false'' \<and> \<not> bearer
         then (Tenant_next (session_context dev_owner), st)
         else if \<not> bearer then (Tenant_reply 401, st)
         else
           let token = trim (drop 7 (the header))
           in if is_ul_key token
              then (case authenticateKey (ax_keys env) now None token (as_keys st) of
                      (r, keys) \<Rightarrow>
                        let st1 = st\<lparr>as_keys := keys\<rparr>
                        in (case r of
                              Inl e \<Rightarrow> (Tenant_throws e, st1)
                            | Inr (Key_valid t e ss) \<Rightarrow>
                                if t = [] then (Tenant_reply 401, st1)
                                else if truthy_str requiredScope \<and> the requiredScope \<notin> set ss
                                then (Tenant_reply 403, st1)
                                else (Tenant_next \<lparr>tc_tenantId = t, tc_environment = e, tc_authType = API_KEY,
                                        tc_scopes = Some ss, tc_user = None\<rparr>, st1)
                            | Inr _ \<Rightarrow> (Tenant_reply 401, st1)))
              else (case validateSession env now token st of
                      Session_valid u \<Rightarrow> (Tenant_next (session_context u), st)
                    | Session_invalid _ \<Rightarrow>
                        (case ax_supabase_user env token of
                           Some u \<Rightarrow> (Tenant_next (session_context (supabase_session u)), st)
                         | None \<Rightarrow> (Tenant_reply 401, st))))"

section \<open>The tenant guard\<close>

record guarded_request =
  gr_tenantContext :: "tenant_context option"
  gr_user :: "auth_user option"
  gr_apiKey_tenantId :: "string option"
  gr_header_tenant :: "string option"
  gr_query_tenant_id :: "string option"
  gr_query_tenantId :: "string option"

definition trimmed :: "string option \<Rightarrow> string option" where
  "trimmed s = (case s of None \<Rightarrow> None | Some t \<Rightarrow> if trim t = [] then None else Some (trim t))"

definition truthy :: "string option \<Rightarrow> string option" where
  "truthy s = (if truthy_str s then s else None)"

fun first_present :: "'a option list \<Rightarrow> 'a option" where
  "first_present [] = None"
| "first_present (None # xs) = first_present xs"
| "first_present (Some x # xs) = Some x"

definition resolveTenantId :: "access_env \<Rightarrow> bool \<Rightarrow> guarded_request \<Rightarrow> string option" where
  "resolveTenantId env allowSystemDefault rq =
     first_present
       [truthy (map_option tc_tenantId (gr_tenantContext rq)),
        truthy (Option.bind (gr_user rq) au_tenant_id),
        truthy (map_option au_tenantId (gr_user rq)),
        truthy (gr_apiKey_tenantId rq),
        trimmed (gr_header_tenant rq),
        (if ax_node_env env \<noteq> Some ''production''
         then trimmed (if truthy_str (gr_query_tenant_id rq) then gr_query_tenant_id rq else gr_query_tenantId rq)
         else None),
        (if allowSystemDefault \<or> ax_auth_required env = Some ''false'' \<or> ax_node_env env = Some ''test''
         then Some ''tenant_system_default'' else None)]"

definition assertTenantAccess :: "string \<Rightarrow> string \<Rightarrow> bool" where
  "assertTenantAccess authenticated target \<longleftrightarrow>
     authenticated \<noteq> [] \<and> target \<noteq> [] \<and> (authenticated = ''tenant_system_default'' \<or> authenticated = target)"

definition tenantGuard ::
  "access_env \<Rightarrow> bool option \<Rightarrow> guarded_request \<Rightarrow> int + guarded_request" where
  "tenantGuard env allowSystemDefault rq =
     (case resolveTenantId env (case allowSystemDefault of None \<Rightarrow> True | Some b \<Rightarrow> b) rq of
        None \<Rightarrow> Inl 401
      | Some t \<Rightarrow>
          Inr (rq\<lparr>gr_tenantContext := Some (case gr_tenantContext rq of
                 None \<Rightarrow> \<lparr>tc_tenantId = t, tc_environment = Env_test, tc_authType = SESSION, tc_scopes = None,
                          tc_user = None\<rparr>
               | Some c \<Rightarrow> c\<lparr>tc_tenantId := t\<rparr>)\<rparr>))"

section \<open>Lemmas\<close>

lemma role_permissions_grow:
  "set (ROLE_PERMISSIONS Viewer) \<subseteq> set (ROLE_PERMISSIONS Analyst) \<and>
   set (ROLE_PERMISSIONS Analyst) \<subseteq> set (ROLE_PERMISSIONS Operator) \<and>
   set (ROLE_PERMISSIONS Operator) \<subseteq> set (ROLE_PERMISSIONS Admin) \<and>
   set (ROLE_PERMISSIONS Admin) \<subseteq> set (ROLE_PERMISSIONS Owner) \<and>
   (\<forall>r. CanMarkProviderRecovery \<notin> set (ROLE_PERMISSIONS r))"
proof -
  have "CanMarkProviderRecovery \<notin> set (ROLE_PERMISSIONS r)" for r by (cases r) simp_all
  then show ?thesis by simp
qed

lemma find_map_keep:
  "(\<And>x. P (g x) = P x) \<Longrightarrow> List.find P (map g xs) = map_option g (List.find P xs)"
  by (induction xs) auto

text \<open>The row of a token, after the session was created and after its revocation.\<close>

definition session_of :: "access_env \<Rightarrow> string \<Rightarrow> access_state \<Rightarrow> session_row option" where
  "session_of env token st =
     List.find (\<lambda>s. sr_token_hash s = ke_sha256 (ax_keys env) token) (as_sessions st)"

lemma createSession_Inr:
  assumes "createSession env now sid p st = (Inr token, st')"
  shows "token = ax_jwt_sign env now 1800 (session_claims sid p) (session_secret env)"
    and "\<exists>s. session_of env token st' = Some s \<and> sr_id s = sid \<and> sr_expires_at s = now + 1800000 \<and>
      sr_revoked_at s = None"
proof -
  show t: "token = ax_jwt_sign env now 1800 (session_claims sid p) (session_secret env)"
    using assms by (auto simp: createSession_def Let_def split: if_splits)
  from assms have "\<forall>s \<in> set (as_sessions st). sr_token_hash s \<noteq> ke_sha256 (ax_keys env) token"
    and r: "\<exists>s. as_sessions st' = as_sessions st @ [s] \<and> sr_token_hash s = ke_sha256 (ax_keys env) token \<and>
      sr_id s = sid \<and> sr_expires_at s = now + 1800000 \<and> sr_revoked_at s = None"
    unfolding t by (auto simp: createSession_def Let_def split: if_splits)
  then have n: "List.find (\<lambda>s. sr_token_hash s = ke_sha256 (ax_keys env) token) (as_sessions st) = None"
    by (simp add: find_None_iff)
  have app: "List.find P xs = None \<Longrightarrow> P s \<Longrightarrow> List.find P (xs @ [s]) = Some s" for P xs and s :: session_row
    by (induction xs) (auto split: if_splits)
  from r app [OF n] show "\<exists>s. session_of env token st' = Some s \<and> sr_id s = sid \<and>
      sr_expires_at s = now + 1800000 \<and> sr_revoked_at s = None"
    by (auto simp: session_of_def)
qed

lemma revoked_session:
  assumes "session_of env token st = Some s" and "P s"
  shows "\<exists>s'. session_of env token (snd (revoke_where P now st)) = Some s' \<and> sr_revoked_at s' \<noteq> None"
proof -
  have "session_of env token (snd (revoke_where P now st)) =
      map_option (\<lambda>s. if P s \<and> sr_revoked_at s = None then s\<lparr>sr_revoked_at := Some now\<rparr> else s) (session_of env token st)"
    unfolding session_of_def revoke_where_def Let_def snd_conv
    by (simp add: find_map_keep [where P = "\<lambda>s. sr_token_hash s = _"])
  then show ?thesis using assms by auto
qed

lemma validate_by_row:
  "validateSession env now token st =
     (case decode_session env now token of
        None \<Rightarrow> Session_invalid ''Invalid session token signature''
      | Some c \<Rightarrow>
          (case session_of env token st of
             None \<Rightarrow> Session_valid (session_user_of c)
           | Some s \<Rightarrow>
               if sr_revoked_at s \<noteq> None then Session_invalid ''Session has been revoked''
               else if sr_expires_at s < now then Session_invalid ''Session has expired''
               else Session_valid (session_user_of c)))"
  unfolding validateSession_def session_of_def ..

definition session_ok :: "session_reply \<Rightarrow> bool" where
  "session_ok r = (case r of Session_valid _ \<Rightarrow> True | _ \<Rightarrow> False)"

section \<open>Properties\<close>

text \<open>
  C19. A session lives exactly from its creation to its revocation or its thirtieth minute:
  with a JWT library that verifies a token it signed until the token expires, the token of
  a new session is accepted in that time as the user it was made for; after the thirty
  minutes, or once it was revoked by its id or by its token, it is refused.
\<close>

theorem session_lifecycle:
  assumes "createSession env now sid p st = (Inr token, st')"
    and "\<forall>t. t div 1000 < now div 1000 + 1800 \<longrightarrow>
      ax_jwt_verify env t token (session_secret env) = Some (session_claims sid p)"
    and "sp_userId p \<noteq> []" and "sp_tenantId p \<noteq> []" and "sp_email p \<noteq> []" and "sp_role p \<noteq> []"
  shows "(t div 1000 < now div 1000 + 1800 \<longrightarrow> validateSession env t token st' =
       Session_valid \<lparr>se_userId = sp_userId p, se_tenantId = sp_tenantId p, se_email = sp_email p,
         se_role = sp_role p, se_mfaVerified = sp_mfa p\<rparr>) \<and>
     (now + 1800000 < t \<longrightarrow> \<not> session_ok (validateSession env t token st')) \<and>
     \<not> session_ok (validateSession env t token (snd (revokeSession t' sid st'))) \<and>
     \<not> session_ok (validateSession env t token (snd (revokeSessionByToken env t' token st')))"
proof -
  note c = createSession_Inr [OF assms(1)]
  then obtain s where s: "session_of env token st' = Some s" "sr_id s = sid" "sr_expires_at s = now + 1800000"
      "sr_revoked_at s = None" by blast
  have h: "sr_token_hash s = ke_sha256 (ax_keys env) token"
    using s(1) by (auto simp: session_of_def find_Some_iff)
  have "decode_session env t token = Some (session_claims sid p) \<and> t \<le> now + 1800000"
    if "t div 1000 < now div 1000 + 1800"
    using assms(2) that by (simp add: decode_session_def)
  moreover have "session_user_of (session_claims sid p) =
      \<lparr>se_userId = sp_userId p, se_tenantId = sp_tenantId p, se_email = sp_email p, se_role = sp_role p,
        se_mfaVerified = sp_mfa p\<rparr>"
    using assms(3-) by (simp add: session_user_of_def session_claims_def or_opt_def or_str_def)
  moreover have "\<not> session_ok (validateSession env t token (snd (revokeSession t' sid st')))"
    using revoked_session [OF s(1), of "\<lambda>x. sr_id x = sid" t'] s(2)
    by (auto simp: validate_by_row revokeSession_def session_ok_def split: option.split)
  moreover have "\<not> session_ok (validateSession env t token (snd (revokeSessionByToken env t' token st')))"
    using revoked_session [OF s(1), of "\<lambda>x. sr_token_hash x = ke_sha256 (ax_keys env) token" t'] h
    by (auto simp: validate_by_row revokeSessionByToken_def session_ok_def split: option.split)
  ultimately show ?thesis
    using s by (auto simp: validate_by_row session_ok_def split: option.split)
qed


definition sample_claims_params :: session_params where
  "sample_claims_params = \<lparr>sp_userId = ''u1'', sp_tenantId = ''t1'', sp_email = ''u@x'', sp_role = ''Viewer'',
     sp_ip = None, sp_agent = None, sp_mfa = False\<rparr>"

definition sample_access_env :: access_env where
  "sample_access_env = \<lparr>ax_keys = sample_key_env, ax_node_env = Some ''production'', ax_auth_required = None,
     ax_jwt_secret = Some ''k'',
     ax_jwt_verify = (\<lambda>t tok k. if tok = ''good'' \<and> k = ''k'' \<and> t div 1000 < 1800
                         then Some (session_claims ''s1'' sample_claims_params) else None),
     ax_jwt_decode = (\<lambda>tok. if tok = ''good'' \<or> tok = ''forged''
                         then Some (session_claims ''s1'' sample_claims_params) else None),
     ax_jwt_sign = (\<lambda>now ttl c k. ''good''), ax_supabase_user = (\<lambda>_. None)\<rparr>"

definition empty_access :: access_state where
  "empty_access = \<lparr>as_sessions = [], as_tenants = [], as_users = [], as_keys = [], as_cache = []\<rparr>"

theorem session_lifecycle_witness:
  "validateSession sample_access_env 60000 ''good''
     (snd (createSession sample_access_env 0 ''s1'' sample_claims_params empty_access)) =
   Session_valid \<lparr>se_userId = ''u1'', se_tenantId = ''t1'', se_email = ''u@x'', se_role = ''Viewer'', se_mfaVerified = False\<rparr>"
proof -
  obtain st' where c: "createSession sample_access_env 0 ''s1'' sample_claims_params empty_access = (Inr ''good'', st')"
    by (simp add: createSession_def empty_access_def sample_access_env_def sample_claims_params_def
        insert_or_ignore_def Let_def)
  have "\<forall>t. t div 1000 < 0 div 1000 + 1800 \<longrightarrow>
      ax_jwt_verify sample_access_env t ''good'' (session_secret sample_access_env) =
      Some (session_claims ''s1'' sample_claims_params)"
    by (simp add: sample_access_env_def session_secret_def or_opt_def or_str_def)
  from session_lifecycle [OF c this, of 60000] c show ?thesis by (simp add: sample_claims_params_def)
qed

text \<open>
  The signature of a session token is optional: a token that no secret verifies and no
  session row knows is let through, in every environment, as the user, tenant and role that
  its unverified payload claims, with the role Owner if it claims none.
\<close>

theorem unsigned_token_accepted:
  assumes "\<forall>k. ax_jwt_verify env now token k = None" and "ax_jwt_decode env token = Some c" and "names_user c"
    and "session_of env token st = None" and "\<not> is_ul_key token" and "trim token = token" and "token \<noteq> []"
  shows "authenticateTenant env now req (Some (''Bearer '' @ token)) q1 q2 st =
     (Tenant_next (session_context (session_user_of c)), st) \<and>
   (jc_role c = None \<longrightarrow> se_role (session_user_of c) = ''Owner'') \<and>
   (truthy_str (jc_tenantId c) \<longrightarrow> se_tenantId (session_user_of c) = the (jc_tenantId c))"
proof -
  have "validateSession env now token st = Session_valid (session_user_of c)"
    using assms(1-4) by (simp add: validate_by_row decode_session_def)
  then have "authenticateTenant env now req (Some (''Bearer '' @ token)) q1 q2 st =
      (Tenant_next (session_context (session_user_of c)), st)"
    using assms(5-7) by (simp add: authenticateTenant_def startsWith_def truthy_str_def Let_def)
  moreover have "jc_role c = None \<longrightarrow> se_role (session_user_of c) = ''Owner''"
    by (simp add: session_user_of_def or_opt_def)
  moreover have "truthy_str (jc_tenantId c) \<longrightarrow> se_tenantId (session_user_of c) = the (jc_tenantId c)"
    by (auto simp: session_user_of_def or_opt_def or_str_def truthy_str_def split: option.splits)
  ultimately show ?thesis by blast
qed

theorem unsigned_token_accepted_witness:
  "fst (authenticateTenant sample_access_env 0 None (Some ''Bearer forged'') None None empty_access) =
     Tenant_next (session_context (session_user_of (session_claims ''s1'' sample_claims_params)))"
proof -
  have "\<forall>k. ax_jwt_verify sample_access_env 0 ''forged'' k = None"
      "ax_jwt_decode sample_access_env ''forged'' = Some (session_claims ''s1'' sample_claims_params)"
      "names_user (session_claims ''s1'' sample_claims_params)" "session_of sample_access_env ''forged'' empty_access = None"
      "\<not> is_ul_key ''forged''" "trim ''forged'' = ''forged''" "''forged'' \<noteq> []"
    by (simp_all add: sample_access_env_def names_user_def session_claims_def sample_claims_params_def truthy_str_def
        session_of_def empty_access_def is_ul_key_def startsWith_def trim_def is_ws_def prefix_def)
  from unsigned_token_accepted [OF this] show ?thesis by simp
qed

text \<open>
  A revoked token is refused: for the time to live of its revocation every request with
  a token of that identifier is answered 401, whatever else the token says, provided the
  cache had room for the entry.
\<close>

theorem revoked_jti_refused:
  assumes "ax_jwt_verify env t token (jwt_secret env) = Some c" and "jc_jti c = Some jti" and "jti \<noteq> []"
    and "length (as_cache st) < MAX_FALLBACK_KEYS" and "t \<le> now + ttl * 1000"
  shows "fst (authenticate_token env t token (st\<lparr>as_cache := revokeToken now jti ttl (as_cache st)\<rparr>)) = Jwt_reply 401"
proof -
  let ?c = "revokeToken now jti ttl (as_cache st)"
  have "fst (cache_get t (''revoked:jti:'' @ jti) ?c) = Some (CV_str ''1'')"
    using live_cache_set [OF assms(4), of now _ "CV_str ''1''" ttl t] assms(5)
    by (simp add: cache_get_value revokeToken_def)
  then show ?thesis
    using assms(1-3) by (auto simp: authenticate_token_def isTokenRevoked_def truthy_str_def Let_def split: prod.splits)
qed

definition jti_env :: access_env where
  "jti_env = sample_access_env\<lparr>ax_jwt_verify := (\<lambda>t tok k. Some
     \<lparr>jc_userId = Some ''u1'', jc_id = None, jc_sub = None, jc_tenantId = Some ''t1'', jc_merchant_id = None,
      jc_email = None, jc_role = None, jc_mfaVerified = False, jc_sessionId = None, jc_jti = Some ''j1''\<rparr>)\<rparr>"

theorem revoked_jti_refused_witness:
  "fst (authenticate_token jti_env 5000 ''tok'' (empty_access\<lparr>as_cache := revokeToken 0 ''j1'' 60 []\<rparr>)) = Jwt_reply 401"
  using revoked_jti_refused [of jti_env 5000 "''tok''" _ "''j1''" empty_access 0 60]
  by (simp add: jti_env_def empty_access_def MAX_FALLBACK_KEYS_def)


text \<open>The guard keeps an authenticated tenant, and by default hands a request without any
  identity the system tenant, which may access every tenant.\<close>

definition anonymous :: "guarded_request \<Rightarrow> bool" where
  "anonymous rq \<longleftrightarrow> gr_tenantContext rq = None \<and> gr_user rq = None \<and> gr_apiKey_tenantId rq = None \<and>
     gr_header_tenant rq = None \<and> gr_query_tenant_id rq = None \<and> gr_query_tenantId rq = None"

theorem tenant_guard_keeps_context:
  assumes "gr_tenantContext rq = Some c" and "tc_tenantId c \<noteq> []"
  shows "tenantGuard env d rq = Inr rq"
proof -
  have "truthy (Some (tc_tenantId c)) = Some (tc_tenantId c)" using assms(2) by (simp add: truthy_def truthy_str_def)
  then have "resolveTenantId env b rq = Some (tc_tenantId c)" for b
    using assms(1) by (simp add: resolveTenantId_def)
  then show ?thesis by (simp add: tenantGuard_def assms(1))
qed

theorem anonymous_gets_system_tenant:
  assumes "anonymous rq"
  shows "\<exists>rq' c. tenantGuard env None rq = Inr rq' \<and> gr_tenantContext rq' = Some c \<and>
      (\<forall>target. target \<noteq> [] \<longrightarrow> assertTenantAccess (tc_tenantId c) target)"
    and "ax_node_env env = Some ''production'' \<Longrightarrow> ax_auth_required env \<noteq> Some ''false'' \<Longrightarrow>
      tenantGuard env (Some False) rq = Inl 401"
  using assms
  by (auto simp: anonymous_def tenantGuard_def resolveTenantId_def truthy_def truthy_str_def trimmed_def
      assertTenantAccess_def)

text \<open>An API key that authenticates has the rights of an administrator, whatever its scopes;
  and the keys that the service issues are not recognised as keys.\<close>

theorem api_key_is_admin: "authorizeRole allowed (Some (key_user t)) = None"
  by (simp add: authorizeRole_def key_user_def toLowerCase_def lower_char_def Let_def)

theorem issued_key_not_recognised:
  assumes "createApiKey env now f p keys = Inr (raw, keys')"
  shows "\<not> is_ul_key raw"
  unfolding createApiKey_Inr(1) [OF assms]
  by (cases "cp_environment p") (simp_all add: is_ul_key_def startsWith_def key_prefix_def)

end
