(* ===== verification/Delivery.thy ===== *)
theory Delivery
  imports Reconcile Perception
begin

text \<open>
  The delivery queue of inbound webhooks, \<^verbatim>\<open>src/webhooks/queue.ts\<close> with its table in
  \<^verbatim>\<open>src/db/database.ts\<close> and the event schema of \<^verbatim>\<open>src/security/schemas.ts\<close>: enqueueing, the
  processing of a delivery into perception or the reconciler, retries with back-off, the
  dead letters and their requeueing.  \<^verbatim>\<open>JSON.parse\<close> is the parameter \<open>dv_parse\<close>, which
  delivers the members a payload has; the e-mail test and the error text of the schema
  library are parameters; times are milliseconds.  The live broadcast is not modelled.
\<close>

section \<open>The table\<close>

datatype queue_status = Q_PENDING | Q_PROCESSING | Q_DELIVERED | Q_FAILED | Q_DEAD_LETTER

record delivery =
  dv_id :: string
  dv_tenant_id :: string
  dv_source :: string
  dv_event_id :: "string option"
  dv_event_type :: string
  dv_payload :: string
  dv_headers :: "string option"
  dv_status :: queue_status
  dv_attempts :: nat
  dv_max_attempts :: nat
  dv_last_error :: "string option"
  dv_next_retry_at :: "int option"
  dv_delivered_at :: "int option"
  dv_created_at :: int

record delivery_state =
  ds_queue :: "delivery list"
  ds_recon :: recon_state
  ds_processing :: bool

definition updateWebhookDeliveryStatus ::
  "string \<Rightarrow> queue_status \<Rightarrow> nat option \<Rightarrow> string option \<Rightarrow> int option \<Rightarrow> int option \<Rightarrow> delivery list \<Rightarrow> delivery list" where
  "updateWebhookDeliveryStatus did status attempts err retry delivered q =
     map (\<lambda>d. if dv_id d = did
              then d\<lparr>dv_status := status, dv_attempts := (case attempts of None \<Rightarrow> dv_attempts d | Some n \<Rightarrow> n),
                     dv_last_error := err, dv_next_retry_at := retry, dv_delivered_at := delivered\<rparr>
              else d) q"

definition is_due :: "int \<Rightarrow> delivery \<Rightarrow> bool" where
  "is_due now d \<longleftrightarrow> dv_status d \<in> {Q_PENDING, Q_FAILED} \<and>
     (case dv_next_retry_at d of None \<Rightarrow> True | Some t \<Rightarrow> t \<le> now)"

definition getDueWebhookRetries :: "int \<Rightarrow> nat \<Rightarrow> delivery list \<Rightarrow> delivery list" where
  "getDueWebhookRetries now limit q = take limit (sort_key dv_created_at (filter (is_due now) q))"

definition getWebhookDeliveryById :: "string \<Rightarrow> string \<Rightarrow> delivery list \<Rightarrow> delivery option" where
  "getWebhookDeliveryById did tenantId q = List.find (\<lambda>d. dv_id d = did \<and> dv_tenant_id d = tenantId) q"

definition requeueDeadLetterWebhooks :: "int \<Rightarrow> string \<Rightarrow> delivery list \<Rightarrow> nat \<times> delivery list" where
  "requeueDeadLetterWebhooks now tenantId q =
     (let hit = (\<lambda>d. dv_tenant_id d = tenantId \<and> dv_status d \<in> {Q_DEAD_LETTER, Q_FAILED})
      in (length (filter hit q),
          map (\<lambda>d. if hit d
                   then d\<lparr>dv_status := Q_PENDING, dv_attempts := 0,
                          dv_last_error := Some ''Manually requeued from Dead Letter Queue'',
                          dv_next_retry_at := Some now\<rparr>
                   else d) q))"

definition enqueue ::
  "string \<Rightarrow> int \<Rightarrow> string \<Rightarrow> string option \<Rightarrow> string option \<Rightarrow> string \<Rightarrow> string \<Rightarrow> string option \<Rightarrow>
   delivery list \<Rightarrow> delivery list option" where
  "enqueue did now tenantId source eventId eventType payload headers q =
     (if did \<in> dv_id ` set q then None
      else Some (q @ [\<lparr>dv_id = did, dv_tenant_id = tenantId, dv_source = or_opt source ''RAZORPAY_WEBHOOK'',
        dv_event_id = (if truthy_str eventId then eventId else None), dv_event_type = eventType,
        dv_payload = payload, dv_headers = (if truthy_str headers then headers else None),
        dv_status = Q_PENDING, dv_attempts = 0, dv_max_attempts = 5, dv_last_error = None,
        dv_next_retry_at = None, dv_delivered_at = None, dv_created_at = now\<rparr>]))"

section \<open>The event\<close>

record canonical_input =
  ci_event_id :: "string option"
  ci_source :: "string option"
  ci_provider :: "string option"
  ci_environment :: "string option"
  ci_payment_id :: "string option"
  ci_order_id :: "string option"
  ci_payment_link_id :: "string option"
  ci_amount_paise :: number
  ci_currency :: "string option"
  ci_status :: "string option"
  ci_failure_code :: "string option"
  ci_failure_description :: "string option"
  ci_failure_type :: "string option"
  ci_attempt_number :: "number option"
  ci_customer_reference :: "string option"
  ci_customer_email :: "string option"
  ci_customer_phone :: "string option"
  ci_metadata :: "json option"

record razorpay_payment =
  rz_id :: "string option"
  rz_order_id :: "string option"
  rz_amount :: number
  rz_currency :: "string option"
  rz_status :: "string option"
  rz_error_code :: "string option"
  rz_error_description :: "string option"
  rz_error_reason :: "string option"
  rz_email :: "string option"
  rz_contact :: "string option"
  rz_created_at :: "int option"
  rz_notes :: "json option"
  rz_notes_environment :: "string option"

text \<open>\<open>Wrong_types\<close> is a payload with a member of a type the schema does not admit.\<close>

datatype delivery_body =
    Not_json
  | Wrong_types
  | Canonical_body canonical_input
  | Razorpay_body "string option" razorpay_payment

record delivery_env =
  de_parse :: "string \<Rightarrow> delivery_body"
  de_is_email :: "string \<Rightarrow> bool"
  de_schema_errors :: "canonical_input \<Rightarrow> string"
  de_show_db_error :: "db_error \<Rightarrow> string"
  de_recon :: recon_env

record delivery_clock =
  dk_now :: string
  dk_now_ms :: int
  dk_led_id :: string
  dk_recon :: recon_call

definition canonical_status :: "string option \<Rightarrow> string option" where
  "canonical_status s =
     (if s = Some ''failed'' then Some ''failed''
      else if s = Some ''captured'' \<or> s = Some ''paid'' then Some ''paid'' else s)"

definition razorpay_to_canonical :: "int \<Rightarrow> delivery \<Rightarrow> string option \<Rightarrow> razorpay_payment \<Rightarrow> string + canonical_input" where
  "razorpay_to_canonical now_ms item event_id p =
     (if (case rz_created_at p of None \<Rightarrow> False | Some t \<Rightarrow> t \<noteq> 0 \<and> 8640000000000000 < \<bar>t * 1000\<bar>)
      then Inl ''Invalid time value''
      else Inr
        \<lparr>ci_event_id = Some (or_opt event_id (or_opt (dv_event_id item) (''evt_wh_'' @ show_int now_ms))),
         ci_source = Some (dv_source item), ci_provider = Some ''razorpay'',
         ci_environment = Some (or_opt (rz_notes_environment p) ''test''), ci_payment_id = rz_id p,
         ci_order_id = rz_order_id p, ci_payment_link_id = None, ci_amount_paise = rz_amount p,
         ci_currency = Some (or_opt (rz_currency p) ''INR''), ci_status = canonical_status (rz_status p),
         ci_failure_code = Some (or_opt (rz_error_code p) ''WEBHOOK_FAILURE''),
         ci_failure_description = Some (or_opt (rz_error_description p) (or_opt (rz_error_reason p) ''Payment failed'')),
         ci_failure_type = None, ci_attempt_number = None,
         ci_customer_reference = Some (or_opt (rz_email p) (or_opt (rz_contact p) ''cust_anonymous'')),
         ci_customer_email = rz_email p, ci_customer_phone = rz_contact p,
         ci_metadata = Some (case rz_notes p of None \<Rightarrow> JObj [] | Some n \<Rightarrow> n)\<rparr>)"

text \<open>\<^verbatim>\<open>CanonicalPaymentEventSchema\<close>, after the member \<^verbatim>\<open>environment\<close> got its default.\<close>

definition pos_int :: "number \<Rightarrow> bool" where
  "pos_int n = (case n of Fin x \<Rightarrow> x = of_int \<lfloor>x\<rfloor> \<and> 0 < x | _ \<Rightarrow> False)"

definition schema_ok :: "(string \<Rightarrow> bool) \<Rightarrow> string \<Rightarrow> canonical_input \<Rightarrow> bool" where
  "schema_ok is_email tenantId c \<longleftrightarrow>
     truthy_str (ci_event_id c) \<and> tenantId \<noteq> [] \<and>
     ci_source c \<in> Some ` {''ODOOX_EVENT'', ''RAZORPAY_WEBHOOK'', ''RAZORPAY_API_FETCH'', ''CTRL_RECONCILIATION'',
       ''SYNTHETIC_SIMULATION'', ''CLIENT_SDK'', ''WEB_APP'', ''SDK_INTERCEPTOR''} \<and>
     ci_provider c \<in> {None, Some ''razorpay'', Some ''stripe'', Some ''manual''} \<and>
     or_opt (ci_environment c) ''test'' \<in> {''live'', ''test''} \<and>
     pos_int (ci_amount_paise c) \<and>
     (case ci_currency c of None \<Rightarrow> True | Some s \<Rightarrow> length s = 3) \<and>
     ci_status c \<in> Some ` {''created'', ''authorized'', ''failed'', ''captured'', ''paid'', ''cancelled'', ''expired''} \<and>
     ci_failure_type c \<in> {None, Some ''hard'', Some ''soft'', Some ''unknown''} \<and>
     (case ci_attempt_number c of None \<Rightarrow> True | Some n \<Rightarrow> pos_int n) \<and>
     truthy_str (ci_customer_reference c) \<and>
     (case ci_customer_email c of None \<Rightarrow> True | Some e \<Rightarrow> e = [] \<or> is_email e) \<and>
     (case ci_metadata c of None \<Rightarrow> True | Some JNull \<Rightarrow> True | Some (JObj _) \<Rightarrow> True | _ \<Rightarrow> False)"

definition read_event :: "delivery_env \<Rightarrow> int \<Rightarrow> delivery \<Rightarrow> string + canonical_input" where
  "read_event env now_ms item =
     (let checked = (\<lambda>c. if schema_ok (de_is_email env) (dv_tenant_id item) c then Inr c
                         else Inl (''Schema validation error: '' @ de_schema_errors env c))
      in case de_parse env (dv_payload item) of
           Not_json \<Rightarrow> Inl ''Invalid JSON payload format''
         | Wrong_types \<Rightarrow> Inl ''Schema validation error''
         | Canonical_body c \<Rightarrow> checked c
         | Razorpay_body ev p \<Rightarrow>
             (case razorpay_to_canonical now_ms item ev p of Inl e \<Rightarrow> Inl e | Inr c \<Rightarrow> checked c))"

definition int_of :: "number \<Rightarrow> int" where
  "int_of n = (case n of Fin x \<Rightarrow> \<lfloor>x\<rfloor> | _ \<Rightarrow> 0)"

section \<open>Processing\<close>

definition event_payload :: "int \<Rightarrow> canonical_input \<Rightarrow> raw_payload" where
  "event_payload now_ms e =
     \<lparr>rp_id = Some (or_opt (ci_payment_id e) (''pay_'' @ show_int now_ms)), rp_amount = Some (int_of (ci_amount_paise e)),
      rp_currency = Some (case ci_currency e of None \<Rightarrow> ''INR'' | Some c \<Rightarrow> c),
      rp_error_code = Some (or_opt (ci_failure_code e) ''UNKNOWN_ERROR''), rp_error_reason = None,
      rp_error_source = None, rp_error_step = None,
      rp_error_description = Some (or_opt (ci_failure_description e) ''Payment failed''),
      rp_customer_id = ci_customer_reference e,
      rp_email = (if truthy_str (ci_customer_email e) then ci_customer_email e else None),
      rp_contact = (if truthy_str (ci_customer_phone e) then ci_customer_phone e else None),
      rp_attempts = Some (case ci_attempt_number e of None \<Rightarrow> 1 | Some n \<Rightarrow> int_of n),
      rp_order_id = (if truthy_str (ci_order_id e) then ci_order_id e else None), rp_notes = ci_metadata e\<rparr>"

definition event_options :: "delivery \<Rightarrow> canonical_input \<Rightarrow> normalize_options" where
  "event_options item e =
     (let live = (or_opt (ci_environment e) ''test'' = ''live'')
      in \<lparr>no_source = Some (if live then Src_real else Src_synthetic), no_tenantId = Some (dv_tenant_id item),
          no_environment = Some (if live then Env_live else Env_test)\<rparr>)"

definition ingest_event ::
  "delivery_env \<Rightarrow> delivery_clock \<Rightarrow> delivery \<Rightarrow> canonical_input \<Rightarrow> recon_state \<Rightarrow> (string + string option) \<times> recon_state" where
  "ingest_event env clk item e rs =
     (let s = rs_store rs; eventId = ci_event_id e
      in case getOpportunityByRazorpayEventId s (the eventId) of
           Some o' \<Rightarrow> (Inr (Some (o_id o')), rs)
         | None \<Rightarrow>
             let (opp, s1) = normalizeOpportunity (dk_now clk) (dk_now_ms clk) (event_payload (dk_now_ms clk) e)
                               eventId (event_options item e) s
             in (case insertOpportunity opp s1 of
                   Inl x \<Rightarrow> (Inl (de_show_db_error env x), rs\<lparr>rs_store := s1\<rparr>)
                 | Inr s2 \<Rightarrow>
                     (Inr (Some (o_id opp)),
                      rs\<lparr>rs_store := insertLedgerEntry
                        \<lparr>le_id = dk_led_id clk, le_opportunity_id = o_id opp, le_event_type = Ev_webhook_received,
                         le_amount_paise = o_amount_paise opp, le_timestamp = o_created_at opp,
                         le_raw_payload_ref = Some (stringify (JObj (opt_member ''event_id'' eventId @
                           [(''delivery_id'', JStr (dv_id item)), (''source'', JStr (dv_source item))])))\<rparr> s2\<rparr>)))"

definition matched_opportunity :: "delivery \<Rightarrow> canonical_input \<Rightarrow> store \<Rightarrow> string option" where
  "matched_opportunity item e s =
     (let byPayment = (if truthy_str (ci_payment_id e)
                       then map_option o_id (getOpportunityById s (the (ci_payment_id e))) else None)
      in if byPayment \<noteq> None then byPayment
         else if truthy_str (ci_payment_link_id e)
         then map_option er_opportunity_id
                (List.find (\<lambda>r. er_payment_link_id r = the (ci_payment_link_id e))
                   (getAllExecutionRecords s (Some (dv_tenant_id item))))
         else None)"

definition settle_event ::
  "delivery_env \<Rightarrow> delivery_clock \<Rightarrow> delivery \<Rightarrow> canonical_input \<Rightarrow> recon_state \<Rightarrow> string option \<times> recon_state" where
  "settle_event env clk item e rs =
     (case matched_opportunity item e (rs_store rs) of
        None \<Rightarrow> (None, rs)
      | Some oid \<Rightarrow> (Some oid, snd (reconcileOpportunity (de_recon env) (dk_recon clk) oid None rs)))"

definition handle_event ::
  "delivery_env \<Rightarrow> delivery_clock \<Rightarrow> delivery \<Rightarrow> recon_state \<Rightarrow> (string + string option) \<times> recon_state" where
  "handle_event env clk item rs =
     (case read_event env (dk_now_ms clk) item of
        Inl err \<Rightarrow> (Inl err, rs)
      | Inr e \<Rightarrow>
          if ci_status e = Some ''failed'' then ingest_event env clk item e rs
          else if ci_status e = Some ''paid'' \<or> ci_status e = Some ''captured''
          then (case settle_event env clk item e rs of (oid, rs') \<Rightarrow> (Inr oid, rs'))
          else (Inr None, rs))"

definition nextDelayMs :: "nat \<Rightarrow> int" where
  "nextDelayMs attempts = min (15 * 60 * 1000) (2 ^ attempts * 5000)"

definition processDelivery ::
  "delivery_env \<Rightarrow> delivery_clock \<Rightarrow> delivery \<Rightarrow> delivery_state \<Rightarrow> (string + string option) \<times> delivery_state" where
  "processDelivery env clk item st =
     (let attempts = dv_attempts item + 1;
          q1 = updateWebhookDeliveryStatus (dv_id item) Q_PROCESSING (Some attempts) None None None (ds_queue st);
          (r, rs) = handle_event env clk item (ds_recon st)
      in case r of
           Inr oid \<Rightarrow>
             (Inr oid, st\<lparr>ds_recon := rs,
                ds_queue := updateWebhookDeliveryStatus (dv_id item) Q_DELIVERED (Some attempts) None None
                              (Some (dk_now_ms clk)) q1\<rparr>)
         | Inl err \<Rightarrow>
             let isDeadLetter = dv_max_attempts item \<le> attempts;
                 nextRetry = (if isDeadLetter then None else Some (dk_now_ms clk + nextDelayMs attempts))
             in (Inl err, st\<lparr>ds_recon := rs,
                   ds_queue := updateWebhookDeliveryStatus (dv_id item)
                     (if isDeadLetter then Q_DEAD_LETTER else Q_FAILED) (Some attempts) (Some err) nextRetry None q1\<rparr>))"

definition replayWebhook ::
  "delivery_env \<Rightarrow> delivery_clock \<Rightarrow> string \<Rightarrow> string \<Rightarrow> delivery_state \<Rightarrow> (string + string option) option \<times> delivery_state" where
  "replayWebhook env clk did tenantId st =
     (case getWebhookDeliveryById did tenantId (ds_queue st) of
        None \<Rightarrow> (None, st)
      | Some item \<Rightarrow> (case processDelivery env clk item st of (r, st') \<Rightarrow> (Some r, st')))"

fun process_all :: "delivery_env \<Rightarrow> (nat \<Rightarrow> delivery_clock) \<Rightarrow> nat \<Rightarrow> delivery list \<Rightarrow> delivery_state \<Rightarrow> delivery_state" where
  "process_all env clk i [] st = st"
| "process_all env clk i (d # ds) st = process_all env clk (Suc i) ds (snd (processDelivery env (clk i) d st))"

definition processDueRetries ::
  "delivery_env \<Rightarrow> int \<Rightarrow> (nat \<Rightarrow> delivery_clock) \<Rightarrow> delivery_state \<Rightarrow> nat \<times> delivery_state" where
  "processDueRetries env now clk st =
     (if ds_processing st then (0, st)
      else let dueItems = getDueWebhookRetries now 20 (ds_queue st)
           in (length dueItems,
               (process_all env clk 0 dueItems (st\<lparr>ds_processing := True\<rparr>))\<lparr>ds_processing := False\<rparr>))"

section \<open>Lemmas\<close>

text \<open>What one processing does to the queue, and the attempts a delivery has left.\<close>

definition with_outcome ::
  "nat \<Rightarrow> queue_status \<Rightarrow> string option \<Rightarrow> int option \<Rightarrow> int option \<Rightarrow> delivery \<Rightarrow> delivery" where
  "with_outcome n stt err retry dlv d =
     d\<lparr>dv_status := stt, dv_attempts := n, dv_last_error := err, dv_next_retry_at := retry, dv_delivered_at := dlv\<rparr>"

definition at_id :: "string \<Rightarrow> (delivery \<Rightarrow> delivery) \<Rightarrow> delivery list \<Rightarrow> delivery list" where
  "at_id did f q = map (\<lambda>d. if dv_id d = did then f d else d) q"

definition waiting :: "delivery \<Rightarrow> bool" where
  "waiting d \<longleftrightarrow> dv_status d \<in> {Q_PENDING, Q_FAILED}"

definition remaining :: "delivery \<Rightarrow> nat" where
  "remaining d = (if waiting d then dv_max_attempts d - dv_attempts d else 0)"

definition queue_ok :: "delivery list \<Rightarrow> bool" where
  "queue_ok q \<longleftrightarrow> distinct (map dv_id q) \<and> (\<forall>d \<in> set q. waiting d \<longrightarrow> dv_attempts d < dv_max_attempts d)"

definition attempts_left :: "delivery list \<Rightarrow> nat" where
  "attempts_left q = sum_list (map remaining q)"

lemma update_twice:
  "updateWebhookDeliveryStatus did s2 (Some n) err retry dlv
     (updateWebhookDeliveryStatus did s1 (Some m) None None None q) = at_id did (with_outcome n s2 err retry dlv) q"
  by (simp add: updateWebhookDeliveryStatus_def at_id_def with_outcome_def comp_def)

lemma process_queue:
  "ds_queue (snd (processDelivery env clk item st)) =
     at_id (dv_id item)
       (case fst (handle_event env clk item (ds_recon st)) of
          Inr _ \<Rightarrow> with_outcome (dv_attempts item + 1) Q_DELIVERED None None (Some (dk_now_ms clk))
        | Inl err \<Rightarrow>
            if dv_max_attempts item \<le> dv_attempts item + 1
            then with_outcome (dv_attempts item + 1) Q_DEAD_LETTER (Some err) None None
            else with_outcome (dv_attempts item + 1) Q_FAILED (Some err)
                   (Some (dk_now_ms clk + nextDelayMs (dv_attempts item + 1))) None)
       (ds_queue st)"
proof -
  obtain r rs where h: "handle_event env clk item (ds_recon st) = (r, rs)" by fastforce
  show ?thesis by (cases r) (simp_all add: processDelivery_def h Let_def update_twice)
qed

lemma at_id_ids [simp]: "(\<And>d. dv_id (f d) = dv_id d) \<Longrightarrow> map dv_id (at_id did f q) = map dv_id q"
  by (simp add: at_id_def comp_def)

lemma with_outcome_simps [simp]:
  "dv_id (with_outcome n stt err retry dlv d) = dv_id d"
  "dv_status (with_outcome n stt err retry dlv d) = stt"
  "dv_attempts (with_outcome n stt err retry dlv d) = n"
  "dv_max_attempts (with_outcome n stt err retry dlv d) = dv_max_attempts d"
  "dv_next_retry_at (with_outcome n stt err retry dlv d) = retry"
  by (simp_all add: with_outcome_def)

lemma process_row:
  fixes env :: delivery_env and clk :: delivery_clock
  assumes "distinct (map dv_id (ds_queue st))" and "item \<in> set (ds_queue st)" and "waiting item"
    and "dv_attempts item < dv_max_attempts item"
  defines "q' \<equiv> ds_queue (snd (processDelivery env clk item st))"
  shows "\<exists>f. q' = at_id (dv_id item) f (ds_queue st) \<and> (\<forall>d. dv_id (f d) = dv_id d) \<and>
    remaining (f item) < remaining item \<and> (waiting (f item) \<longrightarrow> dv_attempts (f item) < dv_max_attempts (f item))"
  unfolding q'_def process_queue using assms(3,4)
  by (auto simp: remaining_def waiting_def split: sum.split)

lemma at_id_other: "did \<notin> dv_id ` set q \<Longrightarrow> at_id did f q = q"
  by (induction q) (auto simp: at_id_def)

lemma attempts_left_at:
  assumes "distinct (map dv_id q)" and "item \<in> set q" and "remaining (f item) < remaining item"
  shows "attempts_left (at_id (dv_id item) f q) < attempts_left q"
  using assms
proof (induction q)
  case (Cons d q)
  show ?case
  proof (cases "d = item")
    case True
    with Cons.prems(1) have "at_id (dv_id item) f q = q" by (intro at_id_other) auto
    with True Cons.prems(3) show ?thesis by (simp add: attempts_left_def at_id_def)
  next
    case False
    with Cons.prems have "item \<in> set q" "dv_id d \<noteq> dv_id item" by auto
    with Cons show ?thesis by (simp add: attempts_left_def at_id_def)
  qed
qed simp

lemma process_step:
  fixes env :: delivery_env and clk :: delivery_clock
  assumes "queue_ok (ds_queue st)" and "item \<in> set (ds_queue st)" and "waiting item"
  defines "q' \<equiv> ds_queue (snd (processDelivery env clk item st))"
  shows "queue_ok q'" and "attempts_left q' < attempts_left (ds_queue st)"
    and "\<forall>d \<in> set (ds_queue st). dv_id d \<noteq> dv_id item \<longrightarrow> d \<in> set q'"
proof -
  have "dv_attempts item < dv_max_attempts item" and dist: "distinct (map dv_id (ds_queue st))"
    using assms(1-3) by (auto simp: queue_ok_def)
  from process_row [OF dist assms(2,3) this(1), of env clk] obtain f where
    q: "q' = at_id (dv_id item) f (ds_queue st)" and f: "\<And>d. dv_id (f d) = dv_id d"
      "remaining (f item) < remaining item" "waiting (f item) \<longrightarrow> dv_attempts (f item) < dv_max_attempts (f item)"
    unfolding q'_def by blast
  have same: "d = item" if "d \<in> set (ds_queue st)" "dv_id d = dv_id item" for d
    using that dist assms(2) by (auto simp: distinct_map inj_on_def)
  show "queue_ok q'"
    unfolding queue_ok_def
  proof (intro conjI ballI impI)
    show "distinct (map dv_id q')" using dist f(1) by (simp add: q)
    fix d assume d: "d \<in> set q'" "waiting d"
    then obtain e where e: "e \<in> set (ds_queue st)" "d = (if dv_id e = dv_id item then f e else e)"
      by (auto simp: q at_id_def)
    show "dv_attempts d < dv_max_attempts d"
      using e d(2) same [OF e(1)] f(3) assms(1) by (auto simp: queue_ok_def split: if_splits)
  qed
  show "attempts_left q' < attempts_left (ds_queue st)"
    unfolding q by (rule attempts_left_at [where item = item]) (use dist assms(2) f(2) in auto)
  show "\<forall>d \<in> set (ds_queue st). dv_id d \<noteq> dv_id item \<longrightarrow> d \<in> set q'"
    by (force simp: q at_id_def)
qed


lemma process_all_bound:
  assumes "queue_ok (ds_queue st)" and "distinct (map dv_id ds)"
    and "\<forall>d \<in> set ds. d \<in> set (ds_queue st) \<and> waiting d"
  shows "queue_ok (ds_queue (process_all env clk i ds st)) \<and>
    attempts_left (ds_queue (process_all env clk i ds st)) + length ds \<le> attempts_left (ds_queue st)"
  using assms
proof (induction env clk i ds st rule: process_all.induct)
  case (2 env clk i d ds st)
  let ?st = "snd (processDelivery env (clk i) d st)"
  note step = process_step [OF 2(2), of d env "clk i"]
  have d: "d \<in> set (ds_queue st)" "waiting d" using 2(4) by simp_all
  have "\<forall>x \<in> set ds. x \<in> set (ds_queue ?st) \<and> waiting x"
    using step(3) [OF d] 2(3,4) by (auto simp: image_iff)
  with 2(1) [OF step(1) [OF d]] 2(3) step(2) [OF d] show ?case by auto
qed simp

fun run_worker ::
  "delivery_env \<Rightarrow> (int \<times> (nat \<Rightarrow> delivery_clock)) list \<Rightarrow> delivery_state \<Rightarrow> nat \<times> delivery_state" where
  "run_worker env [] st = (0, st)"
| "run_worker env ((now, clk) # ticks) st =
     (let (n, st1) = processDueRetries env now clk st; (m, st2) = run_worker env ticks st1 in (n + m, st2))"

lemma due_waiting: "is_due now d \<Longrightarrow> waiting d"
  by (auto simp: is_due_def waiting_def)

lemma due_sublist:
  assumes "distinct (map dv_id q)"
  shows "distinct (map dv_id (getDueWebhookRetries now n q))"
    and "\<forall>d \<in> set (getDueWebhookRetries now n q). d \<in> set q \<and> is_due now d"
proof -
  have "distinct (map dv_id (sort_key dv_created_at (filter (is_due now) q)))"
    using assms by (auto simp: distinct_map inj_on_def)
  then show "distinct (map dv_id (getDueWebhookRetries now n q))"
    by (simp add: getDueWebhookRetries_def distinct_take flip: take_map)
  show "\<forall>d \<in> set (getDueWebhookRetries now n q). d \<in> set q \<and> is_due now d"
    by (auto simp: getDueWebhookRetries_def dest: in_set_takeD)
qed

lemma process_all_flag: "ds_processing (process_all env clk i ds st) = ds_processing st"
  by (induction env clk i ds st rule: process_all.induct)
     (auto simp: processDelivery_def Let_def split: prod.split sum.split)

lemma tick_bound:
  assumes "queue_ok (ds_queue st)" and "processDueRetries env now clk st = (n, st')"
  shows "queue_ok (ds_queue st') \<and> attempts_left (ds_queue st') + n \<le> attempts_left (ds_queue st)"
proof (cases "ds_processing st")
  case False
  note due = due_sublist [where q = "ds_queue st" and now = now and n = 20]
  have "distinct (map dv_id (ds_queue st))" using assms(1) by (simp add: queue_ok_def)
  with process_all_bound [of "st\<lparr>ds_processing := True\<rparr>" "getDueWebhookRetries now 20 (ds_queue st)" env clk 0]
    due assms(1) due_waiting have
    "queue_ok (ds_queue (process_all env clk 0 (getDueWebhookRetries now 20 (ds_queue st)) (st\<lparr>ds_processing := True\<rparr>))) \<and>
     attempts_left (ds_queue (process_all env clk 0 (getDueWebhookRetries now 20 (ds_queue st)) (st\<lparr>ds_processing := True\<rparr>)))
       + length (getDueWebhookRetries now 20 (ds_queue st)) \<le> attempts_left (ds_queue st)"
    by fastforce
  with assms(2) False show ?thesis by (auto simp: processDueRetries_def Let_def)
qed (use assms in \<open>simp add: processDueRetries_def\<close>)

lemma run_worker_bound:
  assumes "queue_ok (ds_queue st)"
  shows "queue_ok (ds_queue (snd (run_worker env ticks st))) \<and>
    attempts_left (ds_queue (snd (run_worker env ticks st))) + fst (run_worker env ticks st)
      \<le> attempts_left (ds_queue st)"
  using assms
proof (induction env ticks st rule: run_worker.induct)
  case (2 env now clk ticks st)
  obtain n st1 where t: "processDueRetries env now clk st = (n, st1)" by fastforce
  obtain m st2 where r: "run_worker env ticks st1 = (m, st2)" by fastforce
  from tick_bound [OF 2(2) t] 2(1) [OF t [symmetric] refl] show ?case by (simp add: t r)
qed simp

section \<open>Properties\<close>

text \<open>
  C29. Retrying ends: from a queue in which every waiting delivery has attempts left, whatever
  the deliveries contain and however often the worker wakes, all its runs together process
  no more deliveries than there are attempts left, and the queue keeps that form; so after
  finitely many processings nothing is due any more.
\<close>

theorem delivery_retries_end:
  assumes "queue_ok (ds_queue st)"
  shows "fst (run_worker env ticks st) + attempts_left (ds_queue (snd (run_worker env ticks st)))
      \<le> attempts_left (ds_queue st) \<and>
    queue_ok (ds_queue (snd (run_worker env ticks st))) \<and>
    (fst (run_worker env ticks st) = attempts_left (ds_queue st) \<longrightarrow>
       getDueWebhookRetries now n (ds_queue (snd (run_worker env ticks st))) = [])"
proof -
  let ?q = "ds_queue (snd (run_worker env ticks st))"
  note b = run_worker_bound [OF assms, of env ticks]
  have "getDueWebhookRetries now n ?q = []" if "attempts_left ?q = 0"
  proof -
    have "\<not> waiting d" if d: "d \<in> set ?q" for d
    proof
      assume "waiting d"
      with b d have "0 < remaining d" by (auto simp: queue_ok_def remaining_def)
      moreover have "remaining d \<le> attempts_left ?q"
        unfolding attempts_left_def using d by (intro member_le_sum_list) simp_all
      ultimately show False using \<open>attempts_left ?q = 0\<close> by simp
    qed
    then have "filter (is_due now) ?q = []" using due_waiting by (auto simp: filter_empty_conv)
    then show ?thesis by (simp add: getDueWebhookRetries_def)
  qed
  with b show ?thesis by auto
qed


definition sample_delivery :: "string \<Rightarrow> delivery" where
  "sample_delivery did = \<lparr>dv_id = did, dv_tenant_id = ''t1'', dv_source = ''RAZORPAY_WEBHOOK'', dv_event_id = None,
     dv_event_type = ''payment.failed'', dv_payload = ''x'', dv_headers = None, dv_status = Q_PENDING,
     dv_attempts = 0, dv_max_attempts = 5, dv_last_error = None, dv_next_retry_at = None,
     dv_delivered_at = None, dv_created_at = 0\<rparr>"

definition sample_delivery_env :: delivery_env where
  "sample_delivery_env = \<lparr>de_parse = (\<lambda>_. Not_json), de_is_email = (\<lambda>_. True), de_schema_errors = (\<lambda>_. ''''),
     de_show_db_error = (\<lambda>_. ''''), de_recon = sample_recon_env\<rparr>"

definition sample_delivery_state :: delivery_state where
  "sample_delivery_state = \<lparr>ds_queue = [sample_delivery ''d1'', sample_delivery ''d2''],
     ds_recon = \<lparr>rs_store = empty_store, rs_calibrator = new_calibrator, rs_arms = []\<rparr>, ds_processing = False\<rparr>"

definition sample_delivery_clock :: delivery_clock where
  "sample_delivery_clock = \<lparr>dk_now = ''t'', dk_now_ms = 1000, dk_led_id = ''l'', dk_recon = sample_call\<rparr>"

theorem delivery_retries_end_witness:
  "fst (run_worker sample_delivery_env [(1000, \<lambda>_. sample_delivery_clock), (2000, \<lambda>_. sample_delivery_clock)]
     sample_delivery_state) \<le> 10"
proof -
  have "queue_ok (ds_queue sample_delivery_state)" "attempts_left (ds_queue sample_delivery_state) = 10"
    by (simp_all add: sample_delivery_state_def queue_ok_def sample_delivery_def attempts_left_def remaining_def waiting_def)
  with delivery_retries_end [of sample_delivery_state sample_delivery_env
      "[(1000, \<lambda>_. sample_delivery_clock), (2000, \<lambda>_. sample_delivery_clock)]" 0 1]
  show ?thesis by simp
qed

text \<open>
  The back-off schedule: a processing that fails leaves the delivery with one more attempt
  and its error; before the last attempt it is due again after \<open>2 ^ attempts * 5\<close> seconds, at
  most fifteen minutes, and not earlier; at the last it is a dead letter, which no later run
  picks up; a delivery that succeeded is never picked up again either.
\<close>

theorem delivery_backoff_schedule:
  assumes "distinct (map dv_id (ds_queue st))" and "item \<in> set (ds_queue st)"
    and "processDelivery env clk item st = (r, st')"
  shows "\<exists>d. getWebhookDeliveryById (dv_id item) (dv_tenant_id item) (ds_queue st') = Some d \<and>
    dv_attempts d = dv_attempts item + 1 \<and>
    (case r of
       Inr _ \<Rightarrow> dv_status d = Q_DELIVERED \<and> (\<forall>t. \<not> is_due t d)
     | Inl err \<Rightarrow>
         dv_last_error d = Some err \<and>
         (if dv_attempts item + 1 < dv_max_attempts item
          then dv_status d = Q_FAILED \<and>
            (\<forall>t. is_due t d \<longleftrightarrow> dk_now_ms clk + min 900000 (2 ^ (dv_attempts item + 1) * 5000) \<le> t)
          else dv_status d = Q_DEAD_LETTER \<and> (\<forall>t. \<not> is_due t d)))"
proof -
  obtain f where q: "ds_queue st' = at_id (dv_id item) f (ds_queue st)"
    and f: "\<And>d. dv_id (f d) = dv_id d" "\<And>d. dv_tenant_id (f d) = dv_tenant_id d"
    and out: "f = (case r of
          Inr _ \<Rightarrow> with_outcome (dv_attempts item + 1) Q_DELIVERED None None (Some (dk_now_ms clk))
        | Inl err \<Rightarrow>
            if dv_max_attempts item \<le> dv_attempts item + 1
            then with_outcome (dv_attempts item + 1) Q_DEAD_LETTER (Some err) None None
            else with_outcome (dv_attempts item + 1) Q_FAILED (Some err)
                   (Some (dk_now_ms clk + nextDelayMs (dv_attempts item + 1))) None)"
  proof -
    obtain r0 rs where h: "handle_event env clk item (ds_recon st) = (r0, rs)" by fastforce
    have "r = r0" using assms(3) h by (cases r0) (auto simp: processDelivery_def Let_def)
    with process_queue [of env clk item st] h assms(3) show ?thesis
      by (intro that) (auto simp: with_outcome_def split: sum.split)
  qed
  have "List.find (\<lambda>d. dv_id d = dv_id item \<and> dv_tenant_id d = dv_tenant_id item) (at_id (dv_id item) f q) = Some (f item)"
    if "distinct (map dv_id q)" "item \<in> set q" for q
    using that
  proof (induction q)
    case (Cons d q)
    then show ?case by (cases "d = item") (auto simp: at_id_def f)
  qed simp
  then have "getWebhookDeliveryById (dv_id item) (dv_tenant_id item) (ds_queue st') = Some (f item)"
    using assms(1,2) by (simp add: getWebhookDeliveryById_def q)
  then show ?thesis
    by (cases r) (auto simp: out is_due_def nextDelayMs_def with_outcome_def)
qed

theorem delivery_backoff_schedule_witness:
  "\<exists>d. getWebhookDeliveryById ''d1'' ''t1''
      (ds_queue (snd (processDelivery sample_delivery_env sample_delivery_clock (sample_delivery ''d1'') sample_delivery_state)))
      = Some d \<and> dv_attempts d = 1"
proof -
  obtain r st' where p: "processDelivery sample_delivery_env sample_delivery_clock (sample_delivery ''d1'')
      sample_delivery_state = (r, st')" by fastforce
  have "distinct (map dv_id (ds_queue sample_delivery_state))"
      "sample_delivery ''d1'' \<in> set (ds_queue sample_delivery_state)"
    by (simp_all add: sample_delivery_state_def sample_delivery_def)
  from delivery_backoff_schedule [OF this p] p show ?thesis by (auto simp: sample_delivery_def)
qed

text \<open>A paid event is delivered even when its reconciliation failed, so it is not retried.\<close>

theorem failed_reconciliation_delivered:
  assumes "read_event env (dk_now_ms clk) item = Inr e" and "ci_status e = Some ''paid''"
  shows "\<exists>oid. fst (processDelivery env clk item st) = Inr oid"
  using assms
  by (auto simp: processDelivery_def handle_event_def Let_def split: prod.split)

end
