(* ===== verification/Job_Queue.thy ===== *)
theory Job_Queue
  imports Ctrl_Prelude
begin

text \<open>
  The job queue of \<^verbatim>\<open>src/queue/job_queue.ts\<close> in its in-memory form (the Redis list is a
  service) and the worker of \<^verbatim>\<open>src/worker.ts\<close>.  The locale \<open>fifo_lane\<close> states what the worker
  relies on for the jobs of one type.  The operations a job starts are the record
  \<open>worker_ops\<close>: each returns whether it threw, and the new state of the system; the statement
  that sets the tenant of the database session is one of them.
\<close>

section \<open>The queue\<close>

datatype job_type =
    AGENT_REASONING_CYCLE
  | MARKET_ALLOCATION_RUN
  | EXECUTION_DISPATCH
  | RECONCILIATION_SWEEP
  | DLQ_RETRY_SWEEP

record job =
  jb_id :: string
  jb_type :: job_type
  jb_tenantId :: string
  jb_payload_capacity :: "int option"
  jb_createdAt :: string
  jb_attempts :: nat
  jb_maxAttempts :: nat

record job_request =
  jq_id :: "string option"
  jq_type :: job_type
  jq_tenantId :: string
  jq_payload_capacity :: "int option"
  jq_attempts :: "nat option"
  jq_maxAttempts :: "nat option"

type_synonym memory = "job_type \<Rightarrow> job list"

definition or_nat :: "nat option \<Rightarrow> nat \<Rightarrow> nat" where
  "or_nat n d = (case n of None \<Rightarrow> d | Some k \<Rightarrow> if k = 0 then d else k)"

definition full_job :: "string \<Rightarrow> string \<Rightarrow> job_request \<Rightarrow> job" where
  "full_job now fresh r =
     \<lparr>jb_id = or_opt (jq_id r) fresh, jb_type = jq_type r, jb_tenantId = or_str (jq_tenantId r) ''tenant_system_default'',
      jb_payload_capacity = jq_payload_capacity r, jb_createdAt = now, jb_attempts = or_nat (jq_attempts r) 0,
      jb_maxAttempts = or_nat (jq_maxAttempts r) 3\<rparr>"

definition memory_push :: "job \<Rightarrow> memory \<Rightarrow> memory" where
  "memory_push j m = m(jb_type j := m (jb_type j) @ [j])"

definition push :: "string \<Rightarrow> string \<Rightarrow> job_request \<Rightarrow> memory \<Rightarrow> string \<times> memory" where
  "push now fresh r m = (let j = full_job now fresh r in (jb_id j, memory_push j m))"

fun scan :: "job_type list \<Rightarrow> memory \<Rightarrow> job option \<times> memory" where
  "scan [] m = (None, m)"
| "scan (t # ts) m = (case m t of [] \<Rightarrow> scan ts m | j # js \<Rightarrow> (Some j, m(t := js)))"

text \<open>What arrives while \<^verbatim>\<open>pop\<close> waits is its argument.\<close>

definition pop :: "job_type list \<Rightarrow> int \<Rightarrow> job list \<Rightarrow> memory \<Rightarrow> job option \<times> memory" where
  "pop types timeoutSeconds arriving m =
     (case scan types m of
        (Some j, m') \<Rightarrow> (Some j, m')
      | (None, _) \<Rightarrow> if 0 < timeoutSeconds then scan types (fold memory_push arriving m) else (None, m))"

definition getQueueDepth :: "job_type \<Rightarrow> memory \<Rightarrow> nat" where
  "getQueueDepth t m = length (m t)"

definition retry :: "string \<Rightarrow> string \<Rightarrow> job \<Rightarrow> memory \<Rightarrow> bool \<times> memory" where
  "retry now fresh j m =
     (if jb_maxAttempts j \<le> jb_attempts j + 1 then (False, m)
      else (True, snd (push now fresh
        \<lparr>jq_id = Some (jb_id j), jq_type = jb_type j, jq_tenantId = jb_tenantId j,
         jq_payload_capacity = jb_payload_capacity j, jq_attempts = Some (jb_attempts j + 1),
         jq_maxAttempts = Some (jb_maxAttempts j)\<rparr> m)))"

section \<open>The worker\<close>

record 's worker_ops =
  wo_set_tenant :: "string \<Rightarrow> 's \<Rightarrow> bool \<times> 's"
  wo_sweep :: "string \<Rightarrow> 's \<Rightarrow> bool \<times> 's"
  wo_market :: "int \<Rightarrow> string \<Rightarrow> 's \<Rightarrow> bool \<times> 's"
  wo_execute :: "string \<Rightarrow> 's \<Rightarrow> bool \<times> 's"
  wo_reconcile :: "string \<Rightarrow> 's \<Rightarrow> bool \<times> 's"
  wo_replay :: "nat \<Rightarrow> 's \<Rightarrow> bool \<times> 's"

definition run_job :: "'s worker_ops \<Rightarrow> job \<Rightarrow> 's \<Rightarrow> bool \<times> 's" where
  "run_job ops j s =
     (case jb_type j of
        AGENT_REASONING_CYCLE \<Rightarrow> wo_sweep ops (jb_tenantId j) s
      | MARKET_ALLOCATION_RUN \<Rightarrow>
          wo_market ops (case jb_payload_capacity j of None \<Rightarrow> 5 | Some c \<Rightarrow> if c = 0 then 5 else c) (jb_tenantId j) s
      | EXECUTION_DISPATCH \<Rightarrow> wo_execute ops (jb_tenantId j) s
      | RECONCILIATION_SWEEP \<Rightarrow> wo_reconcile ops (jb_tenantId j) s
      | DLQ_RETRY_SWEEP \<Rightarrow> wo_replay ops 10 s)"

text \<open>
  The tenant of the session is set before the \<^verbatim>\<open>try\<close>: when that raises, the error goes to the
  handler of the loop, and the job is neither run nor put back.
\<close>

definition processJob :: "'s worker_ops \<Rightarrow> string \<Rightarrow> string \<Rightarrow> job \<Rightarrow> memory \<times> 's \<Rightarrow> memory \<times> 's" where
  "processJob ops now fresh j st =
     (case wo_set_tenant ops (jb_tenantId j) (snd st) of
        (True, s) \<Rightarrow> (fst st, s)
      | (False, s) \<Rightarrow>
          (case run_job ops j s of
             (threw, s') \<Rightarrow> (if threw then snd (retry now fresh j (fst st)) else fst st, s')))"

definition job_types :: "job_type list" where
  "job_types = [AGENT_REASONING_CYCLE, MARKET_ALLOCATION_RUN, EXECUTION_DISPATCH, RECONCILIATION_SWEEP,
     DLQ_RETRY_SWEEP]"

text \<open>One turn of the loop, with the job it processed.\<close>

definition worker_turn :: "'s worker_ops \<Rightarrow> job list \<Rightarrow> string \<Rightarrow> string \<Rightarrow> memory \<times> 's \<Rightarrow> job option \<times> memory \<times> 's" where
  "worker_turn ops arriving now fresh st =
     (case pop job_types 2 arriving (fst st) of
        (None, m) \<Rightarrow> (None, m, snd st)
      | (Some j, m) \<Rightarrow> (Some j, processJob ops now fresh j (m, snd st)))"

section \<open>The contract of a lane\<close>

text \<open>
  A queue as one consumer of one kind of job sees it: what is added for it goes to the end,
  what it receives comes from the front, and the jobs of others do not disturb it.
\<close>

locale fifo_lane =
  fixes add :: "'j \<Rightarrow> 'q \<Rightarrow> 'q"
    and take_next :: "'q \<Rightarrow> 'j option \<times> 'q"
    and lane :: "'q \<Rightarrow> 'j list"
    and mine :: "'j \<Rightarrow> bool"
    and ok :: "'q \<Rightarrow> bool"
  assumes add_lane: "lane (add j q) = lane q @ filter mine [j]"
    and add_ok: "ok q \<Longrightarrow> ok (add j q)"
    and take_some: "ok q \<Longrightarrow> take_next q = (Some j, q') \<Longrightarrow> ok q' \<and> filter mine [j] @ lane q' = lane q"
    and take_none: "ok q \<Longrightarrow> take_next q = (None, q') \<Longrightarrow> ok q' \<and> lane q' = lane q"
begin

fun trace :: "'j option list \<Rightarrow> 'q \<Rightarrow> 'j list \<times> 'q" where
  "trace [] q = ([], q)"
| "trace (Some j # es) q = trace es (add j q)"
| "trace (None # es) q =
     (case take_next q of
        (None, q') \<Rightarrow> trace es q'
      | (Some j, q') \<Rightarrow> (case trace es q' of (js, q'') \<Rightarrow> (j # js, q'')))"

definition added :: "'j option list \<Rightarrow> 'j list" where
  "added es = map the (filter (\<lambda>e. e \<noteq> None) es)"

lemma added_simps [simp]: "added [] = []" "added (Some j # es) = j # added es" "added (None # es) = added es"
  by (simp_all add: added_def)

lemma trace_fifo:
  assumes "ok q" and "trace es q = (taken, q')"
  shows "filter mine taken @ lane q' = lane q @ filter mine (added es)"
  using assms
proof (induction es q arbitrary: taken q' rule: trace.induct)
  case (2 j es q)
  then show ?case using add_ok add_lane by simp
next
  case (3 es q)
  show ?case
  proof (cases "take_next q")
    case (Pair x q1)
    show ?thesis
    proof (cases x)
      case None
      with 3(1) [OF Pair [symmetric] None] 3(3,4) take_none [OF 3(3)] Pair show ?thesis by simp
    next
      case (Some j)
      obtain js q2 where r: "trace es q1 = (js, q2)" by fastforce
      have s: "ok q1" "filter mine [j] @ lane q1 = lane q" using take_some [OF 3(3)] Pair Some by auto
      from 3(2) [OF Pair [symmetric] Some s(1) r] have "filter mine js @ lane q2 = lane q1 @ filter mine (added es)" .
      with s(2) [symmetric] 3(4) Pair Some r show ?thesis by (auto split: if_splits)
    qed
  qed
qed simp

end

definition typed :: "memory \<Rightarrow> bool" where
  "typed m \<longleftrightarrow> (\<forall>t. \<forall>j \<in> set (m t). jb_type j = t)"

lemma typed_push: "typed m \<Longrightarrow> typed (memory_push j m)"
  by (auto simp: typed_def memory_push_def)

lemma scan_some:
  assumes "typed m" and "scan ts m = (Some j, m')"
  shows "m (jb_type j) = j # m' (jb_type j) \<and> jb_type j \<in> set ts \<and> typed m' \<and> (\<forall>t. t \<noteq> jb_type j \<longrightarrow> m' t = m t)"
  using assms
proof (induction ts m rule: scan.induct)
  case (2 t ts m)
  show ?case
  proof (cases "m t")
    case Nil
    with 2 show ?thesis by auto
  next
    case (Cons k ks)
    with 2(3) have j: "j = k" "m' = m(t := ks)" by simp_all
    have k: "jb_type k = t" and ks: "\<forall>x \<in> set ks. jb_type x = t" using 2(2) Cons by (auto simp: typed_def)
    have "typed m'" using 2(2) ks unfolding j(2) typed_def by simp
    moreover have "t \<in> set (t # ts)" "\<forall>u. u \<noteq> t \<longrightarrow> m' u = m u" "m t = k # m' t"
      using Cons by (simp_all add: j(2))
    ultimately show ?thesis unfolding j(1) k by blast
  qed
qed simp

lemma scan_none: "scan ts m = (None, m') \<Longrightarrow> m' = m \<and> (\<forall>t \<in> set ts. m t = [])"
proof (induction ts m rule: scan.induct)
  case (2 t ts m)
  then show ?case by (cases "m t") simp_all
qed simp

interpretation mem: fifo_lane memory_push "scan types" "\<lambda>m. m t" "\<lambda>j. jb_type j = t" typed for types t
proof unfold_locales
  fix q q' :: memory and j :: job
  show "memory_push j q t = q t @ filter (\<lambda>j. jb_type j = t) [j]" by (simp add: memory_push_def)
  show "typed q \<Longrightarrow> typed (memory_push j q)" by (rule typed_push)
  show "typed q \<Longrightarrow> scan types q = (Some j, q') \<Longrightarrow>
      typed q' \<and> filter (\<lambda>j. jb_type j = t) [j] @ q' t = q t"
    using scan_some [of q types j q'] by auto
  show "typed q \<Longrightarrow> scan types q = (None, q') \<Longrightarrow> typed q' \<and> q' t = q t"
    using scan_none [of types q q'] by auto
qed

section \<open>Draining\<close>

definition tries :: "job \<Rightarrow> nat" where
  "tries j = max 1 (jb_maxAttempts j - jb_attempts j)"

definition all_tries :: "memory \<Rightarrow> nat" where
  "all_tries m = sum_list (map (\<lambda>t. sum_list (map tries (m t))) job_types)"

lemma job_types_all: "set job_types = UNIV"
proof -
  have "t \<in> set job_types" for t by (cases t) (simp_all add: job_types_def)
  then show ?thesis by auto
qed

lemma all_tries_push: "all_tries (memory_push j m) = all_tries m + tries j"
  by (cases "jb_type j") (simp_all add: all_tries_def job_types_def memory_push_def)

lemma all_tries_pop:
  assumes "m (jb_type j) = j # m' (jb_type j)" and "\<forall>t. t \<noteq> jb_type j \<longrightarrow> m' t = m t"
  shows "all_tries m = tries j + all_tries m'"
  using assms by (cases "jb_type j") (simp_all add: all_tries_def job_types_def)

lemma retry_tries:
  "all_tries (snd (retry now fresh j m)) < tries j + all_tries m"
  "typed m \<Longrightarrow> typed (snd (retry now fresh j m))"
  by (auto simp: retry_def push_def full_job_def or_nat_def Let_def all_tries_push tries_def typed_push)

fun worker_turns :: "'s worker_ops \<Rightarrow> (string \<times> string) list \<Rightarrow> memory \<times> 's \<Rightarrow> job list \<times> memory \<times> 's" where
  "worker_turns ops [] st = ([], st)"
| "worker_turns ops ((now, fresh) # ts) st =
     (case worker_turn ops [] now fresh st of
        (x, st1) \<Rightarrow> (case worker_turns ops ts st1 of (js, st2) \<Rightarrow> (case x of None \<Rightarrow> js | Some j \<Rightarrow> j # js, st2)))"

lemma turn_cases:
  assumes "typed (fst st)" and "worker_turn ops [] now fresh st = (x, st')"
  shows "typed (fst st') \<and> (case x of
      None \<Rightarrow> all_tries (fst st) = 0 \<and> all_tries (fst st') = 0
    | Some j \<Rightarrow> all_tries (fst st') < all_tries (fst st))"
proof (cases "scan job_types (fst st)")
  case (Pair y m)
  show ?thesis
  proof (cases y)
    case None
    from scan_none [OF Pair [unfolded None]] have "m = fst st" "\<forall>t. fst st t = []"
      using job_types_all by auto
    with assms Pair None show ?thesis by (auto simp: worker_turn_def pop_def all_tries_def)
  next
    case (Some j)
    from scan_some [OF assms(1) Pair [unfolded Some]] have s: "typed m" "all_tries (fst st) = tries j + all_tries m"
      using all_tries_pop by auto
    have "0 < tries j" by (simp add: tries_def)
    with s retry_tries [where now = now and fresh = fresh and j = j and m = m] assms(2) Pair Some show ?thesis
      by (auto simp: worker_turn_def pop_def processJob_def split: prod.splits if_splits bool.splits)
  qed
qed

lemma turns_bound:
  assumes "typed (fst st)" and "worker_turns ops ts st = (js, st')"
  shows "typed (fst st') \<and> length js + all_tries (fst st') \<le> all_tries (fst st) \<and>
    (all_tries (fst st) \<le> length ts \<longrightarrow> all_tries (fst st') = 0)"
  using assms
proof (induction ops ts st arbitrary: js st' rule: worker_turns.induct)
  case (2 ops now fresh ts st)
  obtain x st1 where t: "worker_turn ops [] now fresh st = (x, st1)" using prod.exhaust by blast
  obtain ks st2 where r: "worker_turns ops ts st1 = (ks, st2)" using prod.exhaust by blast
  from turn_cases [OF 2(2) t] 2(1) [OF t [symmetric] _ r] 2(3) t r show ?case
    by (cases x) auto
qed simp


section \<open>Properties\<close>

datatype queue_event = Push string string job_request | Pop "job_type list"

fun queue_run :: "queue_event list \<Rightarrow> memory \<Rightarrow> job list \<times> memory" where
  "queue_run [] m = ([], m)"
| "queue_run (Push now fresh r # es) m = queue_run es (snd (push now fresh r m))"
| "queue_run (Pop types # es) m =
     (case pop types 0 [] m of
        (None, m') \<Rightarrow> queue_run es m'
      | (Some j, m') \<Rightarrow> (case queue_run es m' of (js, m'') \<Rightarrow> (j # js, m'')))"

definition pushed :: "queue_event list \<Rightarrow> job list" where
  "pushed es = concat (map (\<lambda>e. case e of Push now fresh r \<Rightarrow> [full_job now fresh r] | Pop _ \<Rightarrow> []) es)"

lemma pop_scan: "pop types 0 [] m = scan types m"
  using scan_none [of types m] by (auto simp: pop_def split: prod.split option.split)

text \<open>
  C32. The queue is first in, first out and loses nothing: from any well-typed queue, after any
  sequence of pushes and pops over any lists of types, the jobs of a type that were popped,
  followed by those still queued, are those that were queued at the start followed by those
  pushed, in that order; so every pushed job is handed out at most once and in its turn.
\<close>

theorem jobs_fifo:
  assumes "typed m" and "queue_run es m = (popped, m')"
  shows "filter (\<lambda>j. jb_type j = t) popped @ m' t = m t @ filter (\<lambda>j. jb_type j = t) (pushed es)"
  using assms
proof (induction es m arbitrary: popped m' rule: queue_run.induct)
  case (2 now fresh r es m)
  then show ?case
    using mem.add_ok mem.add_lane [of "full_job now fresh r" m t] by (simp add: push_def pushed_def Let_def)
next
  case (3 types es m)
  show ?case
  proof (cases "scan types m")
    case (Pair x m1)
    show ?thesis
    proof (cases x)
      case None
      with mem.take_none [OF 3(3) Pair [unfolded None], of t] 3(4) Pair
        3(1) [OF Pair [unfolded None, folded pop_scan, symmetric] refl] show ?thesis by (simp add: pop_scan pushed_def)
    next
      case (Some j)
      obtain js m2 where r: "queue_run es m1 = (js, m2)" by fastforce
      note tk = mem.take_some [OF 3(3) Pair [unfolded Some], of t]
      have "filter (\<lambda>j. jb_type j = t) js @ m2 t = m1 t @ filter (\<lambda>j. jb_type j = t) (pushed es)"
        using 3(2) [OF Pair [unfolded Some, folded pop_scan, symmetric] refl _ r] tk by simp
      moreover have "popped = j # js" "m' = m2" using 3(4) Pair Some r by (simp_all add: pop_scan)
      ultimately show ?thesis using tk by (auto simp: pushed_def split: if_splits)
    qed
  qed
qed (simp add: pushed_def)

definition sample_request :: "string \<Rightarrow> job_type \<Rightarrow> job_request" where
  "sample_request i t = \<lparr>jq_id = Some i, jq_type = t, jq_tenantId = ''t1'', jq_payload_capacity = None,
     jq_attempts = None, jq_maxAttempts = None\<rparr>"

theorem jobs_fifo_witness:
  "map jb_id (fst (queue_run
     [Push ''n'' ''f'' (sample_request ''a'' EXECUTION_DISPATCH), Push ''n'' ''f'' (sample_request ''b'' EXECUTION_DISPATCH),
      Pop [DLQ_RETRY_SWEEP, EXECUTION_DISPATCH]] (\<lambda>_. []))) = [''a'']"
proof -
  let ?es = "[Push ''n'' ''f'' (sample_request ''a'' EXECUTION_DISPATCH),
    Push ''n'' ''f'' (sample_request ''b'' EXECUTION_DISPATCH), Pop [DLQ_RETRY_SWEEP, EXECUTION_DISPATCH]]"
  obtain js m' where r: "queue_run ?es (\<lambda>_. []) = (js, m')" by fastforce
  have "typed (\<lambda>_. [])" by (simp add: typed_def)
  from jobs_fifo [OF this r, of EXECUTION_DISPATCH] r show ?thesis
    by (auto simp: pushed_def push_def full_job_def memory_push_def pop_scan sample_request_def or_opt_def or_str_def
        or_nat_def Let_def)
qed

text \<open>
  C33. The worker drains the queue: when nothing new arrives, all its turns together run jobs
  at most as often as the queued jobs have tries left (never fewer than one each), whatever
  the jobs do and however often they fail; after as many turns the queue is empty.
\<close>

theorem worker_drains_queue:
  assumes "typed (fst st)" and "worker_turns ops ts st = (handled, st')"
  shows "length handled + all_tries (fst st') \<le> all_tries (fst st) \<and>
    (all_tries (fst st) \<le> length ts \<longrightarrow> (\<forall>t. fst st' t = []))"
proof -
  have empty: "m t = []" if "all_tries m = 0" for m t
  proof -
    have "sum_list (map tries (m t)) = 0" using that job_types_all by (auto simp: all_tries_def)
    then have "\<forall>j \<in> set (m t). tries j = 0" by auto
    then show ?thesis by (cases "m t") (auto simp: tries_def)
  qed
  from turns_bound [OF assms] show ?thesis using empty by blast
qed

definition failing_ops :: "nat worker_ops" where
  "failing_ops = \<lparr>wo_set_tenant = (\<lambda>_ s. (False, s)), wo_sweep = (\<lambda>_ s. (True, s)), wo_market = (\<lambda>_ _ s. (True, s)), wo_execute = (\<lambda>_ s. (True, Suc s)),
     wo_reconcile = (\<lambda>_ s. (True, s)), wo_replay = (\<lambda>_ s. (True, s))\<rparr>"

theorem worker_drains_queue_witness:
  "fst (snd (worker_turns failing_ops (replicate 3 (''n'', ''f''))
     (memory_push (full_job ''n'' ''f'' (sample_request ''a'' EXECUTION_DISPATCH)) (\<lambda>_. []), 0))) EXECUTION_DISPATCH = []"
proof -
  let ?m = "memory_push (full_job ''n'' ''f'' (sample_request ''a'' EXECUTION_DISPATCH)) (\<lambda>_. [])"
  obtain js st' where r: "worker_turns failing_ops (replicate 3 (''n'', ''f'')) (?m, 0) = (js, st')"
    using prod.exhaust by blast
  have "typed ?m" by (rule typed_push) (simp add: typed_def)
  moreover have "all_tries ?m = 3"
    by (simp add: all_tries_push) (simp add: all_tries_def job_types_def tries_def full_job_def sample_request_def or_nat_def)
  ultimately show ?thesis using worker_drains_queue [of "(?m, 0)", OF _ r] r by simp
qed

text \<open>
  A failed tenant statement loses the job: it was taken from the queue, its attempts are not
  exhausted, and yet it is not run and not queued again.
\<close>

theorem tenant_error_loses_job:
  assumes "typed m" and "scan job_types m = (Some j, m')" and "wo_set_tenant ops (jb_tenantId j) s = (True, s')"
  shows "worker_turn ops [] now fresh (m, s) = (Some j, m', s') \<and> all_tries m = tries j + all_tries m'"
  using scan_some [OF assms(1,2)] all_tries_pop [of m j m'] assms(2,3)
  by (simp add: worker_turn_def pop_def processJob_def)

end
