(* ===== verification/Portfolio.thy ===== *)
theory Portfolio
  imports Market
begin

text \<open>
  The advisory side of the market: the uncertainty model (\<^verbatim>\<open>src/agents/uncertainty.ts\<close>), the
  value of information (\<^verbatim>\<open>src/agents/information_value.ts\<close>) and the portfolio sweep
  (\<^verbatim>\<open>src/agents/portfolio_agent.ts\<close>), in double arithmetic.  The age of an opportunity in
  milliseconds and whether a perception annotation is stored for it are parameters; the
  rationale and summary texts are not modelled.
\<close>

section \<open>Uncertainty\<close>

datatype routing = R_PROCEED | R_INVESTIGATE | R_ABSTAIN | R_HUMAN_REVIEW

record uncertainty =
  un_model :: rat
  un_data :: rat
  un_economic :: rat
  un_composite :: rat
  un_recommendation :: routing
  un_missing :: "string list"

record evidence =
  ev_score :: "score option"
  ev_perception :: bool
  ev_customer :: bool
  ev_gateway :: bool
  ev_samples :: nat
  ev_calibration_error :: rat

definition model_confidence :: "nat \<Rightarrow> rat \<Rightarrow> rat" where
  "model_confidence n err = clamp 0 1
     (if 30 \<le> n then fsub 1 (min err 1)
      else if 10 \<le> n then fsub (lit 60 2) (fmul err (lit 3 1))
      else lit 35 2)"

definition plus_if :: "bool \<Rightarrow> rat \<Rightarrow> rat \<Rightarrow> rat" where
  "plus_if b x acc = (if b then fadd acc x else acc)"

definition data_confidence :: "evidence \<Rightarrow> rat" where
  "data_confidence e = clamp 0 1
     (plus_if (ev_gateway e) (lit 15 2) (plus_if (ev_customer e) (lit 15 2)
       (plus_if (ev_perception e) (lit 25 2) (plus_if (ev_score e \<noteq> None) (lit 25 2) (lit 20 2)))))"

definition economic_confidence :: "score option \<Rightarrow> rat" where
  "economic_confidence score = clamp 0 1
     (case score of
        None \<Rightarrow> lit 30 2
      | Some s \<Rightarrow>
          let iven = s_expected_incremental_value_paise s;
              opCost = s_operational_cost_paise s + s_fatigue_cost_paise s
          in if opCost * 5 < iven then lit 95 2
             else if opCost * 2 < iven then lit 75 2
             else if opCost < iven then lit 55 2
             else if 0 < iven then lit 35 2
             else lit 10 2)"

definition missing_signals :: "evidence \<Rightarrow> string list" where
  "missing_signals e =
     (if ev_samples e < 10 then [''insufficient_historical_samples''] else []) @
     (if ev_score e = None then [''missing_economic_score''] else []) @
     (if ev_perception e then [] else [''missing_perception_annotation'']) @
     (if ev_customer e then [] else [''missing_customer_history'']) @
     (if ev_gateway e then [] else [''missing_gateway_state'']) @
     (if ev_score e = None then [''no_iven_available''] else [])"

definition composite_of :: "rat \<Rightarrow> rat \<Rightarrow> rat \<Rightarrow> rat" where
  "composite_of m d e = fadd (fadd (fmul (lit 35 2) m) (fmul (lit 35 2) d)) (fmul (lit 30 2) e)"

definition assess :: "evidence \<Rightarrow> uncertainty" where
  "assess e =
     (let m = model_confidence (ev_samples e) (ev_calibration_error e);
          d = data_confidence e;
          ec = economic_confidence (ev_score e);
          composite = composite_of m d ec;
          missing = missing_signals e
      in \<lparr>un_model = toFixed 4 m, un_data = toFixed 4 d, un_economic = toFixed 4 ec,
          un_composite = toFixed 4 composite,
          un_recommendation =
            (if lit 70 2 \<le> composite then R_PROCEED
             else if lit 40 2 \<le> composite then R_INVESTIGATE
             else if 3 \<le> length missing then R_ABSTAIN else R_HUMAN_REVIEW),
          un_missing = missing\<rparr>)"

section \<open>The value of information\<close>

datatype proposed_action = A_ACT | A_WAIT | A_INVESTIGATE

definition evoi :: "int \<Rightarrow> rat \<Rightarrow> int" where
  "evoi value conf = math_round (fmul (fmul (of_int value) (max 0 (fsub 1 conf))) (lit 20 2))"

definition estimate :: "score option \<Rightarrow> rat \<Rightarrow> rat \<Rightarrow> proposed_action \<times> int" where
  "estimate score gw conf =
     (let iven = (case score of None \<Rightarrow> 0 | Some s \<Rightarrow> s_expected_incremental_value_paise s);
          v = evoi iven conf;
          unstable = gw < lit 75 2
      in (if unstable \<and> 200 < v then A_INVESTIGATE
          else if lit 70 2 \<le> conf \<and> \<not> unstable \<and> 5000 < iven then A_ACT
          else if iven \<le> 5000 \<or> unstable then A_WAIT
          else if 200 < v then A_INVESTIGATE
          else if 0 < iven then A_ACT else A_WAIT, v))"

section \<open>The sweep\<close>

record portfolio_env =
  pe_market :: market_env
  pe_age_ms :: "opportunity \<Rightarrow> int"
  pe_perception :: "string \<Rightarrow> bool"

record priority =
  py_opportunity_id :: string
  py_iven_paise :: int
  py_time_urgency :: rat
  py_fatigue_risk :: rat
  py_gateway_confidence :: rat
  py_expiry_risk :: rat
  py_priority_score :: rat
  py_proposed_action :: proposed_action

definition age_hours :: "int \<Rightarrow> rat" where
  "age_hours ms = fdiv (of_int ms) (of_int (3600 * 1000))"

definition computeTimeUrgency :: "int \<Rightarrow> rat" where
  "computeTimeUrgency ms = toFixed 4 (min (fdiv (age_hours ms) 72) 1)"

definition computeFatigueRisk :: "opportunity \<Rightarrow> rat" where
  "computeFatigueRisk opp =
     (let attemptFatigue = min (fdiv (of_int (o_attempt_count opp)) 5) 1;
          trustPenalty = max 0 (fsub 1 (o_customer_trust_score opp))
      in toFixed 4 (fadd (fmul attemptFatigue (lit 6 1)) (fmul trustPenalty (lit 4 1))))"

definition computeExpiryRisk :: "int \<Rightarrow> rat" where
  "computeExpiryRisk ms =
     (let h = age_hours ms
      in if 72 \<le> h then 1 else if 54 \<le> h then lit 8 1 else if 36 \<le> h then lit 4 1
         else toFixed 4 (fmul (fdiv h 72) (lit 3 1)))"

definition priority_score :: "int \<Rightarrow> rat \<Rightarrow> rat \<Rightarrow> rat \<Rightarrow> rat \<Rightarrow> rat" where
  "priority_score value timeUrgency gatewayConf fatigueRisk expiryRisk =
     (let normIven = min (max (fdiv (of_int value) 1000000) 0) 1
      in toFixed 4 (fsub (fsub (fadd (fadd (fmul (lit 40 2) normIven) (fmul (lit 25 2) timeUrgency))
           (fmul (lit 15 2) gatewayConf)) (fmul (lit 10 2) fatigueRisk)) (fmul (lit 10 2) expiryRisk)))"

definition propose :: "opportunity \<Rightarrow> routing \<Rightarrow> proposed_action \<Rightarrow> proposed_action" where
  "propose opp u v =
     (if o_decline_type opp = Hard then A_WAIT
      else if u = R_INVESTIGATE \<or> v = A_INVESTIGATE then A_INVESTIGATE
      else if v = A_WAIT \<or> u = R_HUMAN_REVIEW then A_WAIT
      else A_ACT)"

definition evidence_of :: "portfolio_env \<Rightarrow> opportunity \<Rightarrow> score \<Rightarrow> store \<Rightarrow> evidence" where
  "evidence_of pe opp sc s =
     \<lparr>ev_score = Some sc, ev_perception = pe_perception pe (o_id opp),
      ev_customer = (getCustomerById s (o_customer_id opp) '''' \<noteq> None), ev_gateway = True,
      ev_samples = 15, ev_calibration_error = lit 25 2\<rparr>"

definition priority_of :: "portfolio_env \<Rightarrow> rat \<Rightarrow> opportunity \<Rightarrow> score \<Rightarrow> store \<Rightarrow> priority" where
  "priority_of pe gw opp sc s =
     (let u = assess (evidence_of pe opp sc s);
          v = estimate (Some sc) gw (un_composite u);
          iven = s_expected_incremental_value_paise sc;
          t = computeTimeUrgency (pe_age_ms pe opp);
          f = computeFatigueRisk opp;
          x = computeExpiryRisk (pe_age_ms pe opp)
      in \<lparr>py_opportunity_id = o_id opp, py_iven_paise = iven, py_time_urgency = t, py_fatigue_risk = f,
          py_gateway_confidence = gw, py_expiry_risk = x, py_priority_score = priority_score iven t gw f x,
          py_proposed_action = propose opp (un_recommendation u) (fst v)\<rparr>)"

text \<open>A score that cannot be computed ends the sweep with an error.\<close>

fun prioritize :: "portfolio_env \<Rightarrow> rat \<Rightarrow> opportunity list \<Rightarrow> store \<Rightarrow> priority list option \<times> store" where
  "prioritize pe gw [] s = (Some [], s)"
| "prioritize pe gw (opp # rest) s =
     (case (case getScoreByOpportunityId s (o_id opp) of
              Some sc \<Rightarrow> Some (sc, s)
            | None \<Rightarrow> scoreOpportunity (me_math (pe_market pe)) (me_calibrator (pe_market pe))
                        (me_sample (pe_market pe) opp) opp s) of
        None \<Rightarrow> (None, s)
      | Some (sc, s1) \<Rightarrow>
          (case prioritize pe gw rest s1 of
             (None, s2) \<Rightarrow> (None, s2)
           | (Some ps, s2) \<Rightarrow> (Some (priority_of pe gw opp sc s1 # ps), s2)))"

record sweep_options =
  so_capacity :: "int option"
  so_gatewayHealth :: "rat option"
  so_filterStatuses :: "opportunity_status list option"
  so_maxCandidates :: "int option"
  so_tenantId :: "string option"

record proposal =
  pp_total_scanned :: nat
  pp_priorities :: "priority list"
  pp_capacity_available :: int
  pp_top_k :: "string list"

definition sweep_candidates :: "sweep_options \<Rightarrow> store \<Rightarrow> opportunity list" where
  "sweep_candidates so s =
     (let statuses = (case so_filterStatuses so of None \<Rightarrow> [Pending, Scored, Deferred] | Some x \<Rightarrow> x);
          opps = filter (\<lambda>o'. o_status o' \<in> set statuses) (getAllOpportunities s (so_tenantId so) None)
      in case so_maxCandidates so of
           Some n \<Rightarrow> if 0 < n then take (nat n) opps else opps
         | None \<Rightarrow> opps)"

text \<open>\<^verbatim>\<open>xs.slice(0, k)\<close>: a negative \<open>k\<close> counts from the end.\<close>

definition slice0 :: "int \<Rightarrow> 'a list \<Rightarrow> 'a list" where
  "slice0 k xs = (if 0 \<le> k then take (nat k) xs else take (length xs - nat (- k)) xs)"

definition sweep :: "portfolio_env \<Rightarrow> sweep_options \<Rightarrow> store \<Rightarrow> proposal option \<times> store" where
  "sweep pe so s =
     (let capacity = (case so_capacity so of None \<Rightarrow> 5 | Some c \<Rightarrow> c);
          gw = (case so_gatewayHealth so of None \<Rightarrow> lit 95 2 | Some g \<Rightarrow> g);
          opps = sweep_candidates so s
      in case prioritize pe gw opps s of
           (None, s1) \<Rightarrow> (None, s1)
         | (Some ps, s1) \<Rightarrow>
             let priorities = sort_key (\<lambda>p. - py_priority_score p) ps
             in (Some \<lparr>pp_total_scanned = length opps, pp_priorities = priorities,
                       pp_capacity_available = capacity,
                       pp_top_k = map py_opportunity_id (slice0 capacity
                         (filter (\<lambda>p. py_proposed_action p = A_ACT) priorities))\<rparr>, s1))"

section \<open>Lemmas\<close>

lemma clamp_unit: "0 \<le> clamp 0 1 (x :: rat) \<and> clamp 0 1 x \<le> 1"
  by (rule clamp_bounds) simp

lemma composite_bounds:
  assumes "0 \<le> m" "m \<le> 1" "0 \<le> d" "d \<le> 1" "0 \<le> e" "e \<le> 1"
  shows "0 \<le> composite_of m d e \<and> composite_of m d e \<le> 1"
proof
  show "0 \<le> composite_of m d e"
    using assms by (simp add: composite_of_def fadd_nonneg fmul_nonneg lit_nonneg)
  have mono: "fadd a b \<le> fadd a' b'" if "a \<le> a'" "b \<le> b'" for a b a' b'
    using that by (simp add: fadd_def rnd64_mono)
  have "composite_of m d e \<le> composite_of 1 1 1"
    unfolding composite_of_def using assms by (intro mono fmul_mono lit_nonneg) simp_all
  also have "composite_of 1 1 1 \<le> 1" by code_simp
  finally show "composite_of m d e \<le> 1" .
qed

lemma propose_act: "propose opp u v = A_ACT \<Longrightarrow> o_decline_type opp \<noteq> Hard \<and> v = A_ACT"
  by (cases v) (auto simp: propose_def split: if_splits)

lemma estimate_act: "fst (estimate (Some sc) gw conf) = A_ACT \<Longrightarrow> 5000 < s_expected_incremental_value_paise sc"
  by (auto simp: estimate_def Let_def split: if_splits)

lemma prioritize_Cons:
  assumes "prioritize pe gw (opp # rest) s = (r, s')"
  shows "(r = None \<and> s' = s) \<or> (\<exists>sc s1 r1.
    (s1 = s \<or> scoreOpportunity (me_math (pe_market pe)) (me_calibrator (pe_market pe))
       (me_sample (pe_market pe) opp) opp s = Some (sc, s1)) \<and>
    prioritize pe gw rest s1 = (r1, s') \<and> r = map_option ((#) (priority_of pe gw opp sc s1)) r1)"
proof -
  let ?x = "case getScoreByOpportunityId s (o_id opp) of Some sc \<Rightarrow> Some (sc, s)
    | None \<Rightarrow> scoreOpportunity (me_math (pe_market pe)) (me_calibrator (pe_market pe))
        (me_sample (pe_market pe) opp) opp s"
  show ?thesis
  proof (cases ?x)
    case None
    with assms show ?thesis by simp
  next
    case (Some y)
    obtain sc s1 where y: "y = (sc, s1)" by fastforce
    obtain r1 s2 where r: "prioritize pe gw rest s1 = (r1, s2)" by fastforce
    have "s1 = s \<or> scoreOpportunity (me_math (pe_market pe)) (me_calibrator (pe_market pe))
        (me_sample (pe_market pe) opp) opp s = Some (sc, s1)"
      using Some y by (auto split: option.splits)
    moreover have "s2 = s'" "r = map_option ((#) (priority_of pe gw opp sc s1)) r1"
      using assms Some y r by (cases r1; simp)+
    ultimately show ?thesis using r by blast
  qed
qed

lemma prioritize_frame:
  "prioritize pe gw opps s = (r, s') \<Longrightarrow> same_rows s s' \<and> allocation_decisions s' = allocation_decisions s"
proof (induction opps arbitrary: s r)
  case (Cons opp rest)
  from prioritize_Cons [OF Cons.prems] Cons.IH show ?case
    using same_rows_score scoreOpportunity_effect(3) same_rows_trans same_rows_refl by metis
qed simp

text \<open>Every priority comes from a candidate and a score of it.\<close>

lemma prioritize_rows:
  "prioritize pe gw opps s = (Some ps, s') \<Longrightarrow>
   list_all2 (\<lambda>p opp. \<exists>sc t. p = priority_of pe gw opp sc t) ps opps"
proof (induction opps arbitrary: s ps)
  case (Cons opp rest)
  from prioritize_Cons [OF Cons.prems] obtain sc s1 qs where
    "prioritize pe gw rest s1 = (Some qs, s')" "ps = priority_of pe gw opp sc s1 # qs"
    by (auto simp: map_option_case split: option.splits)
  with Cons.IH show ?case by auto
qed simp

lemma slice0_length: "length (slice0 k xs) \<le> (if 0 \<le> k then nat k else length xs)"
  by (simp add: slice0_def)

lemma slice0_subset: "set (slice0 k xs) \<subseteq> set xs"
  by (auto simp: slice0_def dest: in_set_takeD)

section \<open>Properties\<close>

text \<open>
  C25. The portfolio only advises, and advises soundly: whatever the store holds, a sweep of
  non-negative capacity recommends at most that many opportunities, each of them a
  candidate of an admitted status that is no hard decline and has a value above 50 rupees;
  its priorities are the candidates, each once, by falling score; and it changes no
  allocation and no row beyond its status.
\<close>

theorem portfolio_sound:
  assumes "sweep pe so s = (Some p, s')" and "so_capacity so = Some k" and "0 \<le> k"
  shows "int (length (pp_top_k p)) \<le> k \<and>
    (\<forall>i \<in> set (pp_top_k p). \<exists>opp \<in> set (sweep_candidates so s). \<exists>q \<in> set (pp_priorities p).
       o_id opp = i \<and> py_opportunity_id q = i \<and> o_decline_type opp \<noteq> Hard \<and> 5000 < py_iven_paise q) \<and>
    mset (map py_opportunity_id (pp_priorities p)) = mset (map o_id (sweep_candidates so s)) \<and>
    sorted_wrt (\<lambda>a b. py_priority_score b \<le> py_priority_score a) (pp_priorities p) \<and>
    allocation_decisions s' = allocation_decisions s \<and> same_rows s s'"
proof -
  let ?gw = "case so_gatewayHealth so of None \<Rightarrow> lit 95 2 | Some g \<Rightarrow> g"
  obtain ps where ps: "prioritize pe ?gw (sweep_candidates so s) s = (Some ps, s')"
    and p: "pp_priorities p = sort_key (\<lambda>p. - py_priority_score p) ps"
      "pp_top_k p = map py_opportunity_id (slice0 k (filter (\<lambda>p. py_proposed_action p = A_ACT) (pp_priorities p)))"
    using assms(1,2) by (auto simp: sweep_def Let_def split: option.splits prod.splits)
  note rows = prioritize_rows [OF ps]
  have ids: "map py_opportunity_id ps = map o_id (sweep_candidates so s)"
    using rows by (induction rule: list_all2_induct) (auto simp: priority_of_def Let_def)
  have "\<exists>opp \<in> set (sweep_candidates so s). \<exists>q \<in> set (pp_priorities p).
       o_id opp = i \<and> py_opportunity_id q = i \<and> o_decline_type opp \<noteq> Hard \<and> 5000 < py_iven_paise q"
    if "i \<in> set (pp_top_k p)" for i
  proof -
    have "set (slice0 k (filter (\<lambda>p. py_proposed_action p = A_ACT) (pp_priorities p))) \<subseteq>
        {q \<in> set ps. py_proposed_action q = A_ACT}"
      using slice0_subset [of k "filter (\<lambda>p. py_proposed_action p = A_ACT) (pp_priorities p)"] by (simp add: p(1))
    moreover have "i \<in> py_opportunity_id ` set (slice0 k (filter (\<lambda>p. py_proposed_action p = A_ACT) (pp_priorities p)))"
      using that p(2) by simp
    ultimately obtain q where q: "q \<in> set ps" "py_proposed_action q = A_ACT" "py_opportunity_id q = i"
      by blast
    obtain opp sc t where o: "opp \<in> set (sweep_candidates so s)" "q = priority_of pe ?gw opp sc t"
      using rows q(1) by (auto simp: list_all2_conv_all_nth in_set_conv_nth) metis
    with q(2) have "o_decline_type opp \<noteq> Hard" "5000 < py_iven_paise q"
      by (auto simp: priority_of_def Let_def dest!: propose_act estimate_act)
    with o q p(1) show ?thesis by (intro bexI [of _ opp] bexI [of _ q]) (auto simp: priority_of_def Let_def)
  qed
  moreover have "int (length (pp_top_k p)) \<le> k"
    using slice0_length [of k "filter (\<lambda>p. py_proposed_action p = A_ACT) (pp_priorities p)"] assms(3) by (simp add: p(2))
  moreover have "mset (map py_opportunity_id (pp_priorities p)) = mset (map o_id (sweep_candidates so s))"
    by (simp add: p(1) flip: ids)
  moreover have "sorted_wrt (\<lambda>a b. py_priority_score b \<le> py_priority_score a) (pp_priorities p)"
    using sorted_sort_key [of "\<lambda>p. - py_priority_score p" ps] by (simp add: p(1) sorted_map)
  ultimately show ?thesis using prioritize_frame [OF ps] by blast
qed

definition sample_portfolio_env :: portfolio_env where
  "sample_portfolio_env = \<lparr>pe_market = sample_market_env, pe_age_ms = (\<lambda>_. 0), pe_perception = (\<lambda>_. True)\<rparr>"

definition sample_sweep :: sweep_options where
  "sample_sweep = \<lparr>so_capacity = Some 1, so_gatewayHealth = None, so_filterStatuses = None,
     so_maxCandidates = None, so_tenantId = None\<rparr>"

lemma prioritize_scored:
  "list_all (\<lambda>opp. getScoreByOpportunityId s (o_id opp) \<noteq> None) opps \<Longrightarrow>
   \<exists>ps. prioritize pe gw opps s = (Some ps, s)"
  by (induction opps) auto

theorem portfolio_sound_witness:
  "\<exists>p s'. sweep sample_portfolio_env sample_sweep sample_market_store = (Some p, s') \<and>
     length (pp_top_k p) \<le> 1 \<and> mset (map py_opportunity_id (pp_priorities p)) = {#''a'', ''b''#}"
proof -
  have c: "mset (map o_id (sweep_candidates sample_sweep sample_market_store)) = {#''a'', ''b''#}"
    by (simp add: sweep_candidates_def sample_sweep_def sample_market_store_def getAllOpportunities_def
        sample_opportunity_def truthy_str_def)
  have "list_all (\<lambda>opp. getScoreByOpportunityId sample_market_store (o_id opp) \<noteq> None)
      (sweep_candidates sample_sweep sample_market_store)"
    by (simp add: list_all_iff sweep_candidates_def sample_sweep_def sample_market_store_def getAllOpportunities_def
        sample_opportunity_def truthy_str_def getScoreByOpportunityId_def row_get_def sample_score_row_def)
  from prioritize_scored [OF this, of sample_portfolio_env "lit 95 2"] obtain p s' where
    r: "sweep sample_portfolio_env sample_sweep sample_market_store = (Some p, s')"
    by (auto simp: sweep_def Let_def sample_sweep_def)
  have "so_capacity sample_sweep = Some 1" by (simp add: sample_sweep_def)
  from portfolio_sound [OF r this] c r show ?thesis by auto
qed

text \<open>Confidence is a number between 0 and 1, and information is worth the less the more is
  known, and never less than nothing.\<close>

theorem uncertainty_bounded:
  "0 \<le> un_composite (assess e) \<and> un_composite (assess e) \<le> 1"
  using composite_bounds [of "model_confidence (ev_samples e) (ev_calibration_error e)" "data_confidence e"
      "economic_confidence (ev_score e)"] clamp_unit
  by (simp add: assess_def Let_def toFixed_nonneg toFixed_le_one model_confidence_def data_confidence_def
      economic_confidence_def)

theorem evoi_antitone:
  assumes "0 \<le> value" and "conf \<le> conf'"
  shows "0 \<le> evoi value conf' \<and> evoi value conf' \<le> evoi value conf"
proof
  let ?g = "\<lambda>c. max 0 (fsub 1 c)"
  have g: "0 \<le> ?g conf'" "?g conf' \<le> ?g conf" using fsub_mono [of 1 1 conf conf'] assms(2) by auto
  have comm: "fmul a b = fmul b a" for a b by (simp add: fmul_def mult.commute)
  have "0 \<le> fmul (fmul (of_int value) (?g conf')) (lit 20 2)"
    using assms(1) g(1) by (intro fmul_nonneg lit_nonneg) simp_all
  then have "of_int 0 \<le> fmul (fmul (of_int value) (?g conf')) (lit 20 2)" by simp
  from math_round_ge [OF this] show "0 \<le> evoi value conf'" by (simp add: evoi_def)
  show "evoi value conf' \<le> evoi value conf"
    unfolding evoi_def comm [of _ "lit 20 2"] using assms(1) g(2)
    by (intro math_round_mono fmul_mono lit_nonneg) simp_all
qed

end
