(* ===== verification/Daemon.thy ===== *)
theory Daemon
  imports Portfolio Executor Reconcile
begin

text \<open>
  The autonomous sweep (\<^verbatim>\<open>src/agents/daemon.ts\<close>).  The first part is the control state of the
  daemon, its timer and the interleaving of its commands with a sweep in flight, as a step
  function over events; the second is the work of one sweep, which composes the kill switch,
  the portfolio, the market, the authorised batch and the poller over one store.  Fresh
  identifiers, times and the message of an exception are parameters; configuration values
  are whole numbers.  Proactive alerts and live broadcasts write no state and are left out.
\<close>

section \<open>The control state\<close>

datatype daemon_mode = D_IDLE | D_SWEEPING | D_SLEEPING | D_STOPPED

record daemon_config =
  dc_interval_seconds :: int
  dc_capacity :: int

record config_update =
  cu_interval_seconds :: "int option"
  cu_capacity :: "int option"

record daemon =
  dm_state :: daemon_mode
  dm_isSweeping :: bool
  dm_config :: daemon_config
  dm_timer :: bool
  dm_total_sweeps :: nat
  dm_revenue_recovered_paise :: int
  dm_last_sweep_at :: "string option"
  dm_next_sweep_at :: "string option"

definition new_daemon :: daemon where
  "new_daemon = \<lparr>dm_state = D_IDLE, dm_isSweeping = False,
     dm_config = \<lparr>dc_interval_seconds = 20, dc_capacity = 5\<rparr>, dm_timer = False, dm_total_sweeps = 0,
     dm_revenue_recovered_paise = 0, dm_last_sweep_at = None, dm_next_sweep_at = None\<rparr>"

text \<open>\<open>later n\<close> renders the time \<open>n\<close> seconds from now; \<open>dm_timer\<close> says whether a timer is
  pending.\<close>

definition scheduleNext :: "(int \<Rightarrow> string) \<Rightarrow> daemon \<Rightarrow> daemon" where
  "scheduleNext later d =
     (if dm_state d = D_STOPPED \<or> dm_state d = D_IDLE then d
      else d\<lparr>dm_next_sweep_at := Some (later (dc_interval_seconds (dm_config d))),
             dm_state := D_SLEEPING, dm_timer := True\<rparr>)"

definition set_config :: "config_update \<Rightarrow> daemon_config \<Rightarrow> daemon_config" where
  "set_config u c =
     \<lparr>dc_interval_seconds = (case cu_interval_seconds u of
        None \<Rightarrow> dc_interval_seconds c | Some n \<Rightarrow> max 15 (min 300 n)),
      dc_capacity = (case cu_capacity u of None \<Rightarrow> dc_capacity c | Some n \<Rightarrow> max 1 (min 10 n))\<rparr>"

definition updateConfig :: "(int \<Rightarrow> string) \<Rightarrow> config_update \<Rightarrow> daemon \<Rightarrow> daemon" where
  "updateConfig later u d =
     (let d1 = d\<lparr>dm_config := set_config u (dm_config d)\<rparr>
      in if dm_state d1 = D_SLEEPING then scheduleNext later d1 else d1)"

definition start_daemon :: "(int \<Rightarrow> string) \<Rightarrow> config_update option \<Rightarrow> daemon \<Rightarrow> daemon" where
  "start_daemon later u d =
     (if dm_state d = D_SWEEPING \<or> dm_state d = D_SLEEPING then d
      else let d1 = (case u of None \<Rightarrow> d | Some c \<Rightarrow> updateConfig later c d)
           in scheduleNext later (d1\<lparr>dm_state := D_SLEEPING\<rparr>))"

definition stop_daemon :: "daemon \<Rightarrow> daemon" where
  "stop_daemon d = d\<lparr>dm_timer := False, dm_state := D_STOPPED, dm_next_sweep_at := None\<rparr>"

text \<open>A sweep first records the state it finds, and puts it back when it ends.\<close>

definition begin_sweep :: "string \<Rightarrow> daemon \<Rightarrow> (daemon_mode \<times> daemon) option" where
  "begin_sweep now d =
     (if dm_isSweeping d then None
      else Some (dm_state d, d\<lparr>dm_isSweeping := True, dm_state := D_SWEEPING,
             dm_total_sweeps := dm_total_sweeps d + 1, dm_last_sweep_at := Some now\<rparr>))"

definition end_sweep :: "int \<Rightarrow> daemon_mode \<Rightarrow> daemon \<Rightarrow> daemon" where
  "end_sweep recovered_revenue previous d =
     d\<lparr>dm_revenue_recovered_paise := dm_revenue_recovered_paise d + recovered_revenue,
       dm_state := (if previous = D_SLEEPING then D_SLEEPING
                    else if previous = D_STOPPED then D_STOPPED else D_IDLE),
       dm_isSweeping := False\<rparr>"

text \<open>The end of a timer callback.\<close>

definition timer_finally :: "(int \<Rightarrow> string) \<Rightarrow> daemon \<Rightarrow> daemon" where
  "timer_finally later d = (if dm_state d \<noteq> D_STOPPED then scheduleNext later d else d)"

section \<open>Commands and sweeps interleaved\<close>

text \<open>
  A process is the daemon with the sweep in flight, if any: the state it found and whether
  a timer started it.  A sweep ends in a later event than the one that began it, for it awaits
  the provider in between; with distributed workers a timer only queues a job.
\<close>

record process =
  ps_daemon :: daemon
  ps_inflight :: "(daemon_mode \<times> bool) option"

datatype event =
    E_start "config_update option"
  | E_stop
  | E_update config_update
  | E_timer bool
  | E_trigger
  | E_finish

definition launch_sweep :: "(int \<Rightarrow> string) \<Rightarrow> string \<Rightarrow> bool \<Rightarrow> process \<Rightarrow> process" where
  "launch_sweep later now by_timer ps =
     (case begin_sweep now (ps_daemon ps) of
        Some (previous, d) \<Rightarrow> ps\<lparr>ps_daemon := d, ps_inflight := Some (previous, by_timer)\<rparr>
      | None \<Rightarrow> ps\<lparr>ps_daemon := (if by_timer then timer_finally later (ps_daemon ps) else ps_daemon ps)\<rparr>)"

fun enabled :: "event \<Rightarrow> process \<Rightarrow> bool" where
  "enabled (E_timer _) ps = dm_timer (ps_daemon ps)"
| "enabled E_finish ps = (ps_inflight ps \<noteq> None)"
| "enabled _ ps = True"

fun daemon_step :: "(int \<Rightarrow> string) \<Rightarrow> string \<Rightarrow> event \<Rightarrow> process \<Rightarrow> process" where
  "daemon_step later now (E_start u) ps = ps\<lparr>ps_daemon := start_daemon later u (ps_daemon ps)\<rparr>"
| "daemon_step later now E_stop ps = ps\<lparr>ps_daemon := stop_daemon (ps_daemon ps)\<rparr>"
| "daemon_step later now (E_update u) ps = ps\<lparr>ps_daemon := updateConfig later u (ps_daemon ps)\<rparr>"
| "daemon_step later now (E_timer distributed) ps =
     (let fired = ps\<lparr>ps_daemon := (ps_daemon ps)\<lparr>dm_timer := False\<rparr>\<rparr>
      in if distributed then fired\<lparr>ps_daemon := timer_finally later (ps_daemon fired)\<rparr>
         else launch_sweep later now True fired)"
| "daemon_step later now E_trigger ps = launch_sweep later now False ps"
| "daemon_step later now E_finish ps =
     (case ps_inflight ps of
        None \<Rightarrow> ps
      | Some (previous, by_timer) \<Rightarrow>
          let d = end_sweep 0 previous (ps_daemon ps)
          in ps\<lparr>ps_daemon := (if by_timer then timer_finally later d else d), ps_inflight := None\<rparr>)"

text \<open>Reachable processes.  A calm run stops the daemon only between sweeps.\<close>

definition calm_event :: "event \<Rightarrow> process \<Rightarrow> bool" where
  "calm_event e ps \<longleftrightarrow> (e = E_stop \<longrightarrow> ps_inflight ps = None)"

inductive reachable :: "(int \<Rightarrow> string) \<Rightarrow> bool \<Rightarrow> process \<Rightarrow> bool" for later where
  boot: "reachable later calm \<lparr>ps_daemon = new_daemon, ps_inflight = None\<rparr>"
| event: "reachable later calm ps \<Longrightarrow> enabled e ps \<Longrightarrow> (calm \<longrightarrow> calm_event e ps) \<Longrightarrow>
            reachable later calm (daemon_step later now e ps)"

definition sound_process :: "process \<Rightarrow> bool" where
  "sound_process ps \<longleftrightarrow>
     (let d = ps_daemon ps; c = dm_config d in
      15 \<le> dc_interval_seconds c \<and> dc_interval_seconds c \<le> 300 \<and>
      1 \<le> dc_capacity c \<and> dc_capacity c \<le> 10 \<and>
      (dm_isSweeping d \<longleftrightarrow> ps_inflight ps \<noteq> None) \<and>
      (dm_state d = D_SWEEPING \<longrightarrow> dm_isSweeping d) \<and>
      (\<forall>by_timer. ps_inflight ps \<noteq> Some (D_SWEEPING, by_timer)) \<and>
      dm_revenue_recovered_paise d = 0)"

definition armed :: "process \<Rightarrow> bool" where
  "armed ps \<longleftrightarrow>
     (let d = ps_daemon ps in
      (dm_state d = D_SLEEPING \<longrightarrow> dm_timer d) \<and>
      (dm_timer d \<longrightarrow> dm_state d \<in> {D_SLEEPING, D_SWEEPING}) \<and>
      (case ps_inflight ps of
         None \<Rightarrow> True
       | Some (previous, by_timer) \<Rightarrow>
           dm_state d \<in> {D_SWEEPING, D_SLEEPING} \<and> (by_timer \<longrightarrow> previous = D_SLEEPING) \<and>
           (dm_state d = D_SLEEPING \<longrightarrow> previous = D_SLEEPING) \<and>
           (previous = D_SLEEPING \<longleftrightarrow> dm_timer d \<or> by_timer)))"

lemmas control_defs = start_daemon_def stop_daemon_def updateConfig_def set_config_def scheduleNext_def
  launch_sweep_def begin_sweep_def end_sweep_def timer_finally_def Let_def

lemma sound_boot: "sound_process \<lparr>ps_daemon = new_daemon, ps_inflight = None\<rparr>"
  by (simp add: sound_process_def new_daemon_def)

lemma sound_step: "sound_process ps \<Longrightarrow> sound_process (daemon_step later now e ps)"
  by (cases e; cases ps)
    (auto simp: sound_process_def control_defs split: option.splits prod.splits if_splits)

lemma reachable_sound: "reachable later calm ps \<Longrightarrow> sound_process ps"
  by (induction rule: reachable.induct) (auto intro: sound_boot sound_step)

lemma armed_boot: "armed \<lparr>ps_daemon = new_daemon, ps_inflight = None\<rparr>"
  by (simp add: armed_def new_daemon_def)

lemma armed_step:
  assumes "sound_process ps" and "armed ps" and "enabled e ps" and "calm_event e ps"
  shows "armed (daemon_step later now e ps)"
  using assms
  by (cases e; cases ps)
    (auto simp: sound_process_def armed_def calm_event_def control_defs split: option.splits prod.splits if_splits)

lemma reachable_armed: "reachable later True ps \<Longrightarrow> armed ps"
proof (induction calm \<equiv> True ps rule: reachable.induct)
  case boot
  show ?case by (rule armed_boot)
next
  case (event ps e now)
  then show ?case using armed_step reachable_sound by blast
qed

lemma reach_step:
  "reachable later calm ps \<Longrightarrow> enabled e ps \<Longrightarrow> (calm \<longrightarrow> calm_event e ps) \<Longrightarrow> ps' = daemon_step later now e ps \<Longrightarrow>
   reachable later calm ps'"
  by (simp add: reachable.event)

text \<open>
  C24. The control of the daemon in every interleaving: sweeps never overlap, the configuration
  keeps its bounds; and as long as nobody stops it in the middle of a sweep, a sleeping
  daemon has its timer armed, a stopped or idle one has none and no sweep in flight.
\<close>

theorem daemon_control:
  assumes "reachable later calm ps"
  shows "(dm_isSweeping (ps_daemon ps) \<longleftrightarrow> ps_inflight ps \<noteq> None) \<and>
     dc_interval_seconds (dm_config (ps_daemon ps)) \<in> {15..300} \<and>
     dc_capacity (dm_config (ps_daemon ps)) \<in> {1..10} \<and>
     (calm \<longrightarrow> (dm_state (ps_daemon ps) = D_SLEEPING \<longrightarrow> dm_timer (ps_daemon ps)) \<and>
        (dm_state (ps_daemon ps) \<in> {D_STOPPED, D_IDLE} \<longrightarrow>
           \<not> dm_timer (ps_daemon ps) \<and> ps_inflight ps = None))"
proof -
  from reachable_sound [OF assms] have s: "sound_process ps" .
  have "armed ps" if calm using reachable_armed assms that by simp
  with s show ?thesis
    by (auto simp: sound_process_def armed_def Let_def split: option.splits prod.splits)
qed

definition events :: "(int \<Rightarrow> string) \<Rightarrow> string \<Rightarrow> process \<Rightarrow> event list \<Rightarrow> process" where
  "events later now ps es = fold (daemon_step later now) es ps"

definition calm_sample :: process where
  "calm_sample = fold (daemon_step (\<lambda>n. ''later'') ''now'') [E_start None, E_timer False, E_finish]
     \<lparr>ps_daemon = new_daemon, ps_inflight = None\<rparr>"

lemma calm_sample_reachable: "reachable (\<lambda>n. ''later'') True calm_sample"
  unfolding calm_sample_def fold_simps o_apply id_apply
  by (intro reachable.event reachable.boot)
    (simp_all add: calm_event_def new_daemon_def control_defs)

theorem daemon_control_witness:
  "dm_state (ps_daemon calm_sample) = D_SLEEPING \<and> dm_timer (ps_daemon calm_sample) \<and>
   dm_total_sweeps (ps_daemon calm_sample) = 1 \<and>
   dc_interval_seconds (dm_config (ps_daemon calm_sample)) \<in> {15..300}"
proof -
  have "dm_state (ps_daemon calm_sample) = D_SLEEPING" "dm_total_sweeps (ps_daemon calm_sample) = 1"
    by (simp_all add: calm_sample_def new_daemon_def control_defs)
  with daemon_control [OF calm_sample_reachable] show ?thesis by simp
qed

text \<open>
  A stop in the middle of a sweep does not hold.  When a timer began the sweep, its end
  wakes the daemon again, timer armed.  When the sweep was triggered by hand, the daemon is
  left sleeping without a timer: it never sweeps by itself again, and starting it has no
  effect.
\<close>

theorem stop_undone_by_sweep:
  assumes "dm_state (ps_daemon ps) = D_SLEEPING" and "ps_inflight ps = None" and "sound_process ps"
  shows "dm_state (ps_daemon (events later now ps [E_timer False, E_stop, E_finish])) = D_SLEEPING \<and>
     dm_timer (ps_daemon (events later now ps [E_timer False, E_stop, E_finish])) \<and>
     dm_state (ps_daemon (events later now ps [E_trigger, E_stop, E_finish])) = D_SLEEPING \<and>
     \<not> dm_timer (ps_daemon (events later now ps [E_trigger, E_stop, E_finish])) \<and>
     events later now ps [E_trigger, E_stop, E_finish, E_start u] =
       events later now ps [E_trigger, E_stop, E_finish]"
  using assms by (cases ps) (simp add: sound_process_def events_def control_defs)

theorem stop_undone_by_sweep_witness:
  "dm_state (ps_daemon (events (\<lambda>n. ''later'') ''now'' calm_sample [E_timer False, E_stop, E_finish])) = D_SLEEPING"
proof -
  have "dm_state (ps_daemon calm_sample) = D_SLEEPING" "ps_inflight calm_sample = None"
    by (simp_all add: calm_sample_def new_daemon_def control_defs)
  from stop_undone_by_sweep [OF this reachable_sound [OF calm_sample_reachable], of "\<lambda>n. ''later''" "''now''"]
  show ?thesis by blast
qed

text \<open>A start during a hand-triggered sweep of a stopped daemon is lost.\<close>

theorem start_lost_in_sweep:
  assumes "dm_state (ps_daemon ps) = D_STOPPED" and "ps_inflight ps = None" and "sound_process ps"
  shows "dm_state (ps_daemon (events later now ps [E_trigger, E_start u, E_finish])) = D_STOPPED"
  using assms by (cases ps) (simp add: sound_process_def events_def control_defs)

section \<open>The work of one sweep\<close>

datatype sweep_status = SW_SUCCESS | SW_PARTIAL | SW_FAILED | SW_ABORTED

record sweep_log =
  sl_id :: string
  sl_sweep_number :: nat
  sl_started_at :: string
  sl_finished_at :: string
  sl_duration_ms :: int
  sl_status :: sweep_status
  sl_opps_scanned :: nat
  sl_opps_allocated :: int
  sl_opps_executed :: nat
  sl_opps_reconciled :: nat
  sl_revenue_recovered_paise :: int
  sl_error_message :: "string option"
  sl_config_snapshot :: "string option"

record work =
  wk_exec :: exec_state
  wk_calibrator :: calibrator
  wk_arms :: arms
  wk_pacer :: pacer
  wk_logs :: "sweep_log list"

record sweep_env =
  sv_exec :: "nat \<Rightarrow> exec_env"
  sv_recon :: recon_env
  sv_calls :: "nat \<Rightarrow> recon_call"
  sv_age_ms :: "opportunity \<Rightarrow> int"
  sv_perception :: "string \<Rightarrow> bool"
  sv_sweep_id :: string
  sv_kill_notif_id :: string
  sv_rec_notif_id :: "nat \<Rightarrow> string"
  sv_now :: string
  sv_started_at :: string
  sv_finished_at :: string
  sv_duration_ms :: int
  sv_week_ago :: string
  sv_error :: string

abbreviation wk_store :: "work \<Rightarrow> store" where
  "wk_store w \<equiv> xs_store (wk_exec w)"

definition with_store :: "store \<Rightarrow> work \<Rightarrow> work" where
  "with_store s w = w\<lparr>wk_exec := (wk_exec w)\<lparr>xs_store := s\<rparr>\<rparr>"

text \<open>The services of a sweep score with the one calibrator of the process.\<close>

definition tied_exec :: "sweep_env \<Rightarrow> work \<Rightarrow> nat \<Rightarrow> exec_env" where
  "tied_exec sv w i =
     (let xe = sv_exec sv i; ge = xe_gate xe
      in xe\<lparr>xe_gate := ge\<lparr>ge_market := (ge_market ge)\<lparr>me_calibrator := wk_calibrator w\<rparr>\<rparr>\<rparr>)"

definition sweep_kill :: "sweep_env \<Rightarrow> kill_switches" where
  "sweep_kill sv = ge_kill (xe_gate (sv_exec sv 0))"

definition sweep_portfolio :: "sweep_env \<Rightarrow> work \<Rightarrow> portfolio_env" where
  "sweep_portfolio sv w = \<lparr>pe_market = ge_market (xe_gate (tied_exec sv w 0)), pe_age_ms = sv_age_ms sv,
     pe_perception = sv_perception sv\<rparr>"

record tally =
  ty_scanned :: nat
  ty_allocated :: int
  ty_executed :: nat
  ty_reconciled :: nat
  ty_status :: sweep_status
  ty_error :: string

definition no_tally :: tally where
  "no_tally = \<lparr>ty_scanned = 0, ty_allocated = 0, ty_executed = 0, ty_reconciled = 0,
     ty_status = SW_SUCCESS, ty_error = []\<rparr>"

text \<open>The \<^verbatim>\<open>catch\<close> of a sweep.\<close>

definition caught :: "string \<Rightarrow> tally \<Rightarrow> tally" where
  "caught msg t = t\<lparr>ty_status := (if ty_status t = SW_SUCCESS then SW_FAILED else ty_status t),
     ty_error := ty_error t @ or_str msg ''Unknown sweep error''\<rparr>"

definition active_count :: "string option \<Rightarrow> store \<Rightarrow> nat" where
  "active_count target s = length (filter
     (\<lambda>o'. (truthy_str target \<longrightarrow> o_tenant_id o' = the target) \<and>
           o_status o' \<in> {Pending, Scored, Deferred, Allocated, Executing}) (opportunities s))"

definition kill_notification :: "sweep_env \<Rightarrow> string \<Rightarrow> notification" where
  "kill_notification sv tenant =
     \<lparr>nt_id = sv_kill_notif_id sv, nt_tenant_id = tenant, nt_type = ''KILL_SWITCH_TRIGGERED'',
      nt_title = ''Kill Switch Active'',
      nt_message = ''Autonomous daemon sweep was aborted due to active kill switch.'',
      nt_link_url = ''/dashboard'', nt_read = False, nt_created_at = sv_now sv\<rparr>"

definition recovered_notification ::
  "sweep_env \<Rightarrow> nat \<Rightarrow> string \<Rightarrow> string \<Rightarrow> opportunity option \<Rightarrow> notification" where
  "recovered_notification sv i active oid opp =
     \<lparr>nt_id = sv_rec_notif_id sv i,
      nt_tenant_id = (case opp of None \<Rightarrow> active | Some o' \<Rightarrow> or_str (o_tenant_id o') active),
      nt_type = ''PAYMENT_RECOVERED'', nt_title = ''Payment Successfully Recovered!'',
      nt_message = ''Opportunity '' @ oid @
        (case opp of None \<Rightarrow> '''' | Some o' \<Rightarrow> '' (Rs.'' @ show_rupees (o_amount_paise o') @ '')'') @
        '' settled and verified via Razorpay API.'',
      nt_link_url = ''/dashboard/opportunities'', nt_read = False, nt_created_at = sv_now sv\<rparr>"

fun notify_recovered :: "sweep_env \<Rightarrow> string \<Rightarrow> nat \<Rightarrow> polled_item list \<Rightarrow> store \<Rightarrow> store" where
  "notify_recovered sv active i [] s = s"
| "notify_recovered sv active i (item # rest) s =
     notify_recovered sv active (i + 1) rest
       (if pi_reconciled item \<and> pi_new_status item = Some Recovered
        then insertNotification (recovered_notification sv i active (pi_opportunity_id item)
               (getOpportunityById s (pi_opportunity_id item))) s
        else s)"

text \<open>Steps 4 and 5: the authorised batch and the poller.  A batch that ends in an
  exception (\<open>None\<close>) has no result here.\<close>

definition execute_and_poll ::
  "sweep_env \<Rightarrow> int \<Rightarrow> string option \<Rightarrow> string \<Rightarrow> (nat \<Rightarrow> exec_env) \<Rightarrow> tally \<Rightarrow> work \<Rightarrow> (tally \<times> work) option" where
  "execute_and_poll sv capacity target active envs t w =
     (case executeAuthorizedBatch envs (nat capacity)
             \<lparr>op_capacity = None, op_opportunities = None, op_tenantId = target, op_environment = None\<rparr>
             (wk_exec w, wk_pacer w) of
        None \<Rightarrow> None
      | Some (b, xs, p) \<Rightarrow>
          let t1 = t\<lparr>ty_executed := br_executed_count b\<rparr>;
              t2 = (if 0 < br_failed_count b
                    then t1\<lparr>ty_status := SW_PARTIAL, ty_error := ''Execution failed for '' @
                              show_nat (br_failed_count b) @ '' items. ''\<rparr>
                    else t1);
              (r, rs) = pollAndReconcile (sv_recon sv) (sv_calls sv) target
                \<lparr>rs_store = xs_store xs, rs_calibrator = wk_calibrator w, rs_arms = wk_arms w\<rparr>
          in Some (t2\<lparr>ty_reconciled := pr_reconciled_count r\<rparr>,
               w\<lparr>wk_exec := xs\<lparr>xs_store := notify_recovered sv active 0 (pr_items r) (rs_store rs)\<rparr>,
                 wk_calibrator := rs_calibrator rs, wk_arms := rs_arms rs, wk_pacer := p\<rparr>))"

definition sweep_work ::
  "sweep_env \<Rightarrow> int \<Rightarrow> string option \<Rightarrow> work \<Rightarrow> (tally \<times> work) option" where
  "sweep_work sv capacity target w =
     (let active = or_opt target ''tenant_system_default''; envs = tied_exec sv w
      in if isKillSwitchActive (sweep_kill sv) (Some active) None
         then Some (caught ''Kill switch engaged'' (no_tally\<lparr>ty_status := SW_ABORTED\<rparr>),
                    with_store (insertNotification (kill_notification sv active) (wk_store w)) w)
         else if active_count target (wk_store w) = 0 then Some (no_tally, w)
         else (case sweep (sweep_portfolio sv w)
                 \<lparr>so_capacity = Some capacity, so_gatewayHealth = None,
                  so_filterStatuses = Some [Pending, Scored, Deferred], so_maxCandidates = None,
                  so_tenantId = target\<rparr> (wk_store w) of
             (None, s1) \<Rightarrow> Some (caught (sv_error sv) no_tally, with_store s1 w)
           | (Some proposal, s1) \<Rightarrow>
               let t = no_tally\<lparr>ty_scanned := pp_total_scanned proposal\<rparr>
               in (case runMarketAllocation (ge_market (xe_gate (envs 0)))
                         \<lparr>op_capacity = Some capacity, op_opportunities = None, op_tenantId = target,
                          op_environment = None\<rparr> (s1, wk_pacer w) of
                     (None, s2, p2) \<Rightarrow>
                       Some (caught (sv_error sv) t, (with_store s2 w)\<lparr>wk_pacer := p2\<rparr>)
                   | (Some market, s2, p2) \<Rightarrow>
                       execute_and_poll sv capacity target active envs
                         (t\<lparr>ty_allocated := mr_accepted_count market\<rparr>)
                         ((with_store s2 w)\<lparr>wk_pacer := p2\<rparr>))))"

definition config_snapshot :: "daemon_config \<Rightarrow> string" where
  "config_snapshot c = stringify (JObj [(''interval_seconds'', JNum (of_int (dc_interval_seconds c))),
     (''capacity'', JNum (of_int (dc_capacity c)))])"

definition insertDaemonSweepLog :: "sweep_log \<Rightarrow> sweep_log list \<Rightarrow> sweep_log list" where
  "insertDaemonSweepLog l logs = logs @ [l\<lparr>
     sl_error_message := (if truthy_str (sl_error_message l) then sl_error_message l else None),
     sl_config_snapshot := (if truthy_str (sl_config_snapshot l) then sl_config_snapshot l else None)\<rparr>]"

text \<open>The \<^verbatim>\<open>finally\<close> of a sweep: the log row, and every hundredth sweep the retention.\<close>

definition log_sweep :: "sweep_env \<Rightarrow> daemon \<Rightarrow> tally \<Rightarrow> sweep_log list \<Rightarrow> sweep_log list" where
  "log_sweep sv d t logs =
     (let logs1 =
        (if 0 < ty_scanned t \<or> 0 < ty_reconciled t \<or> ty_error t \<noteq> [] \<or> ty_status t \<noteq> SW_SUCCESS
         then insertDaemonSweepLog
           \<lparr>sl_id = sv_sweep_id sv, sl_sweep_number = dm_total_sweeps d, sl_started_at = sv_started_at sv,
            sl_finished_at = sv_finished_at sv, sl_duration_ms = sv_duration_ms sv, sl_status = ty_status t,
            sl_opps_scanned = ty_scanned t, sl_opps_allocated = ty_allocated t,
            sl_opps_executed = ty_executed t, sl_opps_reconciled = ty_reconciled t,
            sl_revenue_recovered_paise = 0, sl_error_message = Some (ty_error t),
            sl_config_snapshot = Some (config_snapshot (dm_config d))\<rparr> logs
         else logs)
      in if dm_total_sweeps d mod 100 = 0
         then filter (\<lambda>l. \<not> sl_started_at l < sv_week_ago sv) logs1 else logs1)"

definition sweepOnce :: "sweep_env \<Rightarrow> string option \<Rightarrow> daemon \<times> work \<Rightarrow> (daemon \<times> work) option" where
  "sweepOnce sv target dw =
     (case begin_sweep (sv_started_at sv) (fst dw) of
        None \<Rightarrow> Some dw
      | Some (previous, d) \<Rightarrow>
          (case sweep_work sv (dc_capacity (dm_config d)) target (snd dw) of
             None \<Rightarrow> None
           | Some (t, w) \<Rightarrow>
               Some (end_sweep 0 previous d, w\<lparr>wk_logs := log_sweep sv d t (wk_logs w)\<rparr>)))"

definition getDaemonSweepLogs :: "nat \<Rightarrow> sweep_log list \<Rightarrow> sweep_log list" where
  "getDaemonSweepLogs n logs = take n (sort_desc sl_started_at logs)"

section \<open>Who gets a link\<close>

text \<open>The opportunities with a payment link, through each stage of a sweep.\<close>

definition linked :: "store \<Rightarrow> string set" where
  "linked s = er_opportunity_id ` set (execution_records s)"

lemma linked_get: "k \<in> linked s \<longleftrightarrow> getExecutionRecordByOpportunityId s k \<noteq> None"
  by (simp add: linked_def getExecutionRecordByOpportunityId_def row_get_None)

lemma linked_cong: "execution_records s = execution_records t \<Longrightarrow> linked s = linked t"
  by (simp add: linked_def)

lemma score_records: "scoreOpportunity jm cb sm opp s = Some (sc, s') \<Longrightarrow> execution_records s' = execution_records s"
  by (auto simp: scoreOpportunity_def Let_def split: option.splits if_splits)

lemma prioritize_records: "prioritize pe gw opps s = (r, s') \<Longrightarrow> execution_records s' = execution_records s"
proof (induction opps arbitrary: s r)
  case (Cons opp rest)
  from prioritize_Cons [OF Cons.prems] Cons.IH score_records show ?case by metis
qed simp

lemma sweep_records: "sweep pe so s = (r, s') \<Longrightarrow> execution_records s' = execution_records s"
  by (auto simp: sweep_def Let_def dest: prioritize_records split: option.splits prod.splits)

lemma score_all_records: "score_all me opps s = (r, s') \<Longrightarrow> execution_records s' = execution_records s"
proof (induction opps arbitrary: s r)
  case (Cons opp rest)
  show ?case
  proof (cases "getScoreByOpportunityId s (o_id opp)")
    case (Some sc)
    obtain r1 s1 where rest: "score_all me rest s = (r1, s1)" by fastforce
    then show ?thesis using Cons Some by (cases r1) auto
  next
    case None
    show ?thesis
    proof (cases "scoreOpportunity (me_math me) (me_calibrator me) (me_sample me opp) opp s")
      case (Some x)
      obtain sc s1 where x: "x = (sc, s1)" by fastforce
      obtain r2 s2 where rest: "score_all me rest s1 = (r2, s2)" by fastforce
      have "s' = s2" using Cons.prems None Some x rest by (cases r2) auto
      with Cons.IH rest score_records [OF Some [unfolded x]] show ?thesis by metis
    qed (use Cons.prems None in simp)
  qed
qed simp

lemma commit_records:
  "execution_records (fold commit_item is s) = execution_records s"
  "execution_records (fold (commit_abstained me shadow) es t) = execution_records t"
proof -
  show "execution_records (fold commit_item is s) = execution_records s"
    by (induction "is" arbitrary: s) (simp_all add: commit_item_def)
  have "execution_records (commit_abstained me shadow e t) = execution_records t" for e t
    by (simp add: commit_abstained_def commit_item_def recordPreventedIntervention_def Let_def split: prod.split option.split)
  then show "execution_records (fold (commit_abstained me shadow) es t) = execution_records t"
    by (induction es arbitrary: t) simp_all
qed

lemma market_records: "runMarketAllocation me opt (s, p) = (r, s', p') \<Longrightarrow> execution_records s' = execution_records s"
  by (auto simp: runMarketAllocation_def Let_def commit_records dest!: score_all_records split: option.splits prod.splits)

lemma insertAuthorityCheck_records: "execution_records (fold (insertAuthorityCheck now) cs s) = execution_records s"
proof (induction cs arbitrary: s)
  case (Cons c cs)
  have "execution_records (insertAuthorityCheck now c s) = execution_records s"
    by (simp add: insertAuthorityCheck_def ensureOpportunity_def putOpportunity_def Let_def)
  with Cons show ?case by simp
qed simp

lemma evaluate_records:
  "evaluateOpportunity ge opp (Some d) (Some sc) s = Some (ev, s') \<Longrightarrow> execution_records s' = execution_records s"
  by (auto simp: evaluateOpportunity_def effective_score_def Let_def insertAuthorityCheck_records)

lemma turn_records:
  assumes "pipeline_turn ge opp s = Some (ev, s')"
  shows "execution_records s' = execution_records s"
proof (cases "effective_score ge opp None s")
  case None
  with assms show ?thesis by (simp add: pipeline_turn_def)
next
  case (Some x)
  obtain sc s1 where x: "x = (sc, s1)" by fastforce
  have "execution_records s' = execution_records s1"
    using assms Some x by (intro evaluate_records) (simp add: pipeline_turn_def)
  with effective_score_frame(2) [OF Some [unfolded x]] show ?thesis by simp
qed

lemma pipeline_loop_records: "pipeline_loop ge opps s = Some (evs, s') \<Longrightarrow> execution_records s' = execution_records s"
  by (induction opps arbitrary: s evs) (auto split: option.splits prod.splits dest!: turn_records)

lemma pipeline_records:
  "runAuthorityPipeline ge opt (s, p) = Some (r, s', p') \<Longrightarrow> execution_records s' = execution_records s"
  by (auto simp: runAuthorityPipeline_def Let_def dest!: market_records pipeline_loop_records split: option.splits prod.splits)

lemma execute_linked:
  assumes "ge_registry (xe_gate xe) = default_registry" and "executeOpportunity xe j st = (r, st')"
  shows "linked (xs_store st') \<subseteq> insert j (linked (xs_store st))"
proof (cases "getOpportunityById (xs_store st) j")
  case None
  with assms show ?thesis by (auto simp: executeOpportunity_def)
next
  case (Some opp)
  have oid: "o_id opp = j" using Some by (auto simp: getOpportunityById_def dest: row_get_Some)
  from execute_stages [OF Some assms] consider
      (same) "execution_records (xs_store st') = execution_records (xs_store st)"
    | (link) s2 env x where "execution_records s2 = execution_records (xs_store st)"
        "create_link xe env opp (st\<lparr>xs_store := s2\<rparr>) = (x, st')"
    by (auto split: option.splits prod.splits simp: map_prod_def)
  then show ?thesis
  proof cases
    case same
    then show ?thesis by (auto dest: linked_cong)
  next
    case link
    have "k = j \<or> k \<in> linked s2" if "k \<in> linked (xs_store st')" for k
      using create_link_records [OF link(2)] that oid
      by (cases "xr_success x")
        (auto simp: linked_get getExecutionRecordByOpportunityId_def split: if_splits)
    with linked_cong [OF link(1)] show ?thesis by blast
  qed
qed

lemma batch_loop_linked:
  assumes "\<And>i. ge_registry (xe_gate (envs i)) = default_registry"
  shows "linked (xs_store (snd (batch_loop envs i oids st))) \<subseteq> set oids \<union> linked (xs_store st)"
proof (induction oids arbitrary: i st)
  case (Cons oid rest)
  obtain r st1 where e: "executeOpportunity (envs i) oid st = (r, st1)" by fastforce
  from Cons.IH [of "i + 1" st1] execute_linked [OF assms e] show ?case
    by (auto simp: e split: prod.splits)
qed simp

lemma batch_linked:
  assumes "\<And>i. ge_registry (xe_gate (envs i)) = default_registry"
    and "executeAuthorizedBatch envs n opt (st, p) = Some (b, st', p')"
  shows "card (linked (xs_store st') - linked (xs_store st)) \<le> n"
proof -
  from assms(2) obtain run s1 where
    run: "runAuthorityPipeline (xe_gate (envs 0)) (batch_options n opt (xs_store st)) (xs_store st, p) = Some (run, s1, p')"
    and st': "st' = snd (batch_loop envs 1 (take n (authorized_ids run)) (st\<lparr>xs_store := s1\<rparr>))"
    unfolding executeAuthorizedBatch_def Let_def by (simp split: option.splits prod.splits)
  have "linked (xs_store st') - linked (xs_store st) \<subseteq> set (take n (authorized_ids run))"
    using batch_loop_linked [of envs 1 "take n (authorized_ids run)" "st\<lparr>xs_store := s1\<rparr>", OF assms(1)]
      linked_cong [OF pipeline_records [OF run]] by (auto simp: st')
  then have "card (linked (xs_store st') - linked (xs_store st)) \<le> card (set (take n (authorized_ids run)))"
    by (intro card_mono) simp_all
  also have "\<dots> \<le> n" using card_length [of "take n (authorized_ids run)"] by simp
  finally show ?thesis .
qed

lemma set_statuses_linked: "linked (set_statuses opp rec target es s) = linked s"
proof -
  have "er_opportunity_id ` set (row_update er_opportunity_id i (\<lambda>x. x\<lparr>er_status := es\<rparr>) rows) =
      er_opportunity_id ` set rows" for i and rows :: "execution_record list"
    unfolding row_update_def set_map image_image by (intro image_cong) simp_all
  then show ?thesis by (simp add: linked_def set_statuses_def Let_def)
qed

lemma settle_records: "settle_writes re k opp te s = Inr (h, s') \<Longrightarrow> execution_records s' = execution_records s"
  by (auto simp: settle_writes_def recordEntry_def sql_insert_def Let_def split: if_splits)

lemma transaction_linked:
  assumes "recon_transaction re k opp rec te (target, es, out) s = Inr (h, s')"
  shows "linked s' = linked s"
proof -
  have "execution_records s' = execution_records (set_statuses opp rec target es s)"
    using assms
    by (auto simp: recon_transaction_def sql_insert_def Let_def
          split: if_splits sum.splits prod.splits dest!: settle_records)
  from linked_cong [OF this] show ?thesis by (simp add: set_statuses_linked)
qed

lemma reconcile_linked:
  assumes "reconcileOpportunity re k oid ov st = (r, st')"
  shows "linked (rs_store st') = linked (rs_store st)"
proof (cases "case getOpportunityById (rs_store st) oid of None \<Rightarrow> True
    | Some opp \<Rightarrow> o_status opp = Recovered \<or> payload_of re opp (rs_store st) ov = None")
  case True
  from reconcile_idle [OF assms this] show ?thesis by simp
next
  case False
  then obtain opp p where opp: "getOpportunityById (rs_store st) oid = Some opp" "o_status opp \<noteq> Recovered"
      "payload_of re opp (rs_store st) ov = Some p"
    by (auto split: option.splits)
  obtain target es out where t: "recon_target opp p = (target, es, out)" using prod_cases3 by blast
  show ?thesis
    using reconcile_commits [OF opp assms] unfolding t
    by (auto dest: transaction_linked split: sum.splits prod.splits)
qed

lemma poll_linked: "poll_loop re calls i oids p st = (r, st') \<Longrightarrow> linked (rs_store st') = linked (rs_store st)"
  by (induction oids arbitrary: i p st) (auto dest: reconcile_linked split: option.splits if_splits prod.splits)

lemma notify_linked: "linked (notify_recovered sv active i items s) = linked s"
proof (induction items arbitrary: i s)
  case (Cons item rest)
  have "linked (insertNotification n s) = linked s" for n by (simp add: linked_def insertNotification_def)
  with Cons show ?case by simp
qed simp

section \<open>A sweep over scored opportunities returns\<close>

definition all_scored :: "store \<Rightarrow> bool" where
  "all_scored s \<longleftrightarrow> o_id ` set (opportunities s) \<subseteq> s_opportunity_id ` set (scores s)"

lemma all_scoredD: "all_scored s \<Longrightarrow> o' \<in> set (opportunities s) \<Longrightarrow> getScoreByOpportunityId s (o_id o') \<noteq> None"
  by (auto simp: all_scored_def getScoreByOpportunityId_def row_get_None)

lemma score_all_scored:
  "\<forall>opp \<in> set opps. getScoreByOpportunityId s (o_id opp) \<noteq> None \<Longrightarrow> \<exists>es. score_all me opps s = (Some es, s)"
  by (induction opps) auto

lemma market_total:
  assumes "op_opportunities opt = None" and "all_scored s"
  obtains r s' p' where "runMarketAllocation me opt (s, p) = (Some r, s', p')" "all_scored s'"
proof -
  have "\<forall>opp \<in> set (candidate_opportunities opt s). getScoreByOpportunityId s (o_id opp) \<noteq> None"
    using assms by (auto simp: candidate_opportunities_def getAllOpportunities_mem dest!: all_scoredD)
  then obtain es where es: "score_all me (candidate_opportunities opt s) s = (Some es, s)"
    using score_all_scored by blast
  obtain r s' p' where run: "runMarketAllocation me opt (s, p) = (Some r, s', p')"
    using es
    by (cases "getPacingState (me_math me) (me_clock me) (or_opt (op_tenantId opt) ''merchant_default'') 200000 p")
      (simp add: runMarketAllocation_def Let_def)
  then have "core s' = core (fold commit_item (mr_items r) s)"
    using es by (elim run_shape) simp
  then have "scores s' = scores s" by (simp add: core_def scores_fold_commit)
  moreover have "map o_id (opportunities s') = map o_id (opportunities s)"
  proof -
    have "map o_id (map strip (opportunities s')) = map o_id (map strip (opportunities s))"
      using run_same_rows [OF run] by (simp add: same_rows_def)
    then show ?thesis by (simp add: strip_def comp_def)
  qed
  ultimately have "all_scored s'"
    using assms(2) unfolding all_scored_def by (metis list.set_map)
  with run show ?thesis by (rule that)
qed

lemma pipeline_total_scored:
  assumes "op_opportunities opt = None" and "all_scored s"
  shows "\<exists>x. runAuthorityPipeline ge opt (s, p) = Some x"
proof -
  obtain r s1 p1 where run: "runMarketAllocation (ge_market ge) opt (s, p) = (Some r, s1, p1)" "all_scored s1"
    using market_total [OF assms] by metis
  have "\<forall>opp \<in> set (gate_candidates opt s1). getScoreByOpportunityId s1 (o_id opp) \<noteq> None"
    using run(2) by (auto simp: gate_candidates_def getAllOpportunities_mem dest!: all_scoredD)
  then obtain evs s2 where "pipeline_loop ge (gate_candidates opt s1) s1 = Some (evs, s2)"
    using pipeline_loop_total by blast
  with run(1) show ?thesis by (simp add: runAuthorityPipeline_def Let_def)
qed

lemma batch_total:
  assumes "all_scored (xs_store st)"
  shows "\<exists>x. executeAuthorizedBatch envs n opt (st, p) = Some x"
proof -
  have "op_opportunities (batch_options n opt (xs_store st)) = None" by (simp add: batch_options_def)
  from pipeline_total_scored [OF this assms, of "xe_gate (envs 0)" p] show ?thesis
    by (auto simp: executeAuthorizedBatch_def Let_def)
qed

lemma sweep_candidates_mem: "o' \<in> set (sweep_candidates so s) \<Longrightarrow> o' \<in> set (opportunities s)"
  by (auto simp: sweep_candidates_def Let_def dest!: in_set_takeD intro: getAllOpportunities_mem
      split: option.splits if_splits)

lemma sweep_total:
  assumes "all_scored s"
  shows "\<exists>p. sweep pe so s = (Some p, s)"
proof -
  have "list_all (\<lambda>opp. getScoreByOpportunityId s (o_id opp) \<noteq> None) (sweep_candidates so s)"
    using all_scoredD [OF assms sweep_candidates_mem] by (simp add: list_all_iff)
  from prioritize_scored [OF this, of pe "case so_gatewayHealth so of None \<Rightarrow> lit 95 2 | Some g \<Rightarrow> g"]
  obtain ps where "prioritize pe (case so_gatewayHealth so of None \<Rightarrow> lit 95 2 | Some g \<Rightarrow> g) (sweep_candidates so s) s = (Some ps, s)"
    by blast
  then show ?thesis by (simp add: sweep_def Let_def)
qed

lemma sweep_work_total:
  assumes "all_scored (wk_store w)"
  shows "\<exists>x. sweep_work sv cap target w = Some x"
proof -
  let ?so = "\<lparr>so_capacity = Some cap, so_gatewayHealth = None, so_filterStatuses = Some [Pending, Scored, Deferred],
    so_maxCandidates = None, so_tenantId = target\<rparr>"
  let ?mo = "\<lparr>op_capacity = Some cap, op_opportunities = None, op_tenantId = target, op_environment = None\<rparr>"
  obtain p where p: "sweep (sweep_portfolio sv w) ?so (wk_store w) = (Some p, wk_store w)"
    using sweep_total [OF assms] by blast
  obtain r s2 p2 where m: "runMarketAllocation (ge_market (xe_gate (tied_exec sv w 0))) ?mo (wk_store w, wk_pacer w) =
      (Some r, s2, p2)" "all_scored s2"
    by (rule market_total [of ?mo "wk_store w" "ge_market (xe_gate (tied_exec sv w 0))" "wk_pacer w"])
      (use assms in simp_all)
  have "\<exists>x. execute_and_poll sv cap target active envs t ((with_store s2 w)\<lparr>wk_pacer := p2\<rparr>) = Some x" for active envs t
    using batch_total [of "(wk_exec w)\<lparr>xs_store := s2\<rparr>"] m(2)
    by (auto simp: execute_and_poll_def with_store_def Let_def split: option.splits prod.splits)
  then show ?thesis by (simp add: sweep_work_def Let_def p m(1))
qed

section \<open>Properties of a sweep\<close>

lemma execute_and_poll_shape:
  assumes "execute_and_poll sv cap target active envs t w = Some (t', w')"
  obtains b xs p r rs where
    "executeAuthorizedBatch envs (nat cap)
       \<lparr>op_capacity = None, op_opportunities = None, op_tenantId = target, op_environment = None\<rparr>
       (wk_exec w, wk_pacer w) = Some (b, xs, p)"
    "pollAndReconcile (sv_recon sv) (sv_calls sv) target
       \<lparr>rs_store = xs_store xs, rs_calibrator = wk_calibrator w, rs_arms = wk_arms w\<rparr> = (r, rs)"
    "ty_executed t' = br_executed_count b" "ty_allocated t' = ty_allocated t" "ty_scanned t' = ty_scanned t"
    "wk_store w' = notify_recovered sv active 0 (pr_items r) (rs_store rs)"
proof (cases "executeAuthorizedBatch envs (nat cap)
       \<lparr>op_capacity = None, op_opportunities = None, op_tenantId = target, op_environment = None\<rparr>
       (wk_exec w, wk_pacer w)")
  case (Some y)
  obtain b xs p where y: "y = (b, xs, p)" using prod_cases3 by blast
  obtain r rs where r: "pollAndReconcile (sv_recon sv) (sv_calls sv) target
       \<lparr>rs_store = xs_store xs, rs_calibrator = wk_calibrator w, rs_arms = wk_arms w\<rparr> = (r, rs)" by fastforce
  show thesis
    using assms Some r by (intro that [of b xs p r rs]) (auto simp: y execute_and_poll_def Let_def split: if_splits)
qed (use assms in \<open>simp add: execute_and_poll_def\<close>)

lemma execute_and_poll_bounds:
  assumes "\<And>i. ge_registry (xe_gate (envs i)) = default_registry"
    and "execute_and_poll sv cap target active envs t w = Some (t', w')"
  shows "ty_executed t' \<le> nat cap \<and> ty_allocated t' = ty_allocated t \<and>
     card (linked (wk_store w') - linked (wk_store w)) \<le> nat cap"
proof -
  from assms(2) obtain b xs p r rs where
    b: "executeAuthorizedBatch envs (nat cap)
       \<lparr>op_capacity = None, op_opportunities = None, op_tenantId = target, op_environment = None\<rparr>
       (wk_exec w, wk_pacer w) = Some (b, xs, p)"
    and r: "pollAndReconcile (sv_recon sv) (sv_calls sv) target
       \<lparr>rs_store = xs_store xs, rs_calibrator = wk_calibrator w, rs_arms = wk_arms w\<rparr> = (r, rs)"
    and t: "ty_executed t' = br_executed_count b" "ty_allocated t' = ty_allocated t"
    and w: "wk_store w' = notify_recovered sv active 0 (pr_items r) (rs_store rs)"
    by (rule execute_and_poll_shape)
  have "linked (wk_store w') = linked (xs_store xs)"
    using r unfolding w notify_linked pollAndReconcile_def Let_def by (auto dest: poll_linked)
  with batch_linked [OF assms(1) b] batch_within_cap [OF b] t show ?thesis by simp
qed

lemma wk_store_with [simp]: "wk_store (with_store s w) = s"
  by (simp add: with_store_def)

lemma sweep_work_bounds:
  assumes "\<And>i. ge_registry (xe_gate (sv_exec sv i)) = default_registry" and "1 \<le> cap"
    and "sweep_work sv cap target w = Some (t, w')"
  shows "card (linked (wk_store w') - linked (wk_store w)) \<le> nat cap \<and> int (ty_executed t) \<le> cap \<and> ty_allocated t \<le> cap"
proof -
  let ?so = "\<lparr>so_capacity = Some cap, so_gatewayHealth = None, so_filterStatuses = Some [Pending, Scored, Deferred],
    so_maxCandidates = None, so_tenantId = target\<rparr>"
  let ?mo = "\<lparr>op_capacity = Some cap, op_opportunities = None, op_tenantId = target, op_environment = None\<rparr>"
  let ?active = "or_opt target ''tenant_system_default''"
  obtain q s1 where q: "sweep (sweep_portfolio sv w) ?so (wk_store w) = (q, s1)" by fastforce
  obtain m s2 p2 where m: "runMarketAllocation (ge_market (xe_gate (tied_exec sv w 0))) ?mo (s1, wk_pacer w) = (m, s2, p2)"
    using prod_cases3 by blast
  have l1: "linked s1 = linked (wk_store w)" by (intro linked_cong sweep_records [OF q])
  have l2: "linked s2 = linked s1" by (intro linked_cong market_records [OF m])
  have small: "ty_executed x = 0 \<Longrightarrow> ty_allocated x = 0 \<Longrightarrow> linked (wk_store y) = linked (wk_store w) \<Longrightarrow>
      card (linked (wk_store y) - linked (wk_store w)) \<le> nat cap \<and> int (ty_executed x) \<le> cap \<and> ty_allocated x \<le> cap" for x y
    using assms(2) by simp
  have quiet: "linked (insertNotification n (wk_store w)) = linked (wk_store w)" for n
    by (simp add: linked_def insertNotification_def)
  have caught: "ty_executed (caught e x) = ty_executed x" "ty_allocated (caught e x) = ty_allocated x" for e x
    by (simp_all add: caught_def)
  show ?thesis
  proof -
    consider (kill) "isKillSwitchActive (sweep_kill sv) (Some ?active) None"
      | (idle) "\<not> isKillSwitchActive (sweep_kill sv) (Some ?active) None" "active_count target (wk_store w) = 0"
      | (no_proposal) "\<not> isKillSwitchActive (sweep_kill sv) (Some ?active) None" "active_count target (wk_store w) \<noteq> 0"
          "q = None"
      | (no_market) pp where "\<not> isKillSwitchActive (sweep_kill sv) (Some ?active) None"
          "active_count target (wk_store w) \<noteq> 0" "q = Some pp" "m = None"
      | (run) pp mr where "\<not> isKillSwitchActive (sweep_kill sv) (Some ?active) None"
          "active_count target (wk_store w) \<noteq> 0" "q = Some pp" "m = Some mr"
      by (cases q; cases m) auto
    then show ?thesis
    proof cases
      case kill
      then show ?thesis using assms(3) by (intro small) (auto simp: sweep_work_def Let_def quiet caught no_tally_def)
    next
      case idle
      then show ?thesis using assms(3) by (intro small) (auto simp: sweep_work_def Let_def no_tally_def)
    next
      case no_proposal
      have "sweep_work sv cap target w = Some (caught (sv_error sv) no_tally, with_store s1 w)"
        unfolding sweep_work_def Let_def q no_proposal(3) using no_proposal(1,2) by simp
      with assms(3) have t: "t = caught (sv_error sv) no_tally" "w' = with_store s1 w" by simp_all
      show ?thesis using l1 by (intro small) (simp_all add: t caught no_tally_def)
    next
      case no_market
      have "sweep_work sv cap target w = Some (caught (sv_error sv) (no_tally\<lparr>ty_scanned := pp_total_scanned pp\<rparr>),
          (with_store s2 w)\<lparr>wk_pacer := p2\<rparr>)"
        unfolding sweep_work_def Let_def q no_market(3) using no_market(1,2) m no_market(4) by simp
      with assms(3) have t: "t = caught (sv_error sv) (no_tally\<lparr>ty_scanned := pp_total_scanned pp\<rparr>)"
          "w' = (with_store s2 w)\<lparr>wk_pacer := p2\<rparr>" by simp_all
      show ?thesis using l1 l2 by (intro small) (simp_all add: t caught no_tally_def with_store_def)
    next
      case run
      have e: "execute_and_poll sv cap target ?active (tied_exec sv w)
          (no_tally\<lparr>ty_scanned := pp_total_scanned pp, ty_allocated := mr_accepted_count mr\<rparr>)
          ((with_store s2 w)\<lparr>wk_pacer := p2\<rparr>) = Some (t, w')"
        using assms(3) run(1,2) m run(4) unfolding sweep_work_def Let_def q run(3) by simp
      have reg: "ge_registry (xe_gate (tied_exec sv w i)) = default_registry" for i
        using assms(1) by (simp add: tied_exec_def Let_def)
      have "mr_capacity mr = cap"
        using m [unfolded run(4)] by (rule run_shape) (simp add: resolve_capacity_def)
      with run_feasible [OF m [unfolded run(4)]] have "mr_accepted_count mr \<le> cap" by simp
      then show ?thesis
        using execute_and_poll_bounds [OF reg e] l1 l2 assms(2) by (auto simp: with_store_def le_nat_iff)
    qed
  qed
qed

lemma sweepOnce_work:
  assumes "\<not> dm_isSweeping d"
  shows "sweepOnce sv target (d, w) =
     map_option (\<lambda>(t, w'). let d' = snd (the (begin_sweep (sv_started_at sv) d))
        in (end_sweep 0 (dm_state d) d', w'\<lparr>wk_logs := log_sweep sv d' t (wk_logs w')\<rparr>))
       (sweep_work sv (dc_capacity (dm_config d)) target w)"
  using assms by (simp add: sweepOnce_def begin_sweep_def Let_def split: option.splits)

text \<open>
  C9. No sweep sends more links than its capacity: with the default rules, whatever the
  store, the provider and the rest of the sweep do, at most as many opportunities get a
  payment link as the capacity of the daemon says, which is at most ten; no more are
  executed or accepted by the market; and a sweep of scored opportunities does return.
\<close>

theorem sweep_bounded:
  assumes "\<And>i. ge_registry (xe_gate (sv_exec sv i)) = default_registry"
    and "reachable later calm ps" and "ps_daemon ps = d" and "\<not> dm_isSweeping d"
  shows "(\<forall>d' w'. sweepOnce sv target (d, w) = Some (d', w') \<longrightarrow>
       card (linked (wk_store w') - linked (wk_store w)) \<le> nat (dc_capacity (dm_config d))) \<and>
     dc_capacity (dm_config d) \<le> 10 \<and>
     (\<forall>t w'. sweep_work sv (dc_capacity (dm_config d)) target w = Some (t, w') \<longrightarrow>
       int (ty_executed t) \<le> dc_capacity (dm_config d) \<and> ty_allocated t \<le> dc_capacity (dm_config d)) \<and>
     (all_scored (wk_store w) \<longrightarrow> sweepOnce sv target (d, w) \<noteq> None)"
proof (intro conjI allI impI)
  note s = reachable_sound [OF assms(2), unfolded sound_process_def Let_def assms(3)]
  show "dc_capacity (dm_config d) \<le> 10" using s by simp
  have cap: "1 \<le> dc_capacity (dm_config d)" using s by simp
  note bounds = sweep_work_bounds [OF assms(1) cap]
  show "card (linked (wk_store w') - linked (wk_store w)) \<le> nat (dc_capacity (dm_config d))"
    if "sweepOnce sv target (d, w) = Some (d', w')" for d' w'
    using that bounds unfolding sweepOnce_work [OF assms(4)] by (auto simp: Let_def)
  show "int (ty_executed t) \<le> dc_capacity (dm_config d)" "ty_allocated t \<le> dc_capacity (dm_config d)"
    if "sweep_work sv (dc_capacity (dm_config d)) target w = Some (t, w')" for t w'
    using bounds [OF that] by simp_all
  show "sweepOnce sv target (d, w) \<noteq> None" if "all_scored (wk_store w)"
    using sweep_work_total [OF that] unfolding sweepOnce_work [OF assms(4)] by auto
qed

definition sample_sweep_env :: sweep_env where
  "sample_sweep_env = \<lparr>sv_exec = (\<lambda>i. sample_exec_env), sv_recon = sample_recon_env, sv_calls = (\<lambda>i. sample_call),
     sv_age_ms = (\<lambda>_. 0), sv_perception = (\<lambda>_. True), sv_sweep_id = ''sweep_1'', sv_kill_notif_id = ''notif_kill'',
     sv_rec_notif_id = (\<lambda>i. ''notif_rec''), sv_now = ''t1'', sv_started_at = ''t0'', sv_finished_at = ''t1'',
     sv_duration_ms = 1, sv_week_ago = ''s'', sv_error = ''TypeError''\<rparr>"

definition sample_work :: work where
  "sample_work = \<lparr>wk_exec = sample_exec_state\<lparr>xs_store := sample_market_store\<rparr>, wk_calibrator = new_calibrator,
     wk_arms = [], wk_pacer = new_pacer, wk_logs = []\<rparr>"

theorem sweep_bounded_witness:
  "\<exists>d w. sweepOnce sample_sweep_env None (ps_daemon calm_sample, sample_work) = Some (d, w) \<and>
     card (linked (wk_store w)) \<le> 5"
proof -
  have reg: "\<And>i. ge_registry (xe_gate (sv_exec sample_sweep_env i)) = default_registry"
    by (simp add: sample_sweep_env_def sample_exec_env_def sample_gate_env_def)
  have idle: "\<not> dm_isSweeping (ps_daemon calm_sample)" "dc_capacity (dm_config (ps_daemon calm_sample)) = 5"
    by (simp_all add: calm_sample_def new_daemon_def control_defs)
  have "all_scored (wk_store sample_work)"
    by (simp add: all_scored_def sample_work_def sample_market_store_def sample_opportunity_def sample_score_row_def)
  moreover have "linked (wk_store sample_work) = {}"
    by (simp add: linked_def sample_work_def sample_market_store_def empty_store_def)
  ultimately show ?thesis
    using sweep_bounded [OF reg calm_sample_reachable refl idle(1), of None sample_work] idle(2) by auto
qed

text \<open>
  An engaged kill switch stops a sweep before it reads an opportunity: whether it is
  global or that of the swept tenant, the sweep writes one notification and one row of the log
  with the status \<^verbatim>\<open>ABORTED\<close> and zero counts, and nothing else.
\<close>

theorem kill_switch_aborts_sweep:
  assumes "ks_global (sweep_kill sv) \<or>
      ks_tenants (sweep_kill sv) (or_opt target ''tenant_system_default'') = Some True"
    and "\<not> dm_isSweeping d" and "Suc (dm_total_sweeps d) mod 100 \<noteq> 0"
  shows "\<exists>d' l. sweepOnce sv target (d, w) =
       Some (d', (with_store (insertNotification (kill_notification sv (or_opt target ''tenant_system_default''))
                    (wk_store w)) w)\<lparr>wk_logs := wk_logs w @ [l]\<rparr>) \<and>
     sl_status l = SW_ABORTED \<and> sl_error_message l = Some ''Kill switch engaged'' \<and>
     sl_opps_scanned l = 0 \<and> sl_opps_allocated l = 0 \<and> sl_opps_executed l = 0 \<and> sl_opps_reconciled l = 0 \<and>
     dm_config d' = dm_config d \<and> dm_timer d' = dm_timer d \<and> \<not> dm_isSweeping d'"
proof -
  have ne: "or_opt target ''tenant_system_default'' \<noteq> []" by (rule or_opt_nonempty) simp
  have kill: "isKillSwitchActive (sweep_kill sv) (Some (or_opt target ''tenant_system_default'')) None"
    using assms(1) ne by (auto simp: isKillSwitchActive_def truthy_str_def)
  show ?thesis
    using assms(2,3) kill unfolding sweepOnce_work [OF assms(2)]
    by (auto simp: sweep_work_def begin_sweep_def end_sweep_def log_sweep_def insertDaemonSweepLog_def caught_def
        no_tally_def Let_def or_str_def with_store_def truthy_str_def)
qed

theorem kill_switch_aborts_sweep_witness:
  "\<exists>d w. sweepOnce (sample_sweep_env\<lparr>sv_exec := (\<lambda>i. sample_exec_env\<lparr>xe_gate :=
       sample_gate_env\<lparr>ge_kill := setKillSwitch True resetAllKillSwitches\<rparr>\<rparr>)\<rparr>) None
     (ps_daemon calm_sample, sample_work) = Some (d, w) \<and> length (wk_logs w) = 1 \<and>
     opportunities (wk_store w) = opportunities (wk_store sample_work)"
proof -
  let ?sv = "sample_sweep_env\<lparr>sv_exec := (\<lambda>i. sample_exec_env\<lparr>xe_gate :=
       sample_gate_env\<lparr>ge_kill := setKillSwitch True resetAllKillSwitches\<rparr>\<rparr>)\<rparr>"
  have k: "ks_global (sweep_kill ?sv)" by (simp add: sweep_kill_def setKillSwitch_def)
  have d: "\<not> dm_isSweeping (ps_daemon calm_sample)" "dm_total_sweeps (ps_daemon calm_sample) = 1"
    by (simp_all add: calm_sample_def new_daemon_def control_defs)
  from kill_switch_aborts_sweep [OF disjI1 [OF k] d(1), of None sample_work] d(2) show ?thesis
    by (auto simp: sample_work_def insertNotification_def with_store_def)
qed

text \<open>No sweep records recovered revenue, whatever it reconciles.\<close>

theorem revenue_never_counted:
  assumes "reachable later calm ps"
  shows "dm_revenue_recovered_paise (ps_daemon ps) = 0"
  using reachable_sound [OF assms] by (simp add: sound_process_def Let_def)

theorem revenue_never_counted_witness: "dm_revenue_recovered_paise (ps_daemon calm_sample) = 0"
  by (rule revenue_never_counted [OF calm_sample_reachable])

end
