(* ===== verification/Memory.thy ===== *)
theory Memory
  imports Reconcile Api_Keys Mission_Guards "HOL-Library.Word"
begin

text \<open>
  What the agents remember: the memory store (\<^verbatim>\<open>src/agents/memory.ts\<close>) over the table of
  memories, the temporal firewall (\<^verbatim>\<open>src/agents/temporal_firewall.ts\<close>) and the vector index
  (\<^verbatim>\<open>src/agents/memory/embedding_store.ts\<close>), whose hash runs on 32-bit words and whose vectors
  are doubles.  In a row the empty string stands for \<^verbatim>\<open>NULL\<close>.  The reading of a time stamp
  (\<open>None\<close> for an invalid date), fresh identifiers and the current time are parameters.
\<close>

unbundle bit_operations_syntax

section \<open>The table\<close>

definition insertAgentMemory :: "agent_memory \<Rightarrow> agent_memory list \<Rightarrow> db_error + agent_memory list" where
  "insertAgentMemory m rows = sql_insert am_id m rows"

definition up_to :: "string option \<Rightarrow> agent_memory \<Rightarrow> bool" where
  "up_to maxTimestamp m = (truthy_str maxTimestamp \<longrightarrow> am_created_at m \<le> the maxTimestamp)"

definition getMemories :: "string option \<Rightarrow> string option \<Rightarrow> agent_memory list \<Rightarrow> agent_memory list" where
  "getMemories type maxTimestamp rows =
     sort_desc am_created_at (filter (\<lambda>m. (truthy_str type \<longrightarrow> am_memory_type m = the type) \<and> up_to maxTimestamp m) rows)"

definition getEpisodicMemories :: "string option \<Rightarrow> string option \<Rightarrow> agent_memory list \<Rightarrow> agent_memory list" where
  "getEpisodicMemories failureType maxTimestamp rows =
     take 50 (sort_desc am_created_at (filter (\<lambda>m. am_memory_type m = ''episodic'' \<and>
       (truthy_str failureType \<longrightarrow> am_failure_type m = the failureType) \<and> up_to maxTimestamp m) rows))"

definition getSemanticMemories :: "string option \<Rightarrow> string option \<Rightarrow> agent_memory list \<Rightarrow> agent_memory list" where
  "getSemanticMemories keyPrefix maxTimestamp rows =
     sort_desc am_created_at (filter (\<lambda>m. am_memory_type m = ''semantic'' \<and>
       (truthy_str keyPrefix \<longrightarrow> am_semantic_key m \<noteq> [] \<and> sql_like (the keyPrefix @ ''%'') (am_semantic_key m)) \<and>
       up_to maxTimestamp m) rows)"

definition getWorkingMemoryForRun :: "string \<Rightarrow> agent_memory list \<Rightarrow> agent_memory list" where
  "getWorkingMemoryForRun runId rows =
     sort_key am_created_at (filter (\<lambda>m. am_memory_type m = ''working'' \<and> am_run_id m = runId \<and> runId \<noteq> []) rows)"

section \<open>The temporal firewall\<close>

definition not_after :: "int option \<Rightarrow> int option \<Rightarrow> bool" where
  "not_after a b = (case (a, b) of (Some x, Some y) \<Rightarrow> x \<le> y | _ \<Rightarrow> False)"

definition filterMemories :: "(string \<Rightarrow> int option) \<Rightarrow> string \<Rightarrow> ('m \<Rightarrow> string) \<Rightarrow> 'm list \<Rightarrow> 'm list" where
  "filterMemories time_of cutoff created ms = filter (\<lambda>m. not_after (time_of (created m)) (time_of cutoff)) ms"

text \<open>A comparison with an invalid date is false.\<close>

definition assertTimestampValid :: "(string \<Rightarrow> int option) \<Rightarrow> string \<Rightarrow> string \<Rightarrow> string + unit" where
  "assertTimestampValid time_of record_time cutoff =
     (case (time_of record_time, time_of cutoff) of
        (Some x, Some y) \<Rightarrow>
          if y < x
          then Inl (''Temporal Firewall Breach: Record timestamp ('' @ record_time @
                 '') is in the future relative to mission time ('' @ cutoff @ '').'')
          else Inr ()
      | _ \<Rightarrow> Inr ())"

section \<open>The vector index\<close>

definition VECTOR_DIM :: nat where "VECTOR_DIM = 64"

definition clean_char :: "char \<Rightarrow> char" where
  "clean_char c = (let n = of_char c :: nat in
     if 97 \<le> n \<and> n \<le> 122 \<or> 48 \<le> n \<and> n \<le> 57 \<or> is_ws c then c else CHR '' '')"

fun split_ws :: "string \<Rightarrow> string \<Rightarrow> string list" where
  "split_ws acc [] = [rev acc]"
| "split_ws acc (c # cs) = (if is_ws c then rev acc # split_ws [] cs else split_ws (c # acc) cs)"

definition tokens_of :: "string \<Rightarrow> string list" where
  "tokens_of text = filter (\<lambda>t. 1 < length t) (split_ws [] (map clean_char (toLowerCase text)))"

definition hashString :: "string \<Rightarrow> 32 word" where
  "hashString str = foldl (\<lambda>h c. (h * 33) XOR of_nat (of_char c)) 5381 str"

definition bucket :: "string \<Rightarrow> nat" where
  "bucket str = unat (hashString str) mod VECTOR_DIM"

definition bump :: "nat \<Rightarrow> rat \<Rightarrow> rat list \<Rightarrow> rat list" where
  "bump i x v = v[i := fadd (v ! i) x]"

fun count_tokens :: "string list \<Rightarrow> rat list \<Rightarrow> rat list" where
  "count_tokens [] v = v"
| "count_tokens [t] v = bump (bucket t) 1 v"
| "count_tokens (t # u # rest) v =
     count_tokens (u # rest) (bump (bucket (t @ ''_'' @ u)) (3 / 2) (bump (bucket t) 1 v))"

definition normalize_vector :: "js_math \<Rightarrow> rat list \<Rightarrow> rat list" where
  "normalize_vector jm v =
     (let norm = m_sqrt jm (foldl (\<lambda>acc x. fadd acc (fmul x x)) 0 v)
      in if 0 < norm then map (\<lambda>x. fdiv x norm) v else v)"

definition generateLocalEmbedding :: "js_math \<Rightarrow> string \<Rightarrow> rat list" where
  "generateLocalEmbedding jm text =
     (let zero = replicate VECTOR_DIM 0; tokens = tokens_of text
      in if tokens = [] then zero else normalize_vector jm (count_tokens tokens zero))"

definition cosineSimilarity :: "rat list \<Rightarrow> rat list \<Rightarrow> rat" where
  "cosineSimilarity a b =
     (if length a \<noteq> length b \<or> a = [] then 0
      else clamp 0 1 (foldl fadd 0 (map2 fmul a b)))"

record document =
  dc_id :: string
  dc_text :: string
  dc_vector :: "rat list"
  dc_metadata :: "agent_memory option"

record search_result =
  sr_doc_id :: string
  sr_text :: string
  sr_similarity :: rat
  sr_metadata :: "agent_memory option"

definition addDocument ::
  "js_math \<Rightarrow> string \<Rightarrow> string \<Rightarrow> agent_memory option \<Rightarrow> rat list option \<Rightarrow> document list \<Rightarrow> document list" where
  "addDocument jm i text meta custom docs =
     (let vector = (case custom of
            Some v \<Rightarrow> if length v = VECTOR_DIM then v else generateLocalEmbedding jm text
          | None \<Rightarrow> generateLocalEmbedding jm text)
      in row_put dc_id replace_merge \<lparr>dc_id = i, dc_text = text, dc_vector = vector, dc_metadata = meta\<rparr> docs)"

definition searchSimilar :: "js_math \<Rightarrow> string \<Rightarrow> nat \<Rightarrow> rat \<Rightarrow> document list \<Rightarrow> search_result list" where
  "searchSimilar jm query topK minSimilarity docs =
     (let q = generateLocalEmbedding jm query;
          hits = filter (\<lambda>d. minSimilarity \<le> cosineSimilarity q (dc_vector d)) docs
      in take topK (sort_key (\<lambda>r. - sr_similarity r)
           (map (\<lambda>d. \<lparr>sr_doc_id = dc_id d, sr_text = dc_text d,
                     sr_similarity = toFixed 4 (cosineSimilarity q (dc_vector d)),
                     sr_metadata = dc_metadata d\<rparr>) hits)))"

definition removeDocument :: "string \<Rightarrow> document list \<Rightarrow> bool \<times> document list" where
  "removeDocument i docs = (i \<in> dc_id ` set docs, filter (\<lambda>d. dc_id d \<noteq> i) docs)"

section \<open>The memory store\<close>

record memory_state =
  ms_rows :: "agent_memory list"
  ms_docs :: "document list"

record memory_env =
  me_time :: "string \<Rightarrow> int option"
  me_now :: string
  me_id :: string
  me_jm :: js_math

definition MAX_WORKING_MEMORY_ITEMS :: nat where "MAX_WORKING_MEMORY_ITEMS = 50"

text \<open>\<^verbatim>\<open>a || b\<close> on a limit: zero counts as absent.\<close>

definition or_limit :: "nat option \<Rightarrow> nat \<Rightarrow> nat" where
  "or_limit l d = (case l of None \<Rightarrow> d | Some n \<Rightarrow> if n = 0 then d else n)"

definition store_memory ::
  "js_math \<Rightarrow> agent_memory \<Rightarrow> string option \<Rightarrow> memory_state \<Rightarrow> db_error + agent_memory \<times> memory_state" where
  "store_memory jm item text ms =
     (case insertAgentMemory item (ms_rows ms) of
        Inl e \<Rightarrow> Inl e
      | Inr rows \<Rightarrow> Inr (item, ms\<lparr>ms_rows := rows,
          ms_docs := (case text of None \<Rightarrow> ms_docs ms
                      | Some t \<Rightarrow> addDocument jm (am_id item) t (Some item) None (ms_docs ms))\<rparr>))"

definition addWorkingMemory ::
  "memory_env \<Rightarrow> string \<Rightarrow> string option \<Rightarrow> string \<Rightarrow> string \<Rightarrow> string option \<Rightarrow> string option \<Rightarrow>
   memory_state \<Rightarrow> db_error + agent_memory \<times> memory_state" where
  "addWorkingMemory me runId oppId summary provenance key val ms = store_memory (me_jm me)
     \<lparr>am_id = me_id me, am_memory_type = ''working'', am_run_id = runId, am_opportunity_id = or_opt oppId [],
      am_failure_type = [], am_context_summary = summary, am_action_taken = [], am_predicted_outcome = [],
      am_actual_outcome = [], am_prediction_error = None, am_semantic_key = or_opt key [],
      am_semantic_value = or_opt val [], am_confidence = 1, am_provenance = provenance,
      am_created_at = me_now me\<rparr> None ms"

definition getWorkingMemory :: "string \<Rightarrow> memory_state \<Rightarrow> agent_memory list" where
  "getWorkingMemory runId ms =
     (let memories = getWorkingMemoryForRun runId (ms_rows ms)
      in if MAX_WORKING_MEMORY_ITEMS < length memories
         then slice_last MAX_WORKING_MEMORY_ITEMS memories else memories)"

record episode =
  ep_run_id :: string
  ep_opportunity :: string
  ep_failure_type :: string
  ep_summary :: string
  ep_action_taken :: string
  ep_predicted_outcome :: string
  ep_actual_outcome :: string
  ep_prediction_error :: "rat option"
  ep_provenance :: string

definition episode_memory :: "memory_env \<Rightarrow> episode \<Rightarrow> agent_memory" where
  "episode_memory me ep =
     \<lparr>am_id = me_id me, am_memory_type = ''episodic'', am_run_id = ep_run_id ep,
      am_opportunity_id = ep_opportunity ep, am_failure_type = ep_failure_type ep,
      am_context_summary = ep_summary ep, am_action_taken = ep_action_taken ep,
      am_predicted_outcome = ep_predicted_outcome ep, am_actual_outcome = ep_actual_outcome ep,
      am_prediction_error = ep_prediction_error ep, am_semantic_key = ''episode:'' @ ep_failure_type ep,
      am_semantic_value = ep_action_taken ep, am_confidence = lit 9 1, am_provenance = ep_provenance ep,
      am_created_at = me_now me\<rparr>"

definition recordEpisode :: "memory_env \<Rightarrow> episode \<Rightarrow> memory_state \<Rightarrow> db_error + agent_memory \<times> memory_state" where
  "recordEpisode me ep ms = store_memory (me_jm me) (episode_memory me ep)
     (Some (ep_failure_type ep @ '' '' @ ep_summary ep @ '' '' @ ep_action_taken ep)) ms"

definition queryEpisodicMemories ::
  "memory_env \<Rightarrow> string option \<Rightarrow> string option \<Rightarrow> nat option \<Rightarrow> memory_state \<Rightarrow> agent_memory list" where
  "queryEpisodicMemories me failureType cutoffTimestamp limit ms =
     (let cutoff = or_opt cutoffTimestamp (me_now me);
          memories = getEpisodicMemories failureType (Some cutoff) (ms_rows ms)
      in take (or_limit limit 10) (filterMemories (me_time me) cutoff am_created_at memories))"

definition recordSemanticMemory ::
  "memory_env \<Rightarrow> string \<Rightarrow> string \<Rightarrow> string \<Rightarrow> rat \<Rightarrow> string \<Rightarrow> memory_state \<Rightarrow>
   db_error + agent_memory \<times> memory_state" where
  "recordSemanticMemory me key val summary confidence provenance ms = store_memory (me_jm me)
     \<lparr>am_id = me_id me, am_memory_type = ''semantic'', am_run_id = [], am_opportunity_id = [],
      am_failure_type = [], am_context_summary = summary, am_action_taken = [], am_predicted_outcome = [],
      am_actual_outcome = [], am_prediction_error = None, am_semantic_key = key, am_semantic_value = val,
      am_confidence = max 0 (min 1 confidence), am_provenance = provenance, am_created_at = me_now me\<rparr>
     (Some (key @ '' '' @ summary @ '' '' @ val)) ms"

definition querySemanticMemories ::
  "memory_env \<Rightarrow> string option \<Rightarrow> string option \<Rightarrow> nat option \<Rightarrow> memory_state \<Rightarrow> agent_memory list" where
  "querySemanticMemories me keyPrefix cutoffTimestamp limit ms =
     (let cutoff = or_opt cutoffTimestamp (me_now me);
          memories = getSemanticMemories keyPrefix (Some cutoff) (ms_rows ms)
      in take (or_limit limit 20) (filterMemories (me_time me) cutoff am_created_at memories))"

definition searchSimilarMemories ::
  "memory_env \<Rightarrow> string \<Rightarrow> string option \<Rightarrow> nat option \<Rightarrow> rat option \<Rightarrow> memory_state \<Rightarrow> (agent_memory \<times> rat) list" where
  "searchSimilarMemories me query cutoffTimestamp topK minSimilarity ms =
     (let cutoff = or_opt cutoffTimestamp (me_now me);
          matches = searchSimilar (me_jm me) query (or_limit topK 5 * 2)
                      (case minSimilarity of None \<Rightarrow> lit 10 2 | Some x \<Rightarrow> x) (ms_docs ms);
          items = List.map_filter (\<lambda>r. map_option (\<lambda>m. (m, sr_similarity r)) (sr_metadata r)) matches
      in take (or_limit topK 5) (filterMemories (me_time me) cutoff (am_created_at \<circ> fst) items))"

section \<open>Lemmas\<close>

lemma filterMemories_set:
  "m \<in> set (take n (filterMemories t cutoff created ms)) \<Longrightarrow> m \<in> set ms \<and> not_after (t (created m)) (t cutoff)"
  by (auto simp: filterMemories_def dest: in_set_takeD)

lemma bump_length [simp]: "length (bump i x v) = length v"
  by (simp add: bump_def)

lemma count_tokens_length [simp]: "length (count_tokens ts v) = length v"
  by (induction ts v rule: count_tokens.induct) simp_all

lemma embedding_length: "length (generateLocalEmbedding jm text) = VECTOR_DIM"
  by (simp add: generateLocalEmbedding_def normalize_vector_def Let_def)

lemma bucket_less: "bucket s < VECTOR_DIM"
  by (simp add: bucket_def VECTOR_DIM_def)

lemma cosine_unit: "0 \<le> cosineSimilarity a b \<and> cosineSimilarity a b \<le> 1"
  using clamp_bounds [of 0 1 "foldl fadd 0 (map2 fmul a b)"] by (simp add: cosineSimilarity_def)

lemma search_result_of:
  assumes "r \<in> set (searchSimilar jm q k lo docs)"
  obtains d where "d \<in> set docs" "sr_doc_id r = dc_id d" "sr_metadata r = dc_metadata d"
    "lo \<le> cosineSimilarity (generateLocalEmbedding jm q) (dc_vector d)"
    "sr_similarity r = toFixed 4 (cosineSimilarity (generateLocalEmbedding jm q) (dc_vector d))"
  using assms by (auto simp: searchSimilar_def Let_def dest!: in_set_takeD intro: that)

lemma search_sorted:
  "sorted_wrt (\<lambda>a b. sr_similarity b \<le> sr_similarity a) (searchSimilar jm q k lo docs)"
proof -
  let ?rs = "map (\<lambda>d. \<lparr>sr_doc_id = dc_id d, sr_text = dc_text d,
      sr_similarity = toFixed 4 (cosineSimilarity (generateLocalEmbedding jm q) (dc_vector d)),
      sr_metadata = dc_metadata d\<rparr>) (filter (\<lambda>d. lo \<le> cosineSimilarity (generateLocalEmbedding jm q) (dc_vector d)) docs)"
  have "sorted_wrt (\<lambda>a b. sr_similarity b \<le> sr_similarity a) (sort_key (\<lambda>r. - sr_similarity r) ?rs)"
    using sorted_sort_key [of "\<lambda>r. - sr_similarity r" ?rs] by (simp add: sorted_map)
  then show ?thesis by (simp add: searchSimilar_def Let_def sorted_wrt_take)
qed

lemma insort_newest: "\<forall>y \<in> set ys. f y < f x \<Longrightarrow> insort_key f x ys = ys @ [x]" for f :: "'b \<Rightarrow> 'k::linorder"
  by (induction ys) auto

lemma sort_desc_newest: "\<forall>y \<in> set ys. f y < f x \<Longrightarrow> sort_desc f (ys @ [x]) = x # sort_desc f ys"
  for f :: "'b \<Rightarrow> 'k::linorder"
  by (simp add: sort_desc_def insort_newest)

section \<open>Properties\<close>

text \<open>
  The temporal firewall holds: whatever is stored, and however the index ranks it, a memory
  that a query returns was created at a valid time that is not after the cutoff, and a query
  returns no more than its limit.
\<close>

theorem memory_firewall:
  "(\<forall>m \<in> set (queryEpisodicMemories me ft c l ms). m \<in> set (ms_rows ms) \<and>
        am_memory_type m = ''episodic'' \<and> not_after (me_time me (am_created_at m)) (me_time me (or_opt c (me_now me)))) \<and>
     (\<forall>m \<in> set (querySemanticMemories me kp c l ms). m \<in> set (ms_rows ms) \<and>
        am_memory_type m = ''semantic'' \<and> not_after (me_time me (am_created_at m)) (me_time me (or_opt c (me_now me)))) \<and>
     (\<forall>(m, sim) \<in> set (searchSimilarMemories me q c k lo ms). m \<in> Option.these (dc_metadata ` set (ms_docs ms)) \<and>
        0 \<le> sim \<and> sim \<le> 1 \<and> not_after (me_time me (am_created_at m)) (me_time me (or_opt c (me_now me)))) \<and>
     length (queryEpisodicMemories me ft c l ms) \<le> or_limit l 10 \<and>
     length (querySemanticMemories me kp c l ms) \<le> or_limit l 20 \<and>
     length (searchSimilarMemories me q c k lo ms) \<le> or_limit k 5"
proof (intro conjI ballI)
  fix m assume "m \<in> set (queryEpisodicMemories me ft c l ms)"
  then have m: "m \<in> set (getEpisodicMemories ft (Some (or_opt c (me_now me))) (ms_rows ms))"
      "not_after (me_time me (am_created_at m)) (me_time me (or_opt c (me_now me)))"
    by (auto simp: queryEpisodicMemories_def Let_def dest: filterMemories_set)
  show "m \<in> set (ms_rows ms)" "am_memory_type m = ''episodic''"
      "not_after (me_time me (am_created_at m)) (me_time me (or_opt c (me_now me)))"
    using m by (auto simp: getEpisodicMemories_def dest!: in_set_takeD)
next
  fix m assume "m \<in> set (querySemanticMemories me kp c l ms)"
  then have m: "m \<in> set (getSemanticMemories kp (Some (or_opt c (me_now me))) (ms_rows ms))"
      "not_after (me_time me (am_created_at m)) (me_time me (or_opt c (me_now me)))"
    by (auto simp: querySemanticMemories_def Let_def dest: filterMemories_set)
  show "m \<in> set (ms_rows ms)" "am_memory_type m = ''semantic''"
      "not_after (me_time me (am_created_at m)) (me_time me (or_opt c (me_now me)))"
    using m by (auto simp: getSemanticMemories_def)
next
  fix x assume x: "x \<in> set (searchSimilarMemories me q c k lo ms)"
  obtain m sim where p: "x = (m, sim)" by fastforce
  from x have "not_after (me_time me (am_created_at m)) (me_time me (or_opt c (me_now me)))"
    by (auto simp: p searchSimilarMemories_def Let_def dest!: filterMemories_set)
  moreover from x obtain r where "r \<in> set (searchSimilar (me_jm me) q (or_limit k 5 * 2)
      (case lo of None \<Rightarrow> lit 10 2 | Some y \<Rightarrow> y) (ms_docs ms))" "sr_metadata r = Some m" "sr_similarity r = sim"
    by (auto simp: p searchSimilarMemories_def Let_def List.map_filter_def dest!: filterMemories_set)
  moreover from this obtain d where "d \<in> set (ms_docs ms)" "dc_metadata d = Some m"
      "sim = toFixed 4 (cosineSimilarity (generateLocalEmbedding (me_jm me) q) (dc_vector d))"
    by (metis search_result_of)
  ultimately show "case x of (m, sim) \<Rightarrow> m \<in> Option.these (dc_metadata ` set (ms_docs ms)) \<and>
        0 \<le> sim \<and> sim \<le> 1 \<and> not_after (me_time me (am_created_at m)) (me_time me (or_opt c (me_now me)))"
    using cosine_unit by (force simp: p Option.these_def toFixed_nonneg toFixed_le_one)
qed (simp_all add: queryEpisodicMemories_def querySemanticMemories_def searchSimilarMemories_def Let_def)

text \<open>
  C36. What is recorded is found: an episode recorded later than every stored memory is the
  first answer to the next query for its failure type, at any cutoff from its time on, and it
  is indexed; recording changes no other memory.
\<close>

theorem episode_found:
  assumes "recordEpisode me ep ms = Inr (m, ms')" and "ep_failure_type ep \<noteq> []"
    and "\<forall>x \<in> set (ms_rows ms). am_created_at x < me_now me"
    and "me_now me \<le> c" and "c \<noteq> []" and "not_after (me_time me (me_now me)) (me_time me c)"
  shows "(\<exists>rest. queryEpisodicMemories (me\<lparr>me_now := later\<rparr>) (Some (ep_failure_type ep)) (Some c) None ms' = m # rest) \<and>
     am_context_summary m = ep_summary ep \<and> am_action_taken m = ep_action_taken ep \<and>
     am_actual_outcome m = ep_actual_outcome ep \<and> ms_rows ms' = ms_rows ms @ [m] \<and>
     (\<exists>d \<in> set (ms_docs ms'). dc_id d = am_id m \<and> dc_metadata d = Some m)"
proof -
  have m: "m = episode_memory me ep" "ms_rows ms' = ms_rows ms @ [m]"
      "ms_docs ms' = addDocument (me_jm me) (am_id m)
         (ep_failure_type ep @ '' '' @ ep_summary ep @ '' '' @ ep_action_taken ep) (Some m) None (ms_docs ms)"
    using assms(1) by (auto simp: recordEpisode_def store_memory_def insertAgentMemory_def sql_insert_def
        split: sum.splits if_splits)
  have fields: "am_memory_type m = ''episodic''" "am_failure_type m = ep_failure_type ep" "am_created_at m = me_now me"
      "am_context_summary m = ep_summary ep" "am_action_taken m = ep_action_taken ep"
      "am_actual_outcome m = ep_actual_outcome ep"
    by (simp_all add: m(1) episode_memory_def)
  let ?P = "\<lambda>x. am_memory_type x = ''episodic'' \<and> am_failure_type x = ep_failure_type ep \<and> am_created_at x \<le> c"
  have "getEpisodicMemories (Some (ep_failure_type ep)) (Some c) (ms_rows ms') =
      take 50 (m # sort_desc am_created_at (filter ?P (ms_rows ms)))"
    using assms(2-5) fields sort_desc_newest [of "filter ?P (ms_rows ms)" am_created_at m]
    by (simp add: getEpisodicMemories_def up_to_def truthy_str_def m(2))
  then have "\<exists>rest. getEpisodicMemories (Some (ep_failure_type ep)) (Some c) (ms_rows ms') = m # rest"
    by (simp add: take_Cons')
  then have "\<exists>rest. queryEpisodicMemories (me\<lparr>me_now := later\<rparr>) (Some (ep_failure_type ep)) (Some c) None ms' = m # rest"
    using assms(5,6) fields(3)
    by (auto simp: queryEpisodicMemories_def or_opt_def or_str_def or_limit_def filterMemories_def take_Cons' Let_def)
  moreover have "\<exists>d \<in> set (ms_docs ms'). dc_id d = am_id m \<and> dc_metadata d = Some m"
  proof -
    have put: "d \<in> set (row_put dc_id replace_merge d docs)" for d :: document and docs
      by (induction docs) (auto simp: replace_merge_def)
    show ?thesis unfolding m(3) addDocument_def Let_def by (rule bexI [OF _ put]) simp
  qed
  ultimately show ?thesis using fields m(2) by blast
qed

definition sample_memory_env :: memory_env where
  "sample_memory_env = \<lparr>me_time = (\<lambda>t. Some (int (length t))), me_now = ''t5'', me_id = ''mem_1'', me_jm = sample_math\<rparr>"

definition sample_episode :: episode where
  "sample_episode = \<lparr>ep_run_id = ''run_1'', ep_opportunity = ''o1'', ep_failure_type = ''timeout'', ep_summary = ''s'',
     ep_action_taken = ''ACT'', ep_predicted_outcome = ''p'', ep_actual_outcome = ''DISPATCHED'',
     ep_prediction_error = None, ep_provenance = ''x''\<rparr>"

theorem episode_found_witness:
  "\<exists>m ms. recordEpisode sample_memory_env sample_episode \<lparr>ms_rows = [], ms_docs = []\<rparr> = Inr (m, ms) \<and>
     m \<in> set (queryEpisodicMemories (sample_memory_env\<lparr>me_now := ''t7''\<rparr>) (Some ''timeout'') (Some ''t6'') None ms)"
proof -
  obtain m ms where r: "recordEpisode sample_memory_env sample_episode \<lparr>ms_rows = [], ms_docs = []\<rparr> = Inr (m, ms)"
    by (simp add: recordEpisode_def store_memory_def insertAgentMemory_def sql_insert_def)
  have "\<exists>rest. queryEpisodicMemories (sample_memory_env\<lparr>me_now := ''t7''\<rparr>) (Some ''timeout'') (Some ''t6'') None ms = m # rest"
    using episode_found [OF r, of "''t6''" "''t7''"]
    by (simp add: sample_memory_env_def sample_episode_def not_after_def)
  with r show ?thesis by auto
qed

text \<open>The assertion of the firewall lets a record with an invalid date through.\<close>

theorem invalid_date_passes_assertion:
  "time_of record_time = None \<Longrightarrow> assertTimestampValid time_of record_time c = Inr ()"
  by (simp add: assertTimestampValid_def)

text \<open>A search answers by falling similarity, within the requested number and from the threshold on.\<close>

theorem search_ranked:
  "sorted_wrt (\<lambda>a b. sr_similarity b \<le> sr_similarity a) (searchSimilar jm q k lo docs) \<and>
   length (searchSimilar jm q k lo docs) \<le> k \<and>
   (\<forall>r \<in> set (searchSimilar jm q k lo docs). \<exists>d \<in> set docs. sr_doc_id r = dc_id d \<and>
      lo \<le> cosineSimilarity (generateLocalEmbedding jm q) (dc_vector d)) \<and>
   length (generateLocalEmbedding jm q) = 64"
  using search_sorted [of jm q k lo docs] embedding_length [of jm q]
  by (auto simp: VECTOR_DIM_def elim!: search_result_of) (simp add: searchSimilar_def Let_def)

end
