(* ===== verification/Learning.thy ===== *)
theory Learning
  imports Memory
begin

text \<open>
  What a mission learns from its outcome (\<^verbatim>\<open>src/agents/learning.ts\<close>): the outcome row, the
  episode and the aggregate statistics, over the store and the vector index.  Squaring,
  fresh identifiers and times are parameters; the telemetry step is not modelled.
\<close>

section \<open>Outcome rows\<close>

definition run_for_outcome :: "string \<Rightarrow> string \<Rightarrow> string \<Rightarrow> agent_run" where
  "run_for_outcome now runId oppId =
     \<lparr>ar_id = runId, ar_mission_id = ''miss_'' @ runId, ar_opportunity_id = oppId,
      ar_goal_type = ''RECOVER_PAYMENT'', ar_status = ''running'', ar_start_time = now,
      ar_end_time = [], ar_total_steps = 0, ar_llm_calls = 0, ar_tool_calls = 0,
      ar_replan_count = 0, ar_total_tokens = 0, ar_latency_ms = 0, ar_termination_reason = [],
      ar_created_at = now\<rparr>"

definition ensure_run :: "string \<Rightarrow> string \<Rightarrow> string \<Rightarrow> store \<Rightarrow> store" where
  "ensure_run now runId oppId s =
     (if runId = [] \<or> runId \<in> ar_id ` set (agent_runs s) then s
      else s\<lparr>agent_runs := agent_runs s @ [run_for_outcome now runId oppId]\<rparr>)"

text \<open>The run is ensured before the insertion, which may still raise: the key of the outcome may
  be taken, and an empty run id is never ensured and violates the foreign key.\<close>

definition insertAgentOutcome :: "string \<Rightarrow> agent_outcome \<Rightarrow> store \<Rightarrow> (db_error + unit) \<times> store" where
  "insertAgentOutcome now oc s =
     (let s1 = ensure_run now (ao_run_id oc) (ao_opportunity_id oc) s
      in case sql_insert ao_id oc (agent_outcomes s1) of
           Inl e \<Rightarrow> (Inl e, s1)
         | Inr rows \<Rightarrow>
             if ao_run_id oc \<in> ar_id ` set (agent_runs s1)
             then (Inr (), s1\<lparr>agent_outcomes := rows\<rparr>)
             else (Inl (CheckViolation ''FOREIGN KEY constraint failed''), s1))"

definition getAgentOutcomeByOpportunityId :: "store \<Rightarrow> string \<Rightarrow> agent_outcome option" where
  "getAgentOutcomeByOpportunityId s oid = List.find (\<lambda>oc. ao_opportunity_id oc = oid) (agent_outcomes s)"

definition getAllAgentOutcomes :: "store \<Rightarrow> agent_outcome list" where
  "getAllAgentOutcomes s = sort_desc ao_evaluated_at (agent_outcomes s)"

section \<open>Evaluation\<close>

datatype outcome_status = CONFIRMED_RECOVERED | CONFIRMED_NOT_RECOVERED | PENDING_PROVIDER_CONFIRMATION

fun show_outcome :: "outcome_status \<Rightarrow> string" where
  "show_outcome CONFIRMED_RECOVERED = ''CONFIRMED_RECOVERED''"
| "show_outcome CONFIRMED_NOT_RECOVERED = ''CONFIRMED_NOT_RECOVERED''"
| "show_outcome PENDING_PROVIDER_CONFIRMATION = ''PENDING_PROVIDER_CONFIRMATION''"

record outcome_params =
  oc_runId :: string
  oc_opportunityId :: string
  oc_actualRecovered :: "bool option"
  oc_actualRevenuePaise :: "int option"
  oc_customerResponse :: "string option"
  oc_amountPaidPaise :: "int option"
  oc_evidenceClass :: "string option"

record learn_env =
  lv_square :: "rat \<Rightarrow> rat"
  lv_out_id :: string
  lv_memory :: memory_env

record evaluation =
  ev_record :: agent_outcome
  ev_status :: outcome_status
  ev_brier :: "rat option"
  ev_threshold_met :: bool

definition EVIDENCE_THRESHOLD :: nat where "EVIDENCE_THRESHOLD = 30"

definition classify :: "outcome_params \<Rightarrow> outcome_status" where
  "classify oc =
     (if oc_actualRecovered oc = Some True \<and> (case oc_amountPaidPaise oc of None \<Rightarrow> True | Some n \<Rightarrow> 0 < n)
      then CONFIRMED_RECOVERED
      else if oc_actualRecovered oc = Some False then CONFIRMED_NOT_RECOVERED
      else PENDING_PROVIDER_CONFIRMATION)"

definition brier_of :: "learn_env \<Rightarrow> outcome_status \<Rightarrow> rat \<Rightarrow> rat option" where
  "brier_of lv st p = (case st of
     CONFIRMED_RECOVERED \<Rightarrow> Some (toFixed 4 (lv_square lv (fsub 1 p)))
   | CONFIRMED_NOT_RECOVERED \<Rightarrow> Some (toFixed 4 (lv_square lv (fsub 0 p)))
   | PENDING_PROVIDER_CONFIRMATION \<Rightarrow> None)"

definition error_for :: "outcome_status \<Rightarrow> rat \<Rightarrow> rat" where
  "error_for st p = (case st of
     CONFIRMED_RECOVERED \<Rightarrow> toFixed 4 \<bar>fsub 1 p\<bar>
   | CONFIRMED_NOT_RECOVERED \<Rightarrow> toFixed 4 \<bar>fsub 0 p\<bar>
   | PENDING_PROVIDER_CONFIRMATION \<Rightarrow> 0)"

definition outcome_record :: "learn_env \<Rightarrow> outcome_params \<Rightarrow> score option \<Rightarrow> agent_outcome" where
  "outcome_record lv oc sc =
     (let p = (case sc of None \<Rightarrow> lit 45 2 | Some x \<Rightarrow> s_intervention_recovery_prob x);
          opCost = (case sc of None \<Rightarrow> 400 | Some x \<Rightarrow> s_operational_cost_paise x);
          fatigueCost = (case sc of None \<Rightarrow> 0 | Some x \<Rightarrow> s_fatigue_cost_paise x);
          revenue = (case oc_actualRevenuePaise oc of Some r \<Rightarrow> r
                     | None \<Rightarrow> (case oc_amountPaidPaise oc of Some r \<Rightarrow> r | None \<Rightarrow> 0));
          st = classify oc
      in \<lparr>ao_id = lv_out_id lv, ao_run_id = oc_runId oc, ao_opportunity_id = oc_opportunityId oc,
          ao_predicted = p, ao_recovered = (st = CONFIRMED_RECOVERED), ao_error = error_for st p,
          ao_revenue = revenue, ao_op_cost = opCost,
          ao_net_gain = (if st = CONFIRMED_RECOVERED then revenue - opCost - fatigueCost
                         else - (opCost + fatigueCost)),
          ao_customer_response = or_opt (oc_customerResponse oc) (''Status: '' @ show_outcome st),
          ao_evaluated_at = me_now (lv_memory lv)\<rparr>)"

definition outcome_episode :: "outcome_params \<Rightarrow> opportunity option \<Rightarrow> agent_outcome \<Rightarrow> episode" where
  "outcome_episode oc opp r =
     (let res = (if ao_recovered r then ''RECOVERED'' else ''NOT_RECOVERED'')
      in \<lparr>ep_run_id = oc_runId oc, ep_opportunity = oc_opportunityId oc,
          ep_failure_type = (case opp of None \<Rightarrow> ''unknown_decline''
                             | Some o' \<Rightarrow> or_str (o_reason_code o') ''unknown_decline''),
          ep_summary = ''Episode '' @ oc_opportunityId oc @ '': '' @
            (case opp of None \<Rightarrow> ''undefined'' | Some o' \<Rightarrow> o_reason_code o') @ '' -> Result: '' @ res @
            '' (Net: Rs.'' @ show_rupees (ao_net_gain r) @ '', Error: '' @ show_number (ao_error r) @ '')'',
          ep_action_taken = ''SEND_PAYMENT_LINK'',
          ep_predicted_outcome = ''P(rec)='' @ show_number (ao_predicted r), ep_actual_outcome = res,
          ep_prediction_error = Some (ao_error r),
          ep_provenance = ''AgentLearningEngine:evaluateOutcome ('' @
            or_opt (oc_evidenceClass oc) ''PROVIDER_EVAL'' @ '')''\<rparr>)"

text \<open>The table of memories is that of the store; the vector index is the process's own.\<close>

definition record_in_store ::
  "memory_env \<Rightarrow> episode \<Rightarrow> store \<times> document list \<Rightarrow> (db_error + unit) \<times> store \<times> document list" where
  "record_in_store me ep sd =
     (case recordEpisode me ep \<lparr>ms_rows = agent_memories (fst sd), ms_docs = snd sd\<rparr> of
        Inl e \<Rightarrow> (Inl e, sd)
      | Inr (m, ms) \<Rightarrow> (Inr (), (fst sd)\<lparr>agent_memories := ms_rows ms\<rparr>, ms_docs ms))"

definition evaluateOutcome ::
  "learn_env \<Rightarrow> outcome_params \<Rightarrow> store \<times> document list \<Rightarrow>
   (db_error + evaluation) \<times> store \<times> document list" where
  "evaluateOutcome lv oc sd =
     (let s = fst sd; opp = getOpportunityById s (oc_opportunityId oc);
          sc = getScoreByOpportunityId s (oc_opportunityId oc);
          r = outcome_record lv oc sc; st = classify oc
      in case insertAgentOutcome (me_now (lv_memory lv)) r s of
           (Inl e, s1) \<Rightarrow> (Inl e, s1, snd sd)
         | (Inr _, s1) \<Rightarrow>
             (case (if st = PENDING_PROVIDER_CONFIRMATION then (Inr (), s1, snd sd)
                    else record_in_store (lv_memory lv) (outcome_episode oc opp r) (s1, snd sd)) of
                (Inl e, sd2) \<Rightarrow> (Inl e, sd2)
              | (Inr _, sd2) \<Rightarrow>
                  (Inr \<lparr>ev_record = r, ev_status = st, ev_brier = brier_of lv st (ao_predicted r),
                        ev_threshold_met = (EVIDENCE_THRESHOLD \<le> length (getAllAgentOutcomes (fst sd2)))\<rparr>, sd2)))"

section \<open>Statistics\<close>

record statistics =
  sx_total_outcomes :: nat
  sx_mean_prediction_error :: rat
  sx_empirical_recovery_rate :: rat
  sx_mean_net_gain_paise :: int
  sx_brier_score :: rat

definition getCalibrationStatistics :: "(rat \<Rightarrow> rat) \<Rightarrow> store \<Rightarrow> statistics" where
  "getCalibrationStatistics square s =
     (let outcomes = getAllAgentOutcomes s; n = of_nat (length outcomes)
      in if outcomes = []
         then \<lparr>sx_total_outcomes = 0, sx_mean_prediction_error = 0, sx_empirical_recovery_rate = 0,
               sx_mean_net_gain_paise = 0, sx_brier_score = 0\<rparr>
         else \<lparr>sx_total_outcomes = length outcomes,
               sx_mean_prediction_error = toFixed 4 (fdiv (foldl (\<lambda>acc x. fadd acc (ao_error x)) 0 outcomes) n),
               sx_empirical_recovery_rate =
                 toFixed 4 (fdiv (of_nat (length (filter ao_recovered outcomes))) n),
               sx_mean_net_gain_paise = math_round (fdiv (of_int (sum_list (map ao_net_gain outcomes))) n),
               sx_brier_score = toFixed 4 (fdiv (foldl (\<lambda>acc x. fadd acc
                 (square (fsub (ao_predicted x) (if ao_recovered x then 1 else 0)))) 0 outcomes) n)\<rparr>)"

section \<open>Properties\<close>

lemma error_unit:
  assumes "0 \<le> p" and "p \<le> 1"
  shows "0 \<le> error_for st p \<and> error_for st p \<le> 1"
proof -
  have "0 \<le> fsub 1 p" "fsub 1 p \<le> 1" "fsub 0 p \<le> 0" "- 1 \<le> fsub 0 p"
    using fsub_mono [of 1 1 p 1] fsub_mono [of 1 1 0 p] fsub_mono [of 0 0 0 p] fsub_mono [of 0 0 p 1] assms
    by (simp_all add: fsub_def ieee.rnd_one ieee.rnd_zero rnd64_minus)
  then show ?thesis
    by (cases st) (auto simp: error_for_def toFixed_nonneg toFixed_le_one)
qed

lemma insertAgentOutcome_effect:
  assumes "insertAgentOutcome now oc s = (Inr u, s')"
  shows "agent_outcomes s' = agent_outcomes s @ [oc]" "agent_memories s' = agent_memories s"
    "opportunities s' = opportunities s" "execution_records s' = execution_records s"
    "double_entry_ledger s' = double_entry_ledger s" "scores s' = scores s"
  using assms by (auto simp: insertAgentOutcome_def ensure_run_def sql_insert_def Let_def split: if_splits)

lemma record_in_store_effect:
  assumes "record_in_store me ep (s, docs) = (Inr u, s', docs')"
  shows "s' = s\<lparr>agent_memories := agent_memories s @ [episode_memory me ep]\<rparr>"
  using assms
  by (auto simp: record_in_store_def recordEpisode_def store_memory_def insertAgentMemory_def sql_insert_def
      split: sum.splits if_splits prod.splits)

text \<open>
  Learning follows the evidence: the outcome row says recovered exactly when the caller
  reports a recovery that is not a payment of nothing; an unconfirmed outcome leaves the
  memories and the index as they are and has no Brier score; a confirmed one is remembered
  once; and the error of a probability is a number between 0 and 1.
\<close>

theorem learning_follows_evidence:
  assumes "evaluateOutcome lv oc (s, docs) = (Inr ev, s', docs')"
  shows "(ao_recovered (ev_record ev) \<longleftrightarrow> oc_actualRecovered oc = Some True \<and> \<not> (\<exists>n. oc_amountPaidPaise oc = Some n \<and> n \<le> 0)) \<and>
     agent_outcomes s' = agent_outcomes s @ [ev_record ev] \<and>
     (if ev_status ev = PENDING_PROVIDER_CONFIRMATION
      then ev_brier ev = None \<and> agent_memories s' = agent_memories s \<and> docs' = docs
      else ev_brier ev \<noteq> None \<and> length (agent_memories s') = Suc (length (agent_memories s))) \<and>
     opportunities s' = opportunities s \<and> execution_records s' = execution_records s \<and>
     double_entry_ledger s' = double_entry_ledger s \<and>
     (0 \<le> ao_predicted (ev_record ev) \<and> ao_predicted (ev_record ev) \<le> 1 \<longrightarrow>
        0 \<le> ao_error (ev_record ev) \<and> ao_error (ev_record ev) \<le> 1)"
proof -
  let ?r = "outcome_record lv oc (getScoreByOpportunityId s (oc_opportunityId oc))"
  let ?ep = "outcome_episode oc (getOpportunityById s (oc_opportunityId oc)) ?r"
  obtain s1 where s1: "insertAgentOutcome (me_now (lv_memory lv)) ?r s = (Inr (), s1)"
    using assms by (auto simp: evaluateOutcome_def Let_def split: sum.splits prod.splits)
  note f = insertAgentOutcome_effect [OF s1]
  have ev: "ev_record ev = ?r" "ev_status ev = classify oc" "ev_brier ev = brier_of lv (classify oc) (ao_predicted ?r)"
    and s': "if classify oc = PENDING_PROVIDER_CONFIRMATION then (s', docs') = (s1, docs)
      else record_in_store (lv_memory lv) ?ep (s1, docs) = (Inr (), s', docs')"
    using assms s1 by (auto simp: evaluateOutcome_def Let_def split: sum.splits prod.splits if_splits)
  have rec: "ao_recovered ?r \<longleftrightarrow> classify oc = CONFIRMED_RECOVERED"
      "ao_error ?r = error_for (classify oc) (ao_predicted ?r)"
    by (simp_all add: outcome_record_def Let_def)
  have flag: "classify oc = CONFIRMED_RECOVERED \<longleftrightarrow>
      oc_actualRecovered oc = Some True \<and> \<not> (\<exists>n. oc_amountPaidPaise oc = Some n \<and> n \<le> 0)"
    by (auto simp: classify_def split: option.splits)
  have brier: "brier_of lv st p = None \<longleftrightarrow> st = PENDING_PROVIDER_CONFIRMATION" for st p
    by (cases st) (simp_all add: brier_of_def)
  show ?thesis
  proof (cases "classify oc = PENDING_PROVIDER_CONFIRMATION")
    case True
    then show ?thesis using s' f flag rec error_unit brier by (auto simp: ev)
  next
    case False
    then have "s' = s1\<lparr>agent_memories := agent_memories s1 @ [episode_memory (lv_memory lv) ?ep]\<rparr>"
      using s' by (auto dest: record_in_store_effect)
    then show ?thesis using False f flag rec error_unit brier by (simp add: ev)
  qed
qed

end
