(* ===== verification/Telemetry.thy ===== *)
theory Telemetry
  imports Learning Agent_Gate
begin

text \<open>
  The log of a mission (\<^verbatim>\<open>src/agents/telemetry.ts\<close>): steps and language-model invocations,
  masked before they are stored, and the trace that is read back.  Every row hangs on a run,
  which its insertion creates when it is missing.  Texts of the fields are empty for \<^verbatim>\<open>NULL\<close>.
\<close>

section \<open>Rows of a run\<close>

definition with_run :: "string \<Rightarrow> string \<Rightarrow> string \<Rightarrow> agent_run list \<Rightarrow> agent_run list" where
  "with_run now runId oppId runs =
     (if runId = [] \<or> runId \<in> ar_id ` set runs then runs else runs @ [run_for_outcome now runId oppId])"

text \<open>A row of a table that refers to the runs: the run is ensured, the row inserted, and the
  foreign key checked at the end of the statement.\<close>

definition insert_of_run ::
  "string \<Rightarrow> string \<Rightarrow> string \<Rightarrow> ('r list \<Rightarrow> db_error + 'r list) \<Rightarrow> agent_run list \<times> 'r list \<Rightarrow>
   (db_error + unit) \<times> agent_run list \<times> 'r list" where
  "insert_of_run now runId oppId ins db =
     (let runs = with_run now runId oppId (fst db)
      in case ins (snd db) of
           Inl e \<Rightarrow> (Inl e, runs, snd db)
         | Inr rows \<Rightarrow>
             if runId \<in> ar_id ` set runs then (Inr (), runs, rows)
             else (Inl foreign_key_error, runs, snd db))"

record step_row =
  st_run_id :: string
  st_step_number :: int
  st_state :: agent_state
  st_observation :: string
  st_thought :: string
  st_action_type :: string
  st_action_payload :: string
  st_tool_name :: string
  st_tool_input :: string
  st_tool_output :: string
  st_timestamp :: string

record llm_row =
  li_id :: string
  li_run_id :: string
  li_model :: string
  li_provider :: string
  li_prompt_hash :: string
  li_prompt_preview :: string
  li_completion_hash :: string
  li_completion_preview :: string
  li_reasoning_preview :: string
  li_latency_ms :: int
  li_prompt_tokens :: int
  li_completion_tokens :: int
  li_total_tokens :: int
  li_error :: string
  li_created_at :: string

definition insertAgentStep ::
  "string \<Rightarrow> step_row \<Rightarrow> agent_run list \<times> step_row list \<Rightarrow>
   (db_error + unit) \<times> agent_run list \<times> step_row list" where
  "insertAgentStep now r db = insert_of_run now (st_run_id r) [] (\<lambda>rows. Inr (rows @ [r])) db"

definition insertLLMInvocation ::
  "string \<Rightarrow> llm_row \<Rightarrow> agent_run list \<times> llm_row list \<Rightarrow>
   (db_error + unit) \<times> agent_run list \<times> llm_row list" where
  "insertLLMInvocation now r db = insert_of_run now (li_run_id r) [] (sql_insert li_id r) db"

section \<open>Logging\<close>

definition log_json :: "payload option \<Rightarrow> string" where
  "log_json p = (case p of None \<Rightarrow> [] | Some ms \<Rightarrow> sanitizeTextForLog (stringify (JObj ms)))"

record step_log =
  sl_runId :: string
  sl_stepNumber :: int
  sl_state :: agent_state
  sl_observation :: string
  sl_thought :: string
  sl_actionType :: string
  sl_actionPayload :: "payload option"
  sl_toolName :: string
  sl_toolInput :: "payload option"
  sl_toolOutput :: "payload option"

definition logStep ::
  "string \<Rightarrow> step_log \<Rightarrow> agent_run list \<times> step_row list \<Rightarrow>
   (db_error + unit) \<times> agent_run list \<times> step_row list" where
  "logStep now p db = insertAgentStep now
     \<lparr>st_run_id = sl_runId p, st_step_number = sl_stepNumber p, st_state = sl_state p,
      st_observation = sanitizeTextForLog (sl_observation p),
      st_thought = sanitizeTextForLog (sl_thought p), st_action_type = sl_actionType p,
      st_action_payload = log_json (sl_actionPayload p), st_tool_name = sl_toolName p,
      st_tool_input = log_json (sl_toolInput p), st_tool_output = log_json (sl_toolOutput p),
      st_timestamp = now\<rparr> db"

record llm_log =
  ll_id :: string
  ll_runId :: string
  ll_model :: string
  ll_provider :: string
  ll_prompt :: string
  ll_completion :: string
  ll_reasoning :: string
  ll_latencyMs :: int
  ll_promptTokens :: int
  ll_completionTokens :: int
  ll_totalTokens :: int
  ll_error :: string

definition logLLMInvocation ::
  "(string \<Rightarrow> string) \<Rightarrow> string \<Rightarrow> llm_log \<Rightarrow> agent_run list \<times> llm_row list \<Rightarrow>
   (db_error + unit) \<times> agent_run list \<times> llm_row list" where
  "logLLMInvocation sha now p db = insertLLMInvocation now
     \<lparr>li_id = ll_id p, li_run_id = ll_runId p, li_model = ll_model p, li_provider = ll_provider p,
      li_prompt_hash = sha (ll_prompt p),
      li_prompt_preview = take 300 (sanitizeTextForLog (ll_prompt p)),
      li_completion_hash = sha (ll_completion p),
      li_completion_preview = take 500 (sanitizeTextForLog (ll_completion p)),
      li_reasoning_preview = take 300 (sanitizeTextForLog (ll_reasoning p)),
      li_latency_ms = ll_latencyMs p, li_prompt_tokens = ll_promptTokens p,
      li_completion_tokens = ll_completionTokens p,
      li_total_tokens = (if ll_totalTokens p = 0 then ll_promptTokens p + ll_completionTokens p
                         else ll_totalTokens p),
      li_error = ll_error p, li_created_at = now\<rparr> db"

section \<open>The trace\<close>

record mission_trace =
  mt_states :: "agent_state_row list"
  mt_steps :: "step_row list"
  mt_tool_calls :: "tool_call_row list"
  mt_llm :: "llm_row list"
  mt_total_tokens :: int
  mt_total_latency_ms :: int

definition getMissionTrace ::
  "string \<Rightarrow> agent_state_row list \<Rightarrow> step_row list \<Rightarrow> tool_call_row list \<Rightarrow> llm_row list \<Rightarrow> mission_trace" where
  "getMissionTrace runId states steps calls invocations =
     (let ss = filter (\<lambda>r. as_run_id r = runId) states;
          st = sort_key st_step_number (filter (\<lambda>r. st_run_id r = runId) steps);
          tc = sort_key tc_created_at (filter (\<lambda>r. tc_run_id r = runId) calls);
          li = sort_key li_created_at (filter (\<lambda>r. li_run_id r = runId) invocations)
      in \<lparr>mt_states = ss, mt_steps = st, mt_tool_calls = tc, mt_llm = li,
          mt_total_tokens = sum_list (map li_total_tokens li),
          mt_total_latency_ms = sum_list (map tc_latency_ms tc) + sum_list (map li_latency_ms li)\<rparr>)"

section \<open>Properties\<close>

lemma insert_of_run_effect:
  assumes "insert_of_run now rid oid ins (runs, rows) = (r, runs', rows')"
  shows "set runs \<subseteq> set runs' \<and> (rows' = rows \<or> ins rows = Inr rows') \<and> (r = Inr () \<longrightarrow> ins rows = Inr rows')"
  using assms by (auto simp: insert_of_run_def with_run_def Let_def split: sum.splits if_splits)

text \<open>What is stored of a conversation with a model is the beginning of the masked text.\<close>

lemma logLLMInvocation_masked:
  assumes "logLLMInvocation sha now p (runs, rows) = (Inr (), runs', rows')"
  shows "\<exists>r. rows' = rows @ [r] \<and> li_run_id r = ll_runId p \<and>
    li_prompt_preview r = take 300 (sanitizeTextForLog (ll_prompt p)) \<and>
    length (li_prompt_preview r) \<le> 300 \<and> length (li_completion_preview r) \<le> 500"
  using insert_of_run_effect [OF assms [unfolded logLLMInvocation_def insertLLMInvocation_def]]
  by (auto simp: sql_insert_def split: if_splits)

end
