(* ===== verification/Intent.thy ===== *)
theory Intent
  imports Telemetry Bridge
begin

text \<open>
  What a language model may say: the validation of its answer
  (\<^verbatim>\<open>src/agents/schema.ts\<close>), the sanitised context it is given
  (\<^verbatim>\<open>src/agents/context_builder.ts\<close>), and the provider that asks it and falls back to rules
  (\<^verbatim>\<open>src/agents/llm_provider.ts\<close>).  The answer of the provider router, \<^verbatim>\<open>JSON.parse\<close> and the text
  of the prompt are parameters.  An operation that raises has the value \<open>None\<close> here.
\<close>

section \<open>Reading untyped values\<close>

text \<open>\<^verbatim>\<open>String(x)\<close>: an object whose own \<^verbatim>\<open>toString\<close> is no function cannot be converted.\<close>

fun js_string :: "json \<Rightarrow> string option" and js_elements :: "json list \<Rightarrow> string list option" where
  "js_string JNull = Some ''null''"
| "js_string (JBool b) = Some (if b then ''true'' else ''false'')"
| "js_string (JNum n) = Some (show_number n)"
| "js_string (JStr s) = Some s"
| "js_string (JArr xs) = map_option (join_with '','') (js_elements xs)"
| "js_string (JObj ms) = (if map_of ms ''toString'' = None then Some ''[object Object]'' else None)"
| "js_elements [] = Some []"
| "js_elements (x # xs) =
     (case if x = JNull then Some [] else js_string x of
        None \<Rightarrow> None
      | Some s \<Rightarrow> map_option ((#) s) (js_elements xs))"

definition is_object :: "json \<Rightarrow> bool" where
  "is_object j = (case j of JArr _ \<Rightarrow> True | JObj _ \<Rightarrow> True | _ \<Rightarrow> False)"

text \<open>\<^verbatim>\<open>parsed.k || {}\<close>, and a member of it.\<close>

definition sub_object :: "string \<Rightarrow> json \<Rightarrow> json" where
  "sub_object k j = (case json_member k j of Some d \<Rightarrow> if truthy_json d then d else JObj [] | None \<Rightarrow> JObj [])"

definition text_or :: "nat \<Rightarrow> string \<Rightarrow> json option \<Rightarrow> string option" where
  "text_or n d v = map_option (take n)
     (case v of Some j \<Rightarrow> if truthy_json j then js_string j else Some d | None \<Rightarrow> Some d)"

definition unit_or :: "rat \<Rightarrow> json option \<Rightarrow> rat" where
  "unit_or d v = (case v of Some (JNum x) \<Rightarrow> clamp 0 1 x | _ \<Rightarrow> d)"

definition number_or :: "rat \<Rightarrow> json option \<Rightarrow> rat" where
  "number_or d v = (case v of Some (JNum x) \<Rightarrow> x | _ \<Rightarrow> d)"

definition one_of :: "string list \<Rightarrow> string \<Rightarrow> json option \<Rightarrow> string" where
  "one_of opts d v = (case v of Some (JStr s) \<Rightarrow> if s \<in> set opts then s else d | _ \<Rightarrow> d)"

definition elements :: "json option \<Rightarrow> json list" where
  "elements v = (case v of Some (JArr xs) \<Rightarrow> xs | _ \<Rightarrow> [])"

definition is_array :: "json option \<Rightarrow> bool" where
  "is_array v = (case v of Some (JArr _) \<Rightarrow> True | _ \<Rightarrow> False)"

definition texts :: "nat \<Rightarrow> json option \<Rightarrow> string list option" where
  "texts n v = those (map (map_option (take n) \<circ> js_string) (elements v))"

text \<open>Code units whose upper case lies outside the model's range stay as they are.\<close>

definition upper_char :: "char \<Rightarrow> string" where
  "upper_char c =
     (let n = of_char c :: nat
      in if 97 \<le> n \<and> n \<le> 122 \<or> 224 \<le> n \<and> n \<le> 254 \<and> n \<noteq> 247 then [char_of (n - 32)]
         else if n = 223 then ''SS'' else [c])"

definition toUpperCase :: "string \<Rightarrow> string" where
  "toUpperCase s = concat (map upper_char s)"

section \<open>Intents\<close>

record diagnosis =
  dg_failure_category :: string
  dg_root_cause :: string
  dg_confidence :: rat
  dg_severity :: string
  dg_recoverability :: string

record assumption =
  pa_id :: string
  pa_parameter :: string
  pa_condition :: string
  pa_expected :: json
  pa_is_valid :: bool

record proposed_plan =
  pp_version :: rat
  pp_goal :: string
  pp_steps :: "string list"
  pp_assumptions :: "assumption list"
  pp_candidate_actions :: "string list"
  pp_preferred_action :: string
  pp_duration_sec :: rat

record signal =
  si_name :: string
  si_value :: rat
  si_confidence :: rat
  si_evidence :: string
  si_timestamp :: string
  si_source :: string

record tool_request =
  tq_tool_name :: string
  tq_params :: json

record agent_intent =
  in_id :: string
  in_run_id :: string
  in_opportunity_id :: string
  in_diagnosis :: diagnosis
  in_observations :: "string list"
  in_hypotheses :: "string list"
  in_candidate_actions :: "string list"
  in_signals :: "signal list"
  in_plan :: proposed_plan
  in_uncertainty :: string
  in_tools :: "tool_request list"
  in_rationale :: string
  in_created_at :: string

text \<open>The clock of a call and \<^verbatim>\<open>JSON.parse\<close>, which answers a value or the message of its error.\<close>

record intent_env =
  ie_parse :: "string \<Rightarrow> string + json"
  ie_now_ms :: int
  ie_now :: string

definition valid_actions :: "string list" where
  "valid_actions = [''ACT'', ''WAIT'', ''ABSTAIN'', ''SEND_PAYMENT_LINK'', ''DEFER_RETRY'', ''MANUAL_REVIEW'']"

definition valid_signal_names :: "string list" where
  "valid_signal_names = [''transient_failure'', ''customer_liquidity'', ''fatigue'', ''gateway_instability'',
     ''settlement_ambiguity'', ''alternate_method_relevance'', ''urgency'', ''relationship_risk'']"

section \<open>Validation\<close>

definition read_diagnosis :: "json \<Rightarrow> diagnosis option" where
  "read_diagnosis parsed =
     (let diag = sub_object ''diagnosis'' parsed
      in case (text_or 100 ''generic_failure'' (json_member ''failure_category'' diag),
               text_or 300 ''unspecified'' (json_member ''root_cause'' diag)) of
           (Some cat, Some cause) \<Rightarrow> Some
             \<lparr>dg_failure_category = cat, dg_root_cause = cause,
              dg_confidence = unit_or (lit 5 1) (json_member ''confidence'' diag),
              dg_severity = one_of [''LOW'', ''MEDIUM'', ''HIGH'', ''CRITICAL''] ''MEDIUM'' (json_member ''severity'' diag),
              dg_recoverability = one_of [''HIGH'', ''MODERATE'', ''POOR'', ''IMPOSSIBLE''] ''MODERATE''
                (json_member ''recoverability_assessment'' diag)\<rparr>
         | _ \<Rightarrow> None)"

definition read_actions :: "json option \<Rightarrow> string list" where
  "read_actions v =
     (let acts = List.map_filter (\<lambda>a. case a of
            JStr s \<Rightarrow> if toUpperCase s \<in> set valid_actions then Some (toUpperCase s) else None
          | _ \<Rightarrow> None) (elements v)
      in if acts = [] then [''WAIT'', ''SEND_PAYMENT_LINK''] else acts)"

definition named_signal :: "json \<Rightarrow> string option" where
  "named_signal sig = (if truthy_json sig \<and> is_object sig
     then case json_member ''name'' sig of
            Some (JStr s) \<Rightarrow> if s \<in> set valid_signal_names then Some s else None
          | _ \<Rightarrow> None
     else None)"

definition read_signal :: "string \<Rightarrow> json \<Rightarrow> string \<Rightarrow> signal option" where
  "read_signal now sig name = map_option
     (\<lambda>ev. \<lparr>si_name = name, si_value = toFixed 4 (unit_or (lit 5 1) (json_member ''value'' sig)),
           si_confidence = toFixed 4 (unit_or (lit 8 1) (json_member ''confidence'' sig)),
           si_evidence = ev, si_timestamp = now, si_source = ''llm_reasoning''\<rparr>)
     (text_or 200 ''LLM context analysis'' (json_member ''evidence_reference'' sig))"

definition read_signals :: "string \<Rightarrow> json option \<Rightarrow> signal list option" where
  "read_signals now v = those (List.map_filter
     (\<lambda>sig. map_option (read_signal now sig) (named_signal sig)) (elements v))"

definition default_assumption :: assumption where
  "default_assumption = \<lparr>pa_id = ''assump_1'', pa_parameter = ''gateway_health'', pa_condition = ''>='',
     pa_expected = JNum (3 / 4), pa_is_valid = True\<rparr>"

definition read_assumption :: "nat \<times> json \<Rightarrow> assumption option option" where
  "read_assumption x = (case x of (i, a) \<Rightarrow>
     if truthy_json a \<and> is_object a
     then Some (case (text_or 50 ''gateway_health'' (json_member ''parameter'' a),
                      text_or 10 ''>='' (json_member ''condition'' a)) of
                  (Some p, Some c) \<Rightarrow> Some
                    \<lparr>pa_id = ''assump_'' @ show_nat (i + 1), pa_parameter = p, pa_condition = c,
                     pa_expected = (case json_member ''expected_value'' a of Some e \<Rightarrow> e | None \<Rightarrow> JNum (3 / 4)),
                     pa_is_valid = True\<rparr>
                | _ \<Rightarrow> None)
     else None)"

definition read_assumptions :: "json option \<Rightarrow> assumption list option" where
  "read_assumptions v =
     (let xs = elements v
      in map_option (\<lambda>as. if as = [] then [default_assumption] else as)
           (those (List.map_filter read_assumption (zip [0..<length xs] xs))))"

definition read_plan :: "string list \<Rightarrow> json \<Rightarrow> proposed_plan option" where
  "read_plan candidates parsed =
     (let raw = sub_object ''proposed_plan'' parsed
      in case (text_or 200 ''Recover payment with positive IVEN under capacity limits'' (json_member ''goal'' raw),
               (if is_array (json_member ''steps'' raw) then texts 200 (json_member ''steps'' raw)
                else Some [''Observe outcome'']),
               read_assumptions (json_member ''validity_assumptions'' raw)) of
           (Some goal, Some steps, Some as) \<Rightarrow> Some
             \<lparr>pp_version = number_or 1 (json_member ''plan_version'' raw), pp_goal = goal, pp_steps = steps,
              pp_assumptions = as, pp_candidate_actions = candidates,
              pp_preferred_action = (case json_member ''preferred_action'' raw of
                  Some (JStr s) \<Rightarrow> if toUpperCase s \<in> set candidates then toUpperCase s else hd candidates
                | _ \<Rightarrow> hd candidates),
              pp_duration_sec = number_or 60 (json_member ''estimated_duration_sec'' raw)\<rparr>
         | _ \<Rightarrow> None)"

definition read_tools :: "json option \<Rightarrow> tool_request list" where
  "read_tools v = List.map_filter
     (\<lambda>rt. if truthy_json rt \<and> is_object rt
           then case json_member ''tool_name'' rt of
                  Some (JStr s) \<Rightarrow> Some \<lparr>tq_tool_name = s,
                    tq_params = (case json_member ''params'' rt of
                       Some ps \<Rightarrow> if truthy_json ps \<and> is_object ps then ps else JObj []
                     | None \<Rightarrow> JObj [])\<rparr>
                | _ \<Rightarrow> None
           else None) (elements v)"

definition read_intent :: "intent_env \<Rightarrow> string \<Rightarrow> string \<Rightarrow> json \<Rightarrow> agent_intent option" where
  "read_intent env runId oppId parsed =
     (let candidates = read_actions (json_member ''candidate_actions'' parsed)
      in case (read_diagnosis parsed, texts 200 (json_member ''observations'' parsed),
               texts 200 (json_member ''hypotheses'' parsed),
               read_signals (ie_now env) (json_member ''semantic_signals'' parsed),
               read_plan candidates parsed,
               text_or 500 ''Autonomous structured recovery intent generated'' (json_member ''rationale_summary'' parsed)) of
           (Some diag, Some obs, Some hyps, Some signals, Some plan, Some rationale) \<Rightarrow> Some
             \<lparr>in_id = ''intent_'' @ show_int (ie_now_ms env) @ ''_'' @ take 8 oppId, in_run_id = runId,
              in_opportunity_id = oppId, in_diagnosis = diag, in_observations = obs, in_hypotheses = hyps,
              in_candidate_actions = candidates, in_signals = signals, in_plan = plan,
              in_uncertainty = one_of [''LOW'', ''MEDIUM'', ''HIGH''] ''MEDIUM'' (json_member ''uncertainty'' parsed),
              in_tools = read_tools (json_member ''requested_tools'' parsed), in_rationale = rationale,
              in_created_at = ie_now env\<rparr>
         | _ \<Rightarrow> None)"

text \<open>The left side is the answer \<^verbatim>\<open>{ valid: false, errors }\<close>.\<close>

definition validateAgentIntent ::
  "intent_env \<Rightarrow> json \<Rightarrow> string \<Rightarrow> string \<Rightarrow> (string list + agent_intent) option" where
  "validateAgentIntent env raw runId oppId =
     (case (case raw of JStr s \<Rightarrow> ie_parse env s | _ \<Rightarrow> Inr raw) of
        Inl msg \<Rightarrow> Some (Inl [''Malformed JSON in LLM response: '' @ msg])
      | Inr parsed \<Rightarrow>
          if \<not> truthy_json parsed \<or> \<not> is_object parsed
          then Some (Inl [''Parsed output is not an object.''])
          else map_option Inr (read_intent env runId oppId parsed))"

section \<open>The context of a prompt\<close>

record prompt_memory =
  pm_type :: string
  pm_summary :: string
  pm_actual_outcome :: string

record baseline =
  bl_natural :: rat
  bl_intervention :: rat
  bl_iven_inr :: string
  bl_confidence :: confidence_level

record prompt_context =
  pc_goal :: string
  pc_id :: string
  pc_source :: opportunity_source
  pc_amount_inr :: string
  pc_amount_paise :: int
  pc_reason_code :: string
  pc_decline_type :: decline_type
  pc_attempt_count :: int
  pc_customer_id :: string
  pc_created_at :: string
  pc_status :: opportunity_status
  pc_customer :: string
  pc_trust_score :: rat
  pc_baseline :: "baseline option"
  pc_gateway_health :: rat
  pc_memories :: "prompt_memory list"
  pc_cutoff :: string

definition rupees :: "int \<Rightarrow> string" where
  "rupees paise = ''Rs.'' @ show_rupees paise"

definition later_than :: "int option \<Rightarrow> int option \<Rightarrow> bool" where
  "later_than a b = (case (a, b) of (Some x, Some y) \<Rightarrow> y < x | _ \<Rightarrow> False)"

text \<open>The left side is the raised error; \<open>sanitizeTextForLog\<close> is the builder's own \<^verbatim>\<open>sanitize\<close>.\<close>

definition buildContext ::
  "(string \<Rightarrow> int option) \<Rightarrow> string \<Rightarrow> opportunity \<Rightarrow> customer option \<Rightarrow> score option \<Rightarrow> rat option \<Rightarrow>
   agent_memory list \<Rightarrow> string \<Rightarrow> string + prompt_context" where
  "buildContext time_of goal opp cust sc health memories now =
     (if later_than (time_of (o_created_at opp)) (time_of now)
      then Inl (''Temporal Firewall Violation: Opportunity created_at ('' @ o_created_at opp @
             '') > Current Time ('' @ now @ '')'')
      else Inr
        \<lparr>pc_goal = goal, pc_id = o_id opp, pc_source = o_source opp,
         pc_amount_inr = rupees (o_amount_paise opp), pc_amount_paise = o_amount_paise opp,
         pc_reason_code = sanitizeTextForLog (o_reason_code opp), pc_decline_type = o_decline_type opp,
         pc_attempt_count = o_attempt_count opp,
         pc_customer_id = sanitizeTextForLog (o_customer_id opp), pc_created_at = o_created_at opp,
         pc_status = o_status opp,
         pc_customer = sanitizeTextForLog (case cust of None \<Rightarrow> o_customer_id opp
                         | Some c \<Rightarrow> or_str (cu_id c) (o_customer_id opp)),
         pc_trust_score = (case cust of Some c \<Rightarrow> cu_trust_score c | None \<Rightarrow> o_customer_trust_score opp),
         pc_baseline = map_option (\<lambda>x. \<lparr>bl_natural = s_natural_recovery_prob x,
             bl_intervention = s_intervention_recovery_prob x,
             bl_iven_inr = rupees (s_expected_incremental_value_paise x), bl_confidence = s_confidence x\<rparr>) sc,
         pc_gateway_health = (case health of Some h \<Rightarrow> h | None \<Rightarrow> lit 98 2),
         pc_memories = map (\<lambda>m. \<lparr>pm_type = am_memory_type m,
             pm_summary = sanitizeTextForLog (am_context_summary m), pm_actual_outcome = am_actual_outcome m\<rparr>)
           (take 5 (filter (\<lambda>m. not_after (time_of (am_created_at m)) (time_of now)) memories)),
         pc_cutoff = now\<rparr>)"

section \<open>The provider and its fallback\<close>

record rule_choice =
  rl_cause :: string
  rl_category :: string
  rl_confidence :: rat
  rl_recoverability :: string
  rl_action :: string

definition fallback_rule :: "prompt_context \<Rightarrow> rule_choice" where
  "fallback_rule ctx =
     (let reason = toLowerCase (pc_reason_code ctx)
      in if pc_decline_type ctx = Hard
         then \<lparr>rl_cause = ''Hard decline (lost/stolen card or fraudulent activity reported by issuer)'',
               rl_category = ''fraud_hard_decline'', rl_confidence = lit 95 2,
               rl_recoverability = ''IMPOSSIBLE'', rl_action = ''ABSTAIN''\<rparr>
         else if 3 \<le> pc_attempt_count ctx
         then \<lparr>rl_cause = ''Retry cap reached ('' @ show_int (pc_attempt_count ctx) @
                 ''/3 attempts). Customer fatigue high.'',
               rl_category = ''retry_cap_exceeded'', rl_confidence = lit 90 2,
               rl_recoverability = ''POOR'', rl_action = ''ABSTAIN''\<rparr>
         else if includes_str reason ''insufficient_funds''
         then \<lparr>rl_cause = ''Customer account temporarily lacked sufficient balance'',
               rl_category = ''insufficient_funds'', rl_confidence = lit 80 2,
               rl_recoverability = ''HIGH'', rl_action = ''SEND_PAYMENT_LINK''\<rparr>
         else if includes_str reason ''timeout'' \<or> includes_str reason ''gateway''
         then \<lparr>rl_cause = ''Bank gateway or processing network transient timeout'',
               rl_category = ''gateway_timeout'', rl_confidence = lit 90 2,
               rl_recoverability = ''HIGH'', rl_action = ''WAIT''\<rparr>
         else \<lparr>rl_cause = ''Soft decline due to temporary issuer block or insufficient funds'',
               rl_category = ''soft_decline'', rl_confidence = lit 85 2,
               rl_recoverability = ''MODERATE'', rl_action = ''SEND_PAYMENT_LINK''\<rparr>)"

definition fallback_signals :: "string \<Rightarrow> prompt_context \<Rightarrow> signal list" where
  "fallback_signals now ctx =
     (let hard = (pc_decline_type ctx = Hard); n = pc_attempt_count ctx;
          sig = (\<lambda>name v c ev. \<lparr>si_name = name, si_value = v, si_confidence = c, si_evidence = ev,
                   si_timestamp = now, si_source = ''deterministic_rule_engine''\<rparr>)
      in [sig ''transient_failure''
            (if includes_str (toLowerCase (pc_reason_code ctx)) ''timeout'' then lit 85 2
             else if hard then lit 5 2 else lit 45 2)
            (lit 85 2) (''Reason code: '' @ pc_reason_code ctx),
          sig ''fatigue'' (if 3 \<le> n then lit 85 2 else if n = 2 then lit 40 2 else lit 10 2)
            (lit 90 2) (''Attempt count: '' @ show_int n),
          sig ''customer_liquidity'' (if hard then lit 10 2 else lit 70 2) (lit 75 2)
            (''Trust score: '' @ show_number (pc_trust_score ctx))])"

definition fallback_plan :: "prompt_context \<Rightarrow> proposed_plan" where
  "fallback_plan ctx =
     (let hard = (pc_decline_type ctx = Hard)
      in \<lparr>pp_version = 1, pp_goal = ''Execute recovery strategy for '' @ pc_id ctx,
          pp_steps = (if hard then [''Abstain and flag hard decline in compliance audit'']
                      else [''Check gateway state'', ''Calculate IVEN'', ''Submit to Market allocator'']),
          pp_assumptions =
            [default_assumption,
             \<lparr>pa_id = ''assump_2'', pa_parameter = ''attempt_count'', pa_condition = ''<'',
              pa_expected = JNum 3, pa_is_valid = (pc_attempt_count ctx < 3)\<rparr>],
          pp_candidate_actions = (if hard then [''ABSTAIN''] else [''WAIT'', ''SEND_PAYMENT_LINK'']),
          pp_preferred_action = rl_action (fallback_rule ctx), pp_duration_sec = 45\<rparr>)"

definition generateDeterministicFallbackIntent ::
  "intent_env \<Rightarrow> string \<Rightarrow> string \<Rightarrow> prompt_context \<Rightarrow> agent_intent" where
  "generateDeterministicFallbackIntent env runId oppId ctx =
     (let hard = (pc_decline_type ctx = Hard); cap = (3 \<le> pc_attempt_count ctx); r = fallback_rule ctx
      in \<lparr>in_id = ''intent_det_'' @ show_int (ie_now_ms env) @ ''_'' @ take 8 oppId, in_run_id = runId,
          in_opportunity_id = oppId,
          in_diagnosis = \<lparr>dg_failure_category = rl_category r, dg_root_cause = rl_cause r,
             dg_confidence = rl_confidence r,
             dg_severity = (if hard then ''CRITICAL'' else if cap then ''HIGH'' else ''MEDIUM''),
             dg_recoverability = rl_recoverability r\<rparr>,
          in_observations =
            [''Opportunity '' @ pc_id ctx @ '' ('' @ pc_amount_inr ctx @ '', decline: '' @
               show_decline (pc_decline_type ctx) @ '')'',
             ''Attempt count: '' @ show_int (pc_attempt_count ctx) @ '', reason: '' @ pc_reason_code ctx,
             ''Customer trust score: '' @ show_number (pc_trust_score ctx)],
          in_hypotheses =
            [if hard then ''Card stolen or reported fraud. Zero economic value in contacting customer.''
             else ''Payment recoverable via alternate payment link if capacity allows.''],
          in_candidate_actions = (if hard then [''ABSTAIN''] else [''WAIT'', ''SEND_PAYMENT_LINK'', ''ABSTAIN'']),
          in_signals = fallback_signals (ie_now env) ctx, in_plan = fallback_plan ctx,
          in_uncertainty = (if hard then ''LOW'' else ''MEDIUM''),
          in_tools =
            [\<lparr>tq_tool_name = ''get_gateway_state'', tq_params = JObj []\<rparr>,
             \<lparr>tq_tool_name = ''get_customer_history'', tq_params = JObj [(''customer_id'', JStr (pc_customer_id ctx))]\<rparr>],
          in_rationale = ''Deterministic policy evaluated '' @ pc_id ctx @ '' with '' @ rl_recoverability r @
            '' recoverability and selected preferred action '' @ quoted (rl_action r) @ ''.'',
          in_created_at = ie_now env\<rparr>)"

text \<open>\<^verbatim>\<open>JSON.stringify(intent)\<close>, the completion a fallback logs.\<close>

definition intent_json :: "agent_intent \<Rightarrow> json" where
  "intent_json i =
     (let d = in_diagnosis i; p = in_plan i
      in JObj
        [(''intent_id'', JStr (in_id i)), (''run_id'', JStr (in_run_id i)),
         (''opportunity_id'', JStr (in_opportunity_id i)),
         (''diagnosis'', JObj
            [(''failure_category'', JStr (dg_failure_category d)), (''root_cause'', JStr (dg_root_cause d)),
             (''confidence'', JNum (dg_confidence d)), (''severity'', JStr (dg_severity d)),
             (''recoverability_assessment'', JStr (dg_recoverability d))]),
         (''observations'', JArr (map JStr (in_observations i))),
         (''hypotheses'', JArr (map JStr (in_hypotheses i))),
         (''candidate_actions'', JArr (map JStr (in_candidate_actions i))),
         (''semantic_signals'', JArr (map (\<lambda>s. JObj
            [(''name'', JStr (si_name s)), (''value'', JNum (si_value s)),
             (''confidence'', JNum (si_confidence s)), (''evidence_reference'', JStr (si_evidence s)),
             (''timestamp'', JStr (si_timestamp s)), (''source'', JStr (si_source s))]) (in_signals i))),
         (''proposed_plan'', JObj
            [(''plan_version'', JNum (pp_version p)), (''goal'', JStr (pp_goal p)),
             (''steps'', JArr (map JStr (pp_steps p))),
             (''validity_assumptions'', JArr (map (\<lambda>a. JObj
                [(''id'', JStr (pa_id a)), (''parameter'', JStr (pa_parameter a)),
                 (''condition'', JStr (pa_condition a)), (''expected_value'', pa_expected a),
                 (''is_valid'', JBool (pa_is_valid a))]) (pp_assumptions p))),
             (''candidate_actions'', JArr (map JStr (pp_candidate_actions p))),
             (''preferred_action'', JStr (pp_preferred_action p)),
             (''estimated_duration_sec'', JNum (pp_duration_sec p))]),
         (''uncertainty'', JStr (in_uncertainty i)),
         (''requested_tools'', JArr (map (\<lambda>q. JObj
            [(''tool_name'', JStr (tq_tool_name q)), (''params'', tq_params q)]) (in_tools i))),
         (''rationale_summary'', JStr (in_rationale i)), (''created_at'', JStr (in_created_at i))])"

record router_result =
  rr_text :: string
  rr_model :: string
  rr_provider_name :: string
  rr_is_fallback :: bool
  rr_router_latency_ms :: int
  rr_tokens_used :: int

text \<open>The router raised, or answered (\<open>None\<close> for no result).\<close>

datatype router_outcome = Router_raised | Router_answered "router_result option"

record llm_env =
  ge_enabled :: bool
  ge_router :: router_outcome
  ge_prompt :: string
  ge_inv_id :: string
  ge_latency_ms :: int
  ge_sha :: "string \<Rightarrow> string"
  ge_intent :: intent_env

record generation =
  gn_intent :: agent_intent
  gn_provider :: string
  gn_model :: string
  gn_is_fallback :: bool
  gn_latency_ms :: int
  gn_tokens_used :: int

definition drop_suffix :: "string \<Rightarrow> string \<Rightarrow> string" where
  "drop_suffix p s = (if suffix p s then take (length s - length p) s else s)"

definition drop_newline :: "string \<Rightarrow> string" where
  "drop_newline s = (case s of c # cs \<Rightarrow> if c = CHR 0x0A then cs else s | [] \<Rightarrow> [])"

definition strip_fence :: "string \<Rightarrow> string" where
  "strip_fence text =
     (let t = trim text
      in if startsWith t ''```json'' then trim (drop_suffix ''```'' (drop_newline (drop 7 t)))
         else if startsWith t ''```'' then trim (drop_suffix ''```'' (drop_newline (drop 3 t)))
         else t)"

text \<open>The validated answer of the model, if there is one: a validation that raises is caught.\<close>

definition model_answer :: "llm_env \<Rightarrow> string \<Rightarrow> string \<Rightarrow> (agent_intent \<times> router_result) option" where
  "model_answer ge runId oppId =
     (if \<not> ge_enabled ge then None
      else case ge_router ge of
             Router_answered (Some r) \<Rightarrow>
               if rr_text r = [] then None
               else (case validateAgentIntent (ge_intent ge) (JStr (strip_fence (rr_text r))) runId oppId of
                       Some (Inr intent) \<Rightarrow> Some (intent, r)
                     | _ \<Rightarrow> None)
           | _ \<Rightarrow> None)"

definition fall_back ::
  "llm_env \<Rightarrow> string \<Rightarrow> string \<Rightarrow> prompt_context \<Rightarrow> agent_run list \<times> llm_row list \<Rightarrow>
   (db_error + generation) \<times> agent_run list \<times> llm_row list" where
  "fall_back ge runId oppId ctx db =
     (let intent = generateDeterministicFallbackIntent (ge_intent ge) runId oppId ctx
      in case logLLMInvocation (ge_sha ge) (ie_now (ge_intent ge))
           \<lparr>ll_id = ge_inv_id ge, ll_runId = runId, ll_model = ''deterministic_ctrl_policy'',
            ll_provider = ''Deterministic Rule Engine (Fallback)'', ll_prompt = ge_prompt ge,
            ll_completion = stringify (intent_json intent), ll_reasoning = [],
            ll_latencyMs = ge_latency_ms ge, ll_promptTokens = 0, ll_completionTokens = 0,
            ll_totalTokens = 0, ll_error = []\<rparr> db of
           (Inl e, db1) \<Rightarrow> (Inl e, db1)
         | (Inr _, db1) \<Rightarrow>
             (Inr \<lparr>gn_intent = intent, gn_provider = ''Deterministic Fallback'',
                   gn_model = ''deterministic_ctrl_policy'', gn_is_fallback = True,
                   gn_latency_ms = ge_latency_ms ge, gn_tokens_used = 0\<rparr>, db1))"

definition generateAgentIntent ::
  "llm_env \<Rightarrow> string \<Rightarrow> string \<Rightarrow> prompt_context \<Rightarrow> agent_run list \<times> llm_row list \<Rightarrow>
   (db_error + generation) \<times> agent_run list \<times> llm_row list" where
  "generateAgentIntent ge runId oppId ctx db =
     (case model_answer ge runId oppId of
        None \<Rightarrow> fall_back ge runId oppId ctx db
      | Some (intent, r) \<Rightarrow>
          (case logLLMInvocation (ge_sha ge) (ie_now (ge_intent ge))
              \<lparr>ll_id = ge_inv_id ge, ll_runId = runId, ll_model = rr_model r,
               ll_provider = rr_provider_name r, ll_prompt = ge_prompt ge, ll_completion = rr_text r,
               ll_reasoning = [], ll_latencyMs = rr_router_latency_ms r,
               ll_promptTokens = math_round (fmul (of_int (rr_tokens_used r)) (lit 4 1)),
               ll_completionTokens = math_round (fmul (of_int (rr_tokens_used r)) (lit 6 1)),
               ll_totalTokens = rr_tokens_used r, ll_error = []\<rparr> db of
             (Inl e, db1) \<Rightarrow> fall_back ge runId oppId ctx db1
           | (Inr _, db1) \<Rightarrow>
               (Inr \<lparr>gn_intent = intent, gn_provider = rr_provider_name r, gn_model = rr_model r,
                     gn_is_fallback = rr_is_fallback r, gn_latency_ms = rr_router_latency_ms r,
                     gn_tokens_used = rr_tokens_used r\<rparr>, db1)))"

section \<open>Properties\<close>

lemma those_Some: "those xs = Some ys \<longleftrightarrow> xs = map Some ys"
  by (induction xs arbitrary: ys) (auto split: option.splits)

lemma those_member: "those xs = Some ys \<Longrightarrow> y \<in> set ys \<Longrightarrow> Some y \<in> set xs"
  by (simp add: those_Some)

definition unit_interval :: "rat \<Rightarrow> bool" where
  "unit_interval x \<longleftrightarrow> 0 \<le> x \<and> x \<le> 1"

text \<open>What later steps rely on.\<close>

definition bounded_signal :: "signal \<Rightarrow> bool" where
  "bounded_signal s \<longleftrightarrow>
     si_name s \<in> set valid_signal_names \<and> unit_interval (si_value s) \<and> unit_interval (si_confidence s)"

definition bounded_intent :: "agent_intent \<Rightarrow> bool" where
  "bounded_intent i \<longleftrightarrow>
     (\<forall>s \<in> set (in_signals i). bounded_signal s) \<and> unit_interval (dg_confidence (in_diagnosis i)) \<and>
     set (in_candidate_actions i) \<subseteq> set valid_actions \<and>
     pp_preferred_action (in_plan i) \<in> set (in_candidate_actions i) \<and>
     pp_assumptions (in_plan i) \<noteq> []"

lemma unit_of_lit: "0 \<le> n \<Longrightarrow> n \<le> 10 ^ d \<Longrightarrow> unit_interval (lit n d)"
  by (simp add: unit_interval_def lit_nonneg lit_le_one)

lemma unit_or_unit: "unit_interval d \<Longrightarrow> unit_interval (unit_or d v)"
  by (auto simp: unit_or_def unit_interval_def clamp_def split: option.split json.split)

lemma unit_toFixed: "unit_interval x \<Longrightarrow> unit_interval (toFixed d x)"
  by (simp add: unit_interval_def toFixed_nonneg toFixed_le_one)

lemma read_signal_bounded:
  assumes "read_signals now v = Some sigs" and "s \<in> set sigs"
  shows "bounded_signal s"
proof -
  obtain sig name where "named_signal sig = Some name" and "read_signal now sig name = Some s"
    using those_member [OF assms [unfolded read_signals_def] ] by (auto simp: List.map_filter_def)
  then show ?thesis
    by (auto simp: read_signal_def named_signal_def bounded_signal_def unit_toFixed unit_or_unit unit_of_lit
        split: if_splits option.splits json.splits)
qed

lemma read_actions_valid: "read_actions v \<noteq> []" "set (read_actions v) \<subseteq> set valid_actions"
  by (auto simp: read_actions_def Let_def List.map_filter_def valid_actions_def split: json.splits if_splits)

lemma read_plan_sound:
  assumes "read_plan cs parsed = Some p" and "cs \<noteq> []"
  shows "pp_preferred_action p \<in> set cs \<and> pp_assumptions p \<noteq> [] \<and> pp_candidate_actions p = cs"
proof -
  have "read_assumptions v \<noteq> Some []" for v
    by (auto simp: read_assumptions_def Let_def)
  then show ?thesis using assms
    by (auto simp: read_plan_def Let_def split: option.splits json.splits if_splits)
qed

lemma read_intent_bounded:
  assumes "read_intent env runId oppId parsed = Some i"
  shows "bounded_intent i \<and> in_run_id i = runId \<and> in_opportunity_id i = oppId"
proof -
  let ?cs = "read_actions (json_member ''candidate_actions'' parsed)"
  obtain diag obs hyps sigs plan rat where
    parts: "read_diagnosis parsed = Some diag" "read_signals (ie_now env) (json_member ''semantic_signals'' parsed) = Some sigs"
      "read_plan ?cs parsed = Some plan"
    and i: "in_signals i = sigs" "in_diagnosis i = diag" "in_candidate_actions i = ?cs" "in_plan i = plan"
      "in_run_id i = runId" "in_opportunity_id i = oppId"
    using assms by (auto simp: read_intent_def Let_def split: option.splits)
  have "unit_interval (dg_confidence diag)"
    using parts(1) by (auto simp: read_diagnosis_def Let_def unit_or_unit unit_of_lit split: option.splits)
  then show ?thesis
    using read_signal_bounded [OF parts(2)] read_plan_sound [OF parts(3)] read_actions_valid
    by (auto simp: bounded_intent_def i)
qed

lemma fallback_bounded:
  "bounded_intent (generateDeterministicFallbackIntent env runId oppId ctx)"
proof -
  have "\<forall>s \<in> set (fallback_signals now ctx). bounded_signal s" for now
    by (simp add: fallback_signals_def Let_def bounded_signal_def valid_signal_names_def unit_of_lit)
  moreover have "unit_interval (rl_confidence (fallback_rule ctx))"
    by (simp add: fallback_rule_def Let_def unit_of_lit)
  moreover have "pp_preferred_action (fallback_plan ctx) \<in>
      set (if pc_decline_type ctx = Hard then [''ABSTAIN''] else [''WAIT'', ''SEND_PAYMENT_LINK'', ''ABSTAIN''])"
    by (simp add: fallback_plan_def fallback_rule_def Let_def)
  ultimately show ?thesis
    by (simp add: bounded_intent_def generateDeterministicFallbackIntent_def Let_def valid_actions_def
        fallback_plan_def)
qed

lemma fallback_ids:
  "in_run_id (generateDeterministicFallbackIntent env runId oppId ctx) = runId"
  "in_opportunity_id (generateDeterministicFallbackIntent env runId oppId ctx) = oppId"
  by (simp_all add: generateDeterministicFallbackIntent_def Let_def)

lemma insert_of_run_ok:
  assumes "runId \<noteq> []" and "ins rows = Inr rows'"
  shows "insert_of_run now runId oid ins (runs, rows) = (Inr (), with_run now runId oid runs, rows')"
  using assms by (auto simp: insert_of_run_def with_run_def run_for_outcome_def Let_def)

lemma logLLMInvocation_fresh:
  assumes "ll_runId p \<noteq> []" and "ll_id p \<notin> li_id ` set rows"
  shows "\<exists>runs' r. logLLMInvocation sha now p (runs, rows) = (Inr (), runs', rows @ [r])"
  unfolding logLLMInvocation_def insertLLMInvocation_def
  by (subst insert_of_run_ok) (use assms in \<open>auto simp: sql_insert_def\<close>)

lemma fall_back_result:
  assumes "runId \<noteq> []" and "ge_inv_id ge \<notin> li_id ` set rows"
  shows "\<exists>g runs' r. fall_back ge runId oppId ctx (runs, rows) = (Inr g, runs', rows @ [r]) \<and>
    gn_intent g = generateDeterministicFallbackIntent (ge_intent ge) runId oppId ctx"
proof -
  define p where "p = \<lparr>ll_id = ge_inv_id ge, ll_runId = runId, ll_model = ''deterministic_ctrl_policy'',
            ll_provider = ''Deterministic Rule Engine (Fallback)'', ll_prompt = ge_prompt ge,
            ll_completion = stringify (intent_json (generateDeterministicFallbackIntent (ge_intent ge) runId oppId ctx)),
            ll_reasoning = [], ll_latencyMs = ge_latency_ms ge, ll_promptTokens = 0, ll_completionTokens = 0,
            ll_totalTokens = 0, ll_error = []\<rparr>"
  have "ll_runId p \<noteq> []" "ll_id p \<notin> li_id ` set rows"
    using assms by (simp_all add: p_def)
  then obtain runs' r where "logLLMInvocation (ge_sha ge) (ie_now (ge_intent ge)) p (runs, rows) = (Inr (), runs', rows @ [r])"
    using logLLMInvocation_fresh by blast
  then show ?thesis by (simp add: fall_back_def Let_def p_def)
qed

lemma model_answer_valid:
  assumes "model_answer ge runId oppId = Some (intent, r)"
  shows "bounded_intent intent \<and> in_run_id intent = runId \<and> in_opportunity_id intent = oppId"
proof -
  obtain answer where "validateAgentIntent (ge_intent ge) (JStr answer) runId oppId = Some (Inr intent)"
    using assms by (auto simp: model_answer_def split: if_splits router_outcome.splits option.splits sum.splits)
  then obtain parsed where "read_intent (ge_intent ge) runId oppId parsed = Some intent"
    by (auto simp: validateAgentIntent_def split: sum.splits if_splits)
  then show ?thesis by (rule read_intent_bounded)
qed

lemma generate_result:
  assumes "runId \<noteq> []" and "ge_inv_id ge \<notin> li_id ` set rows"
  shows "\<exists>g runs' r. generateAgentIntent ge runId oppId ctx (runs, rows) = (Inr g, runs', rows @ [r]) \<and>
    gn_intent g = (case model_answer ge runId oppId of
        Some (i, _) \<Rightarrow> i | None \<Rightarrow> generateDeterministicFallbackIntent (ge_intent ge) runId oppId ctx)"
proof (cases "model_answer ge runId oppId")
  case None
  then show ?thesis
    using fall_back_result [OF assms, of oppId ctx runs] by (simp add: generateAgentIntent_def)
next
  case (Some x)
  obtain intent r0 where x: "x = (intent, r0)" by (cases x)
  define p where "p = \<lparr>ll_id = ge_inv_id ge, ll_runId = runId, ll_model = rr_model r0,
               ll_provider = rr_provider_name r0, ll_prompt = ge_prompt ge, ll_completion = rr_text r0,
               ll_reasoning = [], ll_latencyMs = rr_router_latency_ms r0,
               ll_promptTokens = math_round (fmul (of_int (rr_tokens_used r0)) (lit 4 1)),
               ll_completionTokens = math_round (fmul (of_int (rr_tokens_used r0)) (lit 6 1)),
               ll_totalTokens = rr_tokens_used r0, ll_error = []\<rparr>"
  have "ll_runId p \<noteq> []" "ll_id p \<notin> li_id ` set rows"
    using assms by (simp_all add: p_def)
  then obtain runs' r where "logLLMInvocation (ge_sha ge) (ie_now (ge_intent ge)) p (runs, rows) = (Inr (), runs', rows @ [r])"
    using logLLMInvocation_fresh by blast
  then show ?thesis by (simp add: generateAgentIntent_def Some x p_def)
qed

text \<open>
  C22. Whatever the language model answers, and whether it answers at all, the provider returns an
  intent for the same run and opportunity that later steps can rely on: its signals have
  recognised names with values and confidences in the unit interval, its preferred action is one
  of its valid candidate actions, and exactly one row is logged.  Without a valid answer it is
  the intent of the rules.
\<close>

theorem model_answer_bounded:
  assumes "runId \<noteq> []" and "ge_inv_id ge \<notin> li_id ` set rows"
  shows "\<exists>g runs' r. generateAgentIntent ge runId oppId ctx (runs, rows) = (Inr g, runs', rows @ [r]) \<and>
     bounded_intent (gn_intent g) \<and> in_run_id (gn_intent g) = runId \<and> in_opportunity_id (gn_intent g) = oppId \<and>
     (model_answer ge runId oppId = None \<longrightarrow>
        gn_intent g = generateDeterministicFallbackIntent (ge_intent ge) runId oppId ctx)"
proof (cases "model_answer ge runId oppId")
  case None
  with generate_result [OF assms, of oppId ctx runs] show ?thesis
    using fallback_bounded fallback_ids by fastforce
next
  case (Some x)
  obtain intent r0 where x: "x = (intent, r0)" by (cases x)
  with generate_result [OF assms, of oppId ctx runs] Some show ?thesis
    using model_answer_valid [of ge runId oppId intent r0] by fastforce
qed

definition sample_llm :: llm_env where
  "sample_llm = \<lparr>ge_enabled = True,
     ge_router = Router_answered (Some \<lparr>rr_text = ''```json{}```'', rr_model = ''m'', rr_provider_name = ''p'',
       rr_is_fallback = False, rr_router_latency_ms = 12, rr_tokens_used = 100\<rparr>),
     ge_prompt = [], ge_inv_id = ''inv'', ge_latency_ms = 20, ge_sha = id,
     ge_intent = \<lparr>ie_parse = (\<lambda>s. if s = ''{}''
         then Inr (JObj [(''semantic_signals'', JArr [JObj [(''name'', JStr ''fatigue''), (''value'', JNum 7)]])])
         else Inl ''unexpected token''), ie_now_ms = 1, ie_now = ''t''\<rparr>\<rparr>"

text \<open>A fenced answer with a signal far out of range: it is read, and clamped.\<close>

theorem model_answer_bounded_witness:
  "map_option (\<lambda>x. map (\<lambda>s. (si_name s, si_value s)) (in_signals (fst x))) (model_answer sample_llm ''run'' ''opp_1'')
     = Some [(''fatigue'', 1)] \<and>
   (\<forall>ctx. \<exists>g runs' r. generateAgentIntent sample_llm ''run'' ''opp_1'' ctx ([], []) = (Inr g, runs', [r]) \<and>
      bounded_intent (gn_intent g))"
proof -
  have "strip_fence ''```json{}```'' = ''{}''" by code_simp
  moreover have "toFixed 4 1 = 1" by code_simp
  moreover have "read_actions None = [''WAIT'', ''SEND_PAYMENT_LINK'']" by code_simp
  ultimately have "map_option (\<lambda>x. map (\<lambda>s. (si_name s, si_value s)) (in_signals (fst x)))
      (model_answer sample_llm ''run'' ''opp_1'') = Some [(''fatigue'', 1)]"
    by (simp add: model_answer_def sample_llm_def validateAgentIntent_def truthy_json_def is_object_def
        read_intent_def read_diagnosis_def read_plan_def sub_object_def json_member_def text_or_def texts_def
        elements_def read_signals_def List.map_filter_def named_signal_def valid_signal_names_def read_signal_def
        unit_or_def clamp_def is_array_def read_assumptions_def Let_def)
  then show ?thesis
    using model_answer_bounded [of "''run''" sample_llm "[]" "''opp_1''"] by fastforce
qed

text \<open>The validator raises on an object that cannot be converted to a string; the provider
  catches it and uses the rules.\<close>

theorem hostile_answer_raises:
  "validateAgentIntent env (JObj [(''rationale_summary'', JObj [(''toString'', JNum 1)])]) runId oppId = None"
proof -
  have "text_or n d (Some (JObj [(''toString'', JNum 1)])) = None" for n d
    by (simp add: text_or_def truthy_json_def)
  then show ?thesis
    by (simp add: validateAgentIntent_def truthy_json_def is_object_def read_intent_def json_member_def Let_def
        split: option.split)
qed

end
