(* ===== verification/Reasoning.thy ===== *)
theory Reasoning
  imports Intent
begin

text \<open>
  One reasoning step of the agent loop (\<^verbatim>\<open>src/agents/reasoning_engine.ts\<close>): the forced decision
  after the last iteration, the intent of the provider, and the rules behind it.  The result is
  the left side when the step raises.
\<close>

section \<open>Contexts and outputs\<close>

datatype proposal_kind = RA_ACT | RA_WAIT | RA_ABSTAIN | RA_INVESTIGATE | RA_HUMAN_REVIEW

fun show_proposal :: "proposal_kind \<Rightarrow> string" where
  "show_proposal RA_ACT = ''ACT''"
| "show_proposal RA_WAIT = ''WAIT''"
| "show_proposal RA_ABSTAIN = ''ABSTAIN''"
| "show_proposal RA_INVESTIGATE = ''INVESTIGATE''"
| "show_proposal RA_HUMAN_REVIEW = ''HUMAN_REVIEW''"

record tool_choice =
  ch_tool_name :: string
  ch_params :: json
  ch_rationale :: string

record reasoning_context =
  rx_opportunity :: opportunity
  rx_score :: "score option"
  rx_trust_score :: rat
  rx_gateway_health :: rat
  rx_prior :: "string list"
  rx_tool_results :: "(string \<times> string) list"
  rx_memories :: "string list"
  rx_iteration :: nat
  rx_max_iterations :: nat

record reasoning_output =
  ro_step_id :: string
  ro_thought :: string
  ro_observation :: string
  ro_tool_choice :: "tool_choice option"
  ro_should_continue :: bool
  ro_confidence :: rat
  ro_signals :: "signal list"
  ro_action :: "proposal_kind option"
  ro_chain :: "string list"
  ro_created_at :: string

text \<open>The tables a step writes.\<close>

record mission_log =
  ml_runs :: "agent_run list"
  ml_steps :: "step_row list"
  ml_llm :: "llm_row list"

record reason_env =
  re_time :: "string \<Rightarrow> int option"
  re_step_id :: string
  re_llm :: llm_env

definition MAX_REASONING_STEPS :: nat where "MAX_REASONING_STEPS = 3"

definition re_now :: "reason_env \<Rightarrow> string" where
  "re_now env = ie_now (ge_intent (re_llm env))"

section \<open>The forced decision\<close>

text \<open>\<^verbatim>\<open>x.toFixed(2)\<close> of a number that is not negative.\<close>

definition show_fixed2 :: "rat \<Rightarrow> string" where
  "show_fixed2 x = show_rupees \<lfloor>x * 100 + 1 / 2\<rfloor>"

definition forced_choice :: "reasoning_context \<Rightarrow> proposal_kind \<times> rat" where
  "forced_choice cx =
     (if o_decline_type (rx_opportunity cx) = Hard then (RA_ABSTAIN, lit 95 2)
      else case rx_score cx of
             None \<Rightarrow> (RA_WAIT, lit 60 2)
           | Some sc \<Rightarrow>
               if 0 < s_expected_incremental_value_paise sc
               then (RA_ACT, min (lit 90 2)
                       (fadd (lit 60 2) (fmul (of_nat (length (rx_tool_results cx))) (lit 10 2))))
               else (RA_ABSTAIN, lit 85 2))"

definition forceDecision :: "reason_env \<Rightarrow> reasoning_context \<Rightarrow> reasoning_output" where
  "forceDecision env cx =
     (case forced_choice cx of (act, conf) \<Rightarrow>
        \<lparr>ro_step_id = re_step_id env,
         ro_thought = ''Reasoning budget exhausted after '' @ show_nat (rx_iteration cx) @
           '' steps. Forcing decision: '' @ show_proposal act @ '' (accumulated confidence: '' @
           show_fixed2 conf @ '').'',
         ro_observation = or_str (join_with ''; '' (rx_prior cx)) ''No additional observations.'',
         ro_tool_choice = None, ro_should_continue = False, ro_confidence = conf, ro_signals = [],
         ro_action = Some act,
         ro_chain = [''FORCED DECISION at step '' @ show_nat (rx_iteration cx + 1) @ '' (max reached)'',
           ''Prior observations: '' @ show_nat (length (rx_prior cx)),
           ''Tool results: '' @ show_nat (length (rx_tool_results cx)), ''Final action: '' @ show_proposal act],
         ro_created_at = re_now env\<rparr>)"

section \<open>The rules\<close>

record rule_verdict =
  rv_thought :: string
  rv_action :: proposal_kind
  rv_confidence :: rat
  rv_signals :: "signal list"

definition reasoning_rule :: "string \<Rightarrow> opportunity \<Rightarrow> rule_verdict" where
  "reasoning_rule now opp =
     (let reason = toLowerCase (o_reason_code opp);
          sig = (\<lambda>name v c. [\<lparr>si_name = name, si_value = v, si_confidence = c,
                   si_evidence = ''Reason: '' @ reason, si_timestamp = now,
                   si_source = ''deterministic_reasoning_engine''\<rparr>])
      in if o_decline_type opp = Hard
         then \<lparr>rv_thought = ''Hard decline detected (stolen/lost card). Zero incremental value. ABSTAIN immediately.'',
               rv_action = RA_ABSTAIN, rv_confidence = lit 95 2, rv_signals = []\<rparr>
         else if 3 \<le> o_attempt_count opp
         then \<lparr>rv_thought = ''Retry cap reached ('' @ show_int (o_attempt_count opp) @
                 ''/3). Customer fatigue is high. ABSTAIN to preserve goodwill.'',
               rv_action = RA_ABSTAIN, rv_confidence = lit 90 2, rv_signals = []\<rparr>
         else if includes_str reason ''insufficient_funds''
         then \<lparr>rv_thought = ''Insufficient funds - customer may have balance soon. ACT with payment link.'',
               rv_action = RA_ACT, rv_confidence = lit 80 2,
               rv_signals = sig ''customer_liquidity'' (lit 70 2) (lit 75 2)\<rparr>
         else if includes_str reason ''timeout'' \<or> includes_str reason ''gateway''
         then \<lparr>rv_thought = ''Gateway timeout - transient failure likely to self-resolve. WAIT for natural recovery.'',
               rv_action = RA_WAIT, rv_confidence = lit 85 2,
               rv_signals = sig ''transient_failure'' (lit 85 2) (lit 90 2)\<rparr>
         else \<lparr>rv_thought = ''Soft decline ('' @ reason @ ''). Moderate recoverability. ACT if within capacity.'',
               rv_action = RA_ACT, rv_confidence = lit 70 2, rv_signals = []\<rparr>)"

definition deterministicReason :: "reason_env \<Rightarrow> reasoning_context \<Rightarrow> reasoning_output" where
  "deterministicReason env cx =
     (let opp = rx_opportunity cx; v = reasoning_rule (re_now env) opp;
          look = (rx_iteration cx = 0 \<and> o_decline_type opp \<noteq> Hard \<and> o_attempt_count opp < 3 \<and>
                  rv_confidence v < lit 85 2)
      in \<lparr>ro_step_id = re_step_id env, ro_thought = rv_thought v,
          ro_observation = ''Opportunity '' @ o_id opp @ '': '' @ show_decline (o_decline_type opp) @
            '' decline, reason='' @ o_reason_code opp @ '', attempt='' @ show_int (o_attempt_count opp),
          ro_tool_choice = (if look then Some
             \<lparr>ch_tool_name = ''get_customer_history'',
              ch_params = JObj [(''customer_id'', JStr (o_customer_id opp))],
              ch_rationale = ''Gathering customer payment history to refine recovery probability estimate''\<rparr>
             else None),
          ro_should_continue = look, ro_confidence = rv_confidence v, ro_signals = rv_signals v,
          ro_action = (if look then None else Some (rv_action v)),
          ro_chain = [''Step '' @ show_nat (rx_iteration cx + 1) @ '': Deterministic analysis of '' @ o_id opp,
            ''Decline: '' @ show_decline (o_decline_type opp) @ '', Reason: '' @ o_reason_code opp @
              '', Attempts: '' @ show_int (o_attempt_count opp),
            ''Decision: '' @ show_proposal (rv_action v) @ '' (confidence: '' @ show_number (rv_confidence v) @ '')''],
          ro_created_at = re_now env\<rparr>)"

section \<open>The step\<close>

definition numbered :: "string list \<Rightarrow> string" where
  "numbered xs = join_with [CHR 0x0A] (map (\<lambda>(i, x). ''  '' @ show_nat (i + 1) @ ''. '' @ x) (zip [0..<length xs] xs))"

definition prompt_section :: "string \<Rightarrow> string list \<Rightarrow> string list" where
  "prompt_section title xs = (if xs = [] then [] else [[CHR 0x0A] @ title @ [CHR 0x0A] @ numbered xs])"

definition buildIterativePrompt :: "reasoning_context \<Rightarrow> string" where
  "buildIterativePrompt cx =
     (let opp = rx_opportunity cx
      in join_with [CHR 0x0A]
        ([''Iteration '' @ show_nat (rx_iteration cx + 1) @ ''/'' @ show_nat (rx_max_iterations cx) @
            '' of autonomous investigation.'',
          ''Opportunity: '' @ o_id opp @ '' ('' @ show_decline (o_decline_type opp) @ '' decline, '' @
            o_reason_code opp @ '').''] @
         prompt_section ''Prior observations:'' (rx_prior cx) @
         prompt_section ''Tool investigation results:''
           (map (\<lambda>(n, r). ''['' @ n @ '']: '' @ r) (rx_tool_results cx)) @
         prompt_section ''Relevant episodic memories:'' (rx_memories cx) @
         [[CHR 0x0A] @ ''Determine: Should you investigate further (select a tool) or propose a final action (ACT/WAIT/ABSTAIN)?'']))"

definition mapPreferredAction :: "string \<Rightarrow> proposal_kind" where
  "mapPreferredAction action =
     (let upper = toUpperCase action
      in if upper = ''ABSTAIN'' \<or> upper = ''MANUAL_REVIEW'' then RA_ABSTAIN
         else if upper = ''WAIT'' \<or> upper = ''DEFER_RETRY'' then RA_WAIT
         else if upper = ''ACT'' \<or> upper = ''SEND_PAYMENT_LINK'' then RA_ACT
         else if upper = ''INVESTIGATE'' then RA_INVESTIGATE
         else if upper = ''HUMAN_REVIEW'' then RA_HUMAN_REVIEW
         else RA_WAIT)"

definition choose_tool :: "nat \<Rightarrow> agent_intent \<Rightarrow> tool_choice option" where
  "choose_tool iteration intent =
     (case in_tools intent of
        q # _ \<Rightarrow> if iteration < MAX_REASONING_STEPS - 1
          then Some \<lparr>ch_tool_name = tq_tool_name q, ch_params = tq_params q,
                     ch_rationale = ''LLM reasoning step '' @ show_nat (iteration + 1) @ '': investigating '' @
                       tq_tool_name q\<rparr>
          else None
      | [] \<Rightarrow> None)"

definition intent_output :: "reason_env \<Rightarrow> reasoning_context \<Rightarrow> agent_intent \<Rightarrow> reasoning_output" where
  "intent_output env cx intent =
     (let tool = choose_tool (rx_iteration cx) intent;
          go_on = (tool \<noteq> None \<and> rx_iteration cx < MAX_REASONING_STEPS - 1);
          d = in_diagnosis intent; hs = in_hypotheses intent
      in \<lparr>ro_step_id = re_step_id env, ro_thought = in_rationale intent,
          ro_observation = join_with ''; '' (in_observations intent), ro_tool_choice = tool,
          ro_should_continue = go_on, ro_confidence = dg_confidence d, ro_signals = in_signals intent,
          ro_action = (if go_on then None else Some (mapPreferredAction (pp_preferred_action (in_plan intent)))),
          ro_chain = [''Step '' @ show_nat (rx_iteration cx + 1) @ '': '' @ dg_root_cause d,
             ''Severity: '' @ dg_severity d @ '', Recoverability: '' @ dg_recoverability d] @
             map (\<lambda>(i, h). ''Hypothesis '' @ show_nat (i + 1) @ '': '' @ h) (zip [0..<length hs] hs),
          ro_created_at = re_now env\<rparr>)"

definition output_log :: "string \<Rightarrow> reasoning_context \<Rightarrow> reasoning_output \<Rightarrow> step_log" where
  "output_log runId cx out =
     \<lparr>sl_runId = runId, sl_stepNumber = 200 + int (rx_iteration cx), sl_state = A_DIAGNOSE,
      sl_observation = ro_observation out, sl_thought = ro_thought out,
      sl_actionType = (if ro_should_continue out then ''CONTINUE_INVESTIGATION'' else ''PROPOSE_ACTION''),
      sl_actionPayload = Some
        [(''tool_choice'', case ro_tool_choice out of None \<Rightarrow> JNull
            | Some c \<Rightarrow> if ch_tool_name c = [] then JNull else JStr (ch_tool_name c)),
         (''proposed_action'', case ro_action out of None \<Rightarrow> JNull | Some a \<Rightarrow> JStr (show_proposal a)),
         (''confidence'', JNum (ro_confidence out))],
      sl_toolName = [], sl_toolInput = None, sl_toolOutput = None\<rparr>"

definition reasoning_goal :: "opportunity \<Rightarrow> string" where
  "reasoning_goal opp = ''Autonomously investigate and decide recovery action for opportunity '' @ o_id opp"

text \<open>The context of the prompt is built outside the \<^verbatim>\<open>try\<close>; what raises inside it is caught,
  and the rules decide.\<close>

definition reason_step ::
  "reason_env \<Rightarrow> string \<Rightarrow> reasoning_context \<Rightarrow> mission_log \<Rightarrow> (string + reasoning_output) \<times> mission_log" where
  "reason_step env runId cx ml =
     (let opp = rx_opportunity cx
      in if MAX_REASONING_STEPS \<le> rx_iteration cx then (Inr (forceDecision env cx), ml)
         else case buildContext (re_time env)
                (reasoning_goal opp) opp None (rx_score cx)
                (Some (rx_gateway_health cx)) [] (re_now env) of
           Inl msg \<Rightarrow> (Inl msg, ml)
         | Inr ctx \<Rightarrow>
            (case generateAgentIntent (re_llm env) runId (o_id opp)
                    (ctx\<lparr>pc_goal := buildIterativePrompt cx\<rparr>) (ml_runs ml, ml_llm ml) of
               (Inl _, runs, llm) \<Rightarrow>
                 (Inr (deterministicReason env cx), ml\<lparr>ml_runs := runs, ml_llm := llm\<rparr>)
             | (Inr g, runs, llm) \<Rightarrow>
                 let out = intent_output env cx (gn_intent g)
                 in (case logStep (re_now env) (output_log runId cx out) (runs, ml_steps ml) of
                       (Inl _, runs2, steps) \<Rightarrow>
                         (Inr (deterministicReason env cx), ml\<lparr>ml_runs := runs2, ml_llm := llm, ml_steps := steps\<rparr>)
                     | (Inr _, runs2, steps) \<Rightarrow>
                         (Inr out, ml\<lparr>ml_runs := runs2, ml_llm := llm, ml_steps := steps\<rparr>))))"

section \<open>Properties\<close>

lemma generate_bounded:
  assumes "generateAgentIntent ge runId oppId ctx db = (Inr g, db')"
  shows "bounded_intent (gn_intent g)"
proof -
  have fb: "bounded_intent (gn_intent g)" if "fall_back ge runId oppId ctx db0 = (Inr g, db1)" for db0 db1
    using that fallback_bounded by (auto simp: fall_back_def Let_def split: prod.splits sum.splits)
  show ?thesis
    using assms fb model_answer_valid [of ge runId oppId]
    by (auto simp: generateAgentIntent_def split: option.splits prod.splits sum.splits)
qed

lemma reason_step_cases:
  assumes "reason_step env runId cx ml = (Inr out, ml')"
  shows "MAX_REASONING_STEPS \<le> rx_iteration cx \<and> out = forceDecision env cx \<or>
    rx_iteration cx < MAX_REASONING_STEPS \<and>
      (out = deterministicReason env cx \<or> (\<exists>i. out = intent_output env cx i \<and> bounded_intent i))"
proof (cases "MAX_REASONING_STEPS \<le> rx_iteration cx")
  case True
  then show ?thesis using assms by (simp add: reason_step_def Let_def)
next
  case False
  obtain ctx where ctx: "buildContext (re_time env)
      (reasoning_goal (rx_opportunity cx))
      (rx_opportunity cx) None (rx_score cx) (Some (rx_gateway_health cx)) [] (re_now env) = Inr ctx"
    using assms False by (auto simp: reason_step_def Let_def split: sum.splits)
  obtain g runs llm where g: "generateAgentIntent (re_llm env) runId (o_id (rx_opportunity cx))
      (ctx\<lparr>pc_goal := buildIterativePrompt cx\<rparr>) (ml_runs ml, ml_llm ml) = (g, runs, llm)"
    using prod_cases3 by blast
  show ?thesis
  proof (cases g)
    case (Inl e)
    then show ?thesis using assms False by (simp add: reason_step_def Let_def ctx g)
  next
    case (Inr g')
    obtain r runs2 steps where "logStep (re_now env) (output_log runId cx (intent_output env cx (gn_intent g')))
        (runs, ml_steps ml) = (r, runs2, steps)"
      using prod_cases3 by blast
    then have "out = deterministicReason env cx \<or> out = intent_output env cx (gn_intent g')"
      using assms False by (cases r) (simp_all add: reason_step_def Let_def ctx g Inr)
    then show ?thesis using False generate_bounded g Inr by auto
  qed
qed

lemma rule_bounded:
  "unit_interval (rv_confidence (reasoning_rule now opp)) \<and>
   (\<forall>s \<in> set (rv_signals (reasoning_rule now opp)). bounded_signal s)"
  by (simp add: reasoning_rule_def Let_def unit_of_lit bounded_signal_def valid_signal_names_def)

lemma unit_min: "unit_interval a \<Longrightarrow> 0 \<le> b \<Longrightarrow> unit_interval (min a b)"
  by (auto simp: unit_interval_def min_def)

lemma forced_bounded: "unit_interval (snd (forced_choice cx))"
proof -
  have "0 \<le> fadd (lit 60 2) (fmul (of_nat n) (lit 10 2))" for n
    by (intro fadd_nonneg fmul_nonneg lit_nonneg) simp_all
  then show ?thesis
    using unit_min [OF unit_of_lit [of 90 2]]
    by (simp add: forced_choice_def unit_of_lit split: option.split)
qed

text \<open>A tool the model asks for in one of the first two steps is chosen.\<close>

lemma answered_goes_on:
  assumes "model_answer (re_llm env) runId (o_id (rx_opportunity cx)) = Some (intent, r)" and "in_tools intent \<noteq> []"
    and "runId \<noteq> []" and "ge_inv_id (re_llm env) \<notin> li_id ` set (ml_llm ml)" and "rx_iteration cx < 2"
    and "\<not> later_than (re_time env (o_created_at (rx_opportunity cx))) (re_time env (re_now env))"
  shows "\<exists>ml'. reason_step env runId cx ml = (Inr (intent_output env cx intent), ml') \<and>
    ro_should_continue (intent_output env cx intent)"
proof -
  obtain ctx where ctx: "buildContext (re_time env) (reasoning_goal (rx_opportunity cx)) (rx_opportunity cx) None
      (rx_score cx) (Some (rx_gateway_health cx)) [] (re_now env) = Inr ctx"
    using assms(6) by (simp add: buildContext_def)
  obtain g runs r' where g: "generateAgentIntent (re_llm env) runId (o_id (rx_opportunity cx))
      (ctx\<lparr>pc_goal := buildIterativePrompt cx\<rparr>) (ml_runs ml, ml_llm ml) = (Inr g, runs, ml_llm ml @ [r'])"
      "gn_intent g = intent"
    using generate_result [OF assms(3,4)] assms(1) by fastforce
  have "sl_runId (output_log runId cx out) = runId" for out by (simp add: output_log_def)
  then obtain runs2 steps where l: "logStep (re_now env) (output_log runId cx (intent_output env cx intent))
      (runs, ml_steps ml) = (Inr (), runs2, steps)"
    using assms(3) by (simp add: logStep_def insertAgentStep_def insert_of_run_ok)
  have "reason_step env runId cx ml = (Inr (intent_output env cx intent),
      ml\<lparr>ml_runs := runs2, ml_llm := ml_llm ml @ [r'], ml_steps := steps\<rparr>)"
    using assms(5) by (simp add: reason_step_def Let_def MAX_REASONING_STEPS_def ctx g l)
  moreover have "choose_tool (rx_iteration cx) intent \<noteq> None"
    using assms(2,5) by (simp add: choose_tool_def MAX_REASONING_STEPS_def split: list.split)
  then have "ro_should_continue (intent_output env cx intent)"
    using assms(5) by (auto simp: intent_output_def Let_def MAX_REASONING_STEPS_def)
  ultimately show ?thesis by simp
qed

text \<open>
  A reasoning step either asks for one tool and goes on, or proposes an action and stops; from
  the third iteration on it always stops; its confidence and the signals it contributes are in
  the unit interval, whatever the model answered.
\<close>

theorem reasoning_step_sound:
  assumes "reason_step env runId cx ml = (Inr out, ml')"
  shows "(ro_should_continue out \<longleftrightarrow> ro_tool_choice out \<noteq> None) \<and>
     (ro_should_continue out \<longleftrightarrow> ro_action out = None) \<and>
     (ro_should_continue out \<longrightarrow> rx_iteration cx < 2) \<and>
     unit_interval (ro_confidence out) \<and> (\<forall>s \<in> set (ro_signals out). bounded_signal s)"
proof -
  have stop: "choose_tool n i = None" if "\<not> n < 2" for n i
    using that by (simp add: choose_tool_def MAX_REASONING_STEPS_def split: list.split)
  from reason_step_cases [OF assms] consider
      "out = forceDecision env cx" | "out = deterministicReason env cx"
    | i where "out = intent_output env cx i" "bounded_intent i" by blast
  then show ?thesis
  proof cases
    case 1
    then show ?thesis using forced_bounded [of cx] by (cases "forced_choice cx") (simp add: forceDecision_def)
  next
    case 2
    then show ?thesis using rule_bounded by (simp add: deterministicReason_def Let_def)
  next
    case 3
    then show ?thesis
      using stop by (auto simp: intent_output_def Let_def bounded_intent_def MAX_REASONING_STEPS_def)
  qed
qed

end
