(* ===== verification/Specialists.thy ===== *)
theory Specialists
  imports Intent
begin

text \<open>
  The specialists that prepare a mission: the perception agent
  (\<^verbatim>\<open>src/agents/specialists/perception_agent.ts\<close>), which classifies a failure and annotates the
  opportunity through the tools of the registry, and the drafts of the outreach agent
  (\<^verbatim>\<open>src/agents/specialists/outreach_agent.ts\<close>).  The outcome of a tool's handler and the time
  of a call are parameters; the messages tailored to a checkout page are not modelled.
\<close>

section \<open>Decline codes\<close>

record code_translation =
  ct_normalized :: string
  ct_is_hard :: bool
  ct_category :: string

definition translateBankDeclineCode :: "string \<Rightarrow> code_translation" where
  "translateBankDeclineCode rawCode =
     (let code = trim (toUpperCase rawCode);
          res = (\<lambda>n h c. \<lparr>ct_normalized = n, ct_is_hard = h, ct_category = c\<rparr>)
      in if code \<in> {''DECLINE_05'', ''DECLINE_51'', ''ERR_BAL_51'', ''INSUFFICIENT_FUNDS''}
         then res ''INSUFFICIENT_FUNDS'' False ''INSUFFICIENT_FUNDS''
         else if code \<in> {''DECLINE_91'', ''ERR_AUTH_99'', ''GATEWAY_TIMEOUT'', ''NETWORK_ERROR''}
         then res ''GATEWAY_ERROR'' False ''NETWORK_LATENCY''
         else if code \<in> {''ERR_CARD_43'', ''STOLEN_CARD'', ''LOST_CARD''}
         then res ''STOLEN_CARD'' True ''SECURITY_STOP''
         else if code \<in> {''CARD_EXPIRED'', ''EXPIRED_CARD''} then res ''CARD_EXPIRED'' False ''UNKNOWN''
         else if code \<in> {''USER_CANCELLED'', ''OTP_EXPIRED''} then res ''USER_DROPPED'' False ''USER_ABORT''
         else res (or_str code ''UNKNOWN_ERROR'') False ''UNKNOWN'')"

section \<open>Time of day and of month\<close>

text \<open>\<^verbatim>\<open>getUTCDate\<close>, \<^verbatim>\<open>getUTCHours\<close> and \<^verbatim>\<open>getUTCMinutes\<close> of a time in milliseconds: the day of the month
  in the proleptic Gregorian calendar, by eras of 400 years that start in March.\<close>

definition day_of_month :: "int \<Rightarrow> int" where
  "day_of_month ms =
     (let z = ms div 86400000 + 719468; doe = z mod 146097;
          yoe = (doe - doe div 1460 + doe div 36524 - doe div 146096) div 365;
          doy = doe - (365 * yoe + yoe div 4 - yoe div 100); mp = (5 * doy + 2) div 153
      in doy - (153 * mp + 2) div 5 + 1)"

definition hour_of :: "int \<Rightarrow> int" where "hour_of ms = ms div 3600000 mod 24"
definition minute_of :: "int \<Rightarrow> int" where "minute_of ms = ms div 60000 mod 60"

record temporal_signals =
  tp_salary_window :: bool
  tp_maintenance_window :: bool
  tp_liquidity_multiplier :: rat

text \<open>\<open>None\<close> is an invalid date, with which every comparison is false; the reading of an empty time
  stamp, for which the source takes the current time, is left to the function that reads it.\<close>

definition extractTemporalSignals :: "int option \<Rightarrow> temporal_signals" where
  "extractTemporalSignals time =
     (let ist = map_option (\<lambda>t. t + 19800000) time;
          salary = (case ist of None \<Rightarrow> False | Some t \<Rightarrow> 28 \<le> day_of_month t \<or> day_of_month t \<le> 5);
          maintenance = (case ist of None \<Rightarrow> False
            | Some t \<Rightarrow> hour_of t = 23 \<and> 30 \<le> minute_of t \<or> hour_of t = 0 \<or> hour_of t = 1 \<or>
                        hour_of t = 2 \<and> minute_of t \<le> 30)
      in \<lparr>tp_salary_window = salary, tp_maintenance_window = maintenance,
          tp_liquidity_multiplier = (if salary then 5 / 4 else lit 90 2)\<rparr>)"

section \<open>Annotations through the registry\<close>

record call_env =
  ce_callId :: string
  ce_start_ms :: int
  ce_clock :: gate_clock
  ce_end_ms :: int
  ce_kill :: kill_switches
  ce_handler :: handler_outcome

definition call_of :: "call_env \<Rightarrow> string \<Rightarrow> string \<Rightarrow> agent_name \<Rightarrow> payload \<Rightarrow> agent_env option \<Rightarrow> tool_call" where
  "call_of ce toolId runId agent payload env =
     \<lparr>cl_toolId = toolId, cl_runId = runId, cl_agentName = agent, cl_inputPayload = payload,
      cl_environment = env, cl_callId = ce_callId ce, cl_start_ms = ce_start_ms ce,
      cl_clock = ce_clock ce, cl_end_ms = ce_end_ms ce, cl_kill = ce_kill ce, cl_handler = ce_handler ce\<rparr>"

record registry_env =
  rg_sha :: "string \<Rightarrow> string"
  rg_show_error :: "db_error \<Rightarrow> string"
  rg_tools :: "tool_def list"

text \<open>A call without a budget and a loop guard, as the specialists make them.\<close>

definition plain_call :: "registry_env \<Rightarrow> tool_call \<Rightarrow> agent_db \<Rightarrow> (db_error + tool_result) \<times> agent_db" where
  "plain_call rg c db =
     (case executeTool (rg_sha rg) (rg_show_error rg) (rg_tools rg) c \<lparr>ts_db = db, ts_budget = None, ts_guard = None\<rparr> of
        (r, st) \<Rightarrow> (r, ts_db st))"

record annotation =
  an_id :: json
  an_opportunity_id :: string
  an_failure_intent :: string
  an_urgency_score :: rat
  an_risk_score :: rat
  an_notes :: string
  an_confidence :: rat

definition show_bool :: "bool \<Rightarrow> string" where "show_bool b = (if b then ''true'' else ''false'')"

text \<open>The failure intent with its urgency, risk and confidence.\<close>

definition assess_failure :: "opportunity \<Rightarrow> temporal_signals \<Rightarrow> string \<times> rat \<times> rat \<times> rat" where
  "assess_failure opp tp =
     (let bank = translateBankDeclineCode (o_reason_code opp)
      in if o_decline_type opp = Hard \<or> ct_is_hard bank
         then (''Reported stolen card, issuer security block, or account freeze'', lit 5 2, lit 98 2, lit 98 2)
         else if ct_category bank = ''NETWORK_LATENCY'' \<or> tp_maintenance_window tp
         then (if tp_maintenance_window tp
               then ''NPCI/Banking maintenance window congestion - high spontaneous recovery''
               else ''Bank gateway switch latency / network congestion'', lit 85 2, lit 10 2, lit 92 2)
         else if 3 \<le> o_attempt_count opp
         then (''Persistent payment decline, customer contact fatigue elevated'', lit 30 2, lit 70 2, lit 80 2)
         else if tp_salary_window tp
         then (''Payday window liquidity active - elevated conversion propensity'', 3 / 4, lit 15 2, lit 88 2)
         else (''Temporary liquidity deficit'', lit 6 1, lit 2 1, lit 85 2))"

definition annotation_notes :: "opportunity \<Rightarrow> temporal_signals \<Rightarrow> string" where
  "annotation_notes opp tp =
     (let bank = translateBankDeclineCode (o_reason_code opp)
      in ''Perception Agent: [Normalized: '' @ ct_normalized bank @ ''] [Category: '' @ ct_category bank @
         ''] [SalaryWindow: '' @ show_bool (tp_salary_window tp) @ ''] [Maintenance: '' @
         show_bool (tp_maintenance_window tp) @ '']. Attempt: '' @ show_int (o_attempt_count opp) @ ''.'')"

definition annotation_payload :: "opportunity \<Rightarrow> temporal_signals \<Rightarrow> payload" where
  "annotation_payload opp tp =
     (case assess_failure opp tp of (intent, urgency, risk, conf) \<Rightarrow>
        [(''opportunity_id'', JStr (o_id opp)), (''failure_intent'', JStr intent),
         (''customer_urgency_score'', JNum urgency), (''merchant_risk_score'', JNum risk),
         (''semantic_notes'', JStr (annotation_notes opp tp)), (''confidence'', JNum conf)])"

definition analyzeOpportunity ::
  "registry_env \<Rightarrow> (string \<Rightarrow> int option) \<Rightarrow> call_env \<Rightarrow> call_env \<Rightarrow> annotation option \<Rightarrow> string \<Rightarrow>
   opportunity \<Rightarrow> agent_db \<Rightarrow> (db_error + annotation) \<times> agent_db" where
  "analyzeOpportunity rg time_of ce1 ce2 existing runId opp db =
     (case existing of
        Some a \<Rightarrow> (Inr a, db)
      | None \<Rightarrow>
          (case plain_call rg (call_of ce1 ''get_payment_attempts'' runId PerceptionAgent
                  [(''opportunity_id'', JStr (o_id opp))] None) db of
             (Inl e, db1) \<Rightarrow> (Inl e, db1)
           | (Inr _, db1) \<Rightarrow>
               let tp = extractTemporalSignals (time_of (o_created_at opp))
               in (case plain_call rg (call_of ce2 ''create_perception_annotation'' runId PerceptionAgent
                          (annotation_payload opp tp) None) db1 of
                     (Inl e, db2) \<Rightarrow> (Inl e, db2)
                   | (Inr r, db2) \<Rightarrow>
                       (case assess_failure opp tp of (intent, urgency, risk, conf) \<Rightarrow>
                          (Inr \<lparr>an_id = (case Option.bind (tr_data r) (json_member ''id'') of
                                   Some i \<Rightarrow> if truthy_json i then i else JStr (''annot_'' @ o_id opp)
                                 | None \<Rightarrow> JStr (''annot_'' @ o_id opp)),
                                an_opportunity_id = o_id opp, an_failure_intent = intent,
                                an_urgency_score = urgency, an_risk_score = risk,
                                an_notes = annotation_notes opp tp, an_confidence = conf\<rparr>, db2)))))"

section \<open>Diagnosis of a failure\<close>

datatype failure_category =
    INSUFFICIENT_FUNDS | NETWORK_LATENCY | SECURITY_STOP | USER_ABORT | CARD_EXPIRED | LIMIT_EXCEEDED
  | TECHNICAL_GLITCH

datatype channel_hint = CH_UPI | CH_CARD | CH_NETBANKING | CH_ALTERNATE_METHOD | CH_NONE

record failure_diagnosis =
  fd_category :: failure_category
  fd_root_cause :: string
  fd_explanation :: string
  fd_recommendation :: string
  fd_channel :: channel_hint
  fd_urgency_score :: rat
  fd_risk_score :: rat
  fd_confidence :: rat
  fd_is_hard :: bool
  fd_temporal :: temporal_signals

text \<open>The description of the error: the given one, else the first of three members of the stored
  payload that is truthy.  What raises on the way (no JSON, a null, a member that is no string)
  leaves it empty.\<close>

definition raw_description :: "(string \<Rightarrow> string + json) \<Rightarrow> string option \<Rightarrow> opportunity \<Rightarrow> string" where
  "raw_description parse given opp =
     (let d = trim (toLowerCase (or_opt given []))
      in if d = [] \<and> truthy_str (o_raw_payload_ref opp)
         then (case parse (the (o_raw_payload_ref opp)) of
                 Inl _ \<Rightarrow> []
               | Inr j \<Rightarrow>
                   (case List.find truthy_json (List.map_filter (\<lambda>k. json_member k j)
                          [''error_reason'', ''error_description'', ''error_code'']) of
                      Some (JStr s) \<Rightarrow> toLowerCase s
                    | _ \<Rightarrow> []))
         else d)"

definition mentions :: "string \<Rightarrow> string list \<Rightarrow> bool" where
  "mentions combined ws \<longleftrightarrow> list_ex (includes_str combined) ws"

definition hard_words :: "string list" where
  "hard_words = [''stolen'', ''lost_card'', ''pickup'', ''restricted'', ''fraud'', ''account_blocked'',
     ''account_frozen'', ''npci_xb'']"

definition network_words :: "string list" where
  "network_words = [''timeout'', ''network'', ''gateway_error'', ''npci_u30'', ''npci_u69'',
     ''temporarily_unavailable'', ''bank_network_timeout'']"

definition funds_words :: "string list" where
  "funds_words = [''insufficient'', ''err_bal_51'', ''decline_51'', ''balance'']"

definition expired_words :: "string list" where
  "expired_words = [''expired'', ''card_expired'', ''card_inactive'']"

definition abort_words :: "string list" where
  "abort_words = [''user_dropped'', ''cancelled'', ''user_cancelled'', ''otp_timeout'', ''otp_expired'']"

definition limit_words :: "string list" where
  "limit_words = [''limit_exceeded'', ''transaction_limit'', ''limit'']"

definition combined_reason :: "string \<Rightarrow> opportunity \<Rightarrow> string" where
  "combined_reason rawDesc opp = toLowerCase (trim (toUpperCase (o_reason_code opp)) @ '' '' @ rawDesc)"

definition categorize :: "string \<Rightarrow> decline_type \<Rightarrow> failure_category" where
  "categorize combined decline =
     (if decline = Hard \<or> mentions combined hard_words then SECURITY_STOP
      else if mentions combined network_words then NETWORK_LATENCY
      else if mentions combined funds_words then INSUFFICIENT_FUNDS
      else if mentions combined expired_words then CARD_EXPIRED
      else if mentions combined abort_words then USER_ABORT
      else if mentions combined limit_words then LIMIT_EXCEEDED
      else TECHNICAL_GLITCH)"

definition describe_failure :: "failure_category \<Rightarrow> temporal_signals \<Rightarrow> failure_diagnosis" where
  "describe_failure cat tp =
     (let diag = (\<lambda>cause expl rec ch u r c. \<lparr>fd_category = cat, fd_root_cause = cause, fd_explanation = expl,
            fd_recommendation = rec, fd_channel = ch, fd_urgency_score = u, fd_risk_score = r,
            fd_confidence = c, fd_is_hard = (cat = SECURITY_STOP), fd_temporal = tp\<rparr>)
      in case cat of
        SECURITY_STOP \<Rightarrow> diag
          ''Issuer security block or reported lost/stolen card restriction. Automatic retry prohibited by banking policy.''
          ''The transaction was stopped by the card issuing bank for account protection. No funds were debited.''
          ''Do not re-attempt with this card. Advise customer to contact their issuing bank or use another verified payment method.''
          CH_NONE (lit 5 2) (lit 99 2) (lit 98 2)
      | NETWORK_LATENCY \<Rightarrow> diag
          (if tp_maintenance_window tp
           then ''NPCI/Banking settlement maintenance window switch latency. Issuing bank did not respond to 3DS challenge.''
           else ''Bank gateway communication timeout during 3D Secure / OTP authorization challenge.'')
          ''Your bank authorization server experienced a temporary network timeout during 3D Secure verification.''
          ''Safe to retry immediately using UPI (Google Pay, PhonePe) or an alternate bank card.''
          CH_UPI (lit 85 2) (lit 8 2) (lit 94 2)
      | INSUFFICIENT_FUNDS \<Rightarrow> diag
          ''Account balance insufficient or debit limit exceeded on the selected payment instrument.''
          ''The payment could not proceed due to account balance or transaction limit restrictions at your bank.''
          ''Hold order and provide a 1-click repay link to complete payment when convenient, or use another card/UPI account.''
          CH_ALTERNATE_METHOD (lit 65 2) (lit 15 2) (lit 90 2)
      | CARD_EXPIRED \<Rightarrow> diag
          ''Card expiry date passed or card has been marked inactive by card network.''
          ''The card entered has expired or is currently marked inactive by your card issuer.''
          ''Prompt customer to complete payment using an active debit/credit card or instant UPI.''
          CH_CARD (lit 70 2) (lit 10 2) (lit 95 2)
      | USER_ABORT \<Rightarrow> diag
          ''Customer closed the checkout window or OTP session expired before entering verification code.''
          ''The checkout window was closed before the transaction could be confirmed. No amount was charged.''
          ''Send quick 1-click resume link to restore the order without re-entering checkout details.''
          CH_UPI (3 / 4) (lit 5 2) (lit 92 2)
      | LIMIT_EXCEEDED \<Rightarrow> diag
          ''Daily or per-transaction online banking limit exceeded for this payment method.''
          ''This transaction exceeds your bank account or card single-transaction spending limit.''
          ''Suggest completing via UPI or NetBanking rail which may have independent transaction allowances.''
          CH_NETBANKING (lit 60 2) (lit 12 2) (lit 88 2)
      | TECHNICAL_GLITCH \<Rightarrow> diag
          ''Bank switch authorization anomaly or transient gateway communication error.''
          ''The bank was unable to complete payment authorization at this moment.''
          ''Provide a verified Razorpay payment link to retry securely with UPI or alternate cards.''
          CH_UPI (lit 60 2) (lit 20 2) (3 / 4))"

text \<open>The rows of annotations; a row is inserted, or replaces all but the opportunity and the time
  of the row with its key.\<close>

record annotation_row =
  nr_id :: string
  nr_opportunity_id :: string
  nr_failure_intent :: string
  nr_urgency_score :: rat
  nr_risk_score :: rat
  nr_notes :: string
  nr_confidence :: rat
  nr_created_at :: string

definition annotation_merge :: "annotation_row option \<Rightarrow> annotation_row \<Rightarrow> annotation_row" where
  "annotation_merge old r = (case old of None \<Rightarrow> r
     | Some x \<Rightarrow> r\<lparr>nr_opportunity_id := nr_opportunity_id x, nr_created_at := nr_created_at x\<rparr>)"

definition insertPerceptionAnnotation ::
  "string \<Rightarrow> annotation_row \<Rightarrow> store \<times> annotation_row list \<Rightarrow> store \<times> annotation_row list" where
  "insertPerceptionAnnotation now r db =
     (ensureOpportunity now (nr_opportunity_id r) (fst db), row_put nr_id annotation_merge r (snd db))"

definition getPerceptionAnnotationByOpportunityId :: "string \<Rightarrow> annotation_row list \<Rightarrow> annotation_row option" where
  "getPerceptionAnnotationByOpportunityId oid rows = List.find (\<lambda>r. nr_opportunity_id r = oid) rows"

fun show_category :: "failure_category \<Rightarrow> string" where
  "show_category INSUFFICIENT_FUNDS = ''INSUFFICIENT_FUNDS''"
| "show_category NETWORK_LATENCY = ''NETWORK_LATENCY''"
| "show_category SECURITY_STOP = ''SECURITY_STOP''"
| "show_category USER_ABORT = ''USER_ABORT''"
| "show_category CARD_EXPIRED = ''CARD_EXPIRED''"
| "show_category LIMIT_EXCEEDED = ''LIMIT_EXCEEDED''"
| "show_category TECHNICAL_GLITCH = ''TECHNICAL_GLITCH''"

definition persistDiagnosisAnnotation ::
  "string \<Rightarrow> string \<Rightarrow> string \<Rightarrow> failure_diagnosis \<Rightarrow> store \<times> annotation_row list \<Rightarrow> store \<times> annotation_row list" where
  "persistDiagnosisAnnotation annotId now oid d db = insertPerceptionAnnotation now
     \<lparr>nr_id = annotId, nr_opportunity_id = oid, nr_failure_intent = fd_root_cause d,
      nr_urgency_score = fd_urgency_score d, nr_risk_score = fd_risk_score d,
      nr_notes = ''[Category: '' @ show_category (fd_category d) @ ''] [Explanation: '' @ fd_explanation d @
        ''] [Recommendation: '' @ fd_recommendation d @ '']'',
      nr_confidence = fd_confidence d, nr_created_at = now\<rparr> db"

definition diagnoseFailureReason ::
  "(string \<Rightarrow> string + json) \<Rightarrow> (string \<Rightarrow> int option) \<Rightarrow> string \<Rightarrow> string \<Rightarrow> string option \<Rightarrow> opportunity \<Rightarrow>
   store \<times> annotation_row list \<Rightarrow> failure_diagnosis \<times> store \<times> annotation_row list" where
  "diagnoseFailureReason parse time_of annotId now given opp db =
     (let combined = combined_reason (raw_description parse given opp) opp;
          d = describe_failure (categorize combined (o_decline_type opp))
                (extractTemporalSignals (time_of (o_created_at opp)))
      in (d, persistDiagnosisAnnotation annotId now (o_id opp) d db))"

section \<open>Outreach drafts\<close>

datatype outreach_tone = POLITE_REMINDER | URGENT_ACTION | ASSISTED_SUPPORT

definition determineTone :: "opportunity \<Rightarrow> outreach_tone" where
  "determineTone opp =
     (if 2 \<le> o_attempt_count opp then URGENT_ACTION
      else if includes_str (o_reason_code opp) ''NETWORK'' \<or> includes_str (o_reason_code opp) ''TIMEOUT''
      then POLITE_REMINDER else ASSISTED_SUPPORT)"

datatype outreach_channel = SMS | WHATSAPP | EMAIL

fun show_channel :: "outreach_channel \<Rightarrow> string" where
  "show_channel SMS = ''SMS''"
| "show_channel WHATSAPP = ''WHATSAPP''"
| "show_channel EMAIL = ''EMAIL''"

text \<open>The subject (of an e-mail only) and the body; pictograms are left out.\<close>

definition draft_text :: "outreach_channel \<Rightarrow> outreach_tone \<Rightarrow> opportunity \<Rightarrow> string \<Rightarrow> string option \<times> string" where
  "draft_text channel tone opp link =
     (let amountInr = rupees (o_amount_paise opp); nl = [CHR 0x0A, CHR 0x0A]
      in case channel of
        EMAIL \<Rightarrow>
          if tone = URGENT_ACTION
          then (Some (''Action Required: Final attempt to complete your payment of '' @ amountInr),
                ''Dear Customer,'' @ nl @ ''Your transaction of '' @ amountInr @ '' for order '' @ o_id opp @
                '' could not be processed. This is your active retry link to avoid order cancellation:'' @ nl @
                link @ nl @ ''Our team is available if you need further assistance.'')
          else (Some (''Complete your payment of '' @ amountInr @ '' for order '' @ o_id opp),
                ''Hello,'' @ nl @ ''We noticed your recent payment of '' @ amountInr @
                '' was interrupted. You can safely complete it using our verified secure link:'' @ nl @
                link @ nl @ ''If you have already paid or have questions, please feel free to reply.'')
      | WHATSAPP \<Rightarrow>
          (None, if tone = URGENT_ACTION
             then ''*Payment Pending*: Your transaction of '' @ amountInr @
                  '' is on hold. Complete it now to secure your order: '' @ link
             else ''Hi! Your payment of '' @ amountInr @
                  '' was interrupted. Tap here to retry safely via Razorpay: '' @ link)
      | SMS \<Rightarrow>
          (None, if tone = URGENT_ACTION
             then ''URGENT: Order '' @ take 8 (o_id opp) @ '' pending payment of '' @ amountInr @
                  ''. Pay securely: '' @ link
             else ''Payment of '' @ amountInr @ '' for ref '' @ take 8 (o_id opp) @
                  '' interrupted. Complete securely: '' @ link))"

definition compliance_footer :: string where
  "compliance_footer = ''CTRL Autonomous Recovery - RBI Compliant - Reply STOP to opt out - Merchant Support''"

definition draft_payload ::
  "string \<Rightarrow> opportunity \<Rightarrow> outreach_channel \<Rightarrow> string option \<Rightarrow> outreach_tone option \<Rightarrow> payload" where
  "draft_payload runId opp channel link0 tone0 =
     (let link = or_opt link0 (''https://rzp.io/i/'' @ o_id opp);
          tone = (case tone0 of Some t \<Rightarrow> t | None \<Rightarrow> determineTone opp)
      in case draft_text channel tone opp link of (subject, body) \<Rightarrow>
        [(''run_id'', JStr runId), (''opportunity_id'', JStr (o_id opp)),
         (''channel'', JStr (show_channel channel)), (''recipient'', JStr (o_customer_id opp))] @
        opt_member ''subject'' subject @
        [(''body'', JStr body), (''compliance_footer'', JStr compliance_footer)])"

text \<open>The draft is written by the tool; the record that is returned is not used by a mission.\<close>

definition draftCustomerCommunication ::
  "registry_env \<Rightarrow> call_env \<Rightarrow> string \<Rightarrow> opportunity \<Rightarrow> outreach_channel \<Rightarrow> string option \<Rightarrow>
   outreach_tone option \<Rightarrow> agent_db \<Rightarrow> (db_error + tool_result) \<times> agent_db" where
  "draftCustomerCommunication rg ce runId opp channel link tone db =
     plain_call rg (call_of ce ''create_outreach_draft'' runId OutreachAgent
       (draft_payload runId opp channel link tone) None) db"

section \<open>Properties\<close>

lemma day_of_month_sample:
  "day_of_month 0 = 1" "day_of_month 1709164800000 = 29" "day_of_month 1709251200000 = 1"
  "day_of_month (-1) = 31" "hour_of 1709251199999 = 23" "minute_of 1709251199999 = 59"
  by code_simp+

lemma described:
  "fd_channel (describe_failure c tp) = (case c of SECURITY_STOP \<Rightarrow> CH_NONE | NETWORK_LATENCY \<Rightarrow> CH_UPI
     | INSUFFICIENT_FUNDS \<Rightarrow> CH_ALTERNATE_METHOD | CARD_EXPIRED \<Rightarrow> CH_CARD | USER_ABORT \<Rightarrow> CH_UPI
     | LIMIT_EXCEEDED \<Rightarrow> CH_NETBANKING | TECHNICAL_GLITCH \<Rightarrow> CH_UPI)"
  "fd_is_hard (describe_failure c tp) = (c = SECURITY_STOP)"
  "unit_interval (fd_urgency_score (describe_failure c tp)) \<and> unit_interval (fd_risk_score (describe_failure c tp)) \<and>
   unit_interval (fd_confidence (describe_failure c tp))"
proof -
  note convs = describe_failure_def Let_def failure_category.case failure_diagnosis.select_convs
  show "fd_channel (describe_failure c tp) = (case c of SECURITY_STOP \<Rightarrow> CH_NONE | NETWORK_LATENCY \<Rightarrow> CH_UPI
     | INSUFFICIENT_FUNDS \<Rightarrow> CH_ALTERNATE_METHOD | CARD_EXPIRED \<Rightarrow> CH_CARD | USER_ABORT \<Rightarrow> CH_UPI
     | LIMIT_EXCEEDED \<Rightarrow> CH_NETBANKING | TECHNICAL_GLITCH \<Rightarrow> CH_UPI)"
    by (cases c) (simp_all only: convs)
  show "fd_is_hard (describe_failure c tp) = (c = SECURITY_STOP)"
    by (cases c) (simp_all only: convs)
  have u: "unit_interval (lit n 2)" if "0 \<le> n \<and> n \<le> 100" for n using unit_of_lit [of n 2] that by simp
  have q: "unit_interval (3 / 4)" by (simp add: unit_interval_def)
  show "unit_interval (fd_urgency_score (describe_failure c tp)) \<and> unit_interval (fd_risk_score (describe_failure c tp)) \<and>
   unit_interval (fd_confidence (describe_failure c tp))"
    by (cases c) (simp_all only: convs q, simp_all add: u)
qed

text \<open>
  A hard decline is never given a channel, whatever it is called, and it is the only failure
  that is not; the scores of a diagnosis are in the unit interval.
\<close>

theorem hard_decline_no_channel:
  assumes "diagnoseFailureReason parse time_of annotId now given opp db = (d, db')"
  shows "(fd_channel d = CH_NONE \<longleftrightarrow> fd_is_hard d) \<and> (o_decline_type opp = Hard \<longrightarrow> fd_is_hard d) \<and>
     unit_interval (fd_urgency_score d) \<and> unit_interval (fd_risk_score d) \<and> unit_interval (fd_confidence d)"
proof -
  let ?tp = "extractTemporalSignals (time_of (o_created_at opp))"
  have d: "d = describe_failure (categorize (combined_reason (raw_description parse given opp) opp) (o_decline_type opp)) ?tp"
    using assms by (simp add: diagnoseFailureReason_def Let_def)
  have desc: "(fd_channel (describe_failure c tp) = CH_NONE \<longleftrightarrow> c = SECURITY_STOP) \<and>
      (fd_is_hard (describe_failure c tp) \<longleftrightarrow> c = SECURITY_STOP) \<and>
      unit_interval (fd_urgency_score (describe_failure c tp)) \<and> unit_interval (fd_risk_score (describe_failure c tp)) \<and>
      unit_interval (fd_confidence (describe_failure c tp))" for c tp
    using described [of c tp] by (cases c) simp_all
  have "o_decline_type opp = Hard \<Longrightarrow> categorize x (o_decline_type opp) = SECURITY_STOP" for x
    by (simp add: categorize_def)
  then show ?thesis using desc by (simp add: d)
qed

text \<open>
  The two classifications of the agent disagree: a soft decline for a restricted card stops the
  diagnosis, while the annotation of the same opportunity rates its risk as low.
\<close>

theorem classifications_disagree:
  assumes "o_reason_code opp = ''restricted_card''" and "o_decline_type opp = Soft"
    and "o_attempt_count opp = 1" and "o_raw_payload_ref opp = None"
  shows "categorize (combined_reason (raw_description parse None opp) opp) Soft = SECURITY_STOP \<and>
     fst (snd (snd (assess_failure opp tp))) \<le> lit 2 1"
proof -
  have 1: "mentions (combined_reason (raw_description parse None opp) opp) hard_words"
  proof -
    have raw: "raw_description parse None opp = []"
      using assms(4) by (simp add: raw_description_def or_opt_def truthy_str_def toLowerCase_def trim_def)
    have "mentions (toLowerCase (trim (toUpperCase ''restricted_card'') @ '' '')) hard_words" by code_simp
    then show ?thesis by (simp add: combined_reason_def raw assms(1))
  qed
  have "translateBankDeclineCode ''restricted_card'' =
      \<lparr>ct_normalized = ''RESTRICTED_CARD'', ct_is_hard = False, ct_category = ''UNKNOWN''\<rparr>" by code_simp
  then have "fst (snd (snd (assess_failure opp tp))) \<in> {lit 10 2, lit 15 2, lit 2 1}"
    using assms by (simp add: assess_failure_def Let_def)
  moreover have "lit 10 2 \<le> lit 2 1" "lit 15 2 \<le> lit 2 1" by code_simp+
  ultimately show ?thesis using 1 by (auto simp: categorize_def)
qed

end
