(* ===== verification/Agent_Loop.thy ===== *)
theory Agent_Loop
  imports Reasoning Specialists Daemon
begin

text \<open>
  One mission of the agent loop (\<^verbatim>\<open>src/agents/agent_loop.ts\<close>): perception, at most three
  reasoning steps with tool calls, then score, market, authority, execution, learning and
  memory, over one store.  It composes the operations of the other theories as the code does.
  A mission is one operation here; the kill switch and the clock may answer differently at each
  place that reads them.  What raises is the left side of the result; its state keeps the writes
  made before.
\<close>

section \<open>State\<close>

text \<open>The execution state holds the store; \<open>wd_db\<close> holds the audit tables of the agents, whose
  runs are those of the store.\<close>

record world =
  wd_exec :: exec_state
  wd_pacer :: pacer
  wd_docs :: "document list"
  wd_db :: agent_db
  wd_steps :: "step_row list"
  wd_llm :: "llm_row list"

abbreviation wd_store :: "world \<Rightarrow> store" where
  "wd_store w \<equiv> xs_store (wd_exec w)"

definition put_store :: "store \<Rightarrow> world \<Rightarrow> world" where
  "put_store s w = w\<lparr>wd_exec := (wd_exec w)\<lparr>xs_store := s\<rparr>\<rparr>"

definition tool_db :: "world \<Rightarrow> agent_db" where
  "tool_db w = (wd_db w)\<lparr>gd_runs := agent_runs (wd_store w)\<rparr>"

definition put_db :: "agent_db \<Rightarrow> world \<Rightarrow> world" where
  "put_db db w = put_store ((wd_store w)\<lparr>agent_runs := gd_runs db\<rparr>) (w\<lparr>wd_db := db\<rparr>)"

definition log_of :: "world \<Rightarrow> mission_log" where
  "log_of w = \<lparr>ml_runs = agent_runs (wd_store w), ml_steps = wd_steps w, ml_llm = wd_llm w\<rparr>"

definition put_log :: "mission_log \<Rightarrow> world \<Rightarrow> world" where
  "put_log ml w = put_store ((wd_store w)\<lparr>agent_runs := ml_runs ml\<rparr>)
     (w\<lparr>wd_steps := ml_steps ml, wd_llm := ml_llm ml\<rparr>)"

record loop_iteration =
  it_iteration :: nat
  it_state :: agent_state
  it_reasoning :: reasoning_output
  it_tool :: "(string \<times> string) option"
  it_budget :: "budget_excess option"
  it_continue :: bool

record mission =
  mn_run_id :: string
  mn_machine :: agent_machine
  mn_budget :: budget_tracker
  mn_guard :: loop_guard
  mn_trace :: "loop_iteration list"
  mn_signals :: "signal list"
  mn_prior :: "string list"
  mn_results :: "(string \<times> string) list"

definition new_mission :: "string \<Rightarrow> budget_config \<Rightarrow> int \<Rightarrow> mission" where
  "new_mission runId cfg now =
     \<lparr>mn_run_id = runId, mn_machine = new_agent_machine runId, mn_budget = new_tracker cfg now,
      mn_guard = new_guard, mn_trace = [], mn_signals = [], mn_prior = [], mn_results = []\<rparr>"

record loop_env =
  lo_kill :: "nat \<Rightarrow> bool"
  lo_clock :: "nat \<Rightarrow> int"
  lo_now :: string
  lo_mission_id :: string
  lo_registry :: registry_env
  lo_perception :: "call_env \<times> call_env"
  lo_annotation :: "annotation option"
  lo_reason :: "nat \<Rightarrow> reason_env"
  lo_call :: "nat \<Rightarrow> call_env"
  lo_outreach :: call_env
  lo_environment :: "agent_env option"
  lo_memory :: memory_env
  lo_llm_disabled :: bool
  lo_gate :: gate_env
  lo_exec :: exec_env
  lo_learn :: learn_env
  lo_latency_ms :: nat

text \<open>A transition the table refuses changes nothing, and its result is not looked at; nor is the
  budget check that counting a step returns.\<close>

definition go :: "agent_state \<Rightarrow> string \<Rightarrow> mission \<Rightarrow> mission" where
  "go st trigger m = m\<lparr>mn_machine := snd (transition (mn_machine m) st trigger)\<rparr>"

definition advance :: "loop_env \<Rightarrow> agent_state \<Rightarrow> string \<Rightarrow> mission \<Rightarrow> mission" where
  "advance env st trigger m =
     (go st trigger m)\<lparr>mn_budget := snd (recordStep (lo_clock env 0) (mn_budget m))\<rparr>"

section \<open>Investigation\<close>

text \<open>\<^verbatim>\<open>{ ...params, k: v }\<close>.\<close>

definition spread_json :: "json \<Rightarrow> payload" where
  "spread_json j = (case j of JObj ms \<Rightarrow> ms | JArr xs \<Rightarrow> zip (map show_nat [0..<length xs]) xs | _ \<Rightarrow> [])"

definition set_member :: "string \<Rightarrow> json \<Rightarrow> payload \<Rightarrow> payload" where
  "set_member k v ms =
     (if k \<in> fst ` set ms then map (\<lambda>(a, b). (a, if a = k then v else b)) ms else ms @ [(k, v)])"

definition tool_summary :: "registry_env \<Rightarrow> string \<Rightarrow> db_error + tool_result \<Rightarrow> string" where
  "tool_summary rg toolName r =
     (case r of
        Inl e \<Rightarrow> ''Tool '' @ toolName @ '' error: '' @ or_str (rg_show_error rg e) ''execution failed''
      | Inr x \<Rightarrow>
          if tr_success x
          then (case tr_data x of
                  Some (JStr s) \<Rightarrow> take 500 s
                | Some j \<Rightarrow> take 500 (stringify j)
                | None \<Rightarrow> ''Tool '' @ toolName @ '' error: execution failed'')
          else ''Tool '' @ toolName @ '' failed: '' @ or_opt (tr_error x) ''unknown error'')"

text \<open>The tool call is counted here, and again by the registry when the gate allows it.\<close>

definition executeInvestigationTool ::
  "loop_env \<Rightarrow> nat \<Rightarrow> string \<Rightarrow> json \<Rightarrow> opportunity \<Rightarrow> mission \<times> world \<Rightarrow> string \<times> mission \<times> world" where
  "executeInvestigationTool env i toolName params opp mw =
     (case mw of (m, w) \<Rightarrow>
        let rg = lo_registry env;
            m1 = (go A_OBSERVE (''TOOL_CALL_'' @ toolName) m)
                   \<lparr>mn_budget := snd (recordToolCall (lo_clock env 0) (mn_budget m))\<rparr>;
            c = call_of (lo_call env i) toolName (mn_run_id m) AgentOrchestrator
                  (set_member ''opportunity_id'' (JStr (o_id opp)) (spread_json params)) (lo_environment env)
        in (case executeTool (rg_sha rg) (rg_show_error rg) (rg_tools rg) c
               \<lparr>ts_db = tool_db w, ts_budget = Some (mn_budget m1), ts_guard = Some (mn_guard m1)\<rparr> of
              (r, st) \<Rightarrow>
                (tool_summary rg toolName r,
                 m1\<lparr>mn_budget := (case ts_budget st of Some b \<Rightarrow> b | None \<Rightarrow> mn_budget m1),
                    mn_guard := (case ts_guard st of Some g \<Rightarrow> g | None \<Rightarrow> mn_guard m1)\<rparr>,
                 put_db (ts_db st) w)))"

section \<open>The reasoning loop\<close>

record briefing =
  bf_opportunity :: opportunity
  bf_score :: "score option"
  bf_trust :: rat
  bf_memories :: "agent_memory list"

definition max_loop_iterations :: nat where "max_loop_iterations = 3"

definition turn_context :: "briefing \<Rightarrow> nat \<Rightarrow> mission \<Rightarrow> reasoning_context" where
  "turn_context bf i m =
     \<lparr>rx_opportunity = bf_opportunity bf, rx_score = bf_score bf, rx_trust_score = bf_trust bf,
      rx_gateway_health = lit 98 2, rx_prior = mn_prior m, rx_tool_results = mn_results m,
      rx_memories = map am_context_summary (take 5 (bf_memories bf)), rx_iteration = i,
      rx_max_iterations = max_loop_iterations\<rparr>"

text \<open>The tool of a step that goes on is called, and its summary becomes an observation.\<close>

definition investigate ::
  "loop_env \<Rightarrow> briefing \<Rightarrow> nat \<Rightarrow> reasoning_output \<Rightarrow> mission \<times> world \<Rightarrow>
   (string \<times> string) option \<times> mission \<times> world" where
  "investigate env bf i out mw =
     (case ro_tool_choice out of
        None \<Rightarrow> (None, mw)
      | Some c \<Rightarrow>
          if \<not> ro_should_continue out then (None, mw)
          else (case executeInvestigationTool env i (ch_tool_name c) (ch_params c) (bf_opportunity bf) mw of
                  (s, m, w) \<Rightarrow>
                    (Some (ch_tool_name c, s),
                     m\<lparr>mn_results := mn_results m @ [(ch_tool_name c, s)],
                       mn_prior := mn_prior m @ [''Tool ['' @ ch_tool_name c @ '']: '' @ s]\<rparr>, w)))"

definition iteration_row ::
  "loop_env \<Rightarrow> nat \<Rightarrow> reasoning_output \<Rightarrow> (string \<times> string) option \<Rightarrow> mission \<Rightarrow> loop_iteration" where
  "iteration_row env i out tool m =
     \<lparr>it_iteration = i + 1, it_state = am_current (mn_machine m), it_reasoning = out, it_tool = tool,
      it_budget = checkBudgets (lo_clock env (i + 1)) (mn_budget m), it_continue = ro_should_continue out\<rparr>"

definition step_trigger :: "nat \<Rightarrow> string" where
  "step_trigger i = ''REASONING_STEP_'' @ show_nat (i + 1)"

text \<open>One turn: the answer is whether the loop goes on, or the message of the error raised.\<close>

definition reasoning_turn ::
  "loop_env \<Rightarrow> briefing \<Rightarrow> nat \<Rightarrow> mission \<times> world \<Rightarrow> (string + bool) \<times> mission \<times> world" where
  "reasoning_turn env bf i mw =
     (case mw of (m, w) \<Rightarrow>
        let m1 = advance env A_DIAGNOSE (step_trigger i) m
        in (case reason_step (lo_reason env i) (mn_run_id m) (turn_context bf i m) (log_of w) of
              (Inl msg, ml) \<Rightarrow> (Inl msg, m1, put_log ml w)
            | (Inr out, ml) \<Rightarrow>
                (case investigate env bf i out (m1\<lparr>mn_signals := mn_signals m1 @ ro_signals out\<rparr>, put_log ml w) of
                   (tool, m2, w2) \<Rightarrow>
                     (Inr (ro_should_continue out),
                      m2\<lparr>mn_trace := mn_trace m2 @ [iteration_row env i out tool m2]\<rparr>, w2))))"

datatype loop_exit = Loop_done nat | Loop_killed | Loop_over budget_excess | Loop_raised string

fun reasoning_loop ::
  "loop_env \<Rightarrow> briefing \<Rightarrow> nat list \<Rightarrow> nat \<Rightarrow> mission \<times> world \<Rightarrow> loop_exit \<times> mission \<times> world" where
  "reasoning_loop env bf [] k mw = (Loop_done k, mw)"
| "reasoning_loop env bf (i # rest) k mw =
     (if lo_kill env (i + 1) then (Loop_killed, mw)
      else case checkBudgets (lo_clock env (i + 1)) (mn_budget (fst mw)) of
             Some x \<Rightarrow> (Loop_over x, mw)
           | None \<Rightarrow>
               (case reasoning_turn env bf i mw of
                  (Inl msg, mw') \<Rightarrow> (Loop_raised msg, mw')
                | (Inr True, mw') \<Rightarrow> reasoning_loop env bf rest (i + 1) mw'
                | (Inr False, mw') \<Rightarrow> (Loop_done (i + 1), mw')))"

section \<open>After the loop\<close>

definition keep_strongest :: "signal \<Rightarrow> signal list \<Rightarrow> signal list" where
  "keep_strongest s best =
     (case row_get si_name (si_name s) best of
        None \<Rightarrow> best @ [s]
      | Some e \<Rightarrow> if si_confidence e < si_confidence s then row_put si_name replace_merge s best else best)"

definition deduplicateSignals :: "signal list \<Rightarrow> signal list" where
  "deduplicateSignals signals = fold keep_strongest signals []"

definition bridge_signal :: "signal \<Rightarrow> semantic_signal" where
  "bridge_signal s = \<lparr>sg_name = si_name s, sg_value = Fin (si_value s), sg_confidence = Fin (si_confidence s)\<rparr>"

datatype loop_status = LS_completed | LS_aborted | LS_budget_exceeded

record loop_result =
  lr_run_id :: string
  lr_opportunity_id :: string
  lr_status :: loop_status
  lr_final_decision :: decision_type
  lr_verdict :: authority_verdict
  lr_link_id :: "string option"
  lr_link_url :: "string option"
  lr_iterations :: nat
  lr_trace :: "loop_iteration list"
  lr_llm_calls :: int
  lr_tool_calls :: int
  lr_tokens :: int
  lr_latency_ms :: nat
  lr_rationale :: string
  lr_signals :: "signal list"

datatype mission_error =
    ME_not_found string
  | ME_database db_error
  | ME_reasoning string
  | ME_scoring
  | ME_execution exec_error

type_synonym mission_outcome = "(mission_error + loop_result) \<times> mission \<times> world"

definition close_run :: "loop_env \<Rightarrow> string \<Rightarrow> string \<Rightarrow> mission \<Rightarrow> world \<Rightarrow> world" where
  "close_run env status reason m w =
     (let u = bt_usage (mn_budget m); s = wd_store w
      in put_store (s\<lparr>agent_runs := row_update ar_id (mn_run_id m)
           (\<lambda>r. r\<lparr>ar_status := status, ar_end_time := lo_now env, ar_total_steps := nat (us_steps u),
                 ar_llm_calls := nat (us_llm_calls u), ar_tool_calls := nat (us_tool_calls u),
                 ar_replan_count := 0, ar_total_tokens := nat (us_total_tokens u),
                 ar_latency_ms := lo_latency_ms env, ar_termination_reason := reason\<rparr>) (agent_runs s)\<rparr>) w)"

definition loop_result_of ::
  "loop_env \<Rightarrow> opportunity \<Rightarrow> mission \<Rightarrow> loop_status \<Rightarrow> decision_type \<Rightarrow> authority_verdict \<Rightarrow>
   execution_record option \<Rightarrow> nat \<Rightarrow> string \<Rightarrow> signal list \<Rightarrow> loop_result" where
  "loop_result_of env opp m status dec verdict rec n rationale signals =
     (let u = bt_usage (mn_budget m)
      in \<lparr>lr_run_id = mn_run_id m, lr_opportunity_id = o_id opp, lr_status = status,
          lr_final_decision = dec, lr_verdict = verdict, lr_link_id = map_option er_payment_link_id rec,
          lr_link_url = map_option er_link_url rec, lr_iterations = n, lr_trace = mn_trace m,
          lr_llm_calls = us_llm_calls u, lr_tool_calls = us_tool_calls u, lr_tokens = us_total_tokens u,
          lr_latency_ms = lo_latency_ms env, lr_rationale = rationale, lr_signals = signals\<rparr>)"

definition abort_mission :: "loop_env \<Rightarrow> opportunity \<Rightarrow> string \<Rightarrow> mission \<times> world \<Rightarrow> mission_outcome" where
  "abort_mission env opp reason mw =
     (case mw of (m, w) \<Rightarrow>
        let m1 = go A_ABORTED ''MISSION_ABORTED'' m
        in (Inr (loop_result_of env opp m1 LS_aborted ABSTAIN V_BLOCKED None (length (mn_trace m1)) reason []),
            m1, close_run env ''aborted'' reason m1 w))"

definition budgetExceeded :: "loop_env \<Rightarrow> opportunity \<Rightarrow> budget_excess \<Rightarrow> mission \<times> world \<Rightarrow> mission_outcome" where
  "budgetExceeded env opp x mw =
     (case mw of (m, w) \<Rightarrow>
        let reason = ''Budget exceeded: '' @ bx_message x; m1 = go A_ABORTED ''BUDGET_EXCEEDED'' m;
            hard = (o_decline_type opp = Hard)
        in (Inr (loop_result_of env opp m1 LS_budget_exceeded (if hard then ABSTAIN else WAIT)
                   (if hard then V_BLOCKED else V_WAIT) None (length (mn_trace m1)) reason (mn_signals m1)),
            m1, close_run env ''aborted'' reason m1 w))"

text \<open>The item the market found for the opportunity, or the default.\<close>

definition allocation_for :: "opportunity \<Rightarrow> market_result \<Rightarrow> allocation_decision" where
  "allocation_for opp run =
     (case List.find (\<lambda>d. mi_opportunity_id d = o_id opp) (mr_items run) of
        Some d \<Rightarrow> \<lparr>ad_opportunity_id = mi_opportunity_id d, ad_decision = mi_decision d,
                   ad_rank_in_batch = mi_rank d, ad_shadow_price_paise = mi_shadow_price d,
                   ad_reason = mi_reason d\<rparr>
      | None \<Rightarrow> \<lparr>ad_opportunity_id = o_id opp,
                 ad_decision = (if o_decline_type opp = Hard then ABSTAIN else WAIT),
                 ad_rank_in_batch = 999, ad_shadow_price_paise = 0,
                 ad_reason = (if o_decline_type opp = Hard then ''Hard decline: issuer security stop''
                              else ''Outside portfolio capacity limit'')\<rparr>)"

record ruling =
  ru_score :: score
  ru_allocation :: allocation_decision
  ru_evaluation :: authority_evaluation

definition market_options_for :: "opportunity \<Rightarrow> market_options" where
  "market_options_for opp = \<lparr>op_capacity = Some 5, op_opportunities = None,
     op_tenantId = Some (or_str (o_tenant_id opp) (o_merchant_id opp)), op_environment = None\<rparr>"

text \<open>The market run over the stored score, and the gate's ruling on its allocation.\<close>

definition allocate ::
  "loop_env \<Rightarrow> market_options \<Rightarrow> (market_result \<Rightarrow> allocation_decision) \<Rightarrow> score \<Rightarrow> world \<Rightarrow>
   (mission_error + allocation_decision) \<times> world" where
  "allocate env opts alloc sc w =
     (case runMarketAllocation (ge_market (lo_gate env)) opts (upsertScore sc (wd_store w), wd_pacer w) of
        (None, s2, p2) \<Rightarrow> (Inl ME_scoring, put_store s2 (w\<lparr>wd_pacer := p2\<rparr>))
      | (Some run, s2, p2) \<Rightarrow>
          (Inr (alloc run), put_store (upsertAllocationDecision (alloc run) s2) (w\<lparr>wd_pacer := p2\<rparr>)))"

definition rule_on ::
  "loop_env \<Rightarrow> opportunity \<Rightarrow> allocation_decision \<Rightarrow> score \<Rightarrow> world \<Rightarrow> (mission_error + ruling) \<times> world" where
  "rule_on env opp al sc w =
     (case evaluateOpportunity (lo_gate env) opp (Some al) (Some sc) (wd_store w) of
        None \<Rightarrow> (Inl ME_scoring, w)
      | Some (ev, s) \<Rightarrow> (Inr \<lparr>ru_score = sc, ru_allocation = al, ru_evaluation = ev\<rparr>, put_store s w))"

text \<open>Score, market and authority gate.  The proposal of the agents is not an argument.\<close>

definition score_mission :: "loop_env \<Rightarrow> opportunity \<Rightarrow> signal list \<Rightarrow> bridge_result option" where
  "score_mission env opp signals =
     (let me = ge_market (lo_gate env)
      in scoreWithSemanticBridge (me_math me) (me_calibrator me) (lo_llm_disabled env) opp (map bridge_signal signals))"

definition decide ::
  "loop_env \<Rightarrow> opportunity \<Rightarrow> signal list \<Rightarrow> mission \<times> world \<Rightarrow> (mission_error + ruling) \<times> mission \<times> world" where
  "decide env opp signals mw =
     (case mw of (m, w) \<Rightarrow>
        let m1 = advance env A_HYPOTHESIZE ''ECONOMIC_SCORING'' m
        in case score_mission env opp signals of
             None \<Rightarrow> (Inl ME_scoring, m1, w)
           | Some b \<Rightarrow>
               let m2 = advance env A_PLAN ''MARKET_ALLOCATION'' m1
               in (case allocate env (market_options_for opp) (allocation_for opp) (bg_score b) w of
                     (Inl e, w2) \<Rightarrow> (Inl e, m2, w2)
                   | (Inr al, w2) \<Rightarrow>
                       let m3 = advance env A_WAIT_AUTHORITY ''AUTHORITY_EVALUATION'' m2
                       in (case rule_on env opp al (bg_score b) w2 of (r, w3) \<Rightarrow> (r, m3, w3))))"

definition draft_for ::
  "loop_env \<Rightarrow> string \<Rightarrow> opportunity \<Rightarrow> execution_record \<Rightarrow> world \<Rightarrow> (db_error + tool_result) \<times> world" where
  "draft_for env runId opp r w =
     (case draftCustomerCommunication (lo_registry env) (lo_outreach env) runId opp SMS (Some (er_link_url r)) None
         (tool_db w) of
        (d, db) \<Rightarrow> (d, put_db db w))"

text \<open>Execution; what the draft of the message raises is caught.\<close>

definition act_on ::
  "loop_env \<Rightarrow> opportunity \<Rightarrow> ruling \<Rightarrow> mission \<times> world \<Rightarrow>
   (mission_error + execution_record option) \<times> mission \<times> world" where
  "act_on env opp ru mw =
     (case mw of (m, w) \<Rightarrow>
        if ae_verdict (ru_evaluation ru) = V_AUTHORIZED \<and> ad_decision (ru_allocation ru) = ACT
        then let m1 = advance env A_EXECUTE ''DISPATCH_TO_EXECUTOR'' m
             in (case executeOpportunity (lo_exec env) (o_id opp) (wd_exec w) of
                   (Inl e, xs) \<Rightarrow> (Inl (ME_execution e), m1, w\<lparr>wd_exec := xs\<rparr>)
                 | (Inr x, xs) \<Rightarrow>
                     let w1 = w\<lparr>wd_exec := xs\<rparr>
                     in (case (if xr_success x then xr_record x else None) of
                           None \<Rightarrow> (Inr None, m1, w1)
                         | Some r \<Rightarrow>
                             (Inr (Some r), m1, snd (draft_for env (mn_run_id m) opp r w1))))
        else (Inr None, m,
              put_store (updateOpportunityStatus (o_id opp)
                (if ae_verdict (ru_evaluation ru) = V_BLOCKED then Blocked else Abstained) (wd_store w)) w))"

section \<open>Learning, memory, result\<close>

text \<open>The outcome that is reported: an authorised mission counts as recovered.\<close>

definition reported_outcome :: "string \<Rightarrow> opportunity \<Rightarrow> authority_verdict \<Rightarrow> outcome_params" where
  "reported_outcome runId opp v =
     \<lparr>oc_runId = runId, oc_opportunityId = o_id opp, oc_actualRecovered = Some (v = V_AUTHORIZED),
      oc_actualRevenuePaise = Some (o_amount_paise opp),
      oc_customerResponse = Some (if v = V_AUTHORIZED then ''Payment link dispatched via agent loop''
                                  else ''Agent decided not to act''),
      oc_amountPaidPaise = None, oc_evidenceClass = None\<rparr>"

definition mission_episode :: "string \<Rightarrow> opportunity \<Rightarrow> nat \<Rightarrow> ruling \<Rightarrow> episode" where
  "mission_episode runId opp n ru =
     (let v = ae_verdict (ru_evaluation ru); d = show_decision (ad_decision (ru_allocation ru))
      in \<lparr>ep_run_id = runId, ep_opportunity = o_id opp,
          ep_failure_type = or_str (o_reason_code opp) ''unknown'',
          ep_summary = ''Agent loop completed '' @ show_nat n @ '' reasoning iterations. Decision: '' @ d @
            ''. Authority: '' @ show_verdict v @ ''.'',
          ep_action_taken = d,
          ep_predicted_outcome = ''IVEN='' @ rupees (s_expected_incremental_value_paise (ru_score ru)),
          ep_actual_outcome = (if v = V_AUTHORIZED then ''DISPATCHED'' else ''NOT_DISPATCHED''),
          ep_prediction_error = None, ep_provenance = ''AgentLoop:run''\<rparr>)"

definition learn_from ::
  "loop_env \<Rightarrow> opportunity \<Rightarrow> nat \<Rightarrow> ruling \<Rightarrow> mission \<times> world \<Rightarrow> (db_error + unit) \<times> mission \<times> world" where
  "learn_from env opp n ru mw =
     (case mw of (m, w) \<Rightarrow>
        let m1 = advance env A_OBSERVE_OUTCOME ''EVALUATE_OUTCOME'' m
        in case evaluateOutcome (lo_learn env) (reported_outcome (mn_run_id m) opp (ae_verdict (ru_evaluation ru)))
                  (wd_store w, wd_docs w) of
             (Inl e, s1, docs1) \<Rightarrow> (Inl e, m1, put_store s1 (w\<lparr>wd_docs := docs1\<rparr>))
           | (Inr _, s1, docs1) \<Rightarrow>
               let m2 = advance env A_LEARN ''UPDATE_MEMORY'' m1
               in (case record_in_store (lo_memory env) (mission_episode (mn_run_id m) opp n ru) (s1, docs1) of
                     (Inl e, s2, docs2) \<Rightarrow> (Inl e, m2, put_store s2 (w\<lparr>wd_docs := docs2\<rparr>))
                   | (Inr _, s2, docs2) \<Rightarrow>
                       (Inr (), go A_COMPLETE ''MISSION_COMPLETED''
                                 (advance env A_MEMORY_UPDATE ''PERSIST_EPISODIC'' m2),
                        put_store s2 (w\<lparr>wd_docs := docs2\<rparr>))))"

section \<open>The mission\<close>

definition run_row :: "loop_env \<Rightarrow> string \<Rightarrow> opportunity \<Rightarrow> agent_run" where
  "run_row env runId opp = (run_for_outcome (lo_now env) runId (o_id opp))\<lparr>ar_mission_id := lo_mission_id env\<rparr>"

text \<open>Perception: what the agent raises is caught.\<close>

definition perceive :: "loop_env \<Rightarrow> string \<Rightarrow> opportunity \<Rightarrow> world \<Rightarrow> world" where
  "perceive env runId opp w =
     put_db (snd (analyzeOpportunity (lo_registry env) (me_time (lo_memory env)) (fst (lo_perception env))
       (snd (lo_perception env)) (lo_annotation env) runId opp (tool_db w))) w"

definition briefing_for :: "loop_env \<Rightarrow> opportunity \<Rightarrow> world \<Rightarrow> world \<Rightarrow> briefing" where
  "briefing_for env opp w0 w1 =
     \<lparr>bf_opportunity = opp, bf_score = getScoreByOpportunityId (wd_store w0) (o_id opp),
      bf_trust = (case getCustomerById (wd_store w0) (o_customer_id opp) [] of
          Some c \<Rightarrow> cu_trust_score c | None \<Rightarrow> o_customer_trust_score opp),
      bf_memories = queryEpisodicMemories (lo_memory env) (Some (o_reason_code opp)) (Some (o_created_at opp)) None
        \<lparr>ms_rows = agent_memories (wd_store w1), ms_docs = wd_docs w1\<rparr>\<rparr>"

definition initial_observation :: "opportunity \<Rightarrow> string" where
  "initial_observation opp = ''Initial: '' @ show_decline (o_decline_type opp) @ '' decline, reason='' @
     o_reason_code opp @ '', amount='' @ rupees (o_amount_paise opp) @ '', attempts='' @
     show_int (o_attempt_count opp)"

text \<open>From the score on.\<close>

definition conclude :: "loop_env \<Rightarrow> opportunity \<Rightarrow> nat \<Rightarrow> mission \<times> world \<Rightarrow> mission_outcome" where
  "conclude env opp n mw =
     (let signals = deduplicateSignals (mn_signals (fst mw))
      in case decide env opp signals mw of
           (Inl e, mw1) \<Rightarrow> (Inl e, mw1)
         | (Inr ru, mw1) \<Rightarrow>
             (case act_on env opp ru mw1 of
                (Inl e, mw2) \<Rightarrow> (Inl e, mw2)
              | (Inr rec, mw2) \<Rightarrow>
                  (case learn_from env opp n ru mw2 of
                     (Inl e, mw3) \<Rightarrow> (Inl (ME_database e), mw3)
                   | (Inr _, m, w) \<Rightarrow>
                       let v = ae_verdict (ru_evaluation ru);
                           dec = (if v = V_BLOCKED \<or> o_decline_type opp = Hard then ABSTAIN
                                  else ad_decision (ru_allocation ru));
                           count_text = show_nat n @ '' reasoning iterations'';
                           thought = (if mn_trace m = [] then [] else ro_thought (it_reasoning (last (mn_trace m))));
                           rationale = or_str thought (''Agent loop processed '' @ o_id opp @ '' with '' @
                             show_nat n @ '' iterations.'')
                       in (Inr (loop_result_of env opp m LS_completed dec v rec n rationale signals), m,
                           close_run env ''completed'' (''Agent loop completed after '' @ count_text) m w))))"

definition triggered :: "loop_env \<Rightarrow> mission \<Rightarrow> mission" where
  "triggered env m = advance env A_TRIGGERED ''OPPORTUNITY_INGESTED'' m"

definition briefed :: "loop_env \<Rightarrow> opportunity \<Rightarrow> mission \<Rightarrow> mission" where
  "briefed env opp m = advance env agent_state.A_INVESTIGATE ''BEGIN_REASONING_LOOP''
     ((advance env A_OBSERVE ''PERCEPTION_ENRICHMENT'' m)\<lparr>mn_prior := [initial_observation opp]\<rparr>)"

definition finish :: "loop_env \<Rightarrow> opportunity \<Rightarrow> loop_exit \<times> mission \<times> world \<Rightarrow> mission_outcome" where
  "finish env opp res =
     (case res of
        (Loop_killed, mw) \<Rightarrow> abort_mission env opp ''Kill switch engaged during reasoning loop.'' mw
      | (Loop_over x, mw) \<Rightarrow> budgetExceeded env opp x mw
      | (Loop_raised msg, mw) \<Rightarrow> (Inl (ME_reasoning msg), mw)
      | (Loop_done n, mw) \<Rightarrow> conclude env opp n mw)"

definition run_mission ::
  "loop_env \<Rightarrow> budget_config \<Rightarrow> int \<Rightarrow> string \<Rightarrow> string \<Rightarrow> string option \<Rightarrow> world \<Rightarrow> mission_outcome" where
  "run_mission env cfg start runId oppId tenantId w =
     (let m = new_mission runId cfg start
      in case getOpportunityByIdFor (wd_store w) oppId (or_opt tenantId []) of
           None \<Rightarrow> (Inl (ME_not_found oppId), m, w)
         | Some opp \<Rightarrow>
             (case sql_insert ar_id (run_row env runId opp) (agent_runs (wd_store w)) of
                Inl e \<Rightarrow> (Inl (ME_database e), m, w)
              | Inr runs \<Rightarrow>
                  let w0 = put_store ((wd_store w)\<lparr>agent_runs := runs\<rparr>) w; m1 = triggered env m
                  in if lo_kill env 0
                     then abort_mission env opp ''Global kill switch is active. Agent mission halted.'' (m1, w0)
                     else
                       let w1 = perceive env runId opp w0
                       in finish env opp (reasoning_loop env (briefing_for env opp w0 w1) [0..<max_loop_iterations] 0
                            (briefed env opp m1, w1))))"

section \<open>What a mission leaves alone\<close>

lemma store_put [simp]:
  "wd_store (put_store s w) = s"
  "wd_store (put_db db w) = (wd_store w)\<lparr>agent_runs := gd_runs db\<rparr>"
  "wd_store (put_log ml w) = (wd_store w)\<lparr>agent_runs := ml_runs ml\<rparr>"
  by (simp_all add: put_store_def put_db_def put_log_def)

text \<open>Neither links nor rows of opportunities, but for their status.\<close>

definition quiet :: "store \<Rightarrow> store \<Rightarrow> bool" where
  "quiet s s' \<longleftrightarrow> execution_records s' = execution_records s \<and> same_rows s s'"

lemma quiet_trans: "quiet s t \<Longrightarrow> quiet t u \<Longrightarrow> quiet s u"
  by (auto simp: quiet_def intro: same_rows_trans)

lemma quiet_runs [simp]: "quiet s s" "quiet s (s\<lparr>agent_runs := rs\<rparr>)"
  by (simp_all add: quiet_def same_rows_def)

lemma quiet_get: "quiet s s' \<Longrightarrow> map_option strip (getOpportunityById s' k) = map_option strip (getOpportunityById s k)"
proof -
  have get: "map_option strip (getOpportunityById s k) = List.find (\<lambda>o'. o_id o' = k) (map strip (opportunities s))" for s :: store
  proof -
    have "map_option strip (List.find (\<lambda>o'. o_id o' = k) os) = List.find (\<lambda>o'. o_id o' = k) (map strip os)" for os :: "opportunity list"
      by (induction os) (simp_all add: strip_def)
    then show ?thesis by (simp add: getOpportunityById_def row_get_def)
  qed
  show "quiet s s' \<Longrightarrow> ?thesis" by (simp add: get quiet_def same_rows_def)
qed

lemma quiet_exists: "quiet s s' \<Longrightarrow> getOpportunityById s k \<noteq> None \<Longrightarrow> getOpportunityById s' k \<noteq> None"
  using quiet_get [of s s' k] by (metis option.map_disc_iff)

lemma tool_quiet:
  "executeInvestigationTool env i n p opp (m, w) = (x, m', w') \<Longrightarrow> quiet (wd_store w) (wd_store w')"
  by (auto simp: executeInvestigationTool_def Let_def split: prod.splits)

lemma investigate_quiet:
  "investigate env bf i out (m, w) = (x, m', w') \<Longrightarrow> quiet (wd_store w) (wd_store w')"
  by (auto simp: investigate_def tool_quiet split: option.splits if_splits prod.splits)

lemma turn_quiet:
  assumes "reasoning_turn env bf i (m, w) = (r, m', w')"
  shows "quiet (wd_store w) (wd_store w')"
proof -
  obtain out ml where rs: "reason_step (lo_reason env i) (mn_run_id m) (turn_context bf i m) (log_of w) = (out, ml)"
    by fastforce
  have q: "quiet (wd_store w) (wd_store (put_log ml w))" by simp
  show ?thesis
  proof (cases out)
    case (Inl msg)
    then show ?thesis using assms rs by (auto simp: reasoning_turn_def Let_def)
  next
    case (Inr o')
    let ?m = "(advance env A_DIAGNOSE (step_trigger i) m)"
    obtain x m2 w2 where inv: "investigate env bf i o' (?m\<lparr>mn_signals := mn_signals ?m @ ro_signals o'\<rparr>, put_log ml w) = (x, m2, w2)"
      using prod_cases3 by blast
    with assms rs have "w' = w2" by (auto simp: reasoning_turn_def Let_def Inr)
    with quiet_trans [OF q investigate_quiet [OF inv]] show ?thesis by simp
  qed
qed

lemma loop_quiet:
  "reasoning_loop env bf is k (m, w) = (x, m', w') \<Longrightarrow> quiet (wd_store w) (wd_store w')"
proof (induction "is" arbitrary: k m w)
  case (Cons i rest)
  obtain r m1 w1 where t: "reasoning_turn env bf i (m, w) = (r, m1, w1)" using prod_cases3 by blast
  note q = turn_quiet [OF t]
  show ?case
    using Cons.prems Cons.IH [of "i + 1" m1 w1] q quiet_trans
    by (cases r) (auto simp: t split: if_splits option.splits bool.splits)
qed simp

lemma plain_call_runs: "quiet (wd_store w) (wd_store (put_db db w))"
  by simp

lemma upsertScore_quiet: "quiet s (upsertScore sc s)"
  by (simp add: quiet_def upsertScore_def same_rows_opps)

lemma market_quiet: "runMarketAllocation me opt (s, p) = (Some r, s', p') \<Longrightarrow> quiet s s'"
  by (simp add: quiet_def market_records run_same_rows)

lemma gate_quiet:
  assumes "evaluateOpportunity ge opp (Some d) (Some sc) s = Some (ev, s')" and "getOpportunityById s (o_id opp) \<noteq> None"
  shows "quiet s s'"
proof -
  define t where "t = s\<lparr>authority_checks := filter (\<lambda>c. ac_opportunity_id c \<noteq> o_id opp) (authority_checks s) @
    en_checks (registry_evaluate (ge_registry ge) (gate_context ge opp d sc))\<rparr>"
  obtain st where "s' = updateOpportunityStatus (o_id opp) st t"
    using evaluate_given [OF assms(2), of ge d sc] assms(1) by (auto simp: t_def)
  moreover have "same_rows s t" by (intro same_rows_opps) (simp_all add: t_def)
  ultimately have "same_rows s s'" using same_rows_updateStatus same_rows_trans by blast
  then show ?thesis using gate_effect(7) [OF assms] by (simp add: quiet_def)
qed

lemma allocate_quiet:
  assumes "allocate env opts alloc sc w = (r, w')"
  shows "execution_records (wd_store w') = execution_records (wd_store w)"
    and "r = Inr al \<Longrightarrow> quiet (wd_store w) (wd_store w')"
proof -
  let ?s = "upsertScore sc (wd_store w)"
  obtain run s2 p2 where run: "runMarketAllocation (ge_market (lo_gate env)) opts (?s, wd_pacer w) = (run, s2, p2)"
    using prod_cases3 by blast
  have "execution_records s2 = execution_records (wd_store w)"
    using market_records [OF run] upsertScore_quiet [of "wd_store w" sc] by (simp add: quiet_def)
  then show "execution_records (wd_store w') = execution_records (wd_store w)"
    using assms run by (auto simp: allocate_def upsertAllocationDecision_def split: option.splits)
  show "quiet (wd_store w) (wd_store w')" if ok: "r = Inr al"
  proof -
    obtain x where x: "run = Some x" using assms run ok by (cases run) (auto simp: allocate_def)
    then have "quiet (wd_store w) (upsertAllocationDecision (alloc x) s2)"
      using quiet_trans [OF upsertScore_quiet market_quiet [OF run [unfolded x]]]
      by (simp add: quiet_def upsertAllocationDecision_def same_rows_def)
    then show ?thesis using assms run x by (auto simp: allocate_def)
  qed
qed

lemma rule_on_quiet:
  assumes "rule_on env opp al sc w = (r, w')" and "getOpportunityById (wd_store w) (o_id opp) \<noteq> None"
  shows "quiet (wd_store w) (wd_store w')"
proof -
  obtain ev s where ev: "evaluateOpportunity (lo_gate env) opp (Some al) (Some sc) (wd_store w) = Some (ev, s)"
    using evaluate_given [OF assms(2)] by blast
  then show ?thesis using assms gate_quiet [OF ev assms(2)] by (auto simp: rule_on_def)
qed

lemma allocate_and_rule_quiet:
  assumes "allocate env opts alloc sc w = (Inr al, w1)" and "rule_on env opp al sc w1 = (r, w')"
    and "getOpportunityById (wd_store w) (o_id opp) \<noteq> None"
  shows "quiet (wd_store w) (wd_store w')"
  using allocate_quiet(2) [OF assms(1) refl] rule_on_quiet [OF assms(2)] assms(3) quiet_exists quiet_trans by blast

lemma decide_quiet:
  assumes "decide env opp signals (m, w) = (r, m', w')" and "getOpportunityById (wd_store w) (o_id opp) \<noteq> None"
  shows "execution_records (wd_store w') = execution_records (wd_store w) \<and>
    ((\<exists>ru. r = Inr ru) \<longrightarrow> quiet (wd_store w) (wd_store w'))"
proof (cases "score_mission env opp signals")
  case None
  then show ?thesis using assms by (simp add: decide_def Let_def)
next
  case (Some b)
  obtain a w2 where a: "allocate env (market_options_for opp) (allocation_for opp) (bg_score b) w = (a, w2)" by fastforce
  show ?thesis
  proof (cases a)
    case (Inl e)
    then show ?thesis using assms(1) Some a allocate_quiet(1) [OF a] by (auto simp: decide_def Let_def)
  next
    case (Inr al)
    then have "rule_on env opp al (bg_score b) w2 = (r, w')"
      using assms(1) Some a by (auto simp: decide_def Let_def split: prod.splits)
    from allocate_and_rule_quiet [OF a [unfolded Inr] this assms(2)] show ?thesis by (simp add: quiet_def)
  qed
qed

lemma execute_hard:
  assumes "getOpportunityById (xs_store st) oid = Some opp" and "ge_registry (xe_gate xe) = default_registry"
    and "o_decline_type opp = Hard \<or> 3 \<le> o_attempt_count opp" and "executeOpportunity xe oid st = (r, st')"
  shows "execution_records (xs_store st') = execution_records (xs_store st)"
  using execute_stages [OF assms(1,2,4)] assms(3) by (auto simp: exec_authorized_def admissible_def)

lemma draft_for_records [simp]:
  "execution_records (wd_store (snd (draft_for env runId opp r w))) = execution_records (wd_store w)"
  by (simp add: draft_for_def split: prod.split)

lemma act_linked:
  assumes "act_on env opp ru (m, w) = (r, m', w')" and "ge_registry (xe_gate (lo_exec env)) = default_registry"
  shows "linked (wd_store w') \<subseteq> insert (o_id opp) (linked (wd_store w))"
    and "getOpportunityById (wd_store w) (o_id opp) = Some o' \<Longrightarrow> o_decline_type o' = Hard \<or> 3 \<le> o_attempt_count o' \<Longrightarrow>
      execution_records (wd_store w') = execution_records (wd_store w)"
proof -
  obtain x xs where x: "executeOpportunity (lo_exec env) (o_id opp) (wd_exec w) = (x, xs)" by fastforce
  have "execution_records (wd_store w') = execution_records (wd_store w) \<or>
      execution_records (wd_store w') = execution_records (xs_store xs)"
    using assms(1) x
    by (cases x) (auto simp: act_on_def Let_def updateOpportunityStatus_def split: if_splits option.splits)
  then show "linked (wd_store w') \<subseteq> insert (o_id opp) (linked (wd_store w))"
    using execute_linked [OF assms(2) x] linked_cong by blast
  show "getOpportunityById (wd_store w) (o_id opp) = Some o' \<Longrightarrow> o_decline_type o' = Hard \<or> 3 \<le> o_attempt_count o' \<Longrightarrow>
      execution_records (wd_store w') = execution_records (wd_store w)"
    using execute_hard [OF _ assms(2) _ x] \<open>_ \<or> _\<close> by auto
qed

lemma insertAgentOutcome_records: "execution_records (snd (insertAgentOutcome now oc s)) = execution_records s"
  by (auto simp: insertAgentOutcome_def ensure_run_def Let_def split: sum.splits)

lemma record_in_store_records: "execution_records (fst (snd (record_in_store me ep (s, docs)))) = execution_records s"
  by (auto simp: record_in_store_def split: sum.splits)

lemma evaluateOutcome_records:
  "evaluateOutcome lv oc (s, docs) = (r, s', docs') \<Longrightarrow> execution_records s' = execution_records s"
  using insertAgentOutcome_records [of "me_now (lv_memory lv)" "outcome_record lv oc (getScoreByOpportunityId s (oc_opportunityId oc))" s]
  by (auto simp: evaluateOutcome_def Let_def split: sum.splits prod.splits if_splits)
     (metis fst_conv record_in_store_records snd_conv)+

lemma learn_records:
  assumes "learn_from env opp n ru (m, w) = (r, m', w')"
  shows "execution_records (wd_store w') = execution_records (wd_store w)"
proof -
  obtain x s1 docs1 where e: "evaluateOutcome (lo_learn env)
      (reported_outcome (mn_run_id m) opp (ae_verdict (ru_evaluation ru))) (wd_store w, wd_docs w) = (x, s1, docs1)"
    using prod_cases3 by blast
  obtain y s2 docs2 where r: "record_in_store (lo_memory env) (mission_episode (mn_run_id m) opp n ru) (s1, docs1) = (y, s2, docs2)"
    using prod_cases3 by blast
  have "execution_records s2 = execution_records s1"
    using record_in_store_records [of "lo_memory env" "mission_episode (mn_run_id m) opp n ru" s1 docs1] by (simp add: r)
  then show ?thesis
    using assms e r evaluateOutcome_records [OF e]
    by (cases x; cases y) (auto simp: learn_from_def Let_def advance_def go_def)
qed

lemma close_run_records [simp]: "execution_records (wd_store (close_run env st reason m w)) = execution_records (wd_store w)"
  by (simp add: close_run_def Let_def)

text \<open>What a conclusion may do to the links, given the row of its opportunity.\<close>

definition contained :: "string \<Rightarrow> store \<Rightarrow> store \<Rightarrow> bool" where
  "contained oid s s' \<longleftrightarrow> linked s' \<subseteq> insert oid (linked s) \<and>
     (\<forall>o'. getOpportunityById s oid = Some o' \<and> (o_decline_type o' = Hard \<or> 3 \<le> o_attempt_count o') \<longrightarrow>
        execution_records s' = execution_records s)"

lemma contained_records: "execution_records s' = execution_records s \<Longrightarrow> contained oid s s'"
  by (auto simp: contained_def linked_def)

lemma contained_quiet: "quiet s t \<Longrightarrow> contained oid t u \<Longrightarrow> contained oid s u"
proof -
  assume q: "quiet s t" and c: "contained oid t u"
  have "linked t = linked s" using q by (simp add: quiet_def linked_def)
  moreover have "\<exists>o2. getOpportunityById t oid = Some o2 \<and> o_decline_type o2 = o_decline_type o1 \<and>
      o_attempt_count o2 = o_attempt_count o1" if "getOpportunityById s oid = Some o1" for o1
    using quiet_get [OF q, of oid] that
    by (cases "getOpportunityById t oid") (auto simp: strip_def dest: arg_cong [of _ _ o_decline_type] arg_cong [of _ _ o_attempt_count])
  ultimately show ?thesis using q c by (fastforce simp: contained_def quiet_def)
qed

lemma conclude_contained:
  assumes "conclude env opp n (m, w) = (r, m', w')" and "ge_registry (xe_gate (lo_exec env)) = default_registry"
    and "getOpportunityById (wd_store w) (o_id opp) \<noteq> None"
  shows "contained (o_id opp) (wd_store w) (wd_store w')"
proof -
  let ?sig = "deduplicateSignals (mn_signals m)"
  obtain d m1 w1 where d: "decide env opp ?sig (m, w) = (d, m1, w1)" using prod_cases3 by blast
  note dq = decide_quiet [OF d assms(3)]
  show ?thesis
  proof (cases d)
    case (Inl e)
    then show ?thesis using assms(1) d dq by (simp add: conclude_def contained_records)
  next
    case (Inr ru)
    obtain a m2 w2 where a: "act_on env opp ru (m1, w1) = (a, m2, w2)" using prod_cases3 by blast
    have c2: "contained (o_id opp) (wd_store w1) (wd_store w2)"
      using act_linked [OF a assms(2)] by (auto simp: contained_def)
    have "execution_records (wd_store w') = execution_records (wd_store w2)"
    proof (cases a)
      case (Inl e)
      then show ?thesis using assms(1) d \<open>d = Inr ru\<close> a by (simp add: conclude_def)
    next
      case (Inr rec)
      obtain l m3 w3 where l: "learn_from env opp n ru (m2, w2) = (l, m3, w3)" using prod_cases3 by blast
      then show ?thesis
        using assms(1) d \<open>d = Inr ru\<close> a Inr learn_records [OF l]
        by (cases l) (simp_all add: conclude_def Let_def, auto)
    qed
    then have "contained (o_id opp) (wd_store w1) (wd_store w')"
      using c2 by (simp add: contained_def linked_def)
    then show ?thesis using dq Inr contained_quiet by blast
  qed
qed

lemma found_id: "getOpportunityByIdFor s oid tid = Some opp \<Longrightarrow> o_id opp = oid \<and> getOpportunityById s oid \<noteq> None"
proof -
  assume get: "getOpportunityByIdFor s oid tid = Some opp"
  then have "opp \<in> set (opportunities s)" "o_id opp = oid"
    by (auto simp: getOpportunityByIdFor_def getOpportunityById_def row_get_def find_Some_iff split: if_splits)
  then show ?thesis by (auto simp: getOpportunityById_def row_get_None)
qed

text \<open>How a mission ends: it does not start, it aborts at once, or it runs the loop.\<close>

lemma mission_stages:
  assumes "run_mission env cfg start runId oid tid w = (r, m, w')"
  shows "(\<exists>e. r = Inl e) \<and> w' = w \<or>
    (\<exists>opp w1 m1. lo_kill env 0 \<and> m1 = triggered env (new_mission runId cfg start) \<and> quiet (wd_store w) (wd_store w1) \<and>
       abort_mission env opp ''Global kill switch is active. Agent mission halted.'' (m1, w1) = (r, m, w')) \<or>
    (\<exists>opp bf w1 x m4 w4. \<not> lo_kill env 0 \<and> o_id opp = oid \<and> getOpportunityById (wd_store w) oid \<noteq> None \<and>
       reasoning_loop env bf [0..<max_loop_iterations] 0
         (briefed env opp (triggered env (new_mission runId cfg start)), w1) = (x, m4, w4) \<and>
       quiet (wd_store w) (wd_store w4) \<and> finish env opp (x, m4, w4) = (r, m, w'))"
proof (cases "getOpportunityByIdFor (wd_store w) oid (or_opt tid [])")
  case None
  then show ?thesis using assms by (auto simp: run_mission_def Let_def)
next
  case (Some opp)
  show ?thesis
  proof (cases "sql_insert ar_id (run_row env runId opp) (agent_runs (wd_store w))")
    case (Inl e)
    then show ?thesis using assms Some by (auto simp: run_mission_def Let_def)
  next
    case (Inr runs)
    let ?w0 = "put_store ((wd_store w)\<lparr>agent_runs := runs\<rparr>) w"
    let ?w1 = "perceive env runId opp ?w0"
    obtain x m4 w4 where l: "reasoning_loop env (briefing_for env opp ?w0 ?w1) [0..<max_loop_iterations] 0
        (briefed env opp (triggered env (new_mission runId cfg start)), ?w1) = (x, m4, w4)"
      using prod_cases3 by blast
    have "quiet (wd_store w) (wd_store ?w1)" by (simp add: perceive_def quiet_def same_rows_def)
    with loop_quiet [OF l] have q: "quiet (wd_store w) (wd_store w4)" by (blast intro: quiet_trans)
    have q0: "quiet (wd_store w) (wd_store ?w0)" by simp
    show ?thesis
    proof (cases "lo_kill env 0")
      case True
      have "abort_mission env opp ''Global kill switch is active. Agent mission halted.''
          (triggered env (new_mission runId cfg start), ?w0) = (r, m, w')"
        using assms Some Inr True by (simp add: run_mission_def Let_def)
      with True q0 show ?thesis by blast
    next
      case False
      have "finish env opp (x, m4, w4) = (r, m, w')"
        using assms Some Inr False l by (simp add: run_mission_def Let_def)
      with False l q found_id [OF Some] show ?thesis by blast
    qed
  qed
qed

text \<open>
  C11. A mission is contained, whatever the models and the tools answer: the only link it can create
  is for its own opportunity, it creates none for a hard decline or for one that has reached the
  retry cap, and under the kill switch it aborts and creates none at all.
\<close>

theorem mission_contained:
  assumes "ge_registry (xe_gate (lo_exec env)) = default_registry"
    and "run_mission env cfg start runId oid tid w = (r, m, w')"
  shows "linked (wd_store w') \<subseteq> insert oid (linked (wd_store w)) \<and>
     (\<forall>o'. getOpportunityById (wd_store w) oid = Some o' \<and> (o_decline_type o' = Hard \<or> 3 \<le> o_attempt_count o') \<longrightarrow>
        execution_records (wd_store w') = execution_records (wd_store w)) \<and>
     (lo_kill env 0 \<longrightarrow> execution_records (wd_store w') = execution_records (wd_store w) \<and>
        (\<forall>x. r = Inr x \<longrightarrow> lr_status x = LS_aborted \<and> lr_final_decision x = ABSTAIN))"
proof -
  from mission_stages [OF assms(2)] consider
      (none) e where "r = Inl e" "w' = w"
    | (killed) opp m1 w1 where "lo_kill env 0" "quiet (wd_store w) (wd_store w1)"
        "abort_mission env opp ''Global kill switch is active. Agent mission halted.'' (m1, w1) = (r, m, w')"
    | (loop) opp x m4 w4 where "\<not> lo_kill env 0" "o_id opp = oid" "getOpportunityById (wd_store w) oid \<noteq> None"
        "quiet (wd_store w) (wd_store w4)" "finish env opp (x, m4, w4) = (r, m, w')"
    by blast
  then have "contained oid (wd_store w) (wd_store w') \<and>
     (lo_kill env 0 \<longrightarrow> execution_records (wd_store w') = execution_records (wd_store w) \<and>
        (\<forall>x. r = Inr x \<longrightarrow> lr_status x = LS_aborted \<and> lr_final_decision x = ABSTAIN))"
  proof cases
    case none
    then show ?thesis by (simp add: contained_records)
  next
    case killed
    then show ?thesis by (auto simp: abort_mission_def loop_result_of_def quiet_def contained_records Let_def)
  next
    case loop
    then have same: "execution_records (wd_store w4) = execution_records (wd_store w)" by (simp add: quiet_def)
    show ?thesis
    proof (cases x)
      case (Loop_done n)
      have "getOpportunityById (wd_store w4) (o_id opp) \<noteq> None" using quiet_exists loop by metis
      then have "contained oid (wd_store w4) (wd_store w')"
        using conclude_contained assms(1) loop Loop_done by (simp add: finish_def) blast
      then show ?thesis using contained_quiet loop by blast
    qed (use loop same in \<open>auto simp: finish_def abort_mission_def budgetExceeded_def Let_def contained_records\<close>)
  qed
  then show ?thesis by (auto simp: contained_def)
qed

section \<open>Bounds of a mission, and the state it ends in\<close>

definition llm_calls :: "budget_tracker \<Rightarrow> int" where "llm_calls b = us_llm_calls (bt_usage b)"

lemma count_no_llm [simp]:
  "llm_calls (snd (recordStep now b)) = llm_calls b" "llm_calls (snd (recordToolCall now b)) = llm_calls b"
  "llm_calls (new_tracker cfg now) = 0"
  by (simp_all add: llm_calls_def recordStep_def recordToolCall_def new_tracker_def Let_def)

lemma executeTool_no_llm:
  assumes "executeTool sha se tools c \<lparr>ts_db = db, ts_budget = Some b, ts_guard = g\<rparr> = (r, st)"
  shows "\<exists>b'. ts_budget st = Some b' \<and> llm_calls b' = llm_calls b"
proof -
  have hf: "ts_budget (snd (handler_failed sha c tool msg s)) = ts_budget s" for tool msg s
    by (simp add: handler_failed_def guard_record_def Let_def split: sum.split)
  have rh: "ts_budget (snd (run_handler sha se c tool s)) = ts_budget s" for tool s
    using hf by (simp add: run_handler_def guard_record_def split: handler_outcome.split sum.split)
  have "ts_budget (snd (executeTool sha se tools c \<lparr>ts_db = db, ts_budget = Some b, ts_guard = g\<rparr>)) \<in>
      {Some b, Some (snd (recordToolCall (gc_budget_ms (cl_clock c)) b))}"
    by (simp add: executeTool_def Let_def guard_record_def rh split: option.split sum.split prod.split)
  then show ?thesis unfolding assms by auto
qed

text \<open>Where the mission is after \<open>k\<close> turns.\<close>

definition after_turns :: "nat \<Rightarrow> mission \<Rightarrow> bool" where
  "after_turns k m \<longleftrightarrow> llm_calls (mn_budget m) = 0 \<and> (\<forall>s \<in> set (mn_signals m). bounded_signal s) \<and>
     mn_signals m = concat (map (ro_signals \<circ> it_reasoning) (mn_trace m)) \<and>
     map it_iteration (mn_trace m) = [1..<k + 1] \<and>
     (\<forall>t \<in> set (mn_trace m). it_tool t \<noteq> None \<longrightarrow> it_iteration t \<le> 2) \<and>
     am_current (mn_machine m) = (if k = 0 then agent_state.A_INVESTIGATE else A_DIAGNOSE)"

lemma go_current:
  "am_current (mn_machine (go st tr m)) =
     (if st \<in> set (VALID_STATE_TRANSITIONS (am_current (mn_machine m))) then st else am_current (mn_machine m))"
  by (simp add: go_def transition_def canTransitionTo_def)

lemma go_frame [simp]:
  "mn_budget (go st tr m) = mn_budget m" "mn_signals (go st tr m) = mn_signals m"
  "mn_trace (go st tr m) = mn_trace m" "mn_run_id (go st tr m) = mn_run_id m"
  by (simp_all add: go_def)

lemma advance_frame [simp]:
  "llm_calls (mn_budget (advance env st tr m)) = llm_calls (mn_budget m)"
  "mn_signals (advance env st tr m) = mn_signals m" "mn_trace (advance env st tr m) = mn_trace m"
  "am_current (mn_machine (advance env st tr m)) = am_current (mn_machine (go st tr m))"
  by (simp_all add: advance_def)

lemma briefed_after: "after_turns 0 (briefed env opp (triggered env (new_mission runId cfg start)))"
  by (simp add: after_turns_def briefed_def triggered_def new_mission_def go_current new_agent_machine_def)

lemma investigate_frame:
  assumes "investigate env bf i out (m, w) = (tool, m', w')" and "am_current (mn_machine m) = A_DIAGNOSE"
  shows "llm_calls (mn_budget m') = llm_calls (mn_budget m) \<and> mn_signals m' = mn_signals m \<and>
    mn_trace m' = mn_trace m \<and> am_current (mn_machine m') = A_DIAGNOSE \<and>
    (tool \<noteq> None \<longrightarrow> ro_should_continue out)"
proof (cases "tool = None")
  case True
  then show ?thesis using assms by (auto simp: investigate_def split: option.splits if_splits prod.splits)
next
  case False
  then obtain c where c: "ro_tool_choice out = Some c" "ro_should_continue out"
    using assms(1) by (auto simp: investigate_def split: option.splits if_splits)
  obtain s m1 w1 where x: "executeInvestigationTool env i (ch_tool_name c) (ch_params c) (bf_opportunity bf) (m, w) = (s, m1, w1)"
    using prod_cases3 by blast
  let ?m = "(go A_OBSERVE (''TOOL_CALL_'' @ ch_tool_name c) m)\<lparr>mn_budget := snd (recordToolCall (lo_clock env 0) (mn_budget m))\<rparr>"
  obtain r st where e: "executeTool (rg_sha (lo_registry env)) (rg_show_error (lo_registry env)) (rg_tools (lo_registry env))
      (call_of (lo_call env i) (ch_tool_name c) (mn_run_id m) AgentOrchestrator
        (set_member ''opportunity_id'' (JStr (o_id (bf_opportunity bf))) (spread_json (ch_params c))) (lo_environment env))
      \<lparr>ts_db = tool_db w, ts_budget = Some (mn_budget ?m), ts_guard = Some (mn_guard ?m)\<rparr> = (r, st)" by fastforce
  obtain b' where b': "ts_budget st = Some b'" "llm_calls b' = llm_calls (mn_budget m)"
    using executeTool_no_llm [OF e] by auto
  have "mn_budget m1 = b'" "mn_signals m1 = mn_signals m" "mn_trace m1 = mn_trace m"
      "\<exists>tr. mn_machine m1 = mn_machine (go A_OBSERVE tr m)"
    using x e b' by (auto simp: executeInvestigationTool_def Let_def)
  moreover have "am_current (mn_machine (go A_OBSERVE tr m)) = A_DIAGNOSE" for tr
    using assms(2) by (simp add: go_current)
  ultimately show ?thesis using assms(1) x c b' by (auto simp: investigate_def)
qed

lemma turn_after:
  assumes "reasoning_turn env bf i (m, w) = (Inr b, m', w')" and "after_turns i m"
  shows "after_turns (i + 1) m' \<and> (b \<longrightarrow> i < 2)"
proof -
  obtain out ml where rs: "reason_step (lo_reason env i) (mn_run_id m) (turn_context bf i m) (log_of w) = (Inr out, ml)"
    using assms(1) by (auto simp: reasoning_turn_def Let_def split: prod.splits sum.splits)
  note sound = reasoning_step_sound [OF rs]
  have i: "rx_iteration (turn_context bf i m) = i" by (simp add: turn_context_def)
  define m1 where "m1 = advance env A_DIAGNOSE (step_trigger i) m"
  define m2 where "m2 = m1\<lparr>mn_signals := mn_signals m1 @ ro_signals out\<rparr>"
  have m2: "am_current (mn_machine m2) = A_DIAGNOSE" "llm_calls (mn_budget m2) = llm_calls (mn_budget m)"
    "mn_signals m2 = mn_signals m @ ro_signals out" "mn_trace m2 = mn_trace m"
    using assms(2) by (auto simp: m2_def m1_def go_current after_turns_def split: if_splits)
  obtain tool m3 w3 where inv: "investigate env bf i out (m2, put_log ml w) = (tool, m3, w3)"
    using prod_cases3 by blast
  note f = investigate_frame [OF inv m2(1)]
  have m': "m' = m3\<lparr>mn_trace := mn_trace m3 @ [iteration_row env i out tool m3]\<rparr>" "b = ro_should_continue out"
    using assms(1) rs inv by (simp_all add: reasoning_turn_def Let_def m1_def m2_def)
  have row: "it_iteration (iteration_row env i out tool m3) = Suc i" "it_tool (iteration_row env i out tool m3) = tool"
    "it_reasoning (iteration_row env i out tool m3) = out"
    by (simp_all add: iteration_row_def)
  have "tool \<noteq> None \<Longrightarrow> Suc i \<le> 2" using f sound i by auto
  then show ?thesis
    using assms(2) f m2 sound i by (auto simp: after_turns_def m' row)
qed

lemma loop_after:
  assumes "reasoning_loop env bf [i..<3] i (m, w) = (x, m', w')" and "after_turns i m" and "i \<le> 3"
  shows "(\<forall>n. x = Loop_done n \<longrightarrow> after_turns n m' \<and> n \<le> 3 \<and> i \<le> n \<and> (i < 3 \<longrightarrow> i < n)) \<and>
    ((\<exists>b. x = Loop_over b) \<or> x = Loop_killed \<longrightarrow> (\<exists>k \<le> 3. after_turns k m'))"
  using assms
proof (induction "3 - i" arbitrary: i m w)
  case 0
  then show ?case by auto
next
  case (Suc d)
  then have i: "i < 3" "[i..<3] = i # [Suc i..<3]" by (simp_all add: upt_conv_Cons)
  show ?case
  proof (cases "lo_kill env (i + 1) \<or> checkBudgets (lo_clock env (i + 1)) (mn_budget m) \<noteq> None")
    case True
    then have "m' = m" "x \<noteq> Loop_done n" for n using Suc.prems(1) by (auto simp: i split: if_splits option.splits)
    then show ?thesis using Suc.prems by auto
  next
    case False
    obtain r m1 w1 where t: "reasoning_turn env bf i (m, w) = (r, m1, w1)" using prod_cases3 by blast
    show ?thesis
    proof (cases r)
      case (Inl msg)
      then show ?thesis using Suc.prems(1) False t by (auto simp: i)
    next
      case (Inr b)
      note a = turn_after [OF t [unfolded Inr] Suc.prems(2)]
      show ?thesis
      proof (cases b)
        case True
        have "reasoning_loop env bf [Suc i..<3] (Suc i) (m1, w1) = (x, m', w')"
          using Suc.prems(1) False t Inr True by (auto simp: i)
        moreover have "d = 3 - Suc i" using Suc.hyps(2) by simp
        ultimately have "(\<forall>n. x = Loop_done n \<longrightarrow> after_turns n m' \<and> n \<le> 3 \<and> Suc i \<le> n) \<and>
            ((\<exists>b. x = Loop_over b) \<or> x = Loop_killed \<longrightarrow> (\<exists>k \<le> 3. after_turns k m'))"
          using Suc.hyps(1) [of "Suc i" m1 w1] a i by auto
        then show ?thesis by auto
      next
        case False
        then have "x = Loop_done (Suc i)" "m' = m1"
          using Suc.prems(1) \<open>\<not> (lo_kill env (i + 1) \<or> _)\<close> t Inr by (auto simp: i)
        then show ?thesis using a i by auto
      qed
    qed
  qed
qed

text \<open>What a mission keeps from the loop on.\<close>

definition kept :: "mission \<Rightarrow> mission \<Rightarrow> bool" where
  "kept m m' \<longleftrightarrow> llm_calls (mn_budget m') = llm_calls (mn_budget m) \<and> mn_signals m' = mn_signals m \<and>
     mn_trace m' = mn_trace m"

lemma kept_intros [simp]: "kept m m" "kept m (advance env st tr m') = kept m m'" "kept m (go st tr m') = kept m m'"
  by (simp_all add: kept_def)

lemma decide_frame:
  assumes "decide env opp signals (m, w) = (Inr ru, m', w')" and "am_current (mn_machine m) = A_DIAGNOSE"
  shows "kept m m' \<and> am_current (mn_machine m') = A_PLAN"
proof -
  have "\<exists>t1 t2 t3. m' = advance env A_WAIT_AUTHORITY t1 (advance env A_PLAN t2 (advance env A_HYPOTHESIZE t3 m))"
    using assms(1) by (auto simp: decide_def Let_def split: option.splits prod.splits sum.splits)
  then show ?thesis using assms(2) by (auto simp: go_current)
qed

lemma act_frame:
  assumes "act_on env opp ru (m, w) = (Inr rec, m', w')" and "am_current (mn_machine m) = A_PLAN"
  shows "kept m m' \<and> am_current (mn_machine m') = A_PLAN"
proof -
  obtain r xs where "executeOpportunity (lo_exec env) (o_id opp) (wd_exec w) = (r, xs)" by fastforce
  then have "m' = m \<or> (\<exists>t. m' = advance env A_EXECUTE t m)"
    using assms(1) by (cases r) (auto simp: act_on_def Let_def split: if_splits option.splits)
  then show ?thesis using assms(2) by (auto simp: go_current)
qed

lemma learn_frame:
  assumes "learn_from env opp n ru (m, w) = (Inr u, m', w')" and "am_current (mn_machine m) = A_PLAN"
  shows "kept m m' \<and> am_current (mn_machine m') = A_PLAN"
proof -
  have "\<exists>t1 t2 t3 t4. m' = go A_COMPLETE t1 (advance env A_MEMORY_UPDATE t2 (advance env A_LEARN t3 (advance env A_OBSERVE_OUTCOME t4 m)))"
    using assms(1) by (auto simp: learn_from_def Let_def split: sum.splits prod.splits)
  then show ?thesis using assms(2) by (auto simp: go_current)
qed

lemma conclude_frame:
  assumes "conclude env opp n (m, w) = (Inr x, m', w')" and "am_current (mn_machine m) = A_DIAGNOSE"
  shows "kept m m' \<and> am_current (mn_machine m') = A_PLAN \<and> lr_trace x = mn_trace m \<and> lr_iterations x = n \<and>
    lr_llm_calls x = llm_calls (mn_budget m) \<and> lr_signals x = deduplicateSignals (mn_signals m) \<and>
    lr_status x = LS_completed"
proof -
  obtain ru m1 w1 where d: "decide env opp (deduplicateSignals (mn_signals m)) (m, w) = (Inr ru, m1, w1)"
    using assms(1) by (auto simp: conclude_def Let_def split: sum.splits prod.splits)
  obtain rec m2 w2 where a: "act_on env opp ru (m1, w1) = (Inr rec, m2, w2)"
    using assms(1) d by (auto simp: conclude_def Let_def split: sum.splits prod.splits)
  obtain u m3 w3 where l: "learn_from env opp n ru (m2, w2) = (Inr u, m3, w3)"
    using assms(1) d a by (auto simp: conclude_def Let_def split: sum.splits prod.splits)
  note f1 = decide_frame [OF d assms(2)]
  note f2 = act_frame [OF a conjunct2 [OF f1]]
  note f3 = learn_frame [OF l conjunct2 [OF f2]]
  have x: "m' = m3" "lr_trace x = mn_trace m3" "lr_iterations x = n" "lr_llm_calls x = llm_calls (mn_budget m3)"
    "lr_signals x = deduplicateSignals (mn_signals m)" "lr_status x = LS_completed"
    using assms(1) d a l by (auto simp: conclude_def loop_result_of_def llm_calls_def Let_def)
  show ?thesis using f1 f2 f3 by (simp add: x kept_def)
qed

lemma row_put_replace_set: "set (row_put key replace_merge r rows) \<subseteq> insert r (set rows)"
  by (induction rows) (auto simp: replace_merge_def)

lemma row_put_replace_other: "e \<in> set rows \<Longrightarrow> key e \<noteq> key r \<Longrightarrow> e \<in> set (row_put key replace_merge r rows)"
  by (induction rows) auto

lemma row_put_replace_mem: "r \<in> set (row_put key replace_merge r rows)"
  by (induction rows) (auto simp: replace_merge_def)

text \<open>The strongest signal of every name, once.\<close>

definition strongest :: "signal list \<Rightarrow> signal list \<Rightarrow> bool" where
  "strongest ss best \<longleftrightarrow> set best \<subseteq> set ss \<and> distinct (map si_name best) \<and>
     (\<forall>s \<in> set ss. \<exists>e \<in> set best. si_name e = si_name s \<and> si_confidence s \<le> si_confidence e)"

lemma deduplicate_strongest: "strongest ss (deduplicateSignals ss)"
proof -
  have step: "strongest (seen @ [s]) (keep_strongest s best)" if b: "strongest seen best" for seen s best
  proof (cases "row_get si_name (si_name s) best")
    case None
    then have "si_name s \<notin> si_name ` set best" by (simp add: row_get_None)
    with b show ?thesis by (auto simp: strongest_def keep_strongest_def None)
  next
    case (Some e)
    then have e: "e \<in> set best" "si_name e = si_name s" by (auto dest: row_get_Some)
    show ?thesis
    proof (cases "si_confidence e < si_confidence s")
      case True
      have "\<exists>e' \<in> set (row_put si_name replace_merge s best). si_name e' = si_name x \<and> si_confidence x \<le> si_confidence e'"
        if x: "x \<in> set (seen @ [s])" for x
      proof (cases "si_name x = si_name s")
        case same: True
        have "si_confidence x \<le> si_confidence s"
        proof (cases "x = s")
          case False
          then obtain y where "y \<in> set best" "si_name y = si_name x" "si_confidence x \<le> si_confidence y"
            using b x by (auto simp: strongest_def)
          moreover have "inj_on si_name (set best)" using b by (simp add: strongest_def distinct_map)
          then have "y = e" using calculation same e by (auto simp: inj_on_def)
          ultimately show ?thesis using True by simp
        qed simp
        then show ?thesis using same row_put_replace_mem by metis
      next
        case False
        then obtain y where "y \<in> set best" "si_name y = si_name x" "si_confidence x \<le> si_confidence y"
          using b x by (auto simp: strongest_def)
        then show ?thesis using False row_put_replace_other by metis
      qed
      moreover have "distinct (map si_name (row_put si_name replace_merge s best))"
        using b by (intro row_put_distinct) (auto simp: strongest_def replace_merge_def)
      moreover have "set (row_put si_name replace_merge s best) \<subseteq> set (seen @ [s])"
        using row_put_replace_set [of si_name s best] b by (auto simp: strongest_def)
      ultimately show ?thesis by (simp add: strongest_def keep_strongest_def Some True)
    next
      case False
      then show ?thesis using b e by (fastforce simp: strongest_def keep_strongest_def Some)
    qed
  qed
  have "strongest (seen @ xs) (fold keep_strongest xs best)" if "strongest seen best" for seen xs best
    using that
  proof (induction xs arbitrary: seen best)
    case (Cons x xs)
    from Cons.IH [OF step [OF Cons.prems]] show ?case by simp
  qed simp
  from this [of "[]" "[]" ss] show ?thesis by (simp add: deduplicateSignals_def keep_strongest_def strongest_def)
qed

text \<open>
  C13. A mission that returns has done at most three reasoning steps, numbered in order, with a tool
  only in the first two; the signals it reports are recognised and in range; it has counted no
  call of a model; and a completed one reports the strongest signal of every name: each reported
  signal came from one of its reasoning steps, no name occurs twice, and no signal of any step has
  more confidence than the reported one of its name.  A completed mission has left its state machine
  in \<^verbatim>\<open>PLAN\<close>: none of the states from the authority gate to completion is ever entered.
\<close>

theorem mission_bounded:
  assumes "run_mission env cfg start runId oid tid w = (Inr x, m, w')"
  shows "length (lr_trace x) \<le> 3 \<and> map it_iteration (lr_trace x) = [1..<Suc (length (lr_trace x))] \<and>
     (\<forall>t \<in> set (lr_trace x). it_tool t \<noteq> None \<longrightarrow> it_iteration t \<le> 2) \<and>
     (\<forall>s \<in> set (lr_signals x). bounded_signal s) \<and> lr_llm_calls x = 0 \<and>
     (lr_status x = LS_completed \<longrightarrow> lr_iterations x = length (lr_trace x) \<and> 0 < lr_iterations x \<and>
        strongest (concat (map (ro_signals \<circ> it_reasoning) (lr_trace x))) (lr_signals x) \<and>
        am_current (mn_machine m) = A_PLAN)"
proof -
  have three: "max_loop_iterations = 3" by (simp add: max_loop_iterations_def)
  let ?m0 = "triggered env (new_mission runId cfg start)"
  have len: "map it_iteration tr = [1..<k + 1] \<Longrightarrow> length tr = k" for tr :: "loop_iteration list" and k
    by (drule arg_cong [of _ _ length]) (simp del: upt_Suc)
  have kill: "lr_trace x = mn_trace m1 \<and> lr_signals x = [] \<and> lr_llm_calls x = llm_calls (mn_budget m1) \<and> lr_status x = LS_aborted"
    if "abort_mission env opp reason (m1, w1) = (Inr x, m, w')" for opp reason m1 w1
    using that by (auto simp: abort_mission_def loop_result_of_def llm_calls_def Let_def)
  consider (killed) opp m1 w1 where "m1 = ?m0"
        "abort_mission env opp ''Global kill switch is active. Agent mission halted.'' (m1, w1) = (Inr x, m, w')"
    | (loop) opp bf w1 e m4 w4 where "reasoning_loop env bf [0..<3] 0 (briefed env opp ?m0, w1) = (e, m4, w4)"
        "finish env opp (e, m4, w4) = (Inr x, m, w')"
    using mission_stages [OF assms] unfolding three by blast
  then show ?thesis
  proof cases
    case killed
    then have "mn_trace m1 = [] \<and> llm_calls (mn_budget m1) = 0"
      by (simp add: triggered_def new_mission_def)
    then show ?thesis using kill [OF killed(2)] by simp
  next
    case loop
    note a = loop_after [OF loop(1) briefed_after]
    show ?thesis
    proof (cases e)
      case (Loop_done n)
      then have c: "conclude env opp n (m4, w4) = (Inr x, m, w')" using loop(2) by (simp add: finish_def)
      have n: "after_turns n m4" "n \<le> 3" "0 < n" using a Loop_done by auto
      then have "am_current (mn_machine m4) = A_DIAGNOSE" by (simp add: after_turns_def)
      note f = conclude_frame [OF c this]
      have "\<forall>s \<in> set (mn_signals m4). bounded_signal s" using n(1) by (auto simp: after_turns_def)
      moreover have "set (deduplicateSignals (mn_signals m4)) \<subseteq> set (mn_signals m4)"
        using deduplicate_strongest by (simp add: strongest_def)
      ultimately have "\<forall>s \<in> set (lr_signals x). bounded_signal s" using f by auto
      then show ?thesis using f n len [of "mn_trace m4" n] deduplicate_strongest [of "mn_signals m4"]
        by (auto simp: after_turns_def)
    next
      case Loop_killed
      then have "abort_mission env opp ''Kill switch engaged during reasoning loop.'' (m4, w4) = (Inr x, m, w')"
        using loop(2) by (simp add: finish_def)
      moreover obtain k where "k \<le> 3" "after_turns k m4" using a Loop_killed by auto
      ultimately show ?thesis using kill len [of "mn_trace m4" k] by (auto simp: after_turns_def)
    next
      case (Loop_over b)
      then have "lr_trace x = mn_trace m4 \<and> lr_signals x = mn_signals m4 \<and> lr_llm_calls x = llm_calls (mn_budget m4) \<and>
          lr_status x = LS_budget_exceeded"
        using loop(2) by (auto simp: finish_def budgetExceeded_def loop_result_of_def llm_calls_def Let_def)
      moreover obtain k where "k \<le> 3" "after_turns k m4" using a Loop_over by auto
      ultimately show ?thesis using len [of "mn_trace m4" k] by (auto simp: after_turns_def)
    next
      case (Loop_raised msg)
      then show ?thesis using loop(2) by (simp add: finish_def)
    qed
  qed
qed

section \<open>A mission that runs\<close>

definition sample_call :: call_env where
  "sample_call = \<lparr>ce_callId = ''c1'', ce_start_ms = 0, ce_clock = \<lparr>gc_iso = ''t'', gc_budget_ms = 0, gc_rate_ms = 0\<rparr>,
     ce_end_ms = 1, ce_kill = resetAllKillSwitches, ce_handler = Raised ''x''\<rparr>"

definition sample_reason :: reason_env where
  "sample_reason = \<lparr>re_time = (\<lambda>_. Some 0), re_step_id = ''s1'',
     re_llm = sample_llm\<lparr>ge_intent := \<lparr>ie_parse = (\<lambda>_. Inr (JObj [(''requested_tools'',
       JArr [JObj [(''tool_name'', JStr ''probe'')]])])), ie_now_ms = 1, ie_now = ''t''\<rparr>\<rparr>\<rparr>"

text \<open>The kill switch is engaged before the second step.\<close>

definition sample_loop :: loop_env where
  "sample_loop = \<lparr>lo_kill = (\<lambda>k. k = 2), lo_clock = (\<lambda>_. 0), lo_now = ''t'', lo_mission_id = ''miss'',
     lo_registry = \<lparr>rg_sha = id, rg_show_error = (\<lambda>_. ''db''), rg_tools = []\<rparr>,
     lo_perception = (sample_call, sample_call), lo_annotation = None, lo_reason = (\<lambda>_. sample_reason),
     lo_call = (\<lambda>_. sample_call), lo_outreach = sample_call, lo_environment = None,
     lo_memory = sample_memory_env, lo_llm_disabled = False, lo_gate = sample_gate_env,
     lo_exec = sample_exec_env, lo_learn = \<lparr>lv_square = (\<lambda>x. x * x), lv_out_id = ''out'', lv_memory = sample_memory_env\<rparr>,
     lo_latency_ms = 5\<rparr>"

definition sample_world :: world where
  "sample_world = \<lparr>wd_exec = sample_exec_state, wd_pacer = \<lparr>pc_states = Map.empty, pc_armStats = Map.empty, pc_logs = []\<rparr>,
     wd_docs = [], wd_db = empty_agent_db, wd_steps = [], wd_llm = []\<rparr>"

lemma sample_answer:
  "\<exists>intent r. model_answer (re_llm sample_reason) ''run'' oid = Some (intent, r) \<and> in_tools intent \<noteq> []"
proof -
  have "read_tools (Some (JArr [JObj [(''tool_name'', JStr ''probe'')]])) =
      [\<lparr>tq_tool_name = ''probe'', tq_params = JObj []\<rparr>]" by code_simp
  then show ?thesis
    by (simp add: model_answer_def sample_reason_def sample_llm_def validateAgentIntent_def truthy_json_def is_object_def
        read_intent_def read_diagnosis_def read_plan_def sub_object_def json_member_def text_or_def texts_def
        elements_def read_signals_def List.map_filter_def is_array_def read_assumptions_def Let_def)
qed

lemma sample_loop_killed:
  assumes "mn_run_id m = ''run''" and "mn_budget m = b" and "checkBudgets 0 b = None" and "wd_llm w = []"
  shows "\<exists>t m' w'. reasoning_loop sample_loop bf [0..<3] 0 (m, w) = (Loop_killed, m', w') \<and>
    mn_trace m' = mn_trace m @ [t]"
proof -
  let ?cx = "turn_context bf 0 m"
  obtain intent r where i: "model_answer (re_llm sample_reason) ''run'' (o_id (rx_opportunity ?cx)) = Some (intent, r)"
      "in_tools intent \<noteq> []" using sample_answer by blast
  have re: "\<not> later_than (re_time sample_reason x) (re_time sample_reason y)" for x y
    by (simp add: sample_reason_def later_than_def)
  obtain ml where step: "reason_step sample_reason ''run'' ?cx (log_of w) = (Inr (intent_output sample_reason ?cx intent), ml)"
      "ro_should_continue (intent_output sample_reason ?cx intent)"
    using answered_goes_on [OF i, of "log_of w"] re assms(4) by (auto simp: log_of_def turn_context_def)
  have env: "lo_reason sample_loop 0 = sample_reason" "\<not> lo_kill sample_loop (Suc 0)" "lo_kill sample_loop 2"
    "lo_clock sample_loop (Suc 0) = 0" by (simp_all add: sample_loop_def)
  let ?m1 = "advance sample_loop A_DIAGNOSE (step_trigger 0) m"
  let ?m2 = "?m1\<lparr>mn_signals := mn_signals ?m1 @ ro_signals (intent_output sample_reason ?cx intent)\<rparr>"
  obtain tool m3 w3 where inv: "investigate sample_loop bf 0 (intent_output sample_reason ?cx intent) (?m2, put_log ml w) = (tool, m3, w3)"
    using prod_cases3 by blast
  have "mn_trace m3 = mn_trace m"
    using inv by (auto simp: investigate_def executeInvestigationTool_def Let_def split: option.splits if_splits prod.splits)
  then have "\<exists>t m' w'. reasoning_turn sample_loop bf 0 (m, w) = (Inr True, m', w') \<and> mn_trace m' = mn_trace m @ [t]"
    using step inv by (simp add: reasoning_turn_def Let_def env assms(1))
  then show ?thesis
    using assms(2,3) by (auto simp: upt_rec numeral_3_eq_3 numeral_2_eq_2 env [unfolded numeral_2_eq_2])
qed

theorem mission_bounded_witness:
  "\<exists>x m w'. run_mission sample_loop DEFAULT_AGENT_BUDGET 0 ''run'' ''b'' None sample_world = (Inr x, m, w') \<and>
     length (lr_trace x) = 1 \<and> lr_llm_calls x = 0 \<and> (\<forall>t \<in> set (lr_trace x). it_iteration t = 1)"
proof -
  have get: "getOpportunityByIdFor (wd_store sample_world) ''b'' (or_opt None []) =
      Some (sample_opportunity ''b'' ''expired_card'' Soft 9000)"
    using sample_exec_get(1) by (simp add: getOpportunityByIdFor_def or_opt_def sample_world_def)
  have runs: "agent_runs (wd_store sample_world) = []" by code_simp
  let ?opp = "sample_opportunity ''b'' ''expired_card'' Soft 9000"
  let ?m = "briefed sample_loop ?opp (triggered sample_loop (new_mission ''run'' DEFAULT_AGENT_BUDGET 0))"
  have m: "mn_run_id ?m = ''run''" "checkBudgets 0 (mn_budget ?m) = None" "mn_trace ?m = []"
    by (simp_all add: briefed_def triggered_def new_mission_def advance_def recordStep_def checkBudgets_def
        new_tracker_def DEFAULT_AGENT_BUDGET_def go_def Let_def)
  have "\<exists>x m' w'. run_mission sample_loop DEFAULT_AGENT_BUDGET 0 ''run'' ''b'' None sample_world = (Inr x, m', w') \<and>
      length (lr_trace x) = 1"
  proof -
    obtain runs where ins: "sql_insert ar_id (run_row sample_loop ''run'' ?opp) (agent_runs (wd_store sample_world)) = Inr runs"
      by (simp add: runs sql_insert_def)
    let ?w0 = "put_store ((wd_store sample_world)\<lparr>agent_runs := runs\<rparr>) sample_world"
    let ?w1 = "perceive sample_loop ''run'' ?opp ?w0"
    have llm: "wd_llm ?w1 = []" by (simp add: perceive_def put_db_def put_store_def sample_world_def)
    obtain t m' w' where l: "reasoning_loop sample_loop (briefing_for sample_loop ?opp ?w0 ?w1) [0..<3] 0 (?m, ?w1) = (Loop_killed, m', w')"
        "mn_trace m' = [t]"
      using sample_loop_killed [OF m(1) refl m(2) llm, of "briefing_for sample_loop ?opp ?w0 ?w1"] m(3) by auto
    have "\<not> lo_kill sample_loop 0" by (simp add: sample_loop_def)
    then show ?thesis
      using get ins l by (auto simp: run_mission_def finish_def abort_mission_def loop_result_of_def Let_def max_loop_iterations_def)
  qed
  then show ?thesis using mission_bounded [of sample_loop DEFAULT_AGENT_BUDGET 0 "''run''" "''b''" None sample_world] by force
qed

theorem mission_contained_witness:
  "linked (wd_store (snd (snd (run_mission sample_loop DEFAULT_AGENT_BUDGET 0 ''run'' ''b'' None sample_world)))) \<subseteq> {''b''}"
proof -
  obtain r m w' where run: "run_mission sample_loop DEFAULT_AGENT_BUDGET 0 ''run'' ''b'' None sample_world = (r, m, w')"
    using prod_cases3 by blast
  have "ge_registry (xe_gate (lo_exec sample_loop)) = default_registry"
    using sample_exec_get(5) by (simp add: sample_loop_def)
  moreover have "linked (wd_store sample_world) = {}" by code_simp
  ultimately show ?thesis using mission_contained [OF _ run] by (simp add: run)
qed

text \<open>
  A mission whose action was authorised records its outcome as a confirmed recovery of the full
  amount, although at most a payment link has been sent.
\<close>

theorem dispatch_logged_as_recovery:
  assumes "learn_from env opp n ru (m, w) = (Inr u, m', w')" and "ae_verdict (ru_evaluation ru) = V_AUTHORIZED"
  shows "\<exists>oc \<in> set (agent_outcomes (wd_store w')). ao_opportunity_id oc = o_id opp \<and> ao_recovered oc \<and>
     ao_revenue oc = o_amount_paise opp"
proof -
  let ?p = "reported_outcome (mn_run_id m) opp (ae_verdict (ru_evaluation ru))"
  obtain ev s1 docs1 where e: "evaluateOutcome (lo_learn env) ?p (wd_store w, wd_docs w) = (Inr ev, s1, docs1)"
    using assms(1) by (auto simp: learn_from_def Let_def split: sum.splits prod.splits)
  obtain v s2 docs2 where r: "record_in_store (lo_memory env) (mission_episode (mn_run_id m) opp n ru) (s1, docs1) = (Inr v, s2, docs2)"
    using assms(1) e by (auto simp: learn_from_def Let_def split: sum.splits prod.splits)
  have "wd_store w' = s2" using assms(1) e r by (auto simp: learn_from_def Let_def)
  then have "agent_outcomes (wd_store w') = agent_outcomes s1" using record_in_store_effect [OF r] by simp
  moreover have "ev_record ev \<in> set (agent_outcomes s1)" "ao_recovered (ev_record ev)"
    using learning_follows_evidence [OF e] assms(2) by (simp_all add: reported_outcome_def)
  moreover have "ev_record ev = outcome_record (lo_learn env) ?p (getScoreByOpportunityId (wd_store w) (o_id opp))"
    using e by (auto simp: evaluateOutcome_def reported_outcome_def Let_def split: sum.splits prod.splits if_splits)
  ultimately show ?thesis
    by (intro bexI [of _ "ev_record ev"]) (simp_all add: outcome_record_def reported_outcome_def Let_def)
qed

text \<open>A tool call the gate allows is counted twice in the budget of the mission.\<close>

theorem tool_calls_counted_twice:
  assumes "getTool tools (cl_toolId c) = Some tool" and "cl_handler c = Raised msg"
    and "gate_evaluate sha (cl_kill c) (cl_clock c) (gate_ctx_of c tool st) (ts_db st) = (Inr v, db1)" and "gv_allowed v"
    and "ts_budget st = Some (snd (recordToolCall now b))"
  shows "map_option (us_tool_calls \<circ> bt_usage) (ts_budget (snd (executeTool sha se tools c st))) =
     Some (us_tool_calls (bt_usage b) + 2)"
  using assms
  by (simp add: executeTool_def run_handler_def handler_failed_def guard_record_def recordToolCall_def Let_def
      split: sum.split)

end
