(* ===== verification/Planner.thy ===== *)
theory Planner
  imports Intent
begin

text \<open>
  Plans of a mission: their creation (\<^verbatim>\<open>src/agents/planner.ts\<close>), the monitor of their assumptions
  (\<^verbatim>\<open>src/agents/plan_monitor.ts\<close>), replanning (\<^verbatim>\<open>src/agents/replan_engine.ts\<close>), waiting and
  waking (\<^verbatim>\<open>src/agents/wait_wake.ts\<close>) and the sweep of stale missions
  (\<^verbatim>\<open>src/agents/lifecycle_monitor.ts\<close>).  Plans are rows of a table of their own; the values of
  assumptions are numbers, the only ones the planner writes.  The empty string is \<^verbatim>\<open>NULL\<close>.
\<close>

section \<open>The table of plans\<close>

datatype plan_status = PS_ACTIVE | PS_INVALIDATED | PS_EXECUTED | PS_SUPERSEDED

record validity_assumption =
  va_id :: string
  va_parameter :: string
  va_condition :: string
  va_expected :: rat
  va_current :: rat
  va_valid :: bool

record agent_plan =
  pl_id :: string
  pl_run_id :: string
  pl_version :: nat
  pl_goal :: string
  pl_steps :: "string list"
  pl_assumptions :: "validity_assumption list"
  pl_candidates :: "string list"
  pl_preferred :: string
  pl_status :: plan_status
  pl_reason :: string
  pl_created_at :: string

definition insertAgentPlan ::
  "string \<Rightarrow> agent_plan \<Rightarrow> agent_run list \<times> agent_plan list \<Rightarrow>
   (db_error + unit) \<times> agent_run list \<times> agent_plan list" where
  "insertAgentPlan now p db = insert_of_run now (pl_run_id p) [] (sql_insert pl_id p) db"

definition updateAgentPlanStatus :: "string \<Rightarrow> plan_status \<Rightarrow> string \<Rightarrow> agent_plan list \<Rightarrow> agent_plan list" where
  "updateAgentPlanStatus planId st reason plans =
     row_update pl_id planId (\<lambda>p. p\<lparr>pl_status := st, pl_reason := reason\<rparr>) plans"

definition getAgentPlansByRunId :: "string \<Rightarrow> agent_plan list \<Rightarrow> agent_plan list" where
  "getAgentPlansByRunId runId plans = sort_key pl_version (filter (\<lambda>p. pl_run_id p = runId) plans)"

definition active_plans :: "string \<Rightarrow> agent_plan list \<Rightarrow> agent_plan list" where
  "active_plans runId plans = filter (\<lambda>p. pl_run_id p = runId \<and> pl_status p = PS_ACTIVE) plans"

definition first_of :: "'a list \<Rightarrow> 'a option" where
  "first_of xs = (case xs of [] \<Rightarrow> None | x # _ \<Rightarrow> Some x)"

definition getActivePlanByRunId :: "string \<Rightarrow> agent_plan list \<Rightarrow> agent_plan option" where
  "getActivePlanByRunId runId plans = first_of (sort_desc pl_version (active_plans runId plans))"

section \<open>Creation of a plan\<close>

definition no_repeats :: "'a list \<Rightarrow> 'a list" where
  "no_repeats xs = rev (remdups (rev xs))"

record plan_params =
  gp_runId :: string
  gp_desired_outcome :: "string option"
  gp_opportunity :: opportunity
  gp_intent :: "agent_intent option"
  gp_gatewayHealth :: "rat option"
  gp_capacityAvailable :: "rat option"
  gp_planVersion :: "nat option"

definition deterministic_candidates :: "opportunity \<Rightarrow> string list" where
  "deterministic_candidates opp =
     (if o_decline_type opp = Hard then [''ABSTAIN''] else [''WAIT'', ''SEND_PAYMENT_LINK'', ''ABSTAIN''])"

definition candidate_set :: "plan_params \<Rightarrow> string list" where
  "candidate_set p = no_repeats (deterministic_candidates (gp_opportunity p) @
     (case gp_intent p of None \<Rightarrow> [] | Some i \<Rightarrow> in_candidate_actions i))"

definition preferred_of :: "plan_params \<Rightarrow> string" where
  "preferred_of p =
     (let preferred = (case gp_intent p of None \<Rightarrow> ''SEND_PAYMENT_LINK''
                       | Some i \<Rightarrow> or_str (pp_preferred_action (in_plan i)) ''SEND_PAYMENT_LINK'');
          chosen = (if preferred \<in> set (candidate_set p) then preferred
                    else or_opt (first_of (candidate_set p)) ''SEND_PAYMENT_LINK'')
      in if o_decline_type (gp_opportunity p) = Hard then ''ABSTAIN'' else chosen)"

definition health_of :: "plan_params \<Rightarrow> rat" where
  "health_of p = (case gp_gatewayHealth p of None \<Rightarrow> lit 98 2 | Some x \<Rightarrow> x)"

definition capacity_of :: "plan_params \<Rightarrow> rat" where
  "capacity_of p = (case gp_capacityAvailable p of None \<Rightarrow> 5 | Some x \<Rightarrow> x)"

definition assumptions_of :: "plan_params \<Rightarrow> validity_assumption list" where
  "assumptions_of p =
     (let attempts = of_int (o_attempt_count (gp_opportunity p))
      in [\<lparr>va_id = ''assump_gateway_health'', va_parameter = ''gateway_health'', va_condition = ''>='',
           va_expected = lit 75 2, va_current = health_of p, va_valid = (lit 75 2 \<le> health_of p)\<rparr>,
          \<lparr>va_id = ''assump_retry_cap'', va_parameter = ''attempt_count'', va_condition = ''<'',
           va_expected = 3, va_current = attempts, va_valid = (attempts < 3)\<rparr>,
          \<lparr>va_id = ''assump_capacity_available'', va_parameter = ''capacity_available'', va_condition = ''>'',
           va_expected = 0, va_current = capacity_of p, va_valid = (0 < capacity_of p)\<rparr>])"

definition steps_for :: "string \<Rightarrow> string list" where
  "steps_for preferred =
     (if preferred = ''ABSTAIN''
      then [''Log compliance check results in Action Authority audit table'',
            ''Set opportunity status to abstained/blocked'',
            ''Terminate mission with zero financial execution'']
      else if preferred = ''WAIT''
      then [''Set opportunity status to deferred'',
            ''Schedule wake condition (gateway check or timer)'',
            ''Enter persisted WAIT state'']
      else [''Request Economic IVEN calculation with semantic modifiers'',
            ''Submit opportunity to Recovery Market portfolio allocator'',
            ''Verify Action Authority 5-step compliance check'',
            ''If AUTHORIZED, dispatch to isolated execution layer'',
            ''Await provider webhook settlement or poll status'',
            ''Reconcile truth and evaluate outcome''])"

record plan_result =
  pr_plan :: agent_plan
  pr_is_valid :: bool
  pr_errors :: "string list"

definition plan_row_of :: "string \<Rightarrow> string \<Rightarrow> plan_params \<Rightarrow> agent_plan" where
  "plan_row_of planId now p =
     \<lparr>pl_id = planId, pl_run_id = gp_runId p,
      pl_version = (case gp_planVersion p of None \<Rightarrow> 1 | Some v \<Rightarrow> if v = 0 then 1 else v),
      pl_goal = (case gp_desired_outcome p of
          Some g \<Rightarrow> or_str g (''Recover opportunity '' @ o_id (gp_opportunity p))
        | None \<Rightarrow> ''Recover opportunity '' @ o_id (gp_opportunity p)),
      pl_steps = steps_for (preferred_of p), pl_assumptions = assumptions_of p,
      pl_candidates = candidate_set p, pl_preferred = preferred_of p, pl_status = PS_ACTIVE,
      pl_reason = [], pl_created_at = now\<rparr>"

definition assumption_error :: "validity_assumption \<Rightarrow> string" where
  "assumption_error a = ''Assumption '' @ [CHR 0x27] @ va_parameter a @ [CHR 0x27] @ '' failed ('' @
     show_number (va_current a) @ '' not '' @ va_condition a @ '' '' @ show_number (va_expected a) @ '')''"

definition createPlan ::
  "string \<Rightarrow> string \<Rightarrow> plan_params \<Rightarrow> agent_run list \<times> agent_plan list \<Rightarrow>
   (db_error + plan_result) \<times> agent_run list \<times> agent_plan list" where
  "createPlan planId now p db =
     (let r = plan_row_of planId now p; broken = filter (\<lambda>a. \<not> va_valid a) (pl_assumptions r)
      in case insertAgentPlan now r db of
           (Inl e, db1) \<Rightarrow> (Inl e, db1)
         | (Inr _, db1) \<Rightarrow>
             (Inr \<lparr>pr_plan = r, pr_is_valid = (broken = []), pr_errors = map assumption_error broken\<rparr>, db1))"

section \<open>The monitor\<close>

definition evaluateCondition :: "rat \<Rightarrow> string \<Rightarrow> rat \<Rightarrow> bool" where
  "evaluateCondition current condition expected =
     (if condition = ''>='' then expected \<le> current
      else if condition = ''>'' then expected < current
      else if condition = ''<='' then current \<le> expected
      else if condition = ''<'' then current < expected
      else if condition = ''=='' then current = expected
      else if condition = ''!='' then current \<noteq> expected
      else True)"

record monitor_params =
  mp_plan :: agent_plan
  mp_gatewayHealth :: rat
  mp_capacityAvailable :: rat
  mp_status :: "string option"

definition getCurrentValue :: "validity_assumption \<Rightarrow> monitor_params \<Rightarrow> rat" where
  "getCurrentValue a mp =
     (if va_parameter a = ''gateway_health'' then mp_gatewayHealth mp
      else if va_parameter a = ''capacity_available'' then mp_capacityAvailable mp
      else va_current a)"

definition MAX_PLAN_AGE_MS :: int where "MAX_PLAN_AGE_MS = 300000"

definition terminal_status :: "string option \<Rightarrow> bool" where
  "terminal_status st = (st \<in> Some ` {''recovered'', ''blocked'', ''not_recovered''})"

definition now_holds :: "monitor_params \<Rightarrow> validity_assumption \<Rightarrow> bool" where
  "now_holds mp a = evaluateCondition (getCurrentValue a mp) (va_condition a) (va_expected a)"

definition violation :: "monitor_params \<Rightarrow> validity_assumption \<Rightarrow> string" where
  "violation mp a = va_parameter a @ '': expected '' @ va_condition a @ '' '' @ show_number (va_expected a) @
     '', got '' @ show_number (getCurrentValue a mp)"

datatype recommendation = R_CONTINUE | R_REPLAN | R_ABORT

record monitor_result =
  pm_plan_id :: string
  pm_run_id :: string
  pm_still_valid :: bool
  pm_violated :: "string list"
  pm_elapsed_ms :: "int option"
  pm_recommendation :: recommendation
  pm_checked_at :: int

text \<open>\<^verbatim>\<open>(ms / 1000).toFixed(0)\<close>.\<close>

definition show_seconds :: "int \<Rightarrow> string" where
  "show_seconds ms = show_number (toFixed 0 (fdiv (of_int ms) 1000))"

text \<open>An unreadable creation time gives no age, and no violation.\<close>

definition check_plan :: "(string \<Rightarrow> int option) \<Rightarrow> int \<Rightarrow> monitor_params \<Rightarrow> monitor_result" where
  "check_plan time_of now mp =
     (let p = mp_plan mp; elapsed = map_option (\<lambda>t. now - t) (time_of (pl_created_at p));
          broken = map (violation mp) (filter (\<lambda>a. \<not> now_holds mp a) (pl_assumptions p));
          stale = (case elapsed of
              Some ms \<Rightarrow> if MAX_PLAN_AGE_MS < ms
                         then [''plan_age: '' @ show_seconds ms @ ''s exceeds maximum '' @ show_seconds MAX_PLAN_AGE_MS @ ''s'']
                         else []
            | None \<Rightarrow> []);
          over = (if terminal_status (mp_status mp)
                  then [''opportunity_status: '' @ [CHR 0x27] @ the (mp_status mp) @ [CHR 0x27] @
                        '' is terminal - plan no longer applicable'']
                  else []);
          violated = broken @ stale @ over
      in \<lparr>pm_plan_id = pl_id p, pm_run_id = pl_run_id p, pm_still_valid = (violated = []),
          pm_violated = violated, pm_elapsed_ms = elapsed,
          pm_recommendation = (if violated = [] then R_CONTINUE
            else if terminal_status (mp_status mp) then R_ABORT else R_REPLAN),
          pm_checked_at = now\<rparr>)"


section \<open>Replanning\<close>

record failed_assumption =
  fa_id :: string
  fa_parameter :: string
  fa_condition :: string
  fa_expected :: json
  fa_actual :: json
  fa_reason :: string

record validation_check =
  vc_is_valid :: bool
  vc_active_plan :: "agent_plan option"
  vc_failed :: "failed_assumption list"

record plan_observation =
  po_gatewayHealth :: "rat option"
  po_attemptCount :: "rat option"
  po_capacityAvailable :: "rat option"

definition broken_reason :: "plan_observation \<Rightarrow> validity_assumption \<Rightarrow> string option" where
  "broken_reason ob a =
     (if va_parameter a = ''gateway_health''
      then (case po_gatewayHealth ob of
              Some h \<Rightarrow> if h < va_expected a
                        then Some (''Gateway health degraded to '' @ show_number h @ '' (expected >= '' @
                               show_number (va_expected a) @ '')'') else None
            | None \<Rightarrow> None)
      else if va_parameter a = ''attempt_count''
      then (case po_attemptCount ob of
              Some n \<Rightarrow> if va_expected a \<le> n
                        then Some (''Attempt count hit retry cap ('' @ show_number n @ '' >= '' @
                               show_number (va_expected a) @ '')'') else None
            | None \<Rightarrow> None)
      else if va_parameter a = ''capacity_available''
      then (case po_capacityAvailable ob of
              Some c \<Rightarrow> if c \<le> 0 then Some ''Portfolio recovery market capacity is fully exhausted'' else None
            | None \<Rightarrow> None)
      else None)"

definition observed_value :: "plan_observation \<Rightarrow> validity_assumption \<Rightarrow> json" where
  "observed_value ob a =
     (case (if va_parameter a = ''gateway_health'' then po_gatewayHealth ob
            else if va_parameter a = ''attempt_count'' then po_attemptCount ob
            else po_capacityAvailable ob) of Some x \<Rightarrow> JNum x | None \<Rightarrow> JNull)"

definition failed_of :: "plan_observation \<Rightarrow> validity_assumption \<Rightarrow> failed_assumption option" where
  "failed_of ob a = map_option (\<lambda>r. \<lparr>fa_id = va_id a, fa_parameter = va_parameter a,
     fa_condition = va_condition a, fa_expected = JNum (va_expected a), fa_actual = observed_value ob a,
     fa_reason = r\<rparr>) (broken_reason ob a)"

definition validateActivePlan :: "string \<Rightarrow> plan_observation \<Rightarrow> agent_plan list \<Rightarrow> validation_check" where
  "validateActivePlan runId ob plans =
     (case getActivePlanByRunId runId plans of
        None \<Rightarrow> \<lparr>vc_is_valid = False, vc_active_plan = None,
                 vc_failed = [\<lparr>fa_id = ''none'', fa_parameter = ''active_plan'', fa_condition = ''exists'',
                               fa_expected = JBool True, fa_actual = JBool False,
                               fa_reason = ''No active plan found''\<rparr>]\<rparr>
      | Some p \<Rightarrow>
          (let failed = List.map_filter (failed_of ob) (pl_assumptions p)
           in \<lparr>vc_is_valid = (failed = []), vc_active_plan = Some p, vc_failed = failed\<rparr>))"

text \<open>What a mission's plan is kept with: its machine and budget, and the tables.\<close>

record plan_state =
  ps_machine :: agent_machine
  ps_budget :: budget_tracker
  ps_runs :: "agent_run list"
  ps_plans :: "agent_plan list"
  ps_memory :: memory_state
  ps_steps :: "step_row list"

record replan_env =
  rp_clock_ms :: int
  rp_now :: string
  rp_plan_id :: string
  rp_memory :: memory_env

record replan_params =
  rn_opportunity :: opportunity
  rn_gatewayHealth :: "rat option"
  rn_capacityAvailable :: "rat option"
  rn_reason :: string

record replan_result =
  rt_replanned :: bool
  rt_old_plan_id :: "string option"
  rt_new_plan :: "agent_plan option"
  rt_replan_count :: int
  rt_reason :: "string option"
  rt_error :: "string option"

definition move_to :: "agent_state \<Rightarrow> string \<Rightarrow> plan_state \<Rightarrow> plan_state" where
  "move_to st trigger ps = ps\<lparr>ps_machine := snd (transition (ps_machine ps) st trigger)\<rparr>"

definition replan_log :: "string \<Rightarrow> nat \<Rightarrow> nat \<Rightarrow> string \<Rightarrow> agent_plan \<Rightarrow> step_log" where
  "replan_log runId oldVersion newVersion reason p =
     \<lparr>sl_runId = runId, sl_stepNumber = 101 + int newVersion, sl_state = A_PLAN,
      sl_observation = ''Plan v'' @ show_nat oldVersion @ '' invalidated: '' @ reason,
      sl_thought = ''Constructed revised Plan v'' @ show_nat newVersion @ '' with preferred action '' @
        [CHR 0x27] @ pl_preferred p @ [CHR 0x27] @ ''.'',
      sl_actionType = ''PLAN_CREATED'',
      sl_actionPayload = Some [(''plan_id'', JStr (pl_id p)), (''version'', JNum (of_nat newVersion))],
      sl_toolName = [], sl_toolInput = None, sl_toolOutput = None\<rparr>"

text \<open>The results of the three transitions are not looked at.\<close>

definition retire_plan :: "string \<Rightarrow> string \<Rightarrow> plan_state \<Rightarrow> plan_state" where
  "retire_plan runId reason ps =
     (let ps1 = move_to A_PLAN_INVALIDATED ''ASSUMPTIONS_BROKEN'' ps;
          ps2 = (case getActivePlanByRunId runId (ps_plans ps1) of
                   None \<Rightarrow> ps1
                 | Some p \<Rightarrow> ps1\<lparr>ps_plans := updateAgentPlanStatus (pl_id p) PS_INVALIDATED reason (ps_plans ps1)\<rparr>)
      in move_to A_PLAN ''NEW_PLAN_CREATION'' (move_to A_REPLAN ''TRIGGER_REPLAN_ENGINE'' ps2))"

definition old_version :: "agent_plan option \<Rightarrow> nat" where
  "old_version p = (case p of None \<Rightarrow> 1 | Some x \<Rightarrow> if pl_version x = 0 then 1 else pl_version x)"

definition replan_params_of :: "string \<Rightarrow> replan_params \<Rightarrow> nat \<Rightarrow> plan_params" where
  "replan_params_of runId rn v =
     \<lparr>gp_runId = runId, gp_desired_outcome = Some (''Replanned recovery for '' @ o_id (rn_opportunity rn)),
      gp_opportunity = rn_opportunity rn, gp_intent = None, gp_gatewayHealth = rn_gatewayHealth rn,
      gp_capacityAvailable = rn_capacityAvailable rn, gp_planVersion = Some v\<rparr>"

definition replan_summary :: "nat \<Rightarrow> string \<Rightarrow> agent_plan \<Rightarrow> string" where
  "replan_summary v reason p = ''Replanned mission (v'' @ show_nat v @ ''): '' @ reason @
     '' -> Preferred action: '' @ pl_preferred p"

definition replan_value :: "agent_plan option \<Rightarrow> agent_plan \<Rightarrow> string" where
  "replan_value old p = stringify (JObj (opt_member ''oldPlanId'' (map_option pl_id old) @
     [(''newPlanId'', JStr (pl_id p))]))"

definition executeReplan ::
  "replan_env \<Rightarrow> string \<Rightarrow> replan_params \<Rightarrow> plan_state \<Rightarrow> (db_error + replan_result) \<times> plan_state" where
  "executeReplan env runId rn ps =
     (case recordReplan (rp_clock_ms env) (ps_budget ps) of
        (Some x, b) \<Rightarrow>
          (Inr \<lparr>rt_replanned = False, rt_old_plan_id = None, rt_new_plan = None,
                rt_replan_count = us_replans (bt_usage b), rt_reason = None, rt_error = Some (bx_message x)\<rparr>,
           move_to A_ABORTED ''REPLAN_BUDGET_EXCEEDED'' (ps\<lparr>ps_budget := b\<rparr>))
      | (None, b) \<Rightarrow>
          let old = getActivePlanByRunId runId (ps_plans ps);
              ps1 = retire_plan runId (rn_reason rn) (ps\<lparr>ps_budget := b\<rparr>);
              v = old_version old + 1
          in (case createPlan (rp_plan_id env) (rp_now env) (replan_params_of runId rn v) (ps_runs ps1, ps_plans ps1) of
                (Inl e, runs, plans) \<Rightarrow> (Inl e, ps1\<lparr>ps_runs := runs, ps_plans := plans\<rparr>)
              | (Inr r, runs, plans) \<Rightarrow>
                  let ps2 = ps1\<lparr>ps_runs := runs, ps_plans := plans\<rparr>
                  in (case addWorkingMemory (rp_memory env) runId (Some (o_id (rn_opportunity rn)))
                         (replan_summary v (rn_reason rn) (pr_plan r)) ''AgentReplanEngine''
                         (Some ''replan_record'') (Some (replan_value old (pr_plan r))) (ps_memory ps2) of
                        Inl e \<Rightarrow> (Inl e, ps2)
                      | Inr (_, ms) \<Rightarrow>
                          (case logStep (rp_now env) (replan_log runId (old_version old) v (rn_reason rn) (pr_plan r))
                                 (ps_runs ps2, ps_steps ps2) of
                             (Inl e, runs2, steps) \<Rightarrow> (Inl e, ps2\<lparr>ps_memory := ms, ps_runs := runs2, ps_steps := steps\<rparr>)
                           | (Inr _, runs2, steps) \<Rightarrow>
                               (Inr \<lparr>rt_replanned = True, rt_old_plan_id = map_option pl_id old,
                                     rt_new_plan = Some (pr_plan r),
                                     rt_replan_count = us_replans (bt_usage b), rt_reason = Some (rn_reason rn), rt_error = None\<rparr>,
                                ps2\<lparr>ps_memory := ms, ps_runs := runs2, ps_steps := steps\<rparr>)))))"

section \<open>Waiting and waking\<close>

datatype wake_type = W_TIMER | W_GATEWAY_HEALTH | W_PROVIDER_WEBHOOK | W_STATUS_CHANGE

fun show_wake :: "wake_type \<Rightarrow> string" where
  "show_wake W_TIMER = ''TIMER''"
| "show_wake W_GATEWAY_HEALTH = ''GATEWAY_HEALTH''"
| "show_wake W_PROVIDER_WEBHOOK = ''PROVIDER_WEBHOOK''"
| "show_wake W_STATUS_CHANGE = ''STATUS_CHANGE''"

record wait_condition =
  wc_wake_at :: "string option"
  wc_type :: wake_type
  wc_parameter :: "string option"
  wc_expected :: "json option"

definition condition_json :: "wait_condition \<Rightarrow> json" where
  "condition_json c = JObj (opt_member ''wake_at'' (wc_wake_at c) @
     [(''wake_condition_type'', JStr (show_wake (wc_type c)))] @ opt_member ''parameter_target'' (wc_parameter c) @
     (case wc_expected c of None \<Rightarrow> [] | Some j \<Rightarrow> [(''expected_value'', j)]))"

definition wait_summary :: "string \<Rightarrow> wait_condition \<Rightarrow> string" where
  "wait_summary reason c = ''Entered WAIT state: '' @ reason @ '' (Condition: '' @ show_wake (wc_type c) @ '')''"

definition plain_log :: "string \<Rightarrow> int \<Rightarrow> agent_state \<Rightarrow> string \<Rightarrow> string \<Rightarrow> step_log" where
  "plain_log runId n st observation thought =
     \<lparr>sl_runId = runId, sl_stepNumber = n, sl_state = st, sl_observation = observation, sl_thought = thought,
      sl_actionType = [], sl_actionPayload = None, sl_toolName = [], sl_toolInput = None, sl_toolOutput = None\<rparr>"

text \<open>A memory and a step, as waiting and waking write them.\<close>

definition remember_step ::
  "memory_env \<Rightarrow> string \<Rightarrow> string \<Rightarrow> string \<Rightarrow> string \<Rightarrow> step_log \<Rightarrow> plan_state \<Rightarrow> (db_error + unit) \<times> plan_state" where
  "remember_step me runId summary key val sl ps =
     (case addWorkingMemory me runId None summary ''AgentWaitWakeEngine'' (Some key) (Some val) (ps_memory ps) of
        Inl e \<Rightarrow> (Inl e, ps)
      | Inr (_, ms) \<Rightarrow>
          (case logStep (me_now me) sl (ps_runs ps, ps_steps ps) of
             (r, runs, steps) \<Rightarrow> (r, ps\<lparr>ps_memory := ms, ps_runs := runs, ps_steps := steps\<rparr>)))"

datatype wait_reply = Wait_refused | Waiting "string option"

definition enterWait ::
  "memory_env \<Rightarrow> string \<Rightarrow> wait_condition \<Rightarrow> string \<Rightarrow> plan_state \<Rightarrow> (db_error + wait_reply) \<times> plan_state" where
  "enterWait me runId c reason ps =
     (if \<not> canTransitionTo (ps_machine ps) A_WAIT then (Inr Wait_refused, ps)
      else (case remember_step me runId (wait_summary reason c) ''wait_condition'' (stringify (condition_json c))
               (plain_log runId 99 agent_state.A_WAIT (''Scheduled wait: '' @ reason)
                  (''Agent sleeping until condition '' @ [CHR 0x27] @ show_wake (wc_type c) @ [CHR 0x27] @ '' is satisfied.''))
               (move_to A_WAIT ''ENTER_WAIT_SCHEDULED'' ps) of
              (Inl e, ps1) \<Rightarrow> (Inl e, ps1)
            | (Inr _, ps1) \<Rightarrow> (Inr (Waiting (wc_wake_at c)), ps1)))"

text \<open>The transition may be refused; the wake is recorded all the same.\<close>

record wake_event =
  we_run_id :: string
  we_reason :: string
  we_timestamp :: string
  we_observations :: payload

definition triggerWake ::
  "memory_env \<Rightarrow> string \<Rightarrow> string \<Rightarrow> payload option \<Rightarrow> plan_state \<Rightarrow> (db_error + wake_event) \<times> plan_state" where
  "triggerWake me runId reason obs ps =
     (let ms = (case obs of None \<Rightarrow> [] | Some x \<Rightarrow> x)
      in case remember_step me runId (''Agent WOKE UP: '' @ reason) ''wake_event'' (stringify (JObj ms))
               (plain_log runId 100 A_WAKE (''Agent woke up: '' @ reason)
                  ''Evaluating plan assumptions against latest observations.'')
               (move_to A_WAKE ''WAKE_EVENT_FIRED'' ps) of
           (Inl e, ps1) \<Rightarrow> (Inl e, ps1)
         | (Inr _, ps1) \<Rightarrow>
             (Inr \<lparr>we_run_id = runId, we_reason = reason, we_timestamp = me_now me, we_observations = ms\<rparr>, ps1))"

section \<open>Stale missions\<close>

datatype sweep_action = Retained_active | Aborted_stale

record sweep_detail =
  sd_run_id :: string
  sd_mission_id :: string
  sd_action :: sweep_action
  sd_inactivity_ms :: "int option"
  sd_reason :: string

record lifecycle_result =
  ly_inspected :: nat
  ly_retained :: nat
  ly_aborted :: nat
  ly_details :: "sweep_detail list"

definition wake_memory :: "string \<Rightarrow> agent_memory list \<Rightarrow> agent_memory option" where
  "wake_memory runId rows = List.find (\<lambda>m. am_run_id m = runId \<and> am_memory_type m = ''working'' \<and>
     sql_like ''%wake%'' (am_context_summary m)) rows"

text \<open>The step with the largest number, not the latest one.\<close>

definition last_activity ::
  "(string \<Rightarrow> int option) \<Rightarrow> step_row list \<Rightarrow> agent_run \<Rightarrow> int option" where
  "last_activity time_of steps r =
     (case first_of (sort_desc st_step_number (filter (\<lambda>x. st_run_id x = ar_id r) steps)) of
        Some x \<Rightarrow> time_of (st_timestamp x)
      | None \<Rightarrow> time_of (or_str (ar_created_at r) (ar_start_time r)))"

definition stale_reason :: string where
  "stale_reason = ''stale_orphan_cleanup: inactivity exceeded threshold without active wake condition''"

definition show_age :: "int option \<Rightarrow> string" where
  "show_age ms = (case ms of None \<Rightarrow> ''NaN'' | Some x \<Rightarrow> show_seconds x)"

definition judge_run ::
  "(string \<Rightarrow> int option) \<Rightarrow> int \<Rightarrow> int \<Rightarrow> agent_memory list \<Rightarrow> step_row list \<Rightarrow> agent_run \<Rightarrow> sweep_detail" where
  "judge_run time_of now threshold memories steps r =
     (let idle = map_option (\<lambda>t. now - t) (last_activity time_of steps r);
          detail = (\<lambda>act reason. \<lparr>sd_run_id = ar_id r, sd_mission_id = ar_mission_id r, sd_action = act,
                      sd_inactivity_ms = idle, sd_reason = reason\<rparr>)
      in case wake_memory (ar_id r) memories of
           Some m \<Rightarrow> detail Retained_active (''Mission has active persisted wake condition: '' @ am_context_summary m)
         | None \<Rightarrow>
             if (case idle of None \<Rightarrow> False | Some ms \<Rightarrow> threshold < ms)
             then detail Aborted_stale (''Inactivity of '' @ show_age idle @ ''s exceeded '' @ show_seconds threshold @
                    ''s threshold. Safely terminated as ABORTED.'')
             else detail Retained_active (''Mission within active window ('' @ show_age idle @ ''s <= '' @
                    show_seconds threshold @ ''s).''))"

definition abort_stale :: "string \<Rightarrow> sweep_detail list \<Rightarrow> agent_run list \<Rightarrow> agent_run list" where
  "abort_stale nowIso ds runs =
     fold (\<lambda>d rs. if sd_action d = Aborted_stale
                  then row_update ar_id (sd_run_id d) (\<lambda>r. r\<lparr>ar_status := ''aborted'', ar_end_time := nowIso,
                         ar_termination_reason := stale_reason\<rparr>) rs
                  else rs) ds runs"

definition sweepStaleMissions ::
  "(string \<Rightarrow> int option) \<Rightarrow> int \<Rightarrow> string \<Rightarrow> int option \<Rightarrow> agent_memory list \<Rightarrow> step_row list \<Rightarrow>
   agent_run list \<Rightarrow> lifecycle_result \<times> agent_run list" where
  "sweepStaleMissions time_of now nowIso thresholdMs memories steps runs =
     (let threshold = (case thresholdMs of None \<Rightarrow> 5 * 60 * 1000 | Some t \<Rightarrow> t);
          ds = map (judge_run time_of now threshold memories steps) (filter (\<lambda>r. ar_status r = ''running'') runs);
          gone = filter (\<lambda>d. sd_action d = Aborted_stale) ds
      in (\<lparr>ly_inspected = length ds, ly_retained = length ds - length gone, ly_aborted = length gone,
           ly_details = ds\<rparr>,
          abort_stale nowIso ds runs))"

section \<open>Properties\<close>

lemma set_no_repeats [simp]: "set (no_repeats xs) = set xs"
  by (simp add: no_repeats_def)

lemma distinct_no_repeats [simp]: "distinct (no_repeats xs)"
  by (simp add: no_repeats_def)

lemma first_of_in: "first_of xs = Some x \<Longrightarrow> x \<in> set xs"
  by (auto simp: first_of_def split: list.splits)

lemma first_of_None [simp]: "first_of xs = None \<longleftrightarrow> xs = []"
  by (simp add: first_of_def split: list.splits)

lemma sort_desc_eq_Nil [simp]: "sort_desc f xs = [] \<longleftrightarrow> xs = []"
  by (metis mset_sort_desc mset_zero_iff)

lemma set_sort_desc_eq: "set (sort_desc f xs) = set xs"
  by (metis mset_sort_desc set_mset_mset)

lemma active_plan_in: "getActivePlanByRunId runId plans = Some p \<Longrightarrow> p \<in> set (active_plans runId plans)"
  unfolding getActivePlanByRunId_def using first_of_in set_sort_desc_eq by metis

lemma active_plan_unique: "active_plans runId plans = [p] \<Longrightarrow> getActivePlanByRunId runId plans = Some p"
  by (simp add: getActivePlanByRunId_def sort_desc_def first_of_def)

lemma active_plans_append [simp]:
  "active_plans runId (xs @ ys) = active_plans runId xs @ active_plans runId ys"
  by (simp add: active_plans_def)

text \<open>Invalidating the active plan leaves no active one, when there was at most one.\<close>

lemma invalidate_active:
  assumes "active_plans runId plans = [p]"
  shows "active_plans runId (updateAgentPlanStatus (pl_id p) PS_INVALIDATED reason plans) = []"
proof -
  have "x = p" if "x \<in> set plans" "pl_run_id x = runId" "pl_status x = PS_ACTIVE" for x
    using assms that by (force simp: active_plans_def dest: arg_cong [of _ _ set])
  then show ?thesis by (auto simp: active_plans_def updateAgentPlanStatus_def row_update_def filter_empty_conv)
qed

lemma retire_plan_none:
  assumes "length (active_plans runId (ps_plans ps)) \<le> 1"
  shows "active_plans runId (ps_plans (retire_plan runId reason ps)) = []"
proof (cases "active_plans runId (ps_plans ps)")
  case Nil
  then have "getActivePlanByRunId runId (ps_plans ps) = None" by (simp add: getActivePlanByRunId_def)
  with Nil show ?thesis by (simp add: retire_plan_def move_to_def Let_def)
next
  case (Cons p xs)
  then have one: "active_plans runId (ps_plans ps) = [p]" using assms by simp
  then show ?thesis
    using active_plan_unique invalidate_active by (simp add: retire_plan_def move_to_def Let_def)
qed

lemma createPlan_effect:
  assumes "createPlan planId now p (runs, plans) = (r, runs', plans')"
  shows "(\<exists>e. r = Inl e) \<and> plans' = plans \<or>
    (\<exists>x. r = Inr x \<and> pr_plan x = plan_row_of planId now p \<and> plans' = plans @ [plan_row_of planId now p])"
  using assms
  by (auto simp: createPlan_def insertAgentPlan_def insert_of_run_def sql_insert_def Let_def
      split: sum.splits if_splits prod.splits)

text \<open>A hard decline is planned as abstention, whatever the model proposes.\<close>

lemma preferred_sound:
  "preferred_of p \<in> set (candidate_set p)"
  "o_decline_type (gp_opportunity p) = Hard \<Longrightarrow> preferred_of p = ''ABSTAIN''"
proof -
  have abstain: "''ABSTAIN'' \<in> set (candidate_set p)"
    and link: "o_decline_type (gp_opportunity p) \<noteq> Hard \<Longrightarrow> ''SEND_PAYMENT_LINK'' \<in> set (candidate_set p)"
    by (simp_all add: candidate_set_def deterministic_candidates_def)
  obtain c cs where c: "candidate_set p = c # cs" using abstain by (cases "candidate_set p") auto
  have "or_opt (first_of (candidate_set p)) d \<in> {c, d}" for d
    by (simp add: c first_of_def or_opt_def or_str_def)
  then show "preferred_of p \<in> set (candidate_set p)"
    using abstain link c unfolding preferred_of_def Let_def by (metis insertE singletonD list.set_intros(1))
  show "o_decline_type (gp_opportunity p) = Hard \<Longrightarrow> preferred_of p = ''ABSTAIN''"
    by (simp add: preferred_of_def Let_def)
qed


text \<open>Replanning over a mission: the answers, and the state after all of them.\<close>

fun replans ::
  "string \<Rightarrow> (replan_env \<times> replan_params) list \<Rightarrow> plan_state \<Rightarrow> (db_error + replan_result) list \<times> plan_state" where
  "replans runId [] ps = ([], ps)"
| "replans runId ((env, rn) # rest) ps =
     (case executeReplan env runId rn ps of
        (r, ps1) \<Rightarrow> (case replans runId rest ps1 of (rs, ps2) \<Rightarrow> (r # rs, ps2)))"

definition replanned :: "db_error + replan_result \<Rightarrow> bool" where
  "replanned r = (case r of Inl _ \<Rightarrow> False | Inr x \<Rightarrow> rt_replanned x)"

lemma move_to_frame [simp]:
  "ps_plans (move_to st t ps) = ps_plans ps" "ps_budget (move_to st t ps) = ps_budget ps"
  "ps_runs (move_to st t ps) = ps_runs ps" "ps_memory (move_to st t ps) = ps_memory ps"
  "ps_steps (move_to st t ps) = ps_steps ps"
  by (simp_all add: move_to_def)

lemma retire_plan_frame [simp]: "ps_budget (retire_plan runId reason ps) = ps_budget ps"
  by (simp add: retire_plan_def Let_def split: option.split)

lemma retire_plan_plans:
  "ps_plans (retire_plan runId reason ps) = (case getActivePlanByRunId runId (ps_plans ps) of
     None \<Rightarrow> ps_plans ps | Some p \<Rightarrow> updateAgentPlanStatus (pl_id p) PS_INVALIDATED reason (ps_plans ps))"
  by (simp add: retire_plan_def Let_def split: option.split)

text \<open>What one replanning does to budget and plans.\<close>

lemma executeReplan_cases:
  assumes "executeReplan env runId rn ps = (r, ps')"
  obtains (refused) "\<not> replanned r" "ps_plans ps' = ps_plans ps"
      "us_replans (bt_usage (ps_budget ps')) = us_replans (bt_usage (ps_budget ps)) + 1"
      "max_replans (bt_config (ps_budget ps')) = max_replans (bt_config (ps_budget ps))"
    | (tried) plans new where
      "us_replans (bt_usage (ps_budget ps')) = us_replans (bt_usage (ps_budget ps)) + 1"
      "max_replans (bt_config (ps_budget ps')) = max_replans (bt_config (ps_budget ps))"
      "us_replans (bt_usage (ps_budget ps')) \<le> max_replans (bt_config (ps_budget ps))"
      "plans = ps_plans (retire_plan runId (rn_reason rn) ps)"
      "new = plan_row_of (rp_plan_id env) (rp_now env)
         (replan_params_of runId rn (old_version (getActivePlanByRunId runId (ps_plans ps)) + 1))"
      "ps_plans ps' = plans @ [new] \<or> ps_plans ps' = plans \<and> \<not> replanned r"
      "replanned r \<longrightarrow> ps_plans ps' = plans @ [new] \<and> (\<exists>x. r = Inr x \<and> rt_new_plan x = Some new \<and>
         rt_old_plan_id x = map_option pl_id (getActivePlanByRunId runId (ps_plans ps)))"
proof (cases "recordReplan (rp_clock_ms env) (ps_budget ps)")
  case (Pair o' b)
  then have b: "us_replans (bt_usage b) = us_replans (bt_usage (ps_budget ps)) + 1"
      "bt_config b = bt_config (ps_budget ps)" "o' = checkBudgets (rp_clock_ms env) b"
    by (auto simp: recordReplan_def Let_def)
  show ?thesis
  proof (cases o')
    case (Some x)
    then show ?thesis using refused assms b by (auto simp: executeReplan_def Pair replanned_def)
  next
    case None
    then have within: "us_replans (bt_usage b) \<le> max_replans (bt_config b)"
      using b(3) by (simp add: checkBudgets_None within_budgets_def)
    let ?old = "getActivePlanByRunId runId (ps_plans ps)"
    let ?ps1 = "retire_plan runId (rn_reason rn) (ps\<lparr>ps_budget := b\<rparr>)"
    let ?p = "replan_params_of runId rn (old_version ?old + 1)"
    have plans1: "ps_plans ?ps1 = ps_plans (retire_plan runId (rn_reason rn) ps)"
      by (simp add: retire_plan_plans split: option.split)
    obtain c runs plans where c: "createPlan (rp_plan_id env) (rp_now env) ?p (ps_runs ?ps1, ps_plans ?ps1) = (c, runs, plans)"
      using prod_cases3 by blast
    note eff = createPlan_effect [OF c]
    have budget: "ps_budget ps' = b"
      using assms c by (auto simp: executeReplan_def Pair None Let_def split: sum.splits prod.splits)
    have res: "ps_plans ps' = plans" "\<forall>e. c = Inl e \<longrightarrow> \<not> replanned r"
        "replanned r \<longrightarrow> (\<exists>x y. c = Inr y \<and> r = Inr x \<and> rt_new_plan x = Some (pr_plan y) \<and> rt_old_plan_id x = map_option pl_id ?old)"
      using assms c by (auto simp: executeReplan_def Pair None Let_def replanned_def split: sum.splits prod.splits)
    show ?thesis
      by (rule tried [OF _ _ _ refl refl]) (use b within budget res eff plans1 in auto)
  qed
qed

text \<open>
  C30. Replanning is bounded and keeps the plan of a mission single: whatever is asked for, no
  more replannings succeed than the budget has left, at most one plan of the run is active at
  any time, and after the last success the active plan is the newest one.
\<close>

theorem replans_bounded:
  assumes "replans runId xs ps = (rs, ps')"
    and "length (active_plans runId (ps_plans ps)) \<le> 1"
  shows "length (active_plans runId (ps_plans ps')) \<le> 1 \<and>
     int (length (filter replanned rs)) \<le>
       max 0 (max_replans (bt_config (ps_budget ps)) - us_replans (bt_usage (ps_budget ps))) \<and>
     (\<forall>x. rs \<noteq> [] \<and> last rs = Inr x \<and> rt_replanned x \<longrightarrow>
        getActivePlanByRunId runId (ps_plans ps') = rt_new_plan x \<and> rt_new_plan x \<noteq> None)"
  using assms
proof (induction xs arbitrary: ps rs)
  case Nil
  then show ?case by simp
next
  case (Cons x xs)
  obtain env rn where x: "x = (env, rn)" by (cases x)
  obtain r ps1 where e: "executeReplan env runId rn ps = (r, ps1)" by (cases "executeReplan env runId rn ps")
  obtain rs1 where rest: "replans runId xs ps1 = (rs1, ps')" "rs = r # rs1"
    using Cons.prems(1) by (auto simp: x e split: prod.splits)
  from e show ?case
  proof (cases rule: executeReplan_cases)
    case refused
    have "length (active_plans runId (ps_plans ps1)) \<le> 1" using refused Cons.prems by simp
    note ih = Cons.IH [OF rest(1) this]
    then show ?thesis using refused rest by (auto simp: replanned_def split: if_splits)
  next
    case (tried plans new)
    have left: "0 < max_replans (bt_config (ps_budget ps)) - us_replans (bt_usage (ps_budget ps))"
        "max_replans (bt_config (ps_budget ps1)) - us_replans (bt_usage (ps_budget ps1)) =
         max_replans (bt_config (ps_budget ps)) - us_replans (bt_usage (ps_budget ps)) - 1"
      using tried(1-3) by auto
    have none: "active_plans runId plans = []" using tried(4) retire_plan_none Cons.prems(2) by simp
    have new: "active_plans runId [new] = [new]"
      by (simp add: active_plans_def tried(5) plan_row_of_def replan_params_of_def)
    then have one: "length (active_plans runId (ps_plans ps1)) \<le> 1" using tried(6) none by auto
    note ih = Cons.IH [OF rest(1) one]
    have last: "getActivePlanByRunId runId (ps_plans ps1) = rt_new_plan y \<and> rt_new_plan y \<noteq> None"
      if "r = Inr y" "rt_replanned y" for y
    proof -
      have "replanned r" using that by (simp add: replanned_def)
      with tried(7) that(1) have "ps_plans ps1 = plans @ [new]" "rt_new_plan y = Some new" by auto
      moreover have "active_plans runId (plans @ [new]) = [new]" by (simp add: none new)
      ultimately show ?thesis by (simp add: active_plan_unique)
    qed
    show ?thesis
    proof (cases "rs1 = []")
      case True
      then have "xs = [] \<and> ps' = ps1" using rest(1) by (cases xs) (auto split: prod.splits)
      then show ?thesis using True rest(2) one last left(1) by simp
    next
      case False
      then have "last rs = last rs1" by (simp add: rest(2))
      moreover have "int (length (filter replanned rs)) \<le> int (length (filter replanned rs1)) + 1"
        by (simp add: rest(2))
      ultimately show ?thesis using ih False left by simp
    qed
  qed
qed

definition sample_plan_state :: plan_state where
  "sample_plan_state =
     \<lparr>ps_machine = new_agent_machine ''r1'',
      ps_budget = new_tracker (DEFAULT_AGENT_BUDGET\<lparr>max_replans := 1\<rparr>) 0, ps_runs = [], ps_plans = [],
      ps_memory = \<lparr>ms_rows = [], ms_docs = []\<rparr>, ps_steps = []\<rparr>"

definition sample_replan :: "string \<Rightarrow> replan_env \<times> replan_params" where
  "sample_replan planId =
     (\<lparr>rp_clock_ms = 1, rp_now = ''t1'', rp_plan_id = planId, rp_memory = sample_memory_env\<lparr>me_id := planId\<rparr>\<rparr>,
      \<lparr>rn_opportunity = sample_opportunity ''b'' ''timeout'' Soft 9000, rn_gatewayHealth = None,
       rn_capacityAvailable = None, rn_reason = ''gateway''\<rparr>)"

theorem replans_bounded_witness:
  "length (filter replanned (fst (replans ''r1'' [sample_replan ''p1'', sample_replan ''p2'', sample_replan ''p3''] sample_plan_state))) \<le> 1"
proof -
  obtain rs ps' where r: "replans ''r1'' [sample_replan ''p1'', sample_replan ''p2'', sample_replan ''p3''] sample_plan_state = (rs, ps')"
    by (cases "replans ''r1'' [sample_replan ''p1'', sample_replan ''p2'', sample_replan ''p3''] sample_plan_state")
  have "active_plans ''r1'' (ps_plans sample_plan_state) = []" by (simp add: sample_plan_state_def active_plans_def)
  then show ?thesis using replans_bounded [OF r]
    by (simp add: r) (simp add: sample_plan_state_def new_tracker_def DEFAULT_AGENT_BUDGET_def)
qed

text \<open>
  The monitor and the replanning engine agree on a plan the planner made, as long as the plan
  is fresh, its opportunity is not settled and no attempt was added.
\<close>

theorem monitor_agrees:
  assumes "getActivePlanByRunId runId plans = Some p" and "pl_assumptions p = assumptions_of q"
    and "\<And>t. time_of (pl_created_at p) = Some t \<Longrightarrow> now - t \<le> MAX_PLAN_AGE_MS"
    and "\<not> terminal_status st"
  shows "pm_still_valid (check_plan time_of now
       \<lparr>mp_plan = p, mp_gatewayHealth = h, mp_capacityAvailable = c, mp_status = st\<rparr>) =
     vc_is_valid (validateActivePlan runId
       \<lparr>po_gatewayHealth = Some h, po_attemptCount = Some (of_int (o_attempt_count (gp_opportunity q))),
        po_capacityAvailable = Some c\<rparr> plans)"
proof (cases "time_of (pl_created_at p)")
  case None
  then show ?thesis
    using assms(1,2,4)
    by (simp add: check_plan_def validateActivePlan_def assumptions_of_def now_holds_def getCurrentValue_def
        evaluateCondition_def failed_of_def broken_reason_def List.map_filter_def Let_def not_less not_le)
next
  case (Some t)
  then have "\<not> MAX_PLAN_AGE_MS < now - t" using assms(3) by fastforce
  with Some show ?thesis
    using assms(1,2,4)
    by (simp add: check_plan_def validateActivePlan_def assumptions_of_def now_holds_def getCurrentValue_def
        evaluateCondition_def failed_of_def broken_reason_def List.map_filter_def Let_def not_less not_le)
qed

text \<open>
  Attempts are compared with the number the plan was made with: when they reach the cap
  afterwards, the engine finds the plan broken and the monitor recommends to continue.
\<close>

theorem monitor_blind_to_attempts:
  assumes "getActivePlanByRunId runId plans = Some p" and "pl_assumptions p = assumptions_of q"
    and "o_attempt_count (gp_opportunity q) < 3" and "time_of (pl_created_at p) = Some now"
    and "lit 75 2 \<le> h" and "0 < c"
  shows "pm_recommendation (check_plan time_of now
       \<lparr>mp_plan = p, mp_gatewayHealth = h, mp_capacityAvailable = c, mp_status = None\<rparr>) = R_CONTINUE \<and>
     \<not> vc_is_valid (validateActivePlan runId
       \<lparr>po_gatewayHealth = Some h, po_attemptCount = Some 3, po_capacityAvailable = Some c\<rparr> plans)"
proof -
  have "(of_int (o_attempt_count (gp_opportunity q)) :: rat) < 3" using assms(3) by simp
  then show ?thesis
    using assms(1,2,4-6)
    by (auto simp: check_plan_def validateActivePlan_def assumptions_of_def now_holds_def getCurrentValue_def
        evaluateCondition_def failed_of_def broken_reason_def List.map_filter_def Let_def terminal_status_def
        MAX_PLAN_AGE_MS_def)
qed

section \<open>Stale missions\<close>

definition aborted_run :: "string \<Rightarrow> agent_run \<Rightarrow> agent_run" where
  "aborted_run nowIso r = r\<lparr>ar_status := ''aborted'', ar_end_time := nowIso, ar_termination_reason := stale_reason\<rparr>"

lemma abort_stale_map:
  "abort_stale nowIso ds runs = map (\<lambda>r. if \<exists>d \<in> set ds. sd_action d = Aborted_stale \<and> sd_run_id d = ar_id r
     then aborted_run nowIso r else r) runs"
proof (induction ds arbitrary: runs)
  case Nil
  then show ?case by (simp add: abort_stale_def)
next
  case (Cons d ds)
  let ?runs = "if sd_action d = Aborted_stale then row_update ar_id (sd_run_id d) (aborted_run nowIso) runs else runs"
  have "abort_stale nowIso (d # ds) runs = abort_stale nowIso ds ?runs"
    by (simp add: abort_stale_def aborted_run_def [abs_def])
  also have "\<dots> = map (\<lambda>r. if \<exists>d \<in> set ds. sd_action d = Aborted_stale \<and> sd_run_id d = ar_id r
     then aborted_run nowIso r else r) ?runs" by (rule Cons.IH)
  also have "\<dots> = map (\<lambda>r. if \<exists>d \<in> set (d # ds). sd_action d = Aborted_stale \<and> sd_run_id d = ar_id r
     then aborted_run nowIso r else r) runs"
    by (auto simp: row_update_def aborted_run_def)
  finally show ?case .
qed

text \<open>A run is stale: no memory that mentions waking, and its last step too long ago.\<close>

definition stale :: "(string \<Rightarrow> int option) \<Rightarrow> int \<Rightarrow> int \<Rightarrow> agent_memory list \<Rightarrow> step_row list \<Rightarrow> agent_run \<Rightarrow> bool" where
  "stale time_of now threshold memories steps r \<longleftrightarrow> ar_status r = ''running'' \<and>
     wake_memory (ar_id r) memories = None \<and>
     (\<exists>t. last_activity time_of steps r = Some t \<and> threshold < now - t)"

lemma judge_run_stale:
  "sd_action (judge_run time_of now threshold memories steps r) = Aborted_stale \<longleftrightarrow>
     wake_memory (ar_id r) memories = None \<and> (\<exists>t. last_activity time_of steps r = Some t \<and> threshold < now - t)"
  "sd_run_id (judge_run time_of now threshold memories steps r) = ar_id r"
  by (auto simp: judge_run_def Let_def split: option.splits)

text \<open>
  C31. The sweep aborts exactly the stale runs and changes no other; a second sweep finds nothing.
\<close>

theorem stale_sweep_exact:
  assumes "distinct (map ar_id runs)"
    and "sweepStaleMissions time_of now nowIso (Some threshold) memories steps runs = (x, runs')"
  shows "runs' = map (\<lambda>r. if stale time_of now threshold memories steps r then aborted_run nowIso r else r) runs \<and>
     ly_aborted x = length (filter (stale time_of now threshold memories steps) runs) \<and>
     ly_inspected x = ly_retained x + ly_aborted x \<and>
     snd (sweepStaleMissions time_of now nowIso2 (Some threshold) memories steps runs') = runs'"
proof -
  let ?stale = "stale time_of now threshold memories steps"
  let ?judge = "judge_run time_of now threshold memories steps"
  have hit: "(\<exists>d \<in> set (map ?judge (filter (\<lambda>r. ar_status r = ''running'') rs)). sd_action d = Aborted_stale \<and> sd_run_id d = ar_id r)
      = ?stale r" if "distinct (map ar_id rs)" "r \<in> set rs" for rs r
    using that by (auto simp: judge_run_stale stale_def dest: inj_onD [OF distinct_map [THEN iffD1, THEN conjunct2]])
  have swept: "snd (sweepStaleMissions time_of now iso (Some threshold) memories steps rs) =
      map (\<lambda>r. if ?stale r then aborted_run iso r else r) rs" if "distinct (map ar_id rs)" for iso rs
    using hit [OF that] by (simp add: sweepStaleMissions_def Let_def abort_stale_map cong: map_cong)
  have runs': "runs' = map (\<lambda>r. if ?stale r then aborted_run nowIso r else r) runs"
    using swept [OF assms(1), of nowIso] assms(2) by simp
  have ids: "map ar_id runs' = map ar_id runs" by (simp add: runs' aborted_run_def)
  have "\<not> ?stale r" if "r \<in> set runs'" for r
    using that by (auto simp: runs' stale_def aborted_run_def)
  then have again: "snd (sweepStaleMissions time_of now nowIso2 (Some threshold) memories steps runs') = runs'"
    using swept [of runs' nowIso2] ids assms(1) by (simp cong: map_cong)
  have "(\<lambda>r. ar_status r = ''running'' \<and> sd_action (?judge r) = Aborted_stale) = ?stale"
    by (rule ext) (auto simp: judge_run_stale stale_def)
  then have gone: "ly_aborted x = length (filter ?stale runs)"
      "ly_retained x = ly_inspected x - ly_aborted x" "ly_inspected x = length (filter (\<lambda>r. ar_status r = ''running'') runs)"
    using assms(2) by (auto simp: sweepStaleMissions_def Let_def filter_map o_def conj_commute)
  have "length (filter ?stale runs) \<le> length (filter (\<lambda>r. ar_status r = ''running'') runs)"
    by (induction runs) (auto simp: stale_def)
  with gone runs' again show ?thesis by simp
qed

text \<open>
  A mission that waits is not protected from the sweep.  Unless the reason it gives happens to
  contain the word the sweep looks for, its run is stale as soon as the threshold has passed,
  while its timer runs.
\<close>

theorem waiting_mission_aborted:
  assumes "enterWait me runId c reason ps = (Inr (Waiting w), ps')"
    and "\<not> sql_like ''%wake%'' (wait_summary reason c)" and "wake_memory runId (ms_rows (ps_memory ps)) = None"
    and "\<forall>x \<in> set (ps_steps ps). st_run_id x = runId \<longrightarrow> st_step_number x < 99"
    and "time_of (me_now me) = Some t" and "threshold < now - t"
    and "r \<in> set (ps_runs ps')" and "ar_id r = runId" and "ar_status r = ''running''"
  shows "stale time_of now threshold (ms_rows (ps_memory ps')) (ps_steps ps') r"
proof -
  obtain m x where m: "ms_rows (ps_memory ps') = ms_rows (ps_memory ps) @ [m]" "am_context_summary m = wait_summary reason c"
    and x: "ps_steps ps' = ps_steps ps @ [x]" "st_run_id x = runId" "st_step_number x = 99" "st_timestamp x = me_now me"
    using assms(1)
    by (auto simp: enterWait_def remember_step_def addWorkingMemory_def store_memory_def insertAgentMemory_def
        sql_insert_def logStep_def insertAgentStep_def insert_of_run_def plain_log_def Let_def
        split: if_splits sum.splits prod.splits)
  have "wake_memory runId (ms_rows (ps_memory ps')) = None"
    using assms(2,3) m by (auto simp: wake_memory_def find_None_iff)
  moreover have "sort_desc st_step_number (filter (\<lambda>y. st_run_id y = runId) (ps_steps ps) @ [x]) =
      x # sort_desc st_step_number (filter (\<lambda>y. st_run_id y = runId) (ps_steps ps))"
    using assms(4) x(3) by (intro sort_desc_newest) auto
  then have "last_activity time_of (ps_steps ps') r = Some t"
    using assms(5,8) x by (simp add: last_activity_def first_of_def)
  ultimately show ?thesis using assms(6,8,9) by (simp add: stale_def)
qed

definition sample_waiting :: plan_state where
  "sample_waiting = sample_plan_state\<lparr>ps_machine := run_transitions (new_agent_machine ''r1'')
     (map (\<lambda>s. (s, [])) [A_TRIGGERED, A_OBSERVE, A_DIAGNOSE, A_HYPOTHESIZE, A_PLAN, A_VALIDATE_PLAN, A_PROPOSE,
        A_WAIT_AUTHORITY])\<rparr>"

theorem waiting_mission_aborted_witness:
  "\<exists>ps' r. enterWait sample_memory_env ''r1''
     \<lparr>wc_wake_at = Some ''t9'', wc_type = W_TIMER, wc_parameter = None, wc_expected = None\<rparr> ''bank closed''
     sample_waiting = (Inr (Waiting (Some ''t9'')), ps') \<and> r \<in> set (ps_runs ps') \<and>
   stale (\<lambda>_. Some 0) 300001 300000 (ms_rows (ps_memory ps')) (ps_steps ps') r"
proof -
  let ?c = "\<lparr>wc_wake_at = Some ''t9'', wc_type = W_TIMER, wc_parameter = None, wc_expected = None\<rparr>"
  have "canTransitionTo (ps_machine sample_waiting) A_WAIT" by code_simp
  moreover have init: "ms_rows (ps_memory sample_waiting) = []" "ps_steps sample_waiting = []" "ps_runs sample_waiting = []"
    by (simp_all add: sample_waiting_def sample_plan_state_def)
  ultimately obtain ps' where w: "enterWait sample_memory_env ''r1'' ?c ''bank closed'' sample_waiting = (Inr (Waiting (Some ''t9'')), ps')"
    and runs: "ps_runs ps' = [run_for_outcome (me_now sample_memory_env) ''r1'' []]"
    by (simp add: enterWait_def remember_step_def addWorkingMemory_def store_memory_def insertAgentMemory_def
        sql_insert_def logStep_def insertAgentStep_def insert_of_run_def plain_log_def with_run_def
        run_for_outcome_def Let_def)
  have "\<not> sql_like ''%wake%'' (wait_summary ''bank closed'' ?c)" by code_simp
  then have "stale (\<lambda>_. Some 0) 300001 300000 (ms_rows (ps_memory ps')) (ps_steps ps')
      (run_for_outcome (me_now sample_memory_env) ''r1'' [])"
    by (intro waiting_mission_aborted [OF w, where t = 0]) (simp_all add: init runs wake_memory_def run_for_outcome_def)
  then show ?thesis using w runs by (intro exI [of _ ps']) auto
qed

theorem stale_sweep_exact_witness:
  "snd (sweepStaleMissions (\<lambda>_. Some 0) 10 ''t'' (Some 5) [] []
     [run_for_outcome ''t0'' ''r1'' ''o1'', (run_for_outcome ''t0'' ''r2'' ''o2'')\<lparr>ar_status := ''completed''\<rparr>]) =
   [aborted_run ''t'' (run_for_outcome ''t0'' ''r1'' ''o1''), (run_for_outcome ''t0'' ''r2'' ''o2'')\<lparr>ar_status := ''completed''\<rparr>]"
proof -
  let ?runs = "[run_for_outcome ''t0'' ''r1'' ''o1'', (run_for_outcome ''t0'' ''r2'' ''o2'')\<lparr>ar_status := ''completed''\<rparr>]"
  obtain x runs' where s: "sweepStaleMissions (\<lambda>_. Some 0) 10 ''t'' (Some 5) [] [] ?runs = (x, runs')"
    by (cases "sweepStaleMissions (\<lambda>_. Some 0) 10 ''t'' (Some 5) [] [] ?runs")
  have "distinct (map ar_id ?runs)" by (simp add: run_for_outcome_def)
  from stale_sweep_exact [OF this s] s show ?thesis
    by (simp add: stale_def wake_memory_def last_activity_def first_of_def sort_desc_def run_for_outcome_def)
qed

end
