(* ===== verification/Orchestrator.thy ===== *)
theory Orchestrator
  imports Agent_Loop Planner Portfolio
begin

text \<open>
  The orchestrator (\<^verbatim>\<open>src/agents/orchestrator.ts\<close>): the linear mission that the mission
  coordinator runs for each opportunity of a batch, the portfolio sweep and the entry of the
  agent loop.  The linear mission composes the same operations as the loop: perception, one
  answer of the model, a plan, score, market, gate, execution and learning.  Unlike in the loop,
  what perception, the model's log or the draft of the message raise ends the mission.
\<close>

section \<open>State\<close>

text \<open>Plans are beside the world of the agent loop.\<close>

type_synonym desk = "mission \<times> world \<times> agent_plan list"

record orch_env =
  on_loop :: loop_env
  on_llm :: llm_env
  on_plan_id :: string

datatype recovery_status = RS_completed | RS_aborted | RS_human_review

record recovery_result =
  rq_run_id :: string
  rq_opportunity_id :: string
  rq_status :: recovery_status
  rq_final_decision :: decision_type
  rq_verdict :: authority_verdict
  rq_link_id :: "string option"
  rq_link_url :: "string option"
  rq_steps :: int
  rq_replans :: int
  rq_tokens :: int
  rq_latency_ms :: nat
  rq_rationale :: string

datatype recovery_error =
    RE_mission mission_error
  | RE_model string

type_synonym recovery_outcome = "(recovery_error + recovery_result) \<times> desk"

section \<open>From the opportunity to a plan\<close>

text \<open>\<^verbatim>\<open>updateAgentRun\<close> with the fields an aborted run gets; the others are kept.\<close>

definition abort_run :: "loop_env \<Rightarrow> string \<Rightarrow> world \<Rightarrow> world" where
  "abort_run env runId w =
     (let s = wd_store w
      in put_store (s\<lparr>agent_runs := row_update ar_id runId
           (\<lambda>r. r\<lparr>ar_status := ''aborted'', ar_end_time := lo_now env,
                 ar_termination_reason := ''Kill switch active'', ar_latency_ms := lo_latency_ms env\<rparr>)
           (agent_runs s)\<rparr>) w)"

definition killed_result :: "loop_env \<Rightarrow> string \<Rightarrow> string \<Rightarrow> recovery_result" where
  "killed_result env runId oppId =
     \<lparr>rq_run_id = runId, rq_opportunity_id = oppId, rq_status = RS_aborted, rq_final_decision = ABSTAIN,
      rq_verdict = V_BLOCKED, rq_link_id = None, rq_link_url = None, rq_steps = 1, rq_replans = 0, rq_tokens = 0,
      rq_latency_ms = lo_latency_ms env,
      rq_rationale = ''Global kill switch is actively engaged. Agent mission halted immediately.''\<rparr>"

definition analyze :: "loop_env \<Rightarrow> string \<Rightarrow> opportunity \<Rightarrow> world \<Rightarrow> (db_error + annotation) \<times> world" where
  "analyze env runId opp w =
     (case analyzeOpportunity (lo_registry env) (me_time (lo_memory env)) (fst (lo_perception env))
         (snd (lo_perception env)) (lo_annotation env) runId opp (tool_db w) of
        (r, db) \<Rightarrow> (r, put_db db w))"

definition recovery_goal :: "opportunity \<Rightarrow> string" where
  "recovery_goal opp = ''Recover payment opportunity '' @ o_id opp @ '' under portfolio capacity bounds''"

text \<open>The answer of the model, with its tokens counted.\<close>

definition consult ::
  "orch_env \<Rightarrow> opportunity \<Rightarrow> customer option \<Rightarrow> score option \<Rightarrow> agent_memory list \<Rightarrow> mission \<times> world \<Rightarrow>
   (recovery_error + agent_intent) \<times> mission \<times> world" where
  "consult oe opp cust sc memories mw =
     (case mw of (m, w) \<Rightarrow>
        let env = on_loop oe
        in case buildContext (me_time (lo_memory env)) (recovery_goal opp) opp cust sc (Some (lit 98 2)) memories
                 (lo_now env) of
             Inl msg \<Rightarrow> (Inl (RE_model msg), m, w)
           | Inr ctx \<Rightarrow>
               (case generateAgentIntent (on_llm oe) (mn_run_id m) (o_id opp) ctx (agent_runs (wd_store w), wd_llm w) of
                  (Inl e, runs, llm) \<Rightarrow>
                    (Inl (RE_mission (ME_database e)), m, put_store ((wd_store w)\<lparr>agent_runs := runs\<rparr>) (w\<lparr>wd_llm := llm\<rparr>))
                | (Inr g, runs, llm) \<Rightarrow>
                    (Inr (gn_intent g),
                     m\<lparr>mn_budget := snd (recordLLMCall (lo_clock env 0) (gn_tokens_used g) (mn_budget m))\<rparr>,
                     put_store ((wd_store w)\<lparr>agent_runs := runs\<rparr>) (w\<lparr>wd_llm := llm\<rparr>))))"

definition mission_plan :: "string \<Rightarrow> opportunity \<Rightarrow> agent_intent \<Rightarrow> plan_params" where
  "mission_plan runId opp intent =
     \<lparr>gp_runId = runId, gp_desired_outcome = Some (''Recover '' @ o_id opp), gp_opportunity = opp,
      gp_intent = Some intent, gp_gatewayHealth = Some (lit 98 2), gp_capacityAvailable = Some 5,
      gp_planVersion = None\<rparr>"

text \<open>The plan is stored; whether it is valid is not looked at.\<close>

definition make_plan ::
  "orch_env \<Rightarrow> opportunity \<Rightarrow> agent_intent \<Rightarrow> string \<Rightarrow> world \<times> agent_plan list \<Rightarrow>
   (db_error + plan_result) \<times> world \<times> agent_plan list" where
  "make_plan oe opp intent runId wp =
     (case createPlan (on_plan_id oe) (lo_now (on_loop oe)) (mission_plan runId opp intent)
         (agent_runs (wd_store (fst wp)), snd wp) of
        (r, runs, plans) \<Rightarrow> (r, put_store ((wd_store (fst wp))\<lparr>agent_runs := runs\<rparr>) (fst wp), plans))"

section \<open>From the plan to the outcome\<close>

definition batch_options :: market_options where
  "batch_options = \<lparr>op_capacity = Some 5, op_opportunities = None, op_tenantId = None, op_environment = None\<rparr>"

definition recovery_allocation :: "opportunity \<Rightarrow> market_result \<Rightarrow> allocation_decision" where
  "recovery_allocation opp run =
     (case List.find (\<lambda>d. mi_opportunity_id d = o_id opp) (mr_items run) of
        Some d \<Rightarrow> \<lparr>ad_opportunity_id = mi_opportunity_id d, ad_decision = mi_decision d,
                   ad_rank_in_batch = mi_rank d, ad_shadow_price_paise = mi_shadow_price d,
                   ad_reason = mi_reason d\<rparr>
      | None \<Rightarrow> \<lparr>ad_opportunity_id = o_id opp, ad_decision = WAIT, ad_rank_in_batch = 999,
                 ad_shadow_price_paise = 0, ad_reason = ''Outside portfolio capacity limit''\<rparr>)"

definition propose_and_rule ::
  "loop_env \<Rightarrow> opportunity \<Rightarrow> signal list \<Rightarrow> mission \<times> world \<Rightarrow> (mission_error + ruling) \<times> mission \<times> world" where
  "propose_and_rule env opp signals mw =
     (case mw of (m, w) \<Rightarrow>
        let m1 = advance env A_PROPOSE ''SUBMIT_ECONOMIC_MODIFIERS'' m
        in case score_mission env opp signals of
             None \<Rightarrow> (Inl ME_scoring, m1, w)
           | Some b \<Rightarrow>
               let m2 = advance env A_WAIT_AUTHORITY ''MARKET_AND_AUTHORITY_EVALUATION'' m1
               in (case allocate env batch_options (recovery_allocation opp) (bg_score b) w of
                     (Inl e, w2) \<Rightarrow> (Inl e, m2, w2)
                   | (Inr al, w2) \<Rightarrow> (case rule_on env opp al (bg_score b) w2 of (r, w3) \<Rightarrow> (r, m2, w3))))"

definition execute_ruling ::
  "loop_env \<Rightarrow> opportunity \<Rightarrow> ruling \<Rightarrow> mission \<times> world \<Rightarrow>
   (mission_error + execution_record option) \<times> mission \<times> world" where
  "execute_ruling env opp ru mw =
     (case mw of (m, w) \<Rightarrow>
        if ae_verdict (ru_evaluation ru) = V_AUTHORIZED \<and> ad_decision (ru_allocation ru) = ACT
        then let m1 = advance env A_EXECUTE ''DISPATCH_TO_EXECUTOR'' m
             in (case executeOpportunity (lo_exec env) (o_id opp) (wd_exec w) of
                   (Inl e, xs) \<Rightarrow> (Inl (ME_execution e), m1, w\<lparr>wd_exec := xs\<rparr>)
                 | (Inr x, xs) \<Rightarrow>
                     (case (if xr_success x then xr_record x else None) of
                        None \<Rightarrow> (Inr None, m1, w\<lparr>wd_exec := xs\<rparr>)
                      | Some r \<Rightarrow>
                          (case draft_for env (mn_run_id m) opp r (w\<lparr>wd_exec := xs\<rparr>) of
                             (Inl e, w2) \<Rightarrow> (Inl (ME_database e), m1, w2)
                           | (Inr _, w2) \<Rightarrow> (Inr (Some r), m1, w2))))
        else (Inr None, m,
              put_store (updateOpportunityStatus (o_id opp)
                (if ae_verdict (ru_evaluation ru) = V_BLOCKED then Blocked else Abstained) (wd_store w)) w))"

text \<open>What is reported follows the verdict, not what the execution did.\<close>

definition recovery_report :: "string \<Rightarrow> opportunity \<Rightarrow> authority_verdict \<Rightarrow> outcome_params" where
  "recovery_report runId opp v =
     \<lparr>oc_runId = runId, oc_opportunityId = o_id opp, oc_actualRecovered = Some (v = V_AUTHORIZED),
      oc_actualRevenuePaise = Some (o_amount_paise opp),
      oc_customerResponse = Some (if v = V_AUTHORIZED then ''Payment link dispatched'' else ''Abstained/Blocked''),
      oc_amountPaidPaise = None, oc_evidenceClass = None\<rparr>"

definition report_and_learn ::
  "loop_env \<Rightarrow> opportunity \<Rightarrow> ruling \<Rightarrow> mission \<times> world \<Rightarrow> (db_error + unit) \<times> mission \<times> world" where
  "report_and_learn env opp ru mw =
     (case mw of (m, w) \<Rightarrow>
        let m1 = advance env A_OBSERVE_OUTCOME ''EVALUATE_SETTLEMENT_TRUTH'' m
        in case evaluateOutcome (lo_learn env) (recovery_report (mn_run_id m) opp (ae_verdict (ru_evaluation ru)))
                  (wd_store w, wd_docs w) of
             (Inl e, s, docs) \<Rightarrow> (Inl e, m1, put_store s (w\<lparr>wd_docs := docs\<rparr>))
           | (Inr _, s, docs) \<Rightarrow>
               (Inr (), advance env A_COMPLETE ''MISSION_SUCCESSFULLY_TERMINATED''
                  (advance env A_MEMORY_UPDATE ''PERSIST_EPISODIC_RECORD''
                    (advance env A_LEARN ''UPDATE_EPISODIC_EXPERIENCE'' m1)),
                put_store s (w\<lparr>wd_docs := docs\<rparr>)))"

section \<open>The mission\<close>

definition completed_result ::
  "loop_env \<Rightarrow> opportunity \<Rightarrow> agent_intent \<Rightarrow> ruling \<Rightarrow> execution_record option \<Rightarrow> mission \<Rightarrow> recovery_result" where
  "completed_result env opp intent ru rec m =
     (let u = bt_usage (mn_budget m)
      in \<lparr>rq_run_id = mn_run_id m, rq_opportunity_id = o_id opp, rq_status = RS_completed,
          rq_final_decision = ad_decision (ru_allocation ru), rq_verdict = ae_verdict (ru_evaluation ru),
          rq_link_id = map_option er_payment_link_id rec, rq_link_url = map_option er_link_url rec,
          rq_steps = us_steps u, rq_replans = us_replans u, rq_tokens = us_total_tokens u,
          rq_latency_ms = lo_latency_ms env, rq_rationale = in_rationale intent\<rparr>)"

text \<open>Score, ruling, execution and learning of a planned mission.\<close>

definition settle_mission ::
  "loop_env \<Rightarrow> opportunity \<Rightarrow> agent_intent \<Rightarrow> mission \<times> world \<Rightarrow>
   (mission_error + recovery_result) \<times> mission \<times> world" where
  "settle_mission env opp intent mw =
     (case propose_and_rule env opp (in_signals intent) mw of
        (Inl e, mw1) \<Rightarrow> (Inl e, mw1)
      | (Inr ru, mw1) \<Rightarrow>
          (case execute_ruling env opp ru mw1 of
             (Inl e, mw2) \<Rightarrow> (Inl e, mw2)
           | (Inr rec, mw2) \<Rightarrow>
               (case report_and_learn env opp ru mw2 of
                  (Inl e, mw3) \<Rightarrow> (Inl (ME_database e), mw3)
                | (Inr _, m, w) \<Rightarrow>
                    (Inr (completed_result env opp intent ru rec m), m,
                     close_run env ''completed'' ''Mission completed normally'' m w))))"

definition observed :: "loop_env \<Rightarrow> mission \<Rightarrow> mission" where
  "observed env m = advance env agent_state.A_INVESTIGATE ''SPECIALIST_PERCEPTION_INVESTIGATION''
     (advance env A_OBSERVE ''FETCH_INITIAL_CONTEXT'' m)"

definition hypothesized :: "loop_env \<Rightarrow> mission \<Rightarrow> mission" where
  "hypothesized env m = advance env A_PLAN ''PLAN_GENERATION'' (advance env A_HYPOTHESIZE ''HYPOTHESIS_FORMULATED'' m)"

text \<open>From perception on.\<close>

definition pursue :: "orch_env \<Rightarrow> opportunity \<Rightarrow> desk \<Rightarrow> recovery_outcome" where
  "pursue oe opp d =
     (case d of (m, w, plans) \<Rightarrow>
        let env = on_loop oe; s = wd_store w; cust = getCustomerById s (o_customer_id opp) [];
            sc = getScoreByOpportunityId s (o_id opp);
            memories = queryEpisodicMemories (lo_memory env) (Some (o_reason_code opp)) (Some (o_created_at opp)) None
              \<lparr>ms_rows = agent_memories s, ms_docs = wd_docs w\<rparr>;
            m1 = observed env m
        in case analyze env (mn_run_id m) opp w of
             (Inl e, w1) \<Rightarrow> (Inl (RE_mission (ME_database e)), m1, w1, plans)
           | (Inr _, w1) \<Rightarrow>
               (case consult oe opp cust sc memories (advance env A_DIAGNOSE ''SEMANTIC_SIGNAL_SYNTHESIS'' m1, w1) of
                  (Inl e, m2, w2) \<Rightarrow> (Inl e, m2, w2, plans)
                | (Inr intent, m2, w2) \<Rightarrow>
                    (let m3 = hypothesized env m2
                     in case make_plan oe opp intent (mn_run_id m) (w2, plans) of
                          (Inl e, w3, plans3) \<Rightarrow> (Inl (RE_mission (ME_database e)), m3, w3, plans3)
                        | (Inr _, w3, plans3) \<Rightarrow>
                            (case settle_mission env opp intent (advance env A_VALIDATE_PLAN ''ASSUMPTIONS_CHECKED'' m3, w3) of
                               (Inl e, m4, w4) \<Rightarrow> (Inl (RE_mission e), m4, w4, plans3)
                             | (Inr r, m4, w4) \<Rightarrow> (Inr r, m4, w4, plans3)))))"

definition executeRecoveryMission ::
  "orch_env \<Rightarrow> int \<Rightarrow> string \<Rightarrow> string \<Rightarrow> world \<times> agent_plan list \<Rightarrow> recovery_outcome" where
  "executeRecoveryMission oe start runId oppId wp =
     (case wp of (w, plans) \<Rightarrow>
        let env = on_loop oe; m = new_mission runId DEFAULT_AGENT_BUDGET start
        in case getOpportunityById (wd_store w) oppId of
             None \<Rightarrow> (Inl (RE_mission (ME_not_found oppId)), m, w, plans)
           | Some opp \<Rightarrow>
               (case sql_insert ar_id (run_row env runId opp) (agent_runs (wd_store w)) of
                  Inl e \<Rightarrow> (Inl (RE_mission (ME_database e)), m, w, plans)
                | Inr runs \<Rightarrow>
                    (let w0 = put_store ((wd_store w)\<lparr>agent_runs := runs\<rparr>) w; m1 = triggered env m
                     in if lo_kill env 0
                        then (Inr (killed_result env runId (o_id opp)), go A_ABORTED ''KILL_SWITCH_ACTIVE'' m1,
                              abort_run env runId w0, plans)
                        else pursue oe opp (m1, w0, plans))))"

section \<open>The other entries\<close>

datatype portfolio_reply = Sweep_killed int | Swept Portfolio.proposal market_result

text \<open>The proposal and the market run are independent: the market does not see the proposal.\<close>

definition executePortfolioSweep ::
  "bool \<Rightarrow> portfolio_env \<Rightarrow> int option \<Rightarrow> rat option \<Rightarrow> store \<times> pacer \<Rightarrow> portfolio_reply option \<times> store \<times> pacer" where
  "executePortfolioSweep kill pe capacity health sp =
     (case sp of (s, p) \<Rightarrow>
        let c = (case capacity of None \<Rightarrow> 5 | Some c \<Rightarrow> c); h = (case health of None \<Rightarrow> lit 95 2 | Some h \<Rightarrow> h)
        in if kill then (Some (Sweep_killed c), s, p)
           else (case sweep pe \<lparr>so_capacity = Some c, so_gatewayHealth = Some h, so_filterStatuses = None,
                     so_maxCandidates = None, so_tenantId = None\<rparr> s of
                   (None, s1) \<Rightarrow> (None, s1, p)
                 | (Some pr, s1) \<Rightarrow>
                     (case runMarketAllocation (pe_market pe) (batch_options\<lparr>op_capacity := Some c\<rparr>) (s1, p) of
                        (None, s2, p2) \<Rightarrow> (None, s2, p2)
                      | (Some run, s2, p2) \<Rightarrow> (Some (Swept pr run), s2, p2))))"

text \<open>The configuration of the budget overrides the default field by field in the caller.\<close>

definition executeAutonomousMission ::
  "loop_env \<Rightarrow> budget_config \<Rightarrow> int \<Rightarrow> string \<Rightarrow> string \<Rightarrow> world \<Rightarrow> mission_outcome" where
  "executeAutonomousMission env cfg start runId oppId w = run_mission env cfg start runId oppId None w"

section \<open>Containment\<close>

lemma analyze_quiet: "analyze env runId opp w = (r, w') \<Longrightarrow> quiet (wd_store w) (wd_store w')"
  by (auto simp: analyze_def split: prod.splits)

lemma consult_quiet:
  "consult oe opp cust sc memories (m, w) = (r, m', w') \<Longrightarrow> quiet (wd_store w) (wd_store w')"
  by (auto simp: consult_def Let_def split: sum.splits prod.splits)

lemma make_plan_quiet: "make_plan oe opp intent runId (w, plans) = (r, w', plans') \<Longrightarrow> quiet (wd_store w) (wd_store w')"
  by (auto simp: make_plan_def split: prod.splits)

lemma propose_quiet:
  assumes "propose_and_rule env opp signals (m, w) = (r, m', w')" and "getOpportunityById (wd_store w) (o_id opp) \<noteq> None"
  shows "execution_records (wd_store w') = execution_records (wd_store w)"
    and "r = Inr ru \<Longrightarrow> quiet (wd_store w) (wd_store w')"
proof -
  have "execution_records (wd_store w') = execution_records (wd_store w) \<and>
      ((\<exists>ru. r = Inr ru) \<longrightarrow> quiet (wd_store w) (wd_store w'))"
  proof (cases "score_mission env opp signals")
    case None
    then show ?thesis using assms by (simp add: propose_and_rule_def Let_def)
  next
    case (Some b)
    obtain a w2 where a: "allocate env batch_options (recovery_allocation opp) (bg_score b) w = (a, w2)" by fastforce
    show ?thesis
    proof (cases a)
      case (Inl e)
      then show ?thesis using assms(1) Some a allocate_quiet(1) [OF a] by (auto simp: propose_and_rule_def Let_def)
    next
      case (Inr al)
      then have "rule_on env opp al (bg_score b) w2 = (r, w')"
        using assms(1) Some a by (auto simp: propose_and_rule_def Let_def split: prod.splits)
      from allocate_and_rule_quiet [OF a [unfolded Inr] this assms(2)] show ?thesis by (simp add: quiet_def)
    qed
  qed
  then show "execution_records (wd_store w') = execution_records (wd_store w)"
    and "r = Inr ru \<Longrightarrow> quiet (wd_store w) (wd_store w')" by auto
qed

lemma execute_ruling_contained:
  assumes "execute_ruling env opp ru (m, w) = (r, m', w')" and "ge_registry (xe_gate (lo_exec env)) = default_registry"
  shows "contained (o_id opp) (wd_store w) (wd_store w')"
proof -
  obtain x xs where x: "executeOpportunity (lo_exec env) (o_id opp) (wd_exec w) = (x, xs)" by fastforce
  have draft: "draft_for env (mn_run_id m) opp rc (w\<lparr>wd_exec := xs\<rparr>) = (d, w2) \<Longrightarrow>
      execution_records (wd_store w2) = execution_records (xs_store xs)" for rc d w2
    using draft_for_records [of env "mn_run_id m" opp rc "w\<lparr>wd_exec := xs\<rparr>"] by simp
  have or: "execution_records (wd_store w') = execution_records (wd_store w) \<or>
      execution_records (wd_store w') = execution_records (xs_store xs)"
    using assms(1) x
    by (cases x) (auto simp: execute_ruling_def Let_def updateOpportunityStatus_def dest: draft
        split: if_splits option.splits prod.splits sum.splits)
  have "linked (wd_store w') \<subseteq> insert (o_id opp) (linked (wd_store w))"
    using execute_linked [OF assms(2) x] or linked_cong by blast
  then show ?thesis using execute_hard [OF _ assms(2) _ x] or by (auto simp: contained_def)
qed

lemma report_records:
  "report_and_learn env opp ru (m, w) = (r, m', w') \<Longrightarrow> execution_records (wd_store w') = execution_records (wd_store w)"
  by (auto simp: report_and_learn_def Let_def dest: evaluateOutcome_records split: sum.splits prod.splits)

lemma settle_mission_contained:
  assumes "settle_mission env opp intent (m, w) = (r, m', w')" and "ge_registry (xe_gate (lo_exec env)) = default_registry"
    and "getOpportunityById (wd_store w) (o_id opp) \<noteq> None"
  shows "contained (o_id opp) (wd_store w) (wd_store w')"
proof -
  obtain d m1 w1 where d: "propose_and_rule env opp (in_signals intent) (m, w) = (d, m1, w1)" using prod_cases3 by blast
  show ?thesis
  proof (cases d)
    case (Inl e)
    then show ?thesis using assms(1) d propose_quiet(1) [OF d assms(3)] by (simp add: settle_mission_def contained_records)
  next
    case (Inr ru)
    obtain a m2 w2 where a: "execute_ruling env opp ru (m1, w1) = (a, m2, w2)" using prod_cases3 by blast
    have "execution_records (wd_store w') = execution_records (wd_store w2)"
    proof (cases a)
      case (Inl e)
      then show ?thesis using assms(1) d \<open>d = Inr ru\<close> a by (simp add: settle_mission_def)
    next
      case (Inr rec)
      obtain l m3 w3 where l: "report_and_learn env opp ru (m2, w2) = (l, m3, w3)" using prod_cases3 by blast
      then show ?thesis
        using assms(1) d \<open>d = Inr ru\<close> a Inr report_records [OF l]
        by (cases l) (simp_all add: settle_mission_def, auto)
    qed
    then have "contained (o_id opp) (wd_store w1) (wd_store w')"
      using execute_ruling_contained [OF a assms(2)] by (simp add: contained_def linked_def)
    then show ?thesis using propose_quiet(2) [OF d assms(3) Inr] contained_quiet by blast
  qed
qed

lemma pursue_contained:
  assumes "pursue oe opp (m, w, plans) = (r, m', w', plans')"
    and "ge_registry (xe_gate (lo_exec (on_loop oe))) = default_registry"
    and "getOpportunityById (wd_store w) (o_id opp) \<noteq> None"
  shows "contained (o_id opp) (wd_store w) (wd_store w')"
proof -
  let ?env = "on_loop oe"
  let ?sc = "getScoreByOpportunityId (wd_store w) (o_id opp)" and ?cust = "getCustomerById (wd_store w) (o_customer_id opp) []"
  let ?mem = "queryEpisodicMemories (lo_memory ?env) (Some (o_reason_code opp)) (Some (o_created_at opp)) None
              \<lparr>ms_rows = agent_memories (wd_store w), ms_docs = wd_docs w\<rparr>"
  let ?m1 = "advance ?env A_DIAGNOSE ''SEMANTIC_SIGNAL_SYNTHESIS'' (observed ?env m)"
  have stop: "contained (o_id opp) (wd_store w) (wd_store u)" if "quiet (wd_store w) (wd_store u)" for u
    using that by (simp add: quiet_def contained_records)
  obtain a w1 where a: "analyze ?env (mn_run_id m) opp w = (a, w1)" by fastforce
  note q1 = analyze_quiet [OF a]
  obtain c m2 w2 where c: "consult oe opp ?cust ?sc ?mem (?m1, w1) = (c, m2, w2)" using prod_cases3 by blast
  note q2 = quiet_trans [OF q1 consult_quiet [OF c]]
  show ?thesis
  proof (cases "\<exists>x intent. a = Inr x \<and> c = Inr intent")
    case False
    then have "w' = w1 \<or> w' = w2" using assms(1) a c by (auto simp: pursue_def Let_def split: sum.splits)
    then show ?thesis using stop q1 q2 by blast
  next
    case True
    then obtain x intent where ok: "a = Inr x" "c = Inr intent" by blast
    obtain p w3 plans3 where p: "make_plan oe opp intent (mn_run_id m) (w2, plans) = (p, w3, plans3)" using prod_cases3 by blast
    note q3 = quiet_trans [OF q2 make_plan_quiet [OF p]]
    show ?thesis
    proof (cases p)
      case (Inl e)
      then have "w' = w3" using assms(1) a c ok p by (auto simp: pursue_def Let_def)
      then show ?thesis using stop q3 by blast
    next
      case (Inr pl)
      obtain s m4 w4 where s: "settle_mission ?env opp intent
          (advance ?env A_VALIDATE_PLAN ''ASSUMPTIONS_CHECKED'' (hypothesized ?env m2), w3) = (s, m4, w4)"
        using prod_cases3 by blast
      have "w' = w4" using assms(1) a c ok p Inr s by (cases s) (auto simp: pursue_def Let_def)
      moreover have "getOpportunityById (wd_store w3) (o_id opp) \<noteq> None" using quiet_exists [OF q3 assms(3)] .
      ultimately show ?thesis
        using settle_mission_contained [OF s assms(2)] contained_quiet [OF q3] by blast
    qed
  qed
qed

text \<open>
  C12. The mission of a batch is contained like that of the agent loop: whatever the model answers
  and whatever raises, the only link it can create is for its own opportunity, none for a hard
  decline or from the third attempt on, and none under the kill switch.
\<close>

theorem recovery_contained:
  assumes "ge_registry (xe_gate (lo_exec (on_loop oe))) = default_registry"
    and "executeRecoveryMission oe start runId oid (w, plans) = (r, m, w', plans')"
  shows "linked (wd_store w') \<subseteq> insert oid (linked (wd_store w)) \<and>
     (\<forall>o'. getOpportunityById (wd_store w) oid = Some o' \<and> (o_decline_type o' = Hard \<or> 3 \<le> o_attempt_count o') \<longrightarrow>
        execution_records (wd_store w') = execution_records (wd_store w)) \<and>
     (lo_kill (on_loop oe) 0 \<longrightarrow> execution_records (wd_store w') = execution_records (wd_store w) \<and>
        (\<forall>x. r = Inr x \<longrightarrow> rq_status x = RS_aborted \<and> rq_final_decision x = ABSTAIN))"
proof -
  let ?env = "on_loop oe"
  have "contained oid (wd_store w) (wd_store w') \<and>
     (lo_kill ?env 0 \<longrightarrow> execution_records (wd_store w') = execution_records (wd_store w) \<and>
        (\<forall>x. r = Inr x \<longrightarrow> rq_status x = RS_aborted \<and> rq_final_decision x = ABSTAIN))"
  proof (cases "getOpportunityById (wd_store w) oid")
    case None
    then show ?thesis using assms(2) by (auto simp: executeRecoveryMission_def contained_records Let_def)
  next
    case (Some opp)
    then have oid: "o_id opp = oid"
      by (auto simp: getOpportunityById_def row_get_def find_Some_iff)
    show ?thesis
    proof (cases "sql_insert ar_id (run_row ?env runId opp) (agent_runs (wd_store w))")
      case (Inl e)
      then show ?thesis using assms(2) Some by (auto simp: executeRecoveryMission_def contained_records Let_def)
    next
      case (Inr runs)
      let ?w0 = "put_store ((wd_store w)\<lparr>agent_runs := runs\<rparr>) w"
      have q0: "quiet (wd_store w) (wd_store ?w0)" by simp
      show ?thesis
      proof (cases "lo_kill ?env 0")
        case True
        then show ?thesis using assms(2) Some Inr
          by (auto simp: executeRecoveryMission_def contained_records killed_result_def abort_run_def Let_def)
      next
        case False
        then have p: "pursue oe opp (triggered ?env (new_mission runId DEFAULT_AGENT_BUDGET start), ?w0, plans) = (r, m, w', plans')"
          using assms(2) Some Inr by (simp add: executeRecoveryMission_def Let_def)
        have "getOpportunityById (wd_store ?w0) (o_id opp) \<noteq> None" using quiet_exists [OF q0] Some oid by simp
        from pursue_contained [OF p assms(1) this] have "contained oid (wd_store ?w0) (wd_store w')" by (simp only: oid)
        with contained_quiet [OF q0] False show ?thesis by blast
      qed
    qed
  qed
  then show ?thesis by (auto simp: contained_def)
qed

definition sample_orch :: orch_env where
  "sample_orch = \<lparr>on_loop = sample_loop, on_llm = sample_llm, on_plan_id = ''plan_1''\<rparr>"

theorem recovery_contained_witness:
  "linked (wd_store (fst (snd (snd (executeRecoveryMission sample_orch 0 ''run'' ''b'' (sample_world, [])))))) \<subseteq> {''b''}"
proof -
  obtain r m w' plans where run: "executeRecoveryMission sample_orch 0 ''run'' ''b'' (sample_world, []) = (r, m, w', plans)"
    using prod_cases4 by blast
  have "ge_registry (xe_gate (lo_exec (on_loop sample_orch))) = default_registry"
    using sample_exec_get(5) by (simp add: sample_loop_def sample_orch_def)
  moreover have "linked (wd_store sample_world) = {}" by code_simp
  ultimately show ?thesis using recovery_contained [OF _ run] by (simp add: run)
qed

section \<open>The states of a mission\<close>

text \<open>Where the machine is, the steps and the model calls counted.\<close>

definition marks :: "mission \<Rightarrow> agent_state \<times> int \<times> int" where
  "marks m = (am_current (mn_machine m), us_steps (bt_usage (mn_budget m)), us_llm_calls (bt_usage (mn_budget m)))"

lemma marks_advance [simp]:
  "marks (advance env st t m) = (case marks m of (cur, n, c) \<Rightarrow>
     (if st \<in> set (VALID_STATE_TRANSITIONS cur) then st else cur, n + 1, c))"
  by (simp add: marks_def advance_def go_def transition_def canTransitionTo_def recordStep_def Let_def)

lemma consult_marks:
  "consult oe opp cust sc memories (m, w) = (Inr intent, m', w') \<Longrightarrow>
     marks m' = (case marks m of (cur, n, c) \<Rightarrow> (cur, n, c + 1))"
  by (auto simp: consult_def marks_def recordLLMCall_def Let_def split: sum.splits prod.splits)

lemma propose_marks:
  assumes "propose_and_rule env opp signals (m, w) = (Inr ru, m', w')"
  shows "m' = advance env A_WAIT_AUTHORITY ''MARKET_AND_AUTHORITY_EVALUATION'' (advance env A_PROPOSE ''SUBMIT_ECONOMIC_MODIFIERS'' m)"
  using assms by (auto simp: propose_and_rule_def Let_def split: option.splits sum.splits prod.splits)

definition dispatched :: "ruling \<Rightarrow> bool" where
  "dispatched ru \<longleftrightarrow> ae_verdict (ru_evaluation ru) = V_AUTHORIZED \<and> ad_decision (ru_allocation ru) = ACT"

lemma execute_marks:
  assumes "execute_ruling env opp ru (m, w) = (Inr rec, m', w')"
  shows "m' = (if dispatched ru then advance env A_EXECUTE ''DISPATCH_TO_EXECUTOR'' m else m)"
  using assms by (auto simp: execute_ruling_def dispatched_def Let_def split: option.splits sum.splits prod.splits if_splits)

lemma report_marks:
  assumes "report_and_learn env opp ru (m, w) = (Inr u, m', w')"
  shows "\<exists>t1 t2 t3 t4. m' = advance env A_COMPLETE t1 (advance env A_MEMORY_UPDATE t2 (advance env A_LEARN t3
    (advance env A_OBSERVE_OUTCOME t4 m)))"
  using assms by (auto simp: report_and_learn_def Let_def split: sum.splits prod.splits)

lemma settle_marks:
  assumes "settle_mission env opp intent (m, w) = (Inr x, m', w')" and "marks m = (A_VALIDATE_PLAN, n, c)"
  shows "\<exists>d. d = (rq_verdict x = V_AUTHORIZED \<and> rq_final_decision x = ACT) \<and> rq_status x = RS_completed \<and>
     marks m' = (if d then (A_COMPLETE, n + 7, c) else (A_WAIT_AUTHORITY, n + 6, c)) \<and>
     rq_steps x = fst (snd (marks m'))"
proof -
  obtain ru m1 w1 where p: "propose_and_rule env opp (in_signals intent) (m, w) = (Inr ru, m1, w1)"
    using assms(1) by (auto simp: settle_mission_def split: sum.splits prod.splits)
  obtain rec m2 w2 where e: "execute_ruling env opp ru (m1, w1) = (Inr rec, m2, w2)"
    using assms(1) p by (auto simp: settle_mission_def split: sum.splits prod.splits)
  obtain u m3 w3 where l: "report_and_learn env opp ru (m2, w2) = (Inr u, m3, w3)"
    using assms(1) p e by (auto simp: settle_mission_def split: sum.splits prod.splits)
  have x: "m' = m3" "x = completed_result env opp intent ru rec m3"
    using assms(1) p e l by (auto simp: settle_mission_def)
  obtain t1 t2 t3 t4 where m3: "m3 = advance env A_COMPLETE t1 (advance env A_MEMORY_UPDATE t2 (advance env A_LEARN t3
    (advance env A_OBSERVE_OUTCOME t4 m2)))" using report_marks [OF l] by blast
  have "marks m3 = (if dispatched ru then (A_COMPLETE, n + 7, c) else (A_WAIT_AUTHORITY, n + 6, c))"
    using assms(2) by (simp add: m3 execute_marks [OF e] propose_marks [OF p])
  moreover have "rq_steps x = fst (snd (marks m3))" by (simp add: x completed_result_def marks_def Let_def)
  ultimately show ?thesis by (simp add: x dispatched_def completed_result_def Let_def)
qed

text \<open>
  A mission that returns without the kill switch reports completion after one call of the model
  and no replanning.  Its machine has completed only when a link was dispatched, after fourteen
  steps; otherwise it is left waiting for the authority, whose way to the outcome is not in the
  table, after thirteen.
\<close>

theorem recovery_states:
  assumes "executeRecoveryMission oe start runId oid (w, plans) = (Inr x, m, w', plans')"
    and "\<not> lo_kill (on_loop oe) 0"
  shows "rq_status x = RS_completed \<and> us_llm_calls (bt_usage (mn_budget m)) = 1 \<and>
     (if rq_verdict x = V_AUTHORIZED \<and> rq_final_decision x = ACT
      then am_current (mn_machine m) = A_COMPLETE \<and> rq_steps x = 14
      else am_current (mn_machine m) = A_WAIT_AUTHORITY \<and> rq_steps x = 13)"
proof -
  let ?env = "on_loop oe"
  let ?m0 = "triggered ?env (new_mission runId DEFAULT_AGENT_BUDGET start)"
  obtain opp w0 where p: "pursue oe opp (?m0, w0, plans) = (Inr x, m, w', plans')"
    using assms by (auto simp: executeRecoveryMission_def Let_def split: option.splits sum.splits)
  let ?m1 = "advance ?env A_DIAGNOSE ''SEMANTIC_SIGNAL_SYNTHESIS'' (observed ?env ?m0)"
  have "\<exists>cust sc memories w1 intent m2 w2 w3. consult oe opp cust sc memories (?m1, w1) = (Inr intent, m2, w2) \<and>
      settle_mission ?env opp intent
        (advance ?env A_VALIDATE_PLAN ''ASSUMPTIONS_CHECKED'' (hypothesized ?env m2), w3) = (Inr x, m, w')"
    using p by (auto simp: pursue_def Let_def split: sum.splits prod.splits) blast
  then obtain cust sc memories w1 intent m2 w2 w3 where c: "consult oe opp cust sc memories (?m1, w1) = (Inr intent, m2, w2)"
    and s: "settle_mission ?env opp intent
        (advance ?env A_VALIDATE_PLAN ''ASSUMPTIONS_CHECKED'' (hypothesized ?env m2), w3) = (Inr x, m, w')"
    by blast
  have "marks (new_mission runId DEFAULT_AGENT_BUDGET start) = (A_IDLE, 0, 0)"
    by (simp add: marks_def new_mission_def new_agent_machine_def new_tracker_def)
  then have "marks m2 = (A_DIAGNOSE, 4, 1)"
    using consult_marks [OF c] by (simp add: triggered_def observed_def)
  then have "marks (advance ?env A_VALIDATE_PLAN ''ASSUMPTIONS_CHECKED'' (hypothesized ?env m2)) = (A_VALIDATE_PLAN, 7, 1)"
    by (simp add: hypothesized_def)
  from settle_marks [OF s this] show ?thesis by (auto simp: marks_def split: if_splits)
qed

text \<open>A dispatch that fails is reported as a recovery all the same.\<close>

theorem failed_dispatch_reported:
  assumes "report_and_learn env opp ru (m, w) = (Inr u, m', w')" and "ae_verdict (ru_evaluation ru) = V_AUTHORIZED"
  shows "\<exists>oc \<in> set (agent_outcomes (wd_store w')). ao_opportunity_id oc = o_id opp \<and> ao_recovered oc \<and>
     ao_revenue oc = o_amount_paise opp"
proof -
  let ?p = "recovery_report (mn_run_id m) opp (ae_verdict (ru_evaluation ru))"
  obtain ev s docs where e: "evaluateOutcome (lo_learn env) ?p (wd_store w, wd_docs w) = (Inr ev, s, docs)" "wd_store w' = s"
    using assms(1) by (auto simp: report_and_learn_def Let_def split: sum.splits prod.splits)
  have "ev_record ev \<in> set (agent_outcomes s)" "ao_recovered (ev_record ev)"
    using learning_follows_evidence [OF e(1)] assms(2) by (simp_all add: recovery_report_def)
  moreover have "ev_record ev = outcome_record (lo_learn env) ?p (getScoreByOpportunityId (wd_store w) (o_id opp))"
    using e(1) by (auto simp: evaluateOutcome_def recovery_report_def Let_def split: sum.splits prod.splits if_splits)
  ultimately show ?thesis using e(2)
    by (intro bexI [of _ "ev_record ev"]) (simp_all add: outcome_record_def recovery_report_def Let_def)
qed

end
